(* ===== verification/Prelude9p.thy ===== *)
theory Prelude9p
  imports Main "HOL-Library.Word" "HOL-Library.Monad_Syntax"
begin

text \<open>
  Shared vocabulary of the development: bytes and flat memories, C strings, the
  little-endian loads and stores of \<^verbatim>\<open>kext/fcall.h\<close> (\<^verbatim>\<open>GBITn\<close>, \<^verbatim>\<open>PBITn\<close>), the statement
  lists in which the marshalling routines are written, and the lemmas the component
  theories share.

  A memory is the list of bytes of one allocation; a pointer into it is an offset. A read
  or a write that leaves the allocation is undefined behaviour in C; here it is the value
  \<^term>\<open>None\<close> (or \<open>Fault\<close> for a statement), so memory safety is a theorem about results.
\<close>

unbundle bit_operations_syntax

section \<open>Bytes and memories\<close>

type_synonym byte = "8 word"
type_synonym u16 = "16 word"
type_synonym u32 = "32 word"
type_synonym u64 = "64 word"
type_synonym memory = "byte list"

named_theorems mem_simps \<open>loads and stores of a memory\<close>
named_theorems step_intros \<open>one statement of a marshalling routine\<close>

definition rdn :: "memory \<Rightarrow> nat \<Rightarrow> nat \<Rightarrow> byte list option" where
  "rdn m p n = (if p + n \<le> length m then Some (take n (drop p m)) else None)"

definition wrn :: "memory \<Rightarrow> nat \<Rightarrow> byte list \<Rightarrow> memory option" where
  "wrn m p bs = (if p + length bs \<le> length m
     then Some (take p m @ bs @ drop (p + length bs) m) else None)"

lemma rdn_Some [mem_simps]: "p + n \<le> length m \<Longrightarrow> rdn m p n = Some (take n (drop p m))"
  by (simp add: rdn_def)

lemma rdn_eq_Some_iff: "rdn m p n = Some bs \<longleftrightarrow> p + n \<le> length m \<and> bs = take n (drop p m)"
  by (auto simp: rdn_def)

lemma rdn_None_iff [simp]: "rdn m p n = None \<longleftrightarrow> length m < p + n"
  by (auto simp: rdn_def)

lemma length_rdn: "rdn m p n = Some bs \<Longrightarrow> length bs = n"
  by (auto simp: rdn_eq_Some_iff)

lemma wrn_eq_Some_iff:
  "wrn m p bs = Some m' \<longleftrightarrow>
     p + length bs \<le> length m \<and> m' = take p m @ bs @ drop (p + length bs) m"
  by (auto simp: wrn_def)

lemma wrn_None_iff [simp]: "wrn m p bs = None \<longleftrightarrow> length m < p + length bs"
  by (auto simp: wrn_def)

lemma wrn_Some [mem_simps]:
  "p + length bs \<le> length m \<Longrightarrow> wrn m p bs = Some (take p m @ bs @ drop (p + length bs) m)"
  by (simp add: wrn_def)

lemma length_wrn: "wrn m p bs = Some m' \<Longrightarrow> length m' = length m"
  by (auto simp: wrn_eq_Some_iff)

lemma take_wrn: "wrn m p bs = Some m' \<Longrightarrow> q \<le> p \<Longrightarrow> take q m' = take q m"
  by (auto simp: wrn_eq_Some_iff min_absorb1 take_append)

lemma take_wrn_end: "wrn m p bs = Some m' \<Longrightarrow> take (p + length bs) m' = take p m @ bs"
  by (auto simp: wrn_eq_Some_iff min_absorb2)

lemma drop_wrn: "wrn m p bs = Some m' \<Longrightarrow> p + length bs \<le> q \<Longrightarrow> drop q m' = drop q m"
  by (auto simp: wrn_eq_Some_iff min_absorb2 add.commute)

lemma nth_wrn: "wrn m p (b # bs) = Some m' \<Longrightarrow> m' ! p = b \<and> p < length m'"
  by (auto simp: wrn_eq_Some_iff nth_append)

lemma rdn_wrn_same: "wrn m p bs = Some m' \<Longrightarrow> rdn m' p (length bs) = Some bs"
  by (auto simp: wrn_eq_Some_iff rdn_def min_absorb2)

lemma rdn_cong_take:
  assumes "take q m' = take q m" "length m' = length m" "p + n \<le> q"
  shows "rdn m' p n = rdn m p n"
proof -
  have "take n (drop p m') = take n (drop p (take q m'))"
    using assms(3) by (simp add: drop_take min_absorb1)
  also have "\<dots> = take n (drop p m)"
    unfolding assms(1) using assms(3) by (simp add: drop_take min_absorb1)
  finally show ?thesis using assms(2) by (simp add: rdn_def)
qed

lemma take_wrn_eq:
  assumes "wrn m p bs = Some m'" "p + length bs \<le> e"
  shows "take e m' = take p (take e m) @ bs @ drop (p + length bs) (take e m)"
  using assms by (auto simp: wrn_eq_Some_iff drop_take min_absorb1 min_absorb2 take_append)

lemma wrn_cong_take:
  assumes "take e m = take e n" "wrn m p bs = Some m'" "wrn n p bs = Some n'" "p + length bs \<le> e"
  shows "take e m' = take e n'"
  using assms by (simp add: take_wrn_eq)

lemma take_split: "k \<le> n \<Longrightarrow> take n xs = take k xs @ take (n - k) (drop k xs)"
  by (metis le_add_diff_inverse take_add)

section \<open>C strings\<close>

text \<open>The string a \<^verbatim>\<open>char*\<close> denotes: the bytes before the first NUL.\<close>

definition cstr :: "byte list \<Rightarrow> byte list" where
  "cstr bs = takeWhile (\<lambda>b. b \<noteq> 0) bs"

definition cstr_at :: "memory \<Rightarrow> nat \<Rightarrow> byte list" where
  "cstr_at m p = cstr (drop p m)"

definition bytes_of :: "string \<Rightarrow> byte list" where
  "bytes_of s = map of_char s"

definition is_cstr :: "byte list \<Rightarrow> bool" where
  "is_cstr s \<longleftrightarrow> 0 \<notin> set s"

lemma cstr_append_nul: "is_cstr s \<Longrightarrow> cstr (s @ 0 # r) = s"
  unfolding cstr_def is_cstr_def by (subst takeWhile_append2) auto

lemma is_cstr_cstr [simp]: "is_cstr (cstr bs)"
  by (auto simp: is_cstr_def cstr_def dest: set_takeWhileD)

lemma cstr_id [simp]: "is_cstr s \<Longrightarrow> cstr s = s"
  unfolding cstr_def is_cstr_def by (auto simp: takeWhile_eq_all_conv)

lemma length_cstr_le: "length (cstr bs) \<le> length bs"
  by (simp add: cstr_def length_takeWhile_le)

section \<open>Little-endian loads and stores\<close>

definition GBIT8 :: "byte list \<Rightarrow> byte" where
  "GBIT8 p = p ! 0"

definition GBIT16 :: "byte list \<Rightarrow> u16" where
  "GBIT16 p = ucast (p ! 0) OR push_bit 8 (ucast (p ! 1))"

definition GBIT32 :: "byte list \<Rightarrow> u32" where
  "GBIT32 p = ucast (p ! 0) OR push_bit 8 (ucast (p ! 1)) OR push_bit 16 (ucast (p ! 2))
     OR push_bit 24 (ucast (p ! 3))"

definition GBIT64 :: "byte list \<Rightarrow> u64" where
  "GBIT64 p = ucast (GBIT32 p) OR push_bit 32 (ucast (GBIT32 (drop 4 p)))"

lemma unat_of_nat_small: "n < 2 ^ LENGTH('a) \<Longrightarrow> unat (of_nat n :: 'a::len word) = n"
  by (simp add: unsigned_of_nat take_bit_nat_eq_self)

lemma unat_u32_less: "unat (x :: u32) < 2 ^ 32"
  using unsigned_less [of x] by simp

lemma unat_u16_less: "unat (x :: u16) < 65536"
  using unsigned_less [of x] by simp

lemma ucast_of_nat_u16: "ucast (of_nat n :: u32) = (of_nat n :: u16)"
  by (rule bit_word_eqI) (simp add: bit_simps)

lemma ucast_of_nat_diff_u16:
  assumes "k \<le> n"
  shows "ucast (of_nat n - of_nat k :: u32) = (of_nat (n - k) :: u16)"
proof -
  have "of_nat n - of_nat k = (of_nat (n - k) :: u32)"
    using assms by (simp only: of_nat_diff)
  then show ?thesis by (simp only: ucast_of_nat_u16)
qed

definition PBIT8 :: "byte \<Rightarrow> byte list" where
  "PBIT8 v = [v]"

definition PBIT16 :: "u16 \<Rightarrow> byte list" where
  "PBIT16 v = [ucast v, ucast (drop_bit 8 v)]"

definition PBIT32 :: "u32 \<Rightarrow> byte list" where
  "PBIT32 v = [ucast v, ucast (drop_bit 8 v), ucast (drop_bit 16 v), ucast (drop_bit 24 v)]"

definition PBIT64 :: "u64 \<Rightarrow> byte list" where
  "PBIT64 v = [ucast v, ucast (drop_bit 8 v), ucast (drop_bit 16 v), ucast (drop_bit 24 v),
     ucast (drop_bit 32 v), ucast (drop_bit 40 v), ucast (drop_bit 48 v), ucast (drop_bit 56 v)]"

lemma length_4: "length bs = 4 \<longleftrightarrow> (\<exists>a b c d. bs = [a, b, c, d])"
  by (auto simp: length_Suc_conv eval_nat_numeral)

lemma bit_byte_less: "bit (a::byte) n \<Longrightarrow> n < 8"
  using bit_imp_le_length by force

lemma not_bit_byte: "8 \<le> n \<Longrightarrow> \<not> bit (a::byte) n"
  by (auto dest: bit_byte_less)

lemma length_PBIT [simp]:
  "length (PBIT8 a) = 1" "length (PBIT16 b) = 2" "length (PBIT32 c) = 4" "length (PBIT64 d) = 8"
  by (simp_all add: PBIT8_def PBIT16_def PBIT32_def PBIT64_def)

lemma GBIT16_PBIT16: "GBIT16 (PBIT16 v @ r) = v"
  by (rule bit_word_eqI) (auto simp: GBIT16_def PBIT16_def bit_simps)

lemma GBIT32_PBIT32: "GBIT32 (PBIT32 v @ r) = v"
proof (rule bit_word_eqI)
  fix n assume "n < LENGTH(32)"
  then consider "n < 8" | "8 \<le> n" "n < 16" | "16 \<le> n" "n < 24" | "24 \<le> n" "n < 32"
    by (simp; linarith)
  then show "bit (GBIT32 (PBIT32 v @ r)) n \<longleftrightarrow> bit v n"
    by cases (auto simp: GBIT32_def PBIT32_def bit_simps)
qed

lemma PBIT64_split: "PBIT64 v = PBIT32 (ucast v) @ PBIT32 (ucast (drop_bit 32 v))"
  by (auto simp: PBIT64_def PBIT32_def bit_simps intro!: bit_word_eqI)

lemma GBIT64_PBIT64: "GBIT64 (PBIT64 v @ r) = v"
proof -
  have d: "drop 4 (PBIT64 v @ r) = PBIT32 (ucast (drop_bit 32 v)) @ r"
    by (simp add: PBIT64_split)
  show ?thesis
    unfolding GBIT64_def d GBIT32_PBIT32
    unfolding PBIT64_split append.assoc GBIT32_PBIT32
    by (rule bit_word_eqI) (auto simp: bit_simps)
qed

lemma PBIT16_GBIT16: "length bs = 2 \<Longrightarrow> PBIT16 (GBIT16 bs) = bs"
  by (auto simp: length_Suc_conv numeral_2_eq_2 GBIT16_def PBIT16_def bit_simps
      dest: bit_byte_less intro!: bit_word_eqI)

lemma PBIT32_GBIT32: "length bs = 4 \<Longrightarrow> PBIT32 (GBIT32 bs) = bs"
  by (auto simp: length_4 GBIT32_def PBIT32_def bit_simps not_bit_byte
      intro!: bit_word_eqI)

lemma GBIT32_append: "length bs = 4 \<Longrightarrow> GBIT32 (bs @ r) = GBIT32 bs"
  by (auto simp: length_4 GBIT32_def)

lemma GBIT32_take: "4 \<le> length bs \<Longrightarrow> GBIT32 (take 4 bs) = GBIT32 bs"
  using GBIT32_append [of "take 4 bs" "drop 4 bs"] by simp

lemma PBIT64_GBIT64:
  assumes "length bs = 8"
  shows "PBIT64 (GBIT64 bs) = bs"
proof -
  have l: "length (take 4 bs) = 4" "length (drop 4 bs) = 4"
    using assms by simp_all
  have t: "GBIT32 bs = GBIT32 (take 4 bs)"
    using GBIT32_append [OF l(1), of "drop 4 bs"] by simp
  have "ucast (GBIT64 bs) = GBIT32 bs" "ucast (drop_bit 32 (GBIT64 bs)) = GBIT32 (drop 4 bs)"
    by (rule bit_word_eqI; auto simp: GBIT64_def bit_simps dest: bit_imp_le_length)+
  then show ?thesis
    by (simp add: PBIT64_split t PBIT32_GBIT32 [OF l(1)] PBIT32_GBIT32 [OF l(2)])
qed

text \<open>
  The contract the marshalling code relies on: a value of type \<open>'v\<close> has an encoding of
  \<open>w\<close> bytes, and load and store are inverse to each other.
\<close>

locale le_codec =
  fixes w :: nat
    and put :: "'v \<Rightarrow> byte list"
    and get :: "byte list \<Rightarrow> 'v"
  assumes length_put: "length (put v) = w"
    and get_put: "get (put v) = v"
    and put_get: "length bs = w \<Longrightarrow> put (get bs) = bs"
begin

lemma put_inj: "put v = put u \<Longrightarrow> v = u"
  by (metis get_put)

lemma load_stored: "wrn m p (put v) = Some m' \<Longrightarrow> map_option get (rdn m' p w) = Some v"
  using rdn_wrn_same [of m p "put v" m'] by (simp add: length_put get_put)

lemma load_prefix: "drop p m = put v @ r \<Longrightarrow> p \<le> length m \<Longrightarrow> rdn m p w = Some (put v)"
  by (metis append_eq_conv_conj length_append length_drop length_put le_add1 le_diff_conv2
      rdn_Some add.commute)

lemma put_of_load: "rdn m p w = Some bs \<Longrightarrow> put (get bs) = bs"
  by (rule put_get) (rule length_rdn)

end

interpretation bit8: le_codec 1 PBIT8 GBIT8
  by unfold_locales (auto simp: PBIT8_def GBIT8_def length_Suc_conv)

interpretation bit16: le_codec 2 PBIT16 GBIT16
  proof
  show "length (PBIT16 v) = 2" for v by simp
  show "GBIT16 (PBIT16 v) = v" for v using GBIT16_PBIT16 [of v "[]"] by simp
  show "PBIT16 (GBIT16 bs) = bs" if "length bs = 2" for bs using that by (rule PBIT16_GBIT16)
qed

interpretation bit32: le_codec 4 PBIT32 GBIT32
  proof
  show "length (PBIT32 v) = 4" for v by simp
  show "GBIT32 (PBIT32 v) = v" for v using GBIT32_PBIT32 [of v "[]"] by simp
  show "PBIT32 (GBIT32 bs) = bs" if "length bs = 4" for bs using that by (rule PBIT32_GBIT32)
qed

interpretation bit64: le_codec 8 PBIT64 GBIT64
  proof
  show "length (PBIT64 v) = 8" for v by simp
  show "GBIT64 (PBIT64 v) = v" for v using GBIT64_PBIT64 [of v "[]"] by simp
  show "PBIT64 (GBIT64 bs) = bs" if "length bs = 8" for bs using that by (rule PBIT64_GBIT64)
qed

section \<open>Statement lists\<close>

text \<open>
  A marshalling routine is straight-line C with early returns: each statement either goes on
  with a new state, returns from the routine (\<open>Quit\<close>), or touches memory out of bounds
  (\<open>Fault\<close>). \<open>exec\<close> runs the statements in order.
\<close>

datatype 's outcome = Fault | Quit 's | Go 's

fun exec :: "('s \<Rightarrow> 's outcome) list \<Rightarrow> 's \<Rightarrow> 's outcome" where
  "exec [] s = Go s"
| "exec (c # cs) s = (case c s of Fault \<Rightarrow> Fault | Quit s' \<Rightarrow> Quit s' | Go s' \<Rightarrow> exec cs s')"

lemma exec_append:
  "exec (cs @ ds) s = (case exec cs s of Fault \<Rightarrow> Fault | Quit s' \<Rightarrow> Quit s' | Go s' \<Rightarrow> exec ds s')"
  by (induction cs arbitrary: s) (auto split: outcome.splits)

lemma exec_single: "exec [c] s = c s"
  by (simp split: outcome.splits)

lemma exec_Go_Cons: "c s = Go t \<Longrightarrow> exec (c # cs) s = exec cs t"
  by simp

text \<open>What a statement keeps: it holds in the state it stops or ends in.\<close>

fun holds :: "('s \<Rightarrow> bool) \<Rightarrow> 's outcome \<Rightarrow> bool" where
  "holds I Fault = False"
| "holds I (Quit s) = I s"
| "holds I (Go s) = I s"

definition keeps :: "('s \<Rightarrow> bool) \<Rightarrow> ('s \<Rightarrow> 's outcome) \<Rightarrow> bool" where
  "keeps I c \<longleftrightarrow> (\<forall>s. I s \<longrightarrow> holds I (c s))"

lemma keepsI: "(\<And>s. I s \<Longrightarrow> holds I (c s)) \<Longrightarrow> keeps I c"
  by (simp add: keeps_def)

lemma keepsD: "keeps I c \<Longrightarrow> I s \<Longrightarrow> holds I (c s)"
  by (simp add: keeps_def)

lemma holds_exec: "I s \<Longrightarrow> \<forall>c \<in> set cs. keeps I c \<Longrightarrow> holds I (exec cs s)"
proof (induction cs arbitrary: s)
  case Nil
  then show ?case by simp
next
  case (Cons c cs)
  have c: "holds I (c s)" using Cons.prems by (auto intro: keepsD)
  show ?case
  proof (cases "c s")
    case (Go t)
    then have "I t" using c by simp
    then have "holds I (exec cs t)" using Cons.prems by (auto intro: Cons.IH)
    with Go show ?thesis by simp
  qed (use c in auto)
qed

lemma keeps_exec: "\<forall>c \<in> set cs. keeps I c \<Longrightarrow> keeps I (exec cs)"
  by (auto intro: keepsI holds_exec)

end
