(* ===== verification/Plan9.thy ===== *)
theory Plan9
  imports Prelude9p
begin

text \<open>
  The data model of \<^verbatim>\<open>kext/plan9.h\<close>, \<^verbatim>\<open>kext/fcall.h\<close> and \<^verbatim>\<open>kext/9p.h\<close>: the structs \<open>Qid\<close>,
  \<open>Dir\<close> and \<open>Fcall\<close>, and their constants. The field names carry the prefixes \<open>q_\<close>, \<open>d_\<close>
  and \<open>fc_\<close> because field names are global in HOL.

  \<open>Dir\<close> and \<open>Fcall\<close> have a type parameter \<open>'p\<close> for their pointer fields. A struct the
  client fills in before sending holds what the pointers point to (\<open>byte list\<close>: a C string
  without its NUL, or the data bytes); a struct the parser fills in holds pointers into the
  receive buffer (\<open>nat option\<close>: an offset, or \<^term>\<open>None\<close> for \<^verbatim>\<open>nil\<close>).
\<close>

section \<open>Constants\<close>

abbreviation MAXWELEM :: nat where "MAXWELEM \<equiv> 16"
abbreviation BIT8SZ :: nat where "BIT8SZ \<equiv> 1"
abbreviation BIT16SZ :: nat where "BIT16SZ \<equiv> 2"
abbreviation BIT32SZ :: nat where "BIT32SZ \<equiv> 4"
abbreviation BIT64SZ :: nat where "BIT64SZ \<equiv> 8"
abbreviation QIDSZ :: nat where "QIDSZ \<equiv> 13"
abbreviation STATFIXLEN :: nat where "STATFIXLEN \<equiv> 49"
abbreviation STATUEXTRALEN :: nat where "STATUEXTRALEN \<equiv> 14"
abbreviation MAXMSG :: nat where "MAXMSG \<equiv> 10000"
abbreviation NOTAG :: u16 where "NOTAG \<equiv> 0xFFFF"
abbreviation IOHDRSZ :: u32 where "IOHDRSZ \<equiv> 24"
abbreviation NOFID :: u32 where "NOFID \<equiv> 0xFFFFFFFF"
abbreviation STATMAX :: nat where "STATMAX \<equiv> 65535"

abbreviation Tversion :: byte where "Tversion \<equiv> 100"
abbreviation Rversion :: byte where "Rversion \<equiv> 101"
abbreviation Tauth :: byte where "Tauth \<equiv> 102"
abbreviation Rauth :: byte where "Rauth \<equiv> 103"
abbreviation Tattach :: byte where "Tattach \<equiv> 104"
abbreviation Rattach :: byte where "Rattach \<equiv> 105"
abbreviation Rerror :: byte where "Rerror \<equiv> 107"
abbreviation Tflush :: byte where "Tflush \<equiv> 108"
abbreviation Rflush :: byte where "Rflush \<equiv> 109"
abbreviation Twalk :: byte where "Twalk \<equiv> 110"
abbreviation Rwalk :: byte where "Rwalk \<equiv> 111"
abbreviation Topen :: byte where "Topen \<equiv> 112"
abbreviation Ropen :: byte where "Ropen \<equiv> 113"
abbreviation Tcreate :: byte where "Tcreate \<equiv> 114"
abbreviation Rcreate :: byte where "Rcreate \<equiv> 115"
abbreviation Tread :: byte where "Tread \<equiv> 116"
abbreviation Rread :: byte where "Rread \<equiv> 117"
abbreviation Twrite :: byte where "Twrite \<equiv> 118"
abbreviation Rwrite :: byte where "Rwrite \<equiv> 119"
abbreviation Tclunk :: byte where "Tclunk \<equiv> 120"
abbreviation Rclunk :: byte where "Rclunk \<equiv> 121"
abbreviation Tremove :: byte where "Tremove \<equiv> 122"
abbreviation Rremove :: byte where "Rremove \<equiv> 123"
abbreviation Tstat :: byte where "Tstat \<equiv> 124"
abbreviation Rstat :: byte where "Rstat \<equiv> 125"
abbreviation Twstat :: byte where "Twstat \<equiv> 126"
abbreviation Rwstat :: byte where "Rwstat \<equiv> 127"

section \<open>Structures\<close>

record Qid =
  q_path :: u64
  q_vers :: u32
  q_type :: byte

record 'p Dir =
  d_type :: u16
  d_dev :: u32
  d_qid :: Qid
  d_mode :: u32
  d_atime :: u32
  d_mtime :: u32
  d_length :: u64
  d_name :: 'p
  d_uid :: 'p
  d_gid :: 'p
  d_muid :: 'p
  d_ext :: 'p
  d_uidnum :: u32
  d_gidnum :: u32
  d_muidnum :: u32

record 'p Fcall =
  fc_type :: byte
  fc_fid :: u32
  fc_tag :: u16
  fc_msize :: u32
  fc_version :: 'p
  fc_oldtag :: u32
  fc_ename :: 'p
  fc_qid :: Qid
  fc_iounit :: u32
  fc_uname :: 'p
  fc_aname :: 'p
  fc_perm :: u32
  fc_name :: 'p
  fc_mode :: byte
  fc_newfid :: u32
  fc_nwname :: u16
  fc_wname :: "'p list"
  fc_nwqid :: u16
  fc_wqid :: "Qid list"
  fc_offset :: u64
  fc_count :: u32
  fc_data :: 'p
  fc_nstat :: u16
  fc_stat :: 'p
  fc_afid :: u32
  fc_aqid :: Qid
  fc_errnum :: u32
  fc_ext :: 'p
  fc_unamenum :: u32

type_synonym ptr = "nat option"
type_synonym tx_call = "byte list Fcall"
type_synonym rx_call = "ptr Fcall"

text \<open>The struct after \<^verbatim>\<open>bzero\<close>.\<close>

definition zero_qid :: Qid where
  "zero_qid = \<lparr>q_path = 0, q_vers = 0, q_type = 0\<rparr>"

definition zero_fcall :: "'p \<Rightarrow> 'p Fcall" where
  "zero_fcall nil = \<lparr>fc_type = 0, fc_fid = 0, fc_tag = 0, fc_msize = 0, fc_version = nil,
     fc_oldtag = 0, fc_ename = nil, fc_qid = zero_qid, fc_iounit = 0, fc_uname = nil,
     fc_aname = nil, fc_perm = 0, fc_name = nil, fc_mode = 0, fc_newfid = 0, fc_nwname = 0,
     fc_wname = replicate MAXWELEM nil, fc_nwqid = 0, fc_wqid = replicate MAXWELEM zero_qid,
     fc_offset = 0, fc_count = 0, fc_data = nil, fc_nstat = 0, fc_stat = nil, fc_afid = 0,
     fc_aqid = zero_qid, fc_errnum = 0, fc_ext = nil, fc_unamenum = 0\<rparr>"

text \<open>The wire image of a qid: type, version, path.\<close>

definition qid_bytes :: "Qid \<Rightarrow> byte list" where
  "qid_bytes q = PBIT8 (q_type q) @ PBIT32 (q_vers q) @ PBIT64 (q_path q)"

definition bytes_qid :: "byte list \<Rightarrow> Qid" where
  "bytes_qid bs = \<lparr>q_path = GBIT64 (drop 5 bs), q_vers = GBIT32 (drop 1 bs), q_type = GBIT8 bs\<rparr>"

lemma length_qid_bytes [simp]: "length (qid_bytes q) = 13"
  by (simp add: qid_bytes_def)

interpretation bitqid: le_codec QIDSZ qid_bytes bytes_qid
proof
  show "length (qid_bytes q) = 13" for q by simp
  show "bytes_qid (qid_bytes q) = q" for q
    by (simp add: qid_bytes_def bytes_qid_def PBIT8_def GBIT8_def GBIT32_PBIT32
        GBIT64_PBIT64 [of _ "[]", simplified])
  show "qid_bytes (bytes_qid bs) = bs" if l: "length bs = 13" for bs
  proof -
    have b: "bs = take 1 bs @ take 4 (drop 1 bs) @ drop 5 bs"
      by (metis append_take_drop_id drop_drop numeral_Bit1 add.commute one_add_one numeral_One
          numeral_plus_one semiring_norm(2) semiring_norm(5) semiring_norm(8))
    have "PBIT32 (GBIT32 (drop 1 bs)) = take 4 (drop 1 bs)"
      using PBIT32_GBIT32 [of "take 4 (drop 1 bs)"] GBIT32_take [of "drop 1 bs"] l by simp
    moreover have "PBIT8 (GBIT8 bs) = take 1 bs"
      using l by (cases bs) (simp_all add: PBIT8_def GBIT8_def)
    ultimately show ?thesis
      using l PBIT64_GBIT64 [of "drop 5 bs"] b by (simp add: qid_bytes_def bytes_qid_def)
  qed
qed

end
