(* ===== verification/FcallDecode.thy ===== *)
theory FcallDecode
  imports Plan9
begin

text \<open>
  The parser of 9P messages: \<^verbatim>\<open>gstring\<close>, \<^verbatim>\<open>gqid\<close> and \<^verbatim>\<open>convM2S\<close> of \<^verbatim>\<open>kext/fcall.c\<close>.

  The parser works in place. Its state is the receive buffer, the read pointer \<^verbatim>\<open>p\<close> and the
  \<open>Fcall\<close> it fills in; \<open>ep\<close> is the end of the input. Every arm of the \<^verbatim>\<open>switch\<close> is one
  statement list, named after its message type. A \<^verbatim>\<open>return 0\<close>, and a \<^verbatim>\<open>break\<close> with
  \<^verbatim>\<open>p == nil\<close> (which the code after the switch turns into \<^verbatim>\<open>return 0\<close>), is \<open>Quit\<close>.
\<close>

section \<open>Strings and qids\<close>

text \<open>
  \<open>gstring m p ep\<close> is the new memory and, unless \<^verbatim>\<open>nil\<close> is returned, the new read pointer
  and the string pointer. The string is moved down by one, over the high byte of its count,
  to make room for the NUL.
\<close>

definition gstring :: "memory \<Rightarrow> nat \<Rightarrow> nat \<Rightarrow> (memory \<times> (nat \<times> nat) option) option" where
  "gstring m p ep =
     (if p + BIT16SZ > ep then Some (m, None)
      else do {
        b \<leftarrow> rdn m p BIT16SZ;
        let n = unat (GBIT16 b);
        let p = p + (BIT16SZ - 1);
        if p + n + 1 > ep then Some (m, None)
        else do {
          s \<leftarrow> rdn m (p + 1) n;
          m1 \<leftarrow> wrn m p s;
          m2 \<leftarrow> wrn m1 (p + n) [0];
          Some (m2, Some (p + (n + 1), p))
        }
      })"

definition gqid :: "memory \<Rightarrow> nat \<Rightarrow> nat \<Rightarrow> (nat \<times> Qid) option option" where
  "gqid m p ep =
     (if p + QIDSZ > ep then Some None
      else do {
        t \<leftarrow> rdn m p BIT8SZ;
        let p = p + BIT8SZ;
        v \<leftarrow> rdn m p BIT32SZ;
        let p = p + BIT32SZ;
        a \<leftarrow> rdn m p BIT64SZ;
        let p = p + BIT64SZ;
        Some (Some (p, \<lparr>q_path = GBIT64 a, q_vers = GBIT32 v, q_type = GBIT8 t\<rparr>))
      })"

section \<open>Statements of the parser\<close>

record m2s =
  ms_buf :: memory
  ms_p :: nat
  ms_f :: rx_call

type_synonym m2s_stmt = "m2s \<Rightarrow> m2s outcome"

text \<open>\<^verbatim>\<open>if(p + n > ep) return 0;\<close>\<close>

definition need :: "nat \<Rightarrow> nat \<Rightarrow> m2s_stmt" where
  "need ep n s = (if ms_p s + n > ep then Quit s else Go s)"

text \<open>\<^verbatim>\<open>if(p + f->count > ep) return 0;\<close> with the length in a field.\<close>

definition need_f :: "nat \<Rightarrow> (rx_call \<Rightarrow> nat) \<Rightarrow> m2s_stmt" where
  "need_f ep n s = need ep (n (ms_f s)) s"

text \<open>\<^verbatim>\<open>f->x = GBITw(p); p += w;\<close>\<close>

definition getv :: "nat \<Rightarrow> (byte list \<Rightarrow> 'v) \<Rightarrow> ('v \<Rightarrow> rx_call \<Rightarrow> rx_call) \<Rightarrow> m2s_stmt" where
  "getv w g upd s = (case rdn (ms_buf s) (ms_p s) w of
       None \<Rightarrow> Fault
     | Some b \<Rightarrow> Go (s\<lparr>ms_p := ms_p s + w, ms_f := upd (g b) (ms_f s)\<rparr>))"

abbreviation "get8 \<equiv> getv BIT8SZ GBIT8"
abbreviation "get16 \<equiv> getv BIT16SZ GBIT16"
abbreviation "get32 \<equiv> getv BIT32SZ GBIT32"
abbreviation "get64 \<equiv> getv BIT64SZ GBIT64"

text \<open>\<^verbatim>\<open>p = gstring(p, ep, &f->x); if(p == nil) break;\<close>\<close>

definition gstr :: "nat \<Rightarrow> (ptr \<Rightarrow> rx_call \<Rightarrow> rx_call) \<Rightarrow> m2s_stmt" where
  "gstr ep upd s = (case gstring (ms_buf s) (ms_p s) ep of
       None \<Rightarrow> Fault
     | Some (m, None) \<Rightarrow> Quit (s\<lparr>ms_buf := m\<rparr>)
     | Some (m, Some (p, q)) \<Rightarrow> Go \<lparr>ms_buf = m, ms_p = p, ms_f = upd (Some q) (ms_f s)\<rparr>)"

text \<open>\<^verbatim>\<open>p = gqid(p, ep, &f->x); if(p == nil) break;\<close>\<close>

definition gqd :: "nat \<Rightarrow> (Qid \<Rightarrow> rx_call \<Rightarrow> rx_call) \<Rightarrow> m2s_stmt" where
  "gqd ep upd s = (case gqid (ms_buf s) (ms_p s) ep of
       None \<Rightarrow> Fault
     | Some None \<Rightarrow> Quit s
     | Some (Some (p, q)) \<Rightarrow> Go (s\<lparr>ms_p := p, ms_f := upd q (ms_f s)\<rparr>))"

text \<open>\<^verbatim>\<open>f->x = p; p += n;\<close>\<close>

definition point :: "(rx_call \<Rightarrow> nat) \<Rightarrow> (ptr \<Rightarrow> rx_call \<Rightarrow> rx_call) \<Rightarrow> m2s_stmt" where
  "point n upd s = Go (s\<lparr>ms_p := ms_p s + n (ms_f s), ms_f := upd (Some (ms_p s)) (ms_f s)\<rparr>)"

definition quit_if :: "(rx_call \<Rightarrow> bool) \<Rightarrow> m2s_stmt" where
  "quit_if b s = (if b (ms_f s) then Quit s else Go s)"

text \<open>
  The two loops, \<^verbatim>\<open>for(i = 0; i < n; i++) p = gstring(p, ep, &f->wname[i])\<close> and the same
  with \<^verbatim>\<open>gqid\<close>. An index past the array is a fault.
\<close>

definition gstr_wname :: "nat \<Rightarrow> nat \<Rightarrow> m2s_stmt" where
  "gstr_wname ep i s = (if i < length (fc_wname (ms_f s))
     then gstr ep (\<lambda>q f. f\<lparr>fc_wname := (fc_wname f)[i := q]\<rparr>) s else Fault)"

definition gqd_wqid :: "nat \<Rightarrow> nat \<Rightarrow> m2s_stmt" where
  "gqd_wqid ep i s = (if i < length (fc_wqid (ms_f s))
     then gqd ep (\<lambda>q f. f\<lparr>fc_wqid := (fc_wqid f)[i := q]\<rparr>) s else Fault)"

definition for_n :: "(rx_call \<Rightarrow> nat) \<Rightarrow> (nat \<Rightarrow> m2s_stmt) \<Rightarrow> m2s_stmt" where
  "for_n n body s = exec (map body [0..<n (ms_f s)]) s"

section \<open>The arms of the switch\<close>

definition m2s_Tversion :: "nat \<Rightarrow> m2s_stmt list" where
  "m2s_Tversion ep =
    [need ep BIT32SZ,
     get32 (\<lambda>v f. f\<lparr>fc_msize := v\<rparr>),
     gstr ep (\<lambda>q f. f\<lparr>fc_version := q\<rparr>)]"

definition m2s_Tflush :: "nat \<Rightarrow> m2s_stmt list" where
  "m2s_Tflush ep =
    [need ep BIT16SZ,
     get16 (\<lambda>v f. f\<lparr>fc_oldtag := ucast v\<rparr>)]"

definition m2s_Tauth :: "nat \<Rightarrow> bool \<Rightarrow> m2s_stmt list" where
  "m2s_Tauth ep dotu =
    [need ep BIT32SZ,
     get32 (\<lambda>v f. f\<lparr>fc_afid := v\<rparr>),
     gstr ep (\<lambda>q f. f\<lparr>fc_uname := q\<rparr>),
     gstr ep (\<lambda>q f. f\<lparr>fc_aname := q\<rparr>)]
    @ (if dotu then
    [need ep BIT32SZ,
     get32 (\<lambda>v f. f\<lparr>fc_unamenum := v\<rparr>)] else [])"

definition m2s_Tattach :: "nat \<Rightarrow> bool \<Rightarrow> m2s_stmt list" where
  "m2s_Tattach ep dotu =
    [need ep BIT32SZ,
     get32 (\<lambda>v f. f\<lparr>fc_fid := v\<rparr>),
     need ep BIT32SZ,
     get32 (\<lambda>v f. f\<lparr>fc_afid := v\<rparr>),
     gstr ep (\<lambda>q f. f\<lparr>fc_uname := q\<rparr>),
     gstr ep (\<lambda>q f. f\<lparr>fc_aname := q\<rparr>)]
    @ (if dotu then
    [need ep BIT32SZ,
     get32 (\<lambda>v f. f\<lparr>fc_unamenum := v\<rparr>)] else [])"

definition m2s_Twalk :: "nat \<Rightarrow> m2s_stmt list" where
  "m2s_Twalk ep =
    [need ep (BIT32SZ + BIT32SZ + BIT16SZ),
     get32 (\<lambda>v f. f\<lparr>fc_fid := v\<rparr>),
     get32 (\<lambda>v f. f\<lparr>fc_newfid := v\<rparr>),
     get16 (\<lambda>v f. f\<lparr>fc_nwname := v\<rparr>),
     quit_if (\<lambda>f. unat (fc_nwname f) > MAXWELEM),
     for_n (\<lambda>f. unat (fc_nwname f)) (gstr_wname ep)]"

definition m2s_Topen :: "nat \<Rightarrow> m2s_stmt list" where
  "m2s_Topen ep =
    [need ep (BIT32SZ + BIT8SZ),
     get32 (\<lambda>v f. f\<lparr>fc_fid := v\<rparr>),
     get8 (\<lambda>v f. f\<lparr>fc_mode := v\<rparr>)]"

definition m2s_Tcreate :: "nat \<Rightarrow> bool \<Rightarrow> m2s_stmt list" where
  "m2s_Tcreate ep dotu =
    [need ep BIT32SZ,
     get32 (\<lambda>v f. f\<lparr>fc_fid := v\<rparr>),
     gstr ep (\<lambda>q f. f\<lparr>fc_name := q\<rparr>),
     need ep (BIT32SZ + BIT8SZ),
     get32 (\<lambda>v f. f\<lparr>fc_perm := v\<rparr>),
     get8 (\<lambda>v f. f\<lparr>fc_mode := v\<rparr>)]
    @ (if dotu then
    [gstr ep (\<lambda>q f. f\<lparr>fc_ext := q\<rparr>)] else [])"

definition m2s_Tread :: "nat \<Rightarrow> m2s_stmt list" where
  "m2s_Tread ep =
    [need ep (BIT32SZ + BIT64SZ + BIT32SZ),
     get32 (\<lambda>v f. f\<lparr>fc_fid := v\<rparr>),
     get64 (\<lambda>v f. f\<lparr>fc_offset := v\<rparr>),
     get32 (\<lambda>v f. f\<lparr>fc_count := v\<rparr>)]"

definition m2s_Twrite :: "nat \<Rightarrow> m2s_stmt list" where
  "m2s_Twrite ep =
    [need ep (BIT32SZ + BIT64SZ + BIT32SZ),
     get32 (\<lambda>v f. f\<lparr>fc_fid := v\<rparr>),
     get64 (\<lambda>v f. f\<lparr>fc_offset := v\<rparr>),
     get32 (\<lambda>v f. f\<lparr>fc_count := v\<rparr>),
     need_f ep (\<lambda>f. unat (fc_count f)),
     point (\<lambda>f. unat (fc_count f)) (\<lambda>q f. f\<lparr>fc_data := q\<rparr>)]"

text \<open>\<^verbatim>\<open>case Tclunk: case Tremove:\<close>, and \<^verbatim>\<open>case Tstat:\<close> with the same statements.\<close>

definition m2s_Tclunk :: "nat \<Rightarrow> m2s_stmt list" where
  "m2s_Tclunk ep =
    [need ep BIT32SZ,
     get32 (\<lambda>v f. f\<lparr>fc_fid := v\<rparr>)]"

definition m2s_Tstat :: "nat \<Rightarrow> m2s_stmt list" where
  "m2s_Tstat ep =
    [need ep BIT32SZ,
     get32 (\<lambda>v f. f\<lparr>fc_fid := v\<rparr>)]"

definition m2s_Twstat :: "nat \<Rightarrow> m2s_stmt list" where
  "m2s_Twstat ep =
    [need ep (BIT32SZ + BIT16SZ),
     get32 (\<lambda>v f. f\<lparr>fc_fid := v\<rparr>),
     get16 (\<lambda>v f. f\<lparr>fc_nstat := v\<rparr>),
     need_f ep (\<lambda>f. unat (fc_nstat f)),
     point (\<lambda>f. unat (fc_nstat f)) (\<lambda>q f. f\<lparr>fc_stat := q\<rparr>)]"

definition m2s_Rversion :: "nat \<Rightarrow> m2s_stmt list" where
  "m2s_Rversion ep =
    [need ep BIT32SZ,
     get32 (\<lambda>v f. f\<lparr>fc_msize := v\<rparr>),
     gstr ep (\<lambda>q f. f\<lparr>fc_version := q\<rparr>)]"

definition m2s_Rerror :: "nat \<Rightarrow> bool \<Rightarrow> m2s_stmt list" where
  "m2s_Rerror ep dotu =
    [gstr ep (\<lambda>q f. f\<lparr>fc_ename := q\<rparr>)]
    @ (if dotu then
    [need ep BIT32SZ,
     get32 (\<lambda>v f. f\<lparr>fc_errnum := v\<rparr>)] else [])"

definition m2s_Rauth :: "nat \<Rightarrow> m2s_stmt list" where
  "m2s_Rauth ep = [gqd ep (\<lambda>q f. f\<lparr>fc_aqid := q\<rparr>)]"

definition m2s_Rattach :: "nat \<Rightarrow> m2s_stmt list" where
  "m2s_Rattach ep = [gqd ep (\<lambda>q f. f\<lparr>fc_qid := q\<rparr>)]"

definition m2s_Rwalk :: "nat \<Rightarrow> m2s_stmt list" where
  "m2s_Rwalk ep =
    [need ep BIT16SZ,
     get16 (\<lambda>v f. f\<lparr>fc_nwqid := v\<rparr>),
     quit_if (\<lambda>f. unat (fc_nwqid f) > MAXWELEM),
     for_n (\<lambda>f. unat (fc_nwqid f)) (gqd_wqid ep)]"

text \<open>\<^verbatim>\<open>case Ropen: case Rcreate:\<close>\<close>

definition m2s_Ropen :: "nat \<Rightarrow> m2s_stmt list" where
  "m2s_Ropen ep =
    [gqd ep (\<lambda>q f. f\<lparr>fc_qid := q\<rparr>),
     need ep BIT32SZ,
     get32 (\<lambda>v f. f\<lparr>fc_iounit := v\<rparr>)]"

definition m2s_Rread :: "nat \<Rightarrow> m2s_stmt list" where
  "m2s_Rread ep =
    [need ep BIT32SZ,
     get32 (\<lambda>v f. f\<lparr>fc_count := v\<rparr>),
     need_f ep (\<lambda>f. unat (fc_count f)),
     point (\<lambda>f. unat (fc_count f)) (\<lambda>q f. f\<lparr>fc_data := q\<rparr>)]"

definition m2s_Rwrite :: "nat \<Rightarrow> m2s_stmt list" where
  "m2s_Rwrite ep =
    [need ep BIT32SZ,
     get32 (\<lambda>v f. f\<lparr>fc_count := v\<rparr>)]"

definition m2s_Rstat :: "nat \<Rightarrow> m2s_stmt list" where
  "m2s_Rstat ep =
    [need ep BIT16SZ,
     get16 (\<lambda>v f. f\<lparr>fc_nstat := v\<rparr>),
     need_f ep (\<lambda>f. unat (fc_nstat f)),
     point (\<lambda>f. unat (fc_nstat f)) (\<lambda>q f. f\<lparr>fc_stat := q\<rparr>)]"

text \<open>The \<^verbatim>\<open>switch\<close>; \<^term>\<open>None\<close> is \<^verbatim>\<open>default: return 0\<close>.\<close>

definition m2s_arm :: "nat \<Rightarrow> bool \<Rightarrow> byte \<Rightarrow> m2s_stmt list option" where
  "m2s_arm ep dotu ty =
    (if ty = Tversion then Some (m2s_Tversion ep)
     else if ty = Tflush then Some (m2s_Tflush ep)
     else if ty = Tauth then Some (m2s_Tauth ep dotu)
     else if ty = Tattach then Some (m2s_Tattach ep dotu)
     else if ty = Twalk then Some (m2s_Twalk ep)
     else if ty = Topen then Some (m2s_Topen ep)
     else if ty = Tcreate then Some (m2s_Tcreate ep dotu)
     else if ty = Tread then Some (m2s_Tread ep)
     else if ty = Twrite then Some (m2s_Twrite ep)
     else if ty = Tclunk \<or> ty = Tremove then Some (m2s_Tclunk ep)
     else if ty = Tstat then Some (m2s_Tstat ep)
     else if ty = Twstat then Some (m2s_Twstat ep)
     else if ty = Rversion then Some (m2s_Rversion ep)
     else if ty = Rerror then Some (m2s_Rerror ep dotu)
     else if ty = Rflush then Some []
     else if ty = Rauth then Some (m2s_Rauth ep)
     else if ty = Rattach then Some (m2s_Rattach ep)
     else if ty = Rwalk then Some (m2s_Rwalk ep)
     else if ty = Ropen \<or> ty = Rcreate then Some (m2s_Ropen ep)
     else if ty = Rread then Some (m2s_Rread ep)
     else if ty = Rwrite then Some (m2s_Rwrite ep)
     else if ty = Rclunk \<or> ty = Rremove then Some []
     else if ty = Rstat then Some (m2s_Rstat ep)
     else if ty = Rwstat then Some []
     else None)"

definition m2s_switch :: "nat \<Rightarrow> bool \<Rightarrow> m2s_stmt" where
  "m2s_switch ep dotu s = (case m2s_arm ep dotu (fc_type (ms_f s)) of
     None \<Rightarrow> Quit s | Some cs \<Rightarrow> exec cs s)"

section \<open>The parser\<close>

text \<open>
  The result is the returned count with the buffer and the \<open>Fcall\<close> as they are left;
  \<^term>\<open>None\<close> is an access outside the buffer or outside \<^verbatim>\<open>wname\<close> or \<^verbatim>\<open>wqid\<close>.
\<close>

definition convM2S :: "memory \<Rightarrow> nat \<Rightarrow> rx_call \<Rightarrow> bool \<Rightarrow> (nat \<times> memory \<times> rx_call) option" where
  "convM2S ap nap f dotu =
     (let p = 0; ep = p + nap in
      if p + (BIT32SZ + BIT8SZ + BIT16SZ) > ep then Some (0, ap, f)
      else do {
        b \<leftarrow> rdn ap p BIT32SZ;
        let size = unat (GBIT32 b);
        if size > nap then Some (0, ap, f)
        else if size < BIT32SZ + BIT8SZ + BIT16SZ then Some (0, ap, f)
        else (case exec [get8 (\<lambda>v f. f\<lparr>fc_type := v\<rparr>), get16 (\<lambda>v f. f\<lparr>fc_tag := v\<rparr>),
                         m2s_switch ep dotu]
                    \<lparr>ms_buf = ap, ms_p = p + BIT32SZ, ms_f = f\<rparr> of
            Fault \<Rightarrow> None
          | Quit s \<Rightarrow> Some (0, ms_buf s, ms_f s)
          | Go s \<Rightarrow>
              if ms_p s > ep then Some (0, ms_buf s, ms_f s)
              else if size = ms_p s then Some (size, ms_buf s, ms_f s)
              else Some (0, ms_buf s, ms_f s))
      })"

end
