(* ===== verification/FcallEncode.thy ===== *)
theory FcallEncode
  imports Plan9
begin

text \<open>
  The printer of 9P messages: \<^verbatim>\<open>pstring\<close>, \<^verbatim>\<open>pqid\<close>, \<^verbatim>\<open>stringsz\<close>, \<^verbatim>\<open>sizeS2M\<close> and
  \<^verbatim>\<open>convS2M\<close> of \<^verbatim>\<open>kext/fcall.c\<close>. Sizes are 32-bit words, as the code computes them:
  a large \<^verbatim>\<open>f->count\<close> makes them wrap. A store past the output buffer is \<open>Fault\<close>.
\<close>

section \<open>Sizes\<close>

definition stringsz :: "byte list \<Rightarrow> u32" where
  "stringsz s = of_nat (BIT16SZ + length s)"

text \<open>
  \<open>sizeS2M\<close> is \<^term>\<open>None\<close> when the loop over \<^verbatim>\<open>wname\<close> leaves the array. Each arm adds
  what it prints.
\<close>

definition sz_Twalk :: "tx_call \<Rightarrow> u32 \<Rightarrow> u32 option" where
  "sz_Twalk f n =
     (let n = n + of_nat BIT32SZ + of_nat BIT32SZ + of_nat BIT16SZ in
      if unat (fc_nwname f) > length (fc_wname f) then None
      else Some (foldl (\<lambda>n i. n + stringsz (fc_wname f ! i)) n [0..<unat (fc_nwname f)]))"

text \<open>The arms of the replies, from \<^verbatim>\<open>case Rversion\<close> on, with \<^verbatim>\<open>default: return 0\<close>.\<close>

definition sizeR :: "tx_call \<Rightarrow> bool \<Rightarrow> u32 \<Rightarrow> u32" where
  "sizeR f dotu n =
    (if fc_type f = Rversion then n + of_nat BIT32SZ + stringsz (fc_version f)
     else if fc_type f = Rerror then
       n + stringsz (fc_ename f) + (if dotu then of_nat BIT32SZ else 0)
     else if fc_type f = Rflush then n
     else if fc_type f = Rauth then n + of_nat QIDSZ
     else if fc_type f = Rattach then n + of_nat QIDSZ
     else if fc_type f = Rwalk then n + of_nat BIT16SZ + ucast (fc_nwqid f) * of_nat QIDSZ
     else if fc_type f = Ropen \<or> fc_type f = Rcreate then n + of_nat QIDSZ + of_nat BIT32SZ
     else if fc_type f = Rread then n + of_nat BIT32SZ + fc_count f
     else if fc_type f = Rwrite then n + of_nat BIT32SZ
     else if fc_type f = Rclunk then n
     else if fc_type f = Rremove then n
     else if fc_type f = Rstat then n + of_nat BIT16SZ + ucast (fc_nstat f)
     else if fc_type f = Rwstat then n
     else 0)"

definition sizeS2M :: "tx_call \<Rightarrow> bool \<Rightarrow> u32 option" where
  "sizeS2M f dotu =
    (let n = 0; n = n + of_nat BIT32SZ; n = n + of_nat BIT8SZ; n = n + of_nat BIT16SZ in
     if fc_type f = Tversion then Some (n + of_nat BIT32SZ + stringsz (fc_version f))
     else if fc_type f = Tflush then Some (n + of_nat BIT16SZ)
     else if fc_type f = Tauth then
       Some (n + of_nat BIT32SZ + stringsz (fc_uname f) + stringsz (fc_aname f)
         + (if dotu then of_nat BIT32SZ else 0))
     else if fc_type f = Tattach then
       Some (n + of_nat BIT32SZ + of_nat BIT32SZ + stringsz (fc_uname f) + stringsz (fc_aname f)
         + (if dotu then of_nat BIT32SZ else 0))
     else if fc_type f = Twalk then sz_Twalk f n
     else if fc_type f = Topen then Some (n + of_nat BIT32SZ + of_nat BIT8SZ)
     else if fc_type f = Tcreate then
       Some (n + of_nat BIT32SZ + stringsz (fc_name f) + of_nat BIT32SZ + of_nat BIT8SZ
         + (if dotu then stringsz (fc_ext f) else 0))
     else if fc_type f = Tread then Some (n + of_nat BIT32SZ + of_nat BIT64SZ + of_nat BIT32SZ)
     else if fc_type f = Twrite then
       Some (n + of_nat BIT32SZ + of_nat BIT64SZ + of_nat BIT32SZ + fc_count f)
     else if fc_type f = Tclunk \<or> fc_type f = Tremove then Some (n + of_nat BIT32SZ)
     else if fc_type f = Tstat then Some (n + of_nat BIT32SZ)
     else if fc_type f = Twstat then
       Some (n + of_nat BIT32SZ + of_nat BIT16SZ + ucast (fc_nstat f))
     else Some (sizeR f dotu n))"

section \<open>Statements of the printer\<close>

record s2m =
  sm_buf :: memory
  sm_p :: nat

type_synonym s2m_stmt = "s2m \<Rightarrow> s2m outcome"

text \<open>\<^verbatim>\<open>PBITw(p, v); p += w;\<close> and \<^verbatim>\<open>memmove(p, s, n); p += n;\<close>\<close>

definition putb :: "byte list \<Rightarrow> s2m_stmt" where
  "putb bs s = (case wrn (sm_buf s) (sm_p s) bs of
       None \<Rightarrow> Fault
     | Some m \<Rightarrow> Go \<lparr>sm_buf = m, sm_p = sm_p s + length bs\<rparr>)"

abbreviation "put8 v \<equiv> putb (PBIT8 v)"
abbreviation "put16 v \<equiv> putb (PBIT16 v)"
abbreviation "put32 v \<equiv> putb (PBIT32 v)"
abbreviation "put64 v \<equiv> putb (PBIT64 v)"

text \<open>A copy of \<open>n\<close> bytes from a source of fewer bytes reads out of bounds.\<close>

definition putd :: "byte list \<Rightarrow> nat \<Rightarrow> s2m_stmt" where
  "putd src n s = (case rdn src 0 n of None \<Rightarrow> Fault | Some bs \<Rightarrow> putb bs s)"

definition pstring :: "byte list \<Rightarrow> s2m_stmt" where
  "pstring str = exec [put16 (of_nat (length str)), putb str]"

definition pqid :: "Qid \<Rightarrow> s2m_stmt" where
  "pqid q = exec [put8 (q_type q), put32 (q_vers q), put64 (q_path q)]"

definition return0_if :: "bool \<Rightarrow> s2m_stmt" where
  "return0_if b s = (if b then Quit s else Go s)"

text \<open>The loops over \<^verbatim>\<open>wname\<close> and \<^verbatim>\<open>wqid\<close>; an index past the array is a fault.\<close>

definition pstring_wname :: "tx_call \<Rightarrow> nat \<Rightarrow> s2m_stmt" where
  "pstring_wname f i s = (if i < length (fc_wname f) then pstring (fc_wname f ! i) s else Fault)"

definition pqid_wqid :: "tx_call \<Rightarrow> nat \<Rightarrow> s2m_stmt" where
  "pqid_wqid f i s = (if i < length (fc_wqid f) then pqid (fc_wqid f ! i) s else Fault)"

section \<open>The arms of the switch\<close>

definition s2m_Tversion :: "tx_call \<Rightarrow> s2m_stmt list" where
  "s2m_Tversion f = [put32 (fc_msize f), pstring (fc_version f)]"

definition s2m_Tflush :: "tx_call \<Rightarrow> s2m_stmt list" where
  "s2m_Tflush f = [put16 (ucast (fc_oldtag f))]"

definition s2m_Tauth :: "tx_call \<Rightarrow> bool \<Rightarrow> s2m_stmt list" where
  "s2m_Tauth f dotu =
    [put32 (fc_afid f), pstring (fc_uname f), pstring (fc_aname f)]
    @ (if dotu then [put32 (fc_unamenum f)] else [])"

definition s2m_Tattach :: "tx_call \<Rightarrow> bool \<Rightarrow> s2m_stmt list" where
  "s2m_Tattach f dotu =
    [put32 (fc_fid f), put32 (fc_afid f), pstring (fc_uname f), pstring (fc_aname f)]
    @ (if dotu then [put32 (fc_unamenum f)] else [])"

definition s2m_Twalk :: "tx_call \<Rightarrow> s2m_stmt list" where
  "s2m_Twalk f =
    [put32 (fc_fid f), put32 (fc_newfid f), put16 (fc_nwname f),
     return0_if (unat (fc_nwname f) > MAXWELEM)]
    @ map (pstring_wname f) [0..<unat (fc_nwname f)]"

definition s2m_Topen :: "tx_call \<Rightarrow> s2m_stmt list" where
  "s2m_Topen f = [put32 (fc_fid f), put8 (fc_mode f)]"

definition s2m_Tcreate :: "tx_call \<Rightarrow> bool \<Rightarrow> s2m_stmt list" where
  "s2m_Tcreate f dotu =
    [put32 (fc_fid f), pstring (fc_name f), put32 (fc_perm f), put8 (fc_mode f)]
    @ (if dotu then [pstring (fc_ext f)] else [])"

definition s2m_Tread :: "tx_call \<Rightarrow> s2m_stmt list" where
  "s2m_Tread f = [put32 (fc_fid f), put64 (fc_offset f), put32 (fc_count f)]"

definition s2m_Twrite :: "tx_call \<Rightarrow> s2m_stmt list" where
  "s2m_Twrite f =
    [put32 (fc_fid f), put64 (fc_offset f), put32 (fc_count f),
     putd (fc_data f) (unat (fc_count f))]"

text \<open>\<^verbatim>\<open>case Tclunk: case Tremove:\<close>\<close>

definition s2m_Tclunk :: "tx_call \<Rightarrow> s2m_stmt list" where
  "s2m_Tclunk f = [put32 (fc_fid f)]"

definition s2m_Tstat :: "tx_call \<Rightarrow> s2m_stmt list" where
  "s2m_Tstat f = [put32 (fc_fid f)]"

definition s2m_Twstat :: "tx_call \<Rightarrow> s2m_stmt list" where
  "s2m_Twstat f =
    [put32 (fc_fid f), put16 (fc_nstat f), putd (fc_stat f) (unat (fc_nstat f))]"

definition s2m_Rversion :: "tx_call \<Rightarrow> s2m_stmt list" where
  "s2m_Rversion f = [put32 (fc_msize f), pstring (fc_version f)]"

definition s2m_Rerror :: "tx_call \<Rightarrow> bool \<Rightarrow> s2m_stmt list" where
  "s2m_Rerror f dotu =
    [pstring (fc_ename f)]
    @ (if dotu then [put32 (fc_errnum f)] else [])"

definition s2m_Rauth :: "tx_call \<Rightarrow> s2m_stmt list" where
  "s2m_Rauth f = [pqid (fc_aqid f)]"

definition s2m_Rattach :: "tx_call \<Rightarrow> s2m_stmt list" where
  "s2m_Rattach f = [pqid (fc_qid f)]"

definition s2m_Rwalk :: "tx_call \<Rightarrow> s2m_stmt list" where
  "s2m_Rwalk f =
    [put16 (fc_nwqid f), return0_if (unat (fc_nwqid f) > MAXWELEM)]
    @ map (pqid_wqid f) [0..<unat (fc_nwqid f)]"

text \<open>\<^verbatim>\<open>case Ropen: case Rcreate:\<close>\<close>

definition s2m_Ropen :: "tx_call \<Rightarrow> s2m_stmt list" where
  "s2m_Ropen f = [pqid (fc_qid f), put32 (fc_iounit f)]"

definition s2m_Rread :: "tx_call \<Rightarrow> s2m_stmt list" where
  "s2m_Rread f = [put32 (fc_count f), putd (fc_data f) (unat (fc_count f))]"

definition s2m_Rwrite :: "tx_call \<Rightarrow> s2m_stmt list" where
  "s2m_Rwrite f = [put32 (fc_count f)]"

definition s2m_Rstat :: "tx_call \<Rightarrow> s2m_stmt list" where
  "s2m_Rstat f = [put16 (fc_nstat f), putd (fc_stat f) (unat (fc_nstat f))]"

text \<open>The \<^verbatim>\<open>switch\<close>; \<^term>\<open>None\<close> is \<^verbatim>\<open>default: return 0\<close>.\<close>

definition s2m_arm :: "tx_call \<Rightarrow> bool \<Rightarrow> s2m_stmt list option" where
  "s2m_arm f dotu =
    (let ty = fc_type f in
     if ty = Tversion then Some (s2m_Tversion f)
     else if ty = Tflush then Some (s2m_Tflush f)
     else if ty = Tauth then Some (s2m_Tauth f dotu)
     else if ty = Tattach then Some (s2m_Tattach f dotu)
     else if ty = Twalk then Some (s2m_Twalk f)
     else if ty = Topen then Some (s2m_Topen f)
     else if ty = Tcreate then Some (s2m_Tcreate f dotu)
     else if ty = Tread then Some (s2m_Tread f)
     else if ty = Twrite then Some (s2m_Twrite f)
     else if ty = Tclunk \<or> ty = Tremove then Some (s2m_Tclunk f)
     else if ty = Tstat then Some (s2m_Tstat f)
     else if ty = Twstat then Some (s2m_Twstat f)
     else if ty = Rversion then Some (s2m_Rversion f)
     else if ty = Rerror then Some (s2m_Rerror f dotu)
     else if ty = Rflush then Some []
     else if ty = Rauth then Some (s2m_Rauth f)
     else if ty = Rattach then Some (s2m_Rattach f)
     else if ty = Rwalk then Some (s2m_Rwalk f)
     else if ty = Ropen \<or> ty = Rcreate then Some (s2m_Ropen f)
     else if ty = Rread then Some (s2m_Rread f)
     else if ty = Rwrite then Some (s2m_Rwrite f)
     else if ty = Rclunk then Some []
     else if ty = Rremove then Some []
     else if ty = Rstat then Some (s2m_Rstat f)
     else if ty = Rwstat then Some []
     else None)"

definition s2m_switch :: "tx_call \<Rightarrow> bool \<Rightarrow> s2m_stmt" where
  "s2m_switch f dotu s = (case s2m_arm f dotu of None \<Rightarrow> Quit s | Some cs \<Rightarrow> exec cs s)"

section \<open>The printer\<close>

definition convS2M :: "tx_call \<Rightarrow> memory \<Rightarrow> u32 \<Rightarrow> bool \<Rightarrow> (u32 \<times> memory) option" where
  "convS2M f ap nap dotu =
     (case sizeS2M f dotu of
        None \<Rightarrow> None
      | Some sz \<Rightarrow>
          if sz = 0 then Some (0, ap)
          else if sz > nap then Some (0, ap)
          else (case exec [put32 sz, put8 (fc_type f), put16 (fc_tag f), s2m_switch f dotu]
                      \<lparr>sm_buf = ap, sm_p = 0\<rparr> of
              Fault \<Rightarrow> None
            | Quit s \<Rightarrow> Some (0, sm_buf s)
            | Go s \<Rightarrow> if sz \<noteq> of_nat (sm_p s) then Some (0, sm_buf s)
                      else Some (sz, sm_buf s)))"

end
