(* ===== verification/Wire.thy ===== *)
theory Wire
  imports FcallDecode FcallEncode
begin

text \<open>
  The wire format of 9P2000 and 9P2000.u as a specification: the bytes of each message, and
  when a parsed \<open>Fcall\<close> says the same as the \<open>Fcall\<close> that was printed. The printer is shown
  to write these bytes and the parser to read them back.
\<close>

section \<open>The format\<close>

definition str_bytes :: "byte list \<Rightarrow> byte list" where
  "str_bytes s = PBIT16 (of_nat (length s)) @ s"

definition wire_payload :: "bool \<Rightarrow> tx_call \<Rightarrow> byte list" where
  "wire_payload dotu f =
    (let ty = fc_type f in
     if ty = Tversion \<or> ty = Rversion then PBIT32 (fc_msize f) @ str_bytes (fc_version f)
     else if ty = Tflush then PBIT16 (ucast (fc_oldtag f))
     else if ty = Tauth then
       PBIT32 (fc_afid f) @ str_bytes (fc_uname f) @ str_bytes (fc_aname f)
       @ (if dotu then PBIT32 (fc_unamenum f) else [])
     else if ty = Tattach then
       PBIT32 (fc_fid f) @ PBIT32 (fc_afid f) @ str_bytes (fc_uname f) @ str_bytes (fc_aname f)
       @ (if dotu then PBIT32 (fc_unamenum f) else [])
     else if ty = Twalk then
       PBIT32 (fc_fid f) @ PBIT32 (fc_newfid f) @ PBIT16 (fc_nwname f)
       @ concat (map str_bytes (take (unat (fc_nwname f)) (fc_wname f)))
     else if ty = Topen then PBIT32 (fc_fid f) @ PBIT8 (fc_mode f)
     else if ty = Tcreate then
       PBIT32 (fc_fid f) @ str_bytes (fc_name f) @ PBIT32 (fc_perm f) @ PBIT8 (fc_mode f)
       @ (if dotu then str_bytes (fc_ext f) else [])
     else if ty = Tread then PBIT32 (fc_fid f) @ PBIT64 (fc_offset f) @ PBIT32 (fc_count f)
     else if ty = Twrite then
       PBIT32 (fc_fid f) @ PBIT64 (fc_offset f) @ PBIT32 (fc_count f)
       @ take (unat (fc_count f)) (fc_data f)
     else if ty = Tclunk \<or> ty = Tremove \<or> ty = Tstat then PBIT32 (fc_fid f)
     else if ty = Twstat then
       PBIT32 (fc_fid f) @ PBIT16 (fc_nstat f) @ take (unat (fc_nstat f)) (fc_stat f)
     else if ty = Rerror then
       str_bytes (fc_ename f) @ (if dotu then PBIT32 (fc_errnum f) else [])
     else if ty = Rauth then qid_bytes (fc_aqid f)
     else if ty = Rattach then qid_bytes (fc_qid f)
     else if ty = Rwalk then
       PBIT16 (fc_nwqid f) @ concat (map qid_bytes (take (unat (fc_nwqid f)) (fc_wqid f)))
     else if ty = Ropen \<or> ty = Rcreate then qid_bytes (fc_qid f) @ PBIT32 (fc_iounit f)
     else if ty = Rread then PBIT32 (fc_count f) @ take (unat (fc_count f)) (fc_data f)
     else if ty = Rwrite then PBIT32 (fc_count f)
     else if ty = Rstat then PBIT16 (fc_nstat f) @ take (unat (fc_nstat f)) (fc_stat f)
     else [])"

definition wire_size :: "bool \<Rightarrow> tx_call \<Rightarrow> nat" where
  "wire_size dotu f = 7 + length (wire_payload dotu f)"

definition wire :: "bool \<Rightarrow> tx_call \<Rightarrow> byte list" where
  "wire dotu f = PBIT32 (of_nat (wire_size dotu f)) @ PBIT8 (fc_type f) @ PBIT16 (fc_tag f)
     @ wire_payload dotu f"

definition msg_types :: "byte set" where
  "msg_types = {Tversion, Rversion, Tauth, Rauth, Tattach, Rattach, Rerror, Tflush, Rflush,
     Twalk, Rwalk, Topen, Ropen, Tcreate, Rcreate, Tread, Rread, Twrite, Rwrite, Tclunk, Rclunk,
     Tremove, Rremove, Tstat, Rstat, Twstat, Rwstat}"

text \<open>
  What the client guarantees of an \<open>Fcall\<close> it prints: a known type, arrays of
  \<^verbatim>\<open>MAXWELEM\<close> entries used within bounds, and as much data as \<^verbatim>\<open>count\<close> and \<^verbatim>\<open>nstat\<close> say.
\<close>

definition printable :: "tx_call \<Rightarrow> bool" where
  "printable f \<longleftrightarrow> fc_type f \<in> msg_types
     \<and> length (fc_wname f) = MAXWELEM \<and> length (fc_wqid f) = MAXWELEM
     \<and> (fc_type f = Twalk \<longrightarrow> unat (fc_nwname f) \<le> MAXWELEM)
     \<and> (fc_type f = Rwalk \<longrightarrow> unat (fc_nwqid f) \<le> MAXWELEM)
     \<and> (fc_type f \<in> {Twrite, Rread} \<longrightarrow> unat (fc_count f) \<le> length (fc_data f))
     \<and> (fc_type f \<in> {Twstat, Rstat} \<longrightarrow> unat (fc_nstat f) \<le> length (fc_stat f))"

section \<open>The printer writes the format\<close>

lemma length_str_bytes: "length (str_bytes s) = 2 + length s"
  by (simp add: str_bytes_def)

lemma stringsz_str_bytes: "stringsz s = of_nat (length (str_bytes s))"
  by (simp add: stringsz_def length_str_bytes)

lemma foldl_stringsz:
  "k \<le> length xs \<Longrightarrow> foldl (\<lambda>n i. n + stringsz (xs ! i)) n [0..<k]
     = n + of_nat (length (concat (map str_bytes (take k xs))))"
  by (induction k) (simp_all add: take_Suc_conv_app_nth stringsz_str_bytes)

lemma length_concat_qids: "length (concat (map qid_bytes qs)) = length qs * 13"
  by (induction qs) simp_all

lemma sz_Twalk_wire:
  "unat (fc_nwname f) \<le> length (fc_wname f) \<Longrightarrow> sz_Twalk f n =
     Some (n + 10 + of_nat (length (concat (map str_bytes (take (unat (fc_nwname f)) (fc_wname f))))))"
  by (simp add: sz_Twalk_def foldl_stringsz Let_def)

text \<open>\<open>sizeS2M\<close> is the size of the message, modulo \<open>2 ^ 32\<close>.\<close>

lemma sizeS2M_wire:
  assumes "printable f"
  shows "sizeS2M f dotu = Some (of_nat (wire_size dotu f))"
proof -
  have ty: "fc_type f \<in> msg_types" and w: "length (fc_wname f) = 16" "length (fc_wqid f) = 16"
    using assms by (auto simp: printable_def)
  have n: "fc_type f = Twalk \<Longrightarrow> unat (fc_nwname f) \<le> 16"
    "fc_type f = Rwalk \<Longrightarrow> unat (fc_nwqid f) \<le> 16"
    "fc_type f = Twrite \<or> fc_type f = Rread \<Longrightarrow> unat (fc_count f) \<le> length (fc_data f)"
    "fc_type f = Twstat \<or> fc_type f = Rstat \<Longrightarrow> unat (fc_nstat f) \<le> length (fc_stat f)"
    using assms by (auto simp: printable_def)
  from ty show ?thesis
    unfolding msg_types_def
    by (elim insertE emptyE)
      (simp_all add: sizeS2M_def sizeR_def sz_Twalk_wire wire_size_def wire_payload_def
        stringsz_str_bytes w n min_absorb1 min_absorb2 length_concat_qids Let_def)
qed

text \<open>A statement list prints \<open>bs\<close>: it stores \<open>bs\<close> at the write pointer and advances it.\<close>

definition prints :: "s2m_stmt list \<Rightarrow> byte list \<Rightarrow> bool" where
  "prints cs bs \<longleftrightarrow> (\<forall>m p. p + length bs \<le> length m \<longrightarrow>
     exec cs \<lparr>sm_buf = m, sm_p = p\<rparr> =
       Go \<lparr>sm_buf = take p m @ bs @ drop (p + length bs) m, sm_p = p + length bs\<rparr>)"

lemma prints_Nil [step_intros]: "prints [] []"
  by (simp add: prints_def)

lemma prints_append: "prints cs bs \<Longrightarrow> prints ds es \<Longrightarrow> prints (cs @ ds) (bs @ es)"
  by (simp add: prints_def exec_append min_absorb2 add.assoc ac_simps)

lemma prints_Cons: "prints [c] bs \<Longrightarrow> prints cs es \<Longrightarrow> prints (c # cs) (bs @ es)"
  using prints_append [of "[c]" bs cs es] by simp

lemma prints_exec: "prints cs bs \<Longrightarrow> prints [exec cs] bs"
  by (simp add: prints_def)

lemma prints_putb: "prints [putb bs] bs"
  by (simp add: prints_def putb_def mem_simps)

lemma prints_putd: "n \<le> length src \<Longrightarrow> prints [putd src n] (take n src)"
  using prints_putb [of "take n src"] by (simp add: prints_def putd_def mem_simps)

lemma prints_pstring: "prints [pstring s] (str_bytes s)"
  unfolding pstring_def str_bytes_def
  by (intro prints_exec prints_Cons prints_putb)

lemma prints_pqid: "prints [pqid q] (qid_bytes q)"
  unfolding pqid_def qid_bytes_def
  by (intro prints_exec prints_Cons prints_putb)

lemma prints_return0_if: "prints cs bs \<Longrightarrow> \<not> b \<Longrightarrow> prints (return0_if b # cs) bs"
  by (simp add: prints_def return0_if_def)

lemma prints_wnames:
  "k \<le> length (fc_wname f) \<Longrightarrow>
   prints (map (pstring_wname f) [0..<k]) (concat (map str_bytes (take k (fc_wname f))))"
proof (induction k)
  case 0
  then show ?case by (simp add: prints_Nil)
next
  case (Suc k)
  have "prints [pstring_wname f k] (str_bytes (fc_wname f ! k))"
    using prints_pstring [of "fc_wname f ! k"] Suc.prems by (simp add: prints_def pstring_wname_def)
  then show ?case
    using Suc by (auto simp: take_Suc_conv_app_nth intro!: prints_append)
qed

lemma prints_wqids:
  "k \<le> length (fc_wqid f) \<Longrightarrow>
   prints (map (pqid_wqid f) [0..<k]) (concat (map qid_bytes (take k (fc_wqid f))))"
proof (induction k)
  case 0
  then show ?case by (simp add: prints_Nil)
next
  case (Suc k)
  have "prints [pqid_wqid f k] (qid_bytes (fc_wqid f ! k))"
    using prints_pqid [of "fc_wqid f ! k"] Suc.prems by (simp add: prints_def pqid_wqid_def)
  then show ?case
    using Suc by (auto simp: take_Suc_conv_app_nth intro!: prints_append)
qed

lemmas prints_intros =
  prints_pstring prints_pqid prints_putb prints_putd prints_Nil prints_return0_if
  prints_wnames prints_wqids prints_Cons

lemmas s2m_arm_defs =
  s2m_Tversion_def s2m_Tflush_def s2m_Tauth_def s2m_Tattach_def s2m_Twalk_def s2m_Topen_def
  s2m_Tcreate_def s2m_Tread_def s2m_Twrite_def s2m_Tclunk_def s2m_Tstat_def s2m_Twstat_def
  s2m_Rversion_def s2m_Rerror_def s2m_Rauth_def s2m_Rattach_def s2m_Rwalk_def s2m_Ropen_def
  s2m_Rread_def s2m_Rwrite_def s2m_Rstat_def

lemma prints_switch:
  assumes "printable f"
  shows "prints [s2m_switch f dotu] (wire_payload dotu f)"
proof -
  have w: "length (fc_wname f) = 16" "length (fc_wqid f) = 16"
    using assms by (auto simp: printable_def)
  have n: "fc_type f = Twalk \<Longrightarrow> unat (fc_nwname f) \<le> 16"
    "fc_type f = Rwalk \<Longrightarrow> unat (fc_nwqid f) \<le> 16"
    "fc_type f = Twrite \<or> fc_type f = Rread \<Longrightarrow> unat (fc_count f) \<le> length (fc_data f)"
    "fc_type f = Twstat \<or> fc_type f = Rstat \<Longrightarrow> unat (fc_nstat f) \<le> length (fc_stat f)"
    using assms by (auto simp: printable_def)
  have "\<exists>cs. s2m_arm f dotu = Some cs \<and> prints cs (wire_payload dotu f)"
    using assms unfolding printable_def msg_types_def
    by (elim conjE insertE emptyE; cases dotu)
      (simp_all add: s2m_arm_def s2m_arm_defs wire_payload_def Let_def w n,
        (intro prints_intros; simp add: w n not_less)+)
  then show ?thesis
    by (auto simp: prints_def s2m_switch_def)
qed

lemma length_wire: "length (wire dotu f) = wire_size dotu f"
  by (simp add: wire_def wire_size_def)

lemma prints_message:
  assumes "printable f"
  shows "prints [put32 (of_nat (wire_size dotu f)), put8 (fc_type f), put16 (fc_tag f),
    s2m_switch f dotu] (wire dotu f)"
  unfolding wire_def by (intro prints_Cons prints_putb prints_switch assms)

lemma convS2M_unfold:
  "printable f \<Longrightarrow> convS2M f ap nap dotu =
     (let sz = of_nat (wire_size dotu f) in
      if sz = 0 \<or> sz > nap then Some (0, ap)
      else (case exec [put32 sz, put8 (fc_type f), put16 (fc_tag f), s2m_switch f dotu]
                  \<lparr>sm_buf = ap, sm_p = 0\<rparr> of
              Fault \<Rightarrow> None
            | Quit s \<Rightarrow> Some (0, sm_buf s)
            | Go s \<Rightarrow> if sz \<noteq> of_nat (sm_p s) then Some (0, sm_buf s) else Some (sz, sm_buf s)))"
  by (simp add: convS2M_def sizeS2M_wire Let_def)

lemma unat_wire_size: "wire_size dotu f < 2 ^ 32 \<Longrightarrow> unat (of_nat (wire_size dotu f) :: u32) = wire_size dotu f"
  by (simp add: unat_of_nat_small)

lemma convS2M_fits:
  assumes "printable f" "wire_size dotu f \<le> unat nap" "unat nap \<le> length ap"
  shows "convS2M f ap nap dotu =
    Some (of_nat (wire_size dotu f), wire dotu f @ drop (wire_size dotu f) ap)"
proof -
  have lt: "wire_size dotu f < 2 ^ 32"
    using assms(2) unat_u32_less [of nap] by simp
  have nz: "of_nat (wire_size dotu f) \<noteq> (0 :: u32)"
    using unat_wire_size [OF lt] by (auto simp: wire_size_def)
  have le: "\<not> nap < of_nat (wire_size dotu f)"
    using assms(2) by (simp add: word_less_nat_alt unat_wire_size [OF lt])
  show ?thesis
    using prints_message [OF assms(1), of dotu] assms nz le
    by (simp add: convS2M_unfold prints_def length_wire del: exec.simps)
qed

lemma convS2M_too_big:
  assumes "printable f" "unat nap < wire_size dotu f" "wire_size dotu f < 2 ^ 32"
  shows "convS2M f ap nap dotu = Some (0, ap)"
  using assms by (simp add: convS2M_unfold Let_def word_less_nat_alt unat_wire_size)

end
