(* ===== verification/WireRead.thy ===== *)
theory WireRead
  imports Wire
begin

text \<open>
  The parser reads the wire format back, and stays inside the buffer on every input.
  \<open>reads\<close> is a small program logic for the statement lists of \<^verbatim>\<open>FcallDecode\<close>: the bytes still
  to come, and the strings already placed in the buffer, which no later statement disturbs.
\<close>

section \<open>What parsed messages say\<close>

definition data_is :: "memory \<Rightarrow> ptr \<Rightarrow> byte list \<Rightarrow> bool" where
  "data_is m ptr d = (case ptr of None \<Rightarrow> False | Some q \<Rightarrow> rdn m q (length d) = Some d)"

abbreviation str_is :: "memory \<Rightarrow> ptr \<Rightarrow> byte list \<Rightarrow> bool" where
  "str_is m ptr s \<equiv> data_is m ptr (s @ [0])"

definition same_call :: "bool \<Rightarrow> tx_call \<Rightarrow> memory \<Rightarrow> rx_call \<Rightarrow> bool" where
  "same_call dotu f m r \<longleftrightarrow> fc_type r = fc_type f \<and> fc_tag r = fc_tag f \<and>
    (let ty = fc_type f in
     if ty = Tversion \<or> ty = Rversion then
       fc_msize r = fc_msize f \<and> str_is m (fc_version r) (fc_version f)
     else if ty = Tflush then fc_oldtag r = ucast (ucast (fc_oldtag f) :: u16)
     else if ty = Tauth then
       fc_afid r = fc_afid f \<and> str_is m (fc_uname r) (fc_uname f)
       \<and> str_is m (fc_aname r) (fc_aname f) \<and> (dotu \<longrightarrow> fc_unamenum r = fc_unamenum f)
     else if ty = Tattach then
       fc_fid r = fc_fid f \<and> fc_afid r = fc_afid f \<and> str_is m (fc_uname r) (fc_uname f)
       \<and> str_is m (fc_aname r) (fc_aname f) \<and> (dotu \<longrightarrow> fc_unamenum r = fc_unamenum f)
     else if ty = Twalk then
       fc_fid r = fc_fid f \<and> fc_newfid r = fc_newfid f \<and> fc_nwname r = fc_nwname f
       \<and> (\<forall>i < unat (fc_nwname f). str_is m (fc_wname r ! i) (fc_wname f ! i))
     else if ty = Topen then fc_fid r = fc_fid f \<and> fc_mode r = fc_mode f
     else if ty = Tcreate then
       fc_fid r = fc_fid f \<and> str_is m (fc_name r) (fc_name f) \<and> fc_perm r = fc_perm f
       \<and> fc_mode r = fc_mode f \<and> (dotu \<longrightarrow> str_is m (fc_ext r) (fc_ext f))
     else if ty = Tread then
       fc_fid r = fc_fid f \<and> fc_offset r = fc_offset f \<and> fc_count r = fc_count f
     else if ty = Twrite then
       fc_fid r = fc_fid f \<and> fc_offset r = fc_offset f \<and> fc_count r = fc_count f
       \<and> data_is m (fc_data r) (take (unat (fc_count f)) (fc_data f))
     else if ty = Tclunk \<or> ty = Tremove \<or> ty = Tstat then fc_fid r = fc_fid f
     else if ty = Twstat then
       fc_fid r = fc_fid f \<and> fc_nstat r = fc_nstat f
       \<and> data_is m (fc_stat r) (take (unat (fc_nstat f)) (fc_stat f))
     else if ty = Rerror then
       str_is m (fc_ename r) (fc_ename f) \<and> (dotu \<longrightarrow> fc_errnum r = fc_errnum f)
     else if ty = Rauth then fc_aqid r = fc_aqid f
     else if ty = Rattach then fc_qid r = fc_qid f
     else if ty = Rwalk then
       fc_nwqid r = fc_nwqid f \<and> (\<forall>i < unat (fc_nwqid f). fc_wqid r ! i = fc_wqid f ! i)
     else if ty = Ropen \<or> ty = Rcreate then
       fc_qid r = fc_qid f \<and> fc_iounit r = fc_iounit f
     else if ty = Rread then
       fc_count r = fc_count f \<and> data_is m (fc_data r) (take (unat (fc_count f)) (fc_data f))
     else if ty = Rwrite then fc_count r = fc_count f
     else if ty = Rstat then
       fc_nstat r = fc_nstat f \<and> data_is m (fc_stat r) (take (unat (fc_nstat f)) (fc_stat f))
     else True)"

text \<open>The strings a message carries; the format gives each a 16-bit length.\<close>

definition wire_strings :: "bool \<Rightarrow> 'p Fcall \<Rightarrow> 'p list" where
  "wire_strings dotu f =
    (let ty = fc_type f in
     if ty = Tversion \<or> ty = Rversion then [fc_version f]
     else if ty = Tauth \<or> ty = Tattach then [fc_uname f, fc_aname f]
     else if ty = Twalk then take (unat (fc_nwname f)) (fc_wname f)
     else if ty = Tcreate then fc_name f # (if dotu then [fc_ext f] else [])
     else if ty = Rerror then [fc_ename f]
     else [])"

definition strings_fit :: "bool \<Rightarrow> tx_call \<Rightarrow> bool" where
  "strings_fit dotu f \<longleftrightarrow> (\<forall>s \<in> set (wire_strings dotu f). length s < 65536)"

section \<open>A logic of parsing\<close>

text \<open>\<open>placed m p S\<close>: each entry of \<open>S\<close> lies in \<open>m\<close>, below \<open>p\<close>.\<close>

definition placed :: "memory \<Rightarrow> nat \<Rightarrow> (nat \<times> byte list) list \<Rightarrow> bool" where
  "placed m p S \<longleftrightarrow> (\<forall>(q, d) \<in> set S. q + length d \<le> p \<and> rdn m q (length d) = Some d)"

definition coming :: "nat \<Rightarrow> memory \<Rightarrow> nat \<Rightarrow> byte list \<Rightarrow> bool" where
  "coming ep m p bs \<longleftrightarrow> p + length bs = ep \<and> ep \<le> length m \<and> take (length bs) (drop p m) = bs"

definition reads :: "nat \<Rightarrow> m2s_stmt list \<Rightarrow> rx_call \<Rightarrow> (nat \<times> byte list) list \<Rightarrow> byte list
    \<Rightarrow> (memory \<Rightarrow> rx_call \<Rightarrow> bool) \<Rightarrow> bool" where
  "reads ep cs f S bs Q \<longleftrightarrow> (\<forall>m p. coming ep m p bs \<longrightarrow> placed m p S \<longrightarrow>
     (\<exists>m' f'. exec cs \<lparr>ms_buf = m, ms_p = p, ms_f = f\<rparr> = Go \<lparr>ms_buf = m', ms_p = ep, ms_f = f'\<rparr>
        \<and> Q m' f'))"

lemma coming_append:
  "coming ep m p (bs @ cs) \<longleftrightarrow> coming (p + length bs) m p bs \<and> coming ep m (p + length bs) cs"
proof (cases "p + length bs \<le> length m")
  case True
  then have "length (take (length bs) (drop p m)) = length bs" by simp
  then have "take (length bs + length cs) (drop p m) = bs @ cs \<longleftrightarrow>
      take (length bs) (drop p m) = bs \<and> take (length cs) (drop (p + length bs) m) = cs"
    by (simp add: take_add append_eq_append_conv add.commute)
  with True show ?thesis by (auto simp: coming_def)
qed (auto simp: coming_def)

lemma coming_rdn: "coming ep m p (bs @ cs) \<Longrightarrow> rdn m p (length bs) = Some bs"
  by (simp add: coming_append) (auto simp: coming_def rdn_def)

lemma coming_rdn_at: "coming ep m p (as @ bs @ cs) \<Longrightarrow> rdn m (p + length as) (length bs) = Some bs"
  by (rule coming_rdn [of ep _ _ bs cs]) (simp add: coming_append)

lemma placed_mono: "placed m p S \<Longrightarrow> p \<le> p' \<Longrightarrow> placed m p' S"
  by (fastforce simp: placed_def)

lemma reads_Nil: "(\<And>m p. placed m p S \<Longrightarrow> Q m f) \<Longrightarrow> reads ep [] f S [] Q"
  by (auto simp: reads_def coming_def)

lemma reads_need:
  "n \<le> length bs \<Longrightarrow> reads ep cs f S bs Q \<Longrightarrow> reads ep (need ep n # cs) f S bs Q"
  by (auto simp: reads_def need_def coming_def)

lemma reads_need_f:
  "n f \<le> length bs \<Longrightarrow> reads ep cs f S bs Q \<Longrightarrow> reads ep (need_f ep n # cs) f S bs Q"
  by (auto simp: reads_def need_f_def need_def coming_def)

lemma reads_quit_if: "\<not> b f \<Longrightarrow> reads ep cs f S bs Q \<Longrightarrow> reads ep (quit_if b # cs) f S bs Q"
  by (auto simp: reads_def quit_if_def)

lemma reads_for_n:
  "reads ep (map body [0..<n f] @ cs) f S bs Q \<Longrightarrow> reads ep (for_n n body # cs) f S bs Q"
  by (simp add: reads_def for_n_def exec_append)

lemma reads_step:
  assumes "\<And>m p. coming ep m p (b @ bs) \<Longrightarrow> placed m p S \<Longrightarrow>
      \<exists>m' p' f' S'. c \<lparr>ms_buf = m, ms_p = p, ms_f = f\<rparr> = Go \<lparr>ms_buf = m', ms_p = p', ms_f = f'\<rparr>
        \<and> coming ep m' p' bs \<and> placed m' p' S' \<and> reads ep cs f' S' bs Q"
  shows "reads ep (c # cs) f S (b @ bs) Q"
  unfolding reads_def
proof (intro allI impI)
  fix m p assume "coming ep m p (b @ bs)" "placed m p S"
  then obtain m' p' f' S' where
    c: "c \<lparr>ms_buf = m, ms_p = p, ms_f = f\<rparr> = Go \<lparr>ms_buf = m', ms_p = p', ms_f = f'\<rparr>"
    and "coming ep m' p' bs" "placed m' p' S'" "reads ep cs f' S' bs Q"
    using assms by blast
  then show "\<exists>m' f'. exec (c # cs) \<lparr>ms_buf = m, ms_p = p, ms_f = f\<rparr>
      = Go \<lparr>ms_buf = m', ms_p = ep, ms_f = f'\<rparr> \<and> Q m' f'"
    by (auto simp: reads_def)
qed

context le_codec
begin

lemma reads_getv:
  assumes "reads ep cs (upd v f) S bs Q"
  shows "reads ep (getv w get upd # cs) f S (put v @ bs) Q"
proof (rule reads_step)
  fix m p assume c: "coming ep m p (put v @ bs)" and "placed m p S"
  then have "rdn m p w = Some (put v)" "coming ep m (p + w) bs" "placed m (p + w) S"
    using coming_rdn [OF c] by (simp_all add: coming_append length_put placed_mono)
  then show "\<exists>m' p' f' S'. getv w get upd \<lparr>ms_buf = m, ms_p = p, ms_f = f\<rparr>
      = Go \<lparr>ms_buf = m', ms_p = p', ms_f = f'\<rparr>
      \<and> coming ep m' p' bs \<and> placed m' p' S' \<and> reads ep cs f' S' bs Q"
    using assms by (auto simp: getv_def get_put)
qed

end

lemma gqid_coming:
  assumes "coming ep m p (qid_bytes q @ bs)"
  shows "gqid m p ep = Some (Some (p + 13, q))"
proof -
  have c: "coming ep m p (PBIT8 (q_type q) @ PBIT32 (q_vers q) @ PBIT64 (q_path q) @ bs)"
    using assms by (simp add: qid_bytes_def)
  have "rdn m p 1 = Some (PBIT8 (q_type q))" "rdn m (p + 1) 4 = Some (PBIT32 (q_vers q))"
    "rdn m (5 + p) 8 = Some (PBIT64 (q_path q))"
    using coming_rdn [OF c] coming_rdn_at [OF c]
      coming_rdn_at [of ep m p "PBIT8 (q_type q) @ PBIT32 (q_vers q)" "PBIT64 (q_path q)" bs] c
    by (simp_all add: add.commute)
  moreover have "p + 13 \<le> ep" using assms by (simp add: coming_def)
  ultimately show ?thesis
    by (simp add: gqid_def bit8.get_put bit32.get_put bit64.get_put)
qed

lemma reads_gqd:
  assumes "reads ep cs (upd q f) S bs Q"
  shows "reads ep (gqd ep upd # cs) f S (qid_bytes q @ bs) Q"
proof (rule reads_step)
  fix m p assume c: "coming ep m p (qid_bytes q @ bs)" and "placed m p S"
  then have "coming ep m (p + 13) bs" "placed m (p + 13) S"
    by (simp_all add: coming_append placed_mono)
  then show "\<exists>m' p' f' S'. gqd ep upd \<lparr>ms_buf = m, ms_p = p, ms_f = f\<rparr>
      = Go \<lparr>ms_buf = m', ms_p = p', ms_f = f'\<rparr>
      \<and> coming ep m' p' bs \<and> placed m' p' S' \<and> reads ep cs f' S' bs Q"
    using assms gqid_coming [OF c] by (auto simp: gqd_def)
qed

lemma reads_point:
  assumes "n f = length d" "\<And>q. reads ep cs (upd (Some q) f) ((q, d) # S) bs Q"
  shows "reads ep (point n upd # cs) f S (d @ bs) Q"
proof (rule reads_step)
  fix m p assume c: "coming ep m p (d @ bs)" and "placed m p S"
  then have "coming ep m (p + length d) bs" "placed m (p + length d) ((p, d) # S)"
    using coming_rdn [OF c] placed_mono [of m p S "p + length d"]
    by (auto simp: coming_append placed_def)
  then show "\<exists>m' p' f' S'. point n upd \<lparr>ms_buf = m, ms_p = p, ms_f = f\<rparr>
      = Go \<lparr>ms_buf = m', ms_p = p', ms_f = f'\<rparr>
      \<and> coming ep m' p' bs \<and> placed m' p' S' \<and> reads ep cs f' S' bs Q"
    using assms by (auto simp: point_def)
qed

text \<open>
  \<^verbatim>\<open>gstring\<close> leaves the string, NUL-terminated, one byte below where it was, and changes
  nothing before it or after it.
\<close>

lemma gstring_coming:
  assumes "coming ep m p (str_bytes t @ bs)" "length t < 65536"
  shows "\<exists>m'. gstring m p ep = Some (m', Some (p + length (str_bytes t), p + 1))
    \<and> length m' = length m \<and> take (p + 1) m' = take (p + 1) m
    \<and> drop (p + length (str_bytes t)) m' = drop (p + length (str_bytes t)) m
    \<and> rdn m' (p + 1) (length t + 1) = Some (t @ [0])"
proof -
  let ?n = "length t"
  have c: "coming ep m p (PBIT16 (of_nat ?n) @ t @ bs)"
    using assms(1) by (simp add: str_bytes_def)
  have b: "rdn m p 2 = Some (PBIT16 (of_nat ?n))" and s: "rdn m (p + 2) ?n = Some t"
    using coming_rdn [OF c] coming_rdn_at [OF c] by simp_all
  have le: "p + 2 + ?n \<le> ep" "ep \<le> length m"
    using c by (auto simp: coming_def)
  have n: "unat (GBIT16 (PBIT16 (of_nat ?n))) = ?n"
    using assms(2) by (simp add: bit16.get_put unat_of_nat_small)
  obtain m1 where m1: "wrn m (p + 1) t = Some m1"
    using le by (auto simp: wrn_def)
  then have l1: "length m1 = length m" by (rule length_wrn)
  obtain m2 where m2: "wrn m1 (p + 1 + ?n) [0] = Some m2"
    using le l1 by (auto simp: wrn_def)
  then have l2: "length m2 = length m" using l1 length_wrn by metis
  have "gstring m p ep = Some (m2, Some (p + length (str_bytes t), p + 1))"
    using b s le n m1 m2 by (simp add: gstring_def length_str_bytes)
  moreover have "take (p + 1) m2 = take (p + 1) m"
    using take_wrn [OF m1, of "p + 1"] take_wrn [OF m2, of "p + 1"] by simp
  moreover have "drop (p + length (str_bytes t)) m2 = drop (p + length (str_bytes t)) m"
    using drop_wrn [OF m1, of "p + 2 + ?n"] drop_wrn [OF m2, of "p + 2 + ?n"]
    by (simp add: length_str_bytes)
  moreover have "rdn m2 (p + 1) (?n + 1) = Some (t @ [0])"
    using m1 m2 by (auto simp: wrn_eq_Some_iff rdn_def min_absorb2)
  ultimately show ?thesis using l2 by blast
qed

text \<open>So what is still to come is unchanged, and what was placed before stays.\<close>

lemma coming_cong: "drop p m' = drop p m \<Longrightarrow> length m' = length m \<Longrightarrow> coming ep m' p bs = coming ep m p bs"
  by (simp add: coming_def)

lemma placed_cong:
  assumes "take p m' = take p m" "length m' = length m" "placed m p S"
  shows "placed m' p S"
  using assms(3) rdn_cong_take [OF assms(1,2)] unfolding placed_def by fastforce

lemma reads_gstr:
  assumes "length t < 65536"
    and "\<And>q. reads ep cs (upd (Some q) f) ((q, t @ [0]) # S) bs Q"
  shows "reads ep (gstr ep upd # cs) f S (str_bytes t @ bs) Q"
proof (rule reads_step)
  fix m p assume c: "coming ep m p (str_bytes t @ bs)" and pl: "placed m p S"
  obtain m' where g: "gstring m p ep = Some (m', Some (p + length (str_bytes t), p + 1))"
    and m': "length m' = length m" "take (p + 1) m' = take (p + 1) m"
      "drop (p + length (str_bytes t)) m' = drop (p + length (str_bytes t)) m"
    and r: "rdn m' (p + 1) (length t + 1) = Some (t @ [0])"
    using gstring_coming [OF c assms(1)] by blast
  have "coming ep m' (p + length (str_bytes t)) bs"
    using c coming_cong [OF m'(3,1)] by (simp add: coming_append)
  moreover have "placed m' (p + 1) S"
    using placed_cong [OF m'(2,1)] placed_mono [OF pl] by simp
  then have "placed m' (p + length (str_bytes t)) ((p + 1, t @ [0]) # S)"
    using r placed_mono [of m' "p + 1" S "p + length (str_bytes t)"]
    by (simp add: placed_def length_str_bytes)
  ultimately show "\<exists>m' p' f' S'. gstr ep upd \<lparr>ms_buf = m, ms_p = p, ms_f = f\<rparr>
      = Go \<lparr>ms_buf = m', ms_p = p', ms_f = f'\<rparr>
      \<and> coming ep m' p' bs \<and> placed m' p' S' \<and> reads ep cs f' S' bs Q"
    using assms(2) g by (auto simp: gstr_def)
qed

lemma upt_from: "[i..<i + Suc n] = i # [Suc i..<Suc i + n]"
  by (simp add: upt_rec)

text \<open>The loop over \<^verbatim>\<open>wname\<close>: the strings come in order, each is stored at its index.\<close>

lemma reads_wnames:
  assumes "\<forall>t \<in> set ts. length t < 65536" "i + length ts \<le> length (fc_wname f)"
    "\<And>qs S'. length qs = length ts \<Longrightarrow> set S \<subseteq> set S'
      \<Longrightarrow> \<forall>j < length ts. \<exists>q. qs ! j = Some q \<and> (q, ts ! j @ [0]) \<in> set S'
      \<Longrightarrow> reads ep cs (f\<lparr>fc_wname := take i (fc_wname f) @ qs @ drop (i + length ts) (fc_wname f)\<rparr>)
            S' bs Q"
  shows "reads ep (map (gstr_wname ep) [i..<i + length ts] @ cs) f S
    (concat (map str_bytes ts) @ bs) Q"
  using assms
proof (induction ts arbitrary: i f S)
  case Nil
  from Nil.prems(3) [of "[]" S] show ?case by simp
next
  case (Cons t ts)
  let ?upd = "\<lambda>q f. f\<lparr>fc_wname := (fc_wname f)[i := q]\<rparr>"
  have i: "i < length (fc_wname f)" using Cons.prems(2) by simp
  have step: "reads ep (gstr ep ?upd # map (gstr_wname ep) [Suc i..<Suc i + length ts] @ cs) f S
      (str_bytes t @ concat (map str_bytes ts) @ bs) Q"
  proof (rule reads_gstr)
    show "length t < 65536" using Cons.prems(1) by simp
    fix q
    show "reads ep (map (gstr_wname ep) [Suc i..<Suc i + length ts] @ cs)
      (?upd (Some q) f) ((q, t @ [0]) # S) (concat (map str_bytes ts) @ bs) Q"
    proof (rule Cons.IH)
      show "\<forall>t \<in> set ts. length t < 65536" using Cons.prems(1) by simp
      show "Suc i + length ts \<le> length (fc_wname (?upd (Some q) f))" using Cons.prems(2) by simp
      fix qs S'
      assume l: "length qs = length ts" and S': "set ((q, t @ [0]) # S) \<subseteq> set S'"
        and pl: "\<forall>j < length ts. \<exists>q. qs ! j = Some q \<and> (q, ts ! j @ [0]) \<in> set S'"
      have "reads ep cs (f\<lparr>fc_wname := take i (fc_wname f) @ (Some q # qs)
          @ drop (i + length (t # ts)) (fc_wname f)\<rparr>) S' bs Q"
        using S' pl l by (intro Cons.prems(3)) (auto simp: nth_Cons split: nat.splits)
      then show "reads ep cs (?upd (Some q) f\<lparr>fc_wname := take (Suc i) (fc_wname (?upd (Some q) f))
          @ qs @ drop (Suc i + length ts) (fc_wname (?upd (Some q) f))\<rparr>) S' bs Q"
        using i by (simp add: take_Suc_conv_app_nth)
    qed
  qed
  have "gstr_wname ep i \<lparr>ms_buf = m, ms_p = p, ms_f = f\<rparr> = gstr ep ?upd \<lparr>ms_buf = m, ms_p = p, ms_f = f\<rparr>"
    for m p using i by (simp add: gstr_wname_def)
  with step show ?case
    unfolding reads_def length_Cons upt_from by simp
qed

lemma reads_wqids:
  assumes "i + length ts \<le> length (fc_wqid f)"
    "reads ep cs (f\<lparr>fc_wqid := take i (fc_wqid f) @ ts @ drop (i + length ts) (fc_wqid f)\<rparr>) S bs Q"
  shows "reads ep (map (gqd_wqid ep) [i..<i + length ts] @ cs) f S
    (concat (map qid_bytes ts) @ bs) Q"
  using assms
proof (induction ts arbitrary: i f)
  case Nil
  then show ?case by simp
next
  case (Cons t ts)
  let ?upd = "\<lambda>q f. f\<lparr>fc_wqid := (fc_wqid f)[i := q]\<rparr>"
  have i: "i < length (fc_wqid f)" using Cons.prems(1) by simp
  have "reads ep (map (gqd_wqid ep) [Suc i..<Suc i + length ts] @ cs) (?upd t f) S
      (concat (map qid_bytes ts) @ bs) Q"
    using Cons.prems i by (intro Cons.IH) (simp_all add: take_Suc_conv_app_nth)
  then have step: "reads ep (gqd ep ?upd # map (gqd_wqid ep) [Suc i..<Suc i + length ts] @ cs) f S
      (qid_bytes t @ concat (map qid_bytes ts) @ bs) Q"
    by (rule reads_gqd)
  have "gqd_wqid ep i \<lparr>ms_buf = m, ms_p = p, ms_f = f\<rparr> = gqd ep ?upd \<lparr>ms_buf = m, ms_p = p, ms_f = f\<rparr>"
    for m p using i by (simp add: gqd_wqid_def)
  with step show ?case
    unfolding reads_def length_Cons upt_from by simp
qed

lemmas m2s_arm_defs =
  m2s_Tversion_def m2s_Tflush_def m2s_Tauth_def m2s_Tattach_def m2s_Twalk_def m2s_Topen_def
  m2s_Tcreate_def m2s_Tread_def m2s_Twrite_def m2s_Tclunk_def m2s_Tstat_def m2s_Twstat_def
  m2s_Rversion_def m2s_Rerror_def m2s_Rauth_def m2s_Rattach_def m2s_Rwalk_def m2s_Ropen_def
  m2s_Rread_def m2s_Rwrite_def m2s_Rstat_def

lemmas reads_getvs =
  bit8.reads_getv bit16.reads_getv bit32.reads_getv bit64.reads_getv
  bit8.reads_getv [where bs = "[]", simplified append_Nil2]
  bit16.reads_getv [where bs = "[]", simplified append_Nil2]
  bit32.reads_getv [where bs = "[]", simplified append_Nil2]
  bit64.reads_getv [where bs = "[]", simplified append_Nil2]

lemmas reads_lasts =
  reads_gstr [where bs = "[]", simplified append_Nil2]
  reads_gqd [where bs = "[]", simplified append_Nil2]
  reads_point [where bs = "[]", simplified append_Nil2]

lemmas reads_intros =
  reads_need reads_need_f reads_getvs reads_gstr reads_gqd reads_point reads_lasts

section \<open>Reading the messages back\<close>

lemma reads_Twalk:
  assumes "length (fc_wname f) = 16" "length (fc_wname r) = 16" "unat (fc_nwname f) \<le> 16"
    "\<forall>t \<in> set (take (unat (fc_nwname f)) (fc_wname f)). length t < 65536"
    "fc_type r = fc_type f" "fc_tag r = fc_tag f" "fc_type f = Twalk"
  shows "reads ep (m2s_Twalk ep) r [] (wire_payload dotu f) (same_call dotu f)"
proof -
  let ?ts = "take (unat (fc_nwname f)) (fc_wname f)"
  have l: "length ?ts = unat (fc_nwname f)" using assms by simp
  let ?r = "r\<lparr>fc_fid := fc_fid f, fc_newfid := fc_newfid f, fc_nwname := fc_nwname f\<rparr>"
  have names: "reads ep (map (gstr_wname ep) [0..<0 + length ?ts] @ []) ?r []
    (concat (map str_bytes ?ts) @ []) (same_call dotu f)"
  proof (rule reads_wnames)
    fix qs :: "ptr list" and S'
    assume "length qs = length ?ts" "\<forall>j < length ?ts. \<exists>q. qs ! j = Some q \<and> (q, ?ts ! j @ [0]) \<in> set S'"
    then show "reads ep [] (?r\<lparr>fc_wname := take 0 (fc_wname ?r) @ qs @ drop (0 + length ?ts) (fc_wname ?r)\<rparr>)
      S' [] (same_call dotu f)"
      using assms l by (intro reads_Nil) (fastforce simp: same_call_def data_is_def placed_def nth_append)
  qed (use assms in simp_all)
  show ?thesis
    unfolding m2s_Twalk_def
    using names assms l
    by (simp add: wire_payload_def Let_def)
      (intro reads_intros reads_quit_if reads_for_n; simp)
qed

lemma reads_Rwalk:
  assumes "length (fc_wqid f) = 16" "length (fc_wqid r) = 16" "unat (fc_nwqid f) \<le> 16"
    "fc_type r = fc_type f" "fc_tag r = fc_tag f" "fc_type f = Rwalk"
  shows "reads ep (m2s_Rwalk ep) r [] (wire_payload dotu f) (same_call dotu f)"
proof -
  let ?ts = "take (unat (fc_nwqid f)) (fc_wqid f)"
  have l: "length ?ts = unat (fc_nwqid f)" using assms by simp
  let ?r = "r\<lparr>fc_nwqid := fc_nwqid f\<rparr>"
  have qids: "reads ep (map (gqd_wqid ep) [0..<0 + length ?ts] @ []) ?r []
    (concat (map qid_bytes ?ts) @ []) (same_call dotu f)"
    using assms l by (intro reads_wqids reads_Nil) (auto simp: same_call_def nth_append)
  show ?thesis
    unfolding m2s_Rwalk_def
    using qids assms l
    by (simp add: wire_payload_def Let_def)
      (intro reads_intros reads_quit_if reads_for_n; simp)
qed

lemma reads_arm:
  assumes "printable f" "strings_fit dotu f" "length (fc_wname r) = 16" "length (fc_wqid r) = 16"
    "fc_type r = fc_type f" "fc_tag r = fc_tag f"
  shows "\<exists>cs. m2s_arm ep dotu (fc_type f) = Some cs
     \<and> reads ep cs r [] (wire_payload dotu f) (same_call dotu f)"
proof -
  have w: "length (fc_wname f) = 16" "length (fc_wqid f) = 16"
    using assms by (auto simp: printable_def)
  have n: "fc_type f = Twalk \<Longrightarrow> unat (fc_nwname f) \<le> 16"
    "fc_type f = Rwalk \<Longrightarrow> unat (fc_nwqid f) \<le> 16"
    "fc_type f = Twrite \<or> fc_type f = Rread \<Longrightarrow> unat (fc_count f) \<le> length (fc_data f)"
    "fc_type f = Twstat \<or> fc_type f = Rstat \<Longrightarrow> unat (fc_nstat f) \<le> length (fc_stat f)"
    using assms by (auto simp: printable_def)
  have "fc_type f \<in> msg_types" using assms by (simp add: printable_def)
  then show ?thesis
  proof (cases "fc_type f = Twalk \<or> fc_type f = Rwalk")
    case True
    then show ?thesis
      using reads_Twalk [of f r ep dotu] reads_Rwalk [of f r ep dotu] assms w n
      by (auto simp: m2s_arm_def strings_fit_def wire_strings_def)
  next
    case False
    with assms(1) show ?thesis
      using assms(2-) unfolding printable_def msg_types_def
      by (elim conjE insertE emptyE; cases dotu)
        (simp_all add: m2s_arm_def m2s_arm_defs wire_payload_def Let_def n strings_fit_def
          wire_strings_def del: One_nat_def,
         (intro reads_intros reads_Nil; simp add: n same_call_def data_is_def placed_def)+)
  qed
qed

lemma reads_switch:
  "m2s_arm ep dotu (fc_type r) = Some cs \<Longrightarrow> reads ep cs r S bs Q
     \<Longrightarrow> reads ep [m2s_switch ep dotu] r S bs Q"
  by (simp add: reads_def m2s_switch_def exec_single del: exec.simps(2))

lemma convM2S_wire:
  assumes "printable f" "strings_fit dotu f" "wire_size dotu f < 2 ^ 32"
    and "take (wire_size dotu f) ap = wire dotu f"
    and "length (fc_wname r) = 16" "length (fc_wqid r) = 16"
  shows "\<exists>ap' r'. convM2S ap (wire_size dotu f) r dotu = Some (wire_size dotu f, ap', r')
    \<and> same_call dotu f ap' r'"
proof -
  let ?n = "wire_size dotu f"
  let ?bs = "PBIT8 (fc_type f) @ PBIT16 (fc_tag f) @ wire_payload dotu f"
  let ?r = "r\<lparr>fc_type := fc_type f, fc_tag := fc_tag f\<rparr>"
  have le: "?n \<le> length ap"
    using assms(4) length_wire [of dotu f] by (metis length_take min.absorb_iff2 min.commute)
  have c: "coming ?n ap 0 (PBIT32 (of_nat ?n) @ ?bs)"
    using assms(4) le by (simp add: coming_def wire_def wire_size_def)
  then have hd: "rdn ap 0 4 = Some (PBIT32 (of_nat ?n))" and c4: "coming ?n ap 4 ?bs"
    using coming_rdn [OF c] by (simp_all add: coming_append del: append_assoc)
  have sz: "unat (GBIT32 (PBIT32 (of_nat ?n))) = ?n"
    by (simp add: bit32.get_put unat_wire_size [OF assms(3)])
  obtain cs where "m2s_arm ?n dotu (fc_type ?r) = Some cs"
    "reads ?n cs ?r [] (wire_payload dotu f) (same_call dotu f)"
    using reads_arm [OF assms(1,2), of ?r ?n] assms(5,6) by auto
  then have "reads ?n [m2s_switch ?n dotu] ?r [] (wire_payload dotu f) (same_call dotu f)"
    by (rule reads_switch)
  then have "reads ?n [get8 (\<lambda>v f. f\<lparr>fc_type := v\<rparr>), get16 (\<lambda>v f. f\<lparr>fc_tag := v\<rparr>),
      m2s_switch ?n dotu] r [] ?bs (same_call dotu f)"
    by (intro reads_getvs) simp
  moreover have "placed ap 4 []" by (simp add: placed_def)
  ultimately obtain m' f' where "exec [get8 (\<lambda>v f. f\<lparr>fc_type := v\<rparr>), get16 (\<lambda>v f. f\<lparr>fc_tag := v\<rparr>),
      m2s_switch ?n dotu] \<lparr>ms_buf = ap, ms_p = 4, ms_f = r\<rparr>
      = Go \<lparr>ms_buf = m', ms_p = ?n, ms_f = f'\<rparr>" "same_call dotu f m' f'"
    using c4 unfolding reads_def by blast
  then show ?thesis
    using hd sz by (simp add: convM2S_def Let_def wire_size_def del: exec.simps)
qed

section \<open>The parser stays inside its buffer\<close>

text \<open>
  \<open>within ep L D k s\<close>: the buffer has \<open>L\<close> bytes, of which those from \<open>ep\<close> on are still
  \<open>D\<close>; \<open>k\<close> bytes are known to follow the read pointer; the arrays are whole.
\<close>

definition within :: "nat \<Rightarrow> nat \<Rightarrow> byte list \<Rightarrow> nat \<Rightarrow> m2s \<Rightarrow> bool" where
  "within ep L D k s \<longleftrightarrow> length (ms_buf s) = L \<and> ep \<le> L \<and> drop ep (ms_buf s) = D
     \<and> ms_p s + k \<le> ep \<and> length (fc_wname (ms_f s)) = 16 \<and> length (fc_wqid (ms_f s)) = 16"

definition safe :: "nat \<Rightarrow> nat \<Rightarrow> byte list \<Rightarrow> nat \<Rightarrow> m2s_stmt list \<Rightarrow> bool" where
  "safe ep L D k cs \<longleftrightarrow> (\<forall>s. within ep L D k s \<longrightarrow> holds (within ep L D 0) (exec cs s))"

definition whole :: "(rx_call \<Rightarrow> rx_call) \<Rightarrow> bool" where
  "whole g \<longleftrightarrow> (\<forall>f. length (fc_wname (g f)) = length (fc_wname f)
     \<and> length (fc_wqid (g f)) = length (fc_wqid f))"

lemma within_le: "within ep L D k s \<Longrightarrow> j \<le> k \<Longrightarrow> within ep L D j s"
  by (simp add: within_def)

lemma safe_Nil: "safe ep L D k []"
  by (simp add: safe_def within_def)

lemma safe_need: "safe ep L D n cs \<Longrightarrow> safe ep L D k (need ep n # cs)"
  by (auto simp: safe_def need_def within_def)

lemma safe_getv:
  assumes "w \<le> k" "\<And>v. whole (upd v)" "safe ep L D (k - w) cs"
  shows "safe ep L D k (getv w g upd # cs)"
  unfolding safe_def
proof (intro allI impI)
  fix s assume s: "within ep L D k s"
  then obtain b where b: "rdn (ms_buf s) (ms_p s) w = Some b"
    using assms(1) by (auto simp: within_def rdn_def)
  have "within ep L D (k - w) (s\<lparr>ms_p := ms_p s + w, ms_f := upd (g b) (ms_f s)\<rparr>)"
    using s assms(1,2) by (auto simp: within_def whole_def)
  then show "holds (within ep L D 0) (exec (getv w g upd # cs) s)"
    using b assms(3) by (simp add: getv_def safe_def)
qed

lemma gstring_within:
  assumes "p + k \<le> ep" "ep \<le> length m"
  shows "\<exists>m' o'. gstring m p ep = Some (m', o') \<and> length m' = length m
    \<and> drop ep m' = drop ep m \<and> (\<forall>p' q. o' = Some (p', q) \<longrightarrow> p' \<le> ep)"
proof (cases "p + 2 > ep")
  case True
  then show ?thesis by (simp add: gstring_def)
next
  case False
  then obtain b where b: "rdn m p 2 = Some b" using assms by (auto simp: rdn_def)
  let ?n = "unat (GBIT16 b)"
  show ?thesis
  proof (cases "p + 1 + ?n + 1 > ep")
    case True
    with False b show ?thesis by (simp add: gstring_def)
  next
    case le: False
    then obtain s where s: "rdn m (p + 2) ?n = Some s" using assms by (auto simp: rdn_def)
    then have ls: "length s = ?n" by (rule length_rdn)
    obtain m1 where m1: "wrn m (p + 1) s = Some m1" using le ls assms by (auto simp: wrn_def)
    then have l1: "length m1 = length m" by (rule length_wrn)
    obtain m2 where m2: "wrn m1 (p + 1 + ?n) [0] = Some m2"
      using le l1 assms by (auto simp: wrn_def)
    have "drop ep m2 = drop ep m" "length m2 = length m"
      using drop_wrn [OF m1, of ep] drop_wrn [OF m2, of ep] le ls l1 length_wrn [OF m2] by simp_all
    moreover have "gstring m p ep = Some (m2, Some (p + 1 + (?n + 1), p + 1))"
      using False le b s m1 m2 by (simp add: gstring_def)
    ultimately show ?thesis using le by simp
  qed
qed

lemma keeps_gstr:
  assumes "\<And>q. whole (upd q)"
  shows "within ep L D k s \<Longrightarrow> holds (within ep L D 0) (gstr ep upd s)"
  using gstring_within [of "ms_p s" k ep "ms_buf s"] assms
  by (auto simp: within_def gstr_def whole_def split: option.splits)

lemma safe_gstr:
  assumes "\<And>q. whole (upd q)" "safe ep L D 0 cs"
  shows "safe ep L D k (gstr ep upd # cs)"
  unfolding safe_def
proof (intro allI impI)
  fix s assume "within ep L D k s"
  then have "holds (within ep L D 0) (gstr ep upd s)" by (rule keeps_gstr [OF assms(1)])
  then show "holds (within ep L D 0) (exec (gstr ep upd # cs) s)"
    using assms(2) by (cases "gstr ep upd s") (auto simp: safe_def)
qed

lemma gqid_within:
  assumes "p + k \<le> ep" "ep \<le> length m"
  shows "\<exists>o'. gqid m p ep = Some o' \<and> (\<forall>p' q. o' = Some (p', q) \<longrightarrow> p' \<le> ep)"
  using assms by (auto simp: gqid_def mem_simps)

lemma keeps_gqd:
  assumes "\<And>q. whole (upd q)"
  shows "within ep L D k s \<Longrightarrow> holds (within ep L D 0) (gqd ep upd s)"
  using gqid_within [of "ms_p s" k ep "ms_buf s"] assms
  by (auto simp: within_def gqd_def whole_def split: option.splits)

lemma safe_gqd:
  assumes "\<And>q. whole (upd q)" "safe ep L D 0 cs"
  shows "safe ep L D k (gqd ep upd # cs)"
  unfolding safe_def
proof (intro allI impI)
  fix s assume "within ep L D k s"
  then have "holds (within ep L D 0) (gqd ep upd s)" by (rule keeps_gqd [OF assms(1)])
  then show "holds (within ep L D 0) (exec (gqd ep upd # cs) s)"
    using assms(2) by (cases "gqd ep upd s") (auto simp: safe_def)
qed

lemma safe_point:
  assumes "\<And>q. whole (upd q)"
  shows "safe ep L D k [need_f ep n, point n upd]"
  using assms by (auto simp: safe_def need_f_def need_def point_def within_def whole_def)

text \<open>The index check is what keeps the loops inside the arrays.\<close>

lemma safe_wnames:
  "safe ep L D k [quit_if (\<lambda>f. unat (fc_nwname f) > MAXWELEM),
     for_n (\<lambda>f. unat (fc_nwname f)) (gstr_wname ep)]"
  unfolding safe_def
proof (intro allI impI)
  fix s assume s: "within ep L D k s"
  show "holds (within ep L D 0) (exec [quit_if (\<lambda>f. unat (fc_nwname f) > MAXWELEM),
     for_n (\<lambda>f. unat (fc_nwname f)) (gstr_wname ep)] s)"
  proof (cases "unat (fc_nwname (ms_f s)) > MAXWELEM")
    case True
    then show ?thesis using s within_le [OF s, of 0] by (simp add: quit_if_def)
  next
    case False
    have "keeps (within ep L D 0) (gstr_wname ep i)" if "i < 16" for i
      using that keeps_gstr [of "\<lambda>q f. f\<lparr>fc_wname := (fc_wname f)[i := q]\<rparr>" ep L D 0]
      by (auto intro!: keepsI simp: gstr_wname_def whole_def within_def)
    then have "holds (within ep L D 0)
        (exec (map (gstr_wname ep) [0..<unat (fc_nwname (ms_f s))]) s)"
      using False within_le [OF s, of 0] by (intro holds_exec) auto
    then show ?thesis
      using False by (simp add: exec_Go_Cons quit_if_def for_n_def exec_single del: exec.simps)
  qed
qed

lemma safe_wqids:
  "safe ep L D k [quit_if (\<lambda>f. unat (fc_nwqid f) > MAXWELEM),
     for_n (\<lambda>f. unat (fc_nwqid f)) (gqd_wqid ep)]"
  unfolding safe_def
proof (intro allI impI)
  fix s assume s: "within ep L D k s"
  show "holds (within ep L D 0) (exec [quit_if (\<lambda>f. unat (fc_nwqid f) > MAXWELEM),
     for_n (\<lambda>f. unat (fc_nwqid f)) (gqd_wqid ep)] s)"
  proof (cases "unat (fc_nwqid (ms_f s)) > MAXWELEM")
    case True
    then show ?thesis using s within_le [OF s, of 0] by (simp add: quit_if_def)
  next
    case False
    have "keeps (within ep L D 0) (gqd_wqid ep i)" if "i < 16" for i
      using that keeps_gqd [of "\<lambda>q f. f\<lparr>fc_wqid := (fc_wqid f)[i := q]\<rparr>" ep L D 0]
      by (auto intro!: keepsI simp: gqd_wqid_def whole_def within_def)
    then have "holds (within ep L D 0)
        (exec (map (gqd_wqid ep) [0..<unat (fc_nwqid (ms_f s))]) s)"
      using False within_le [OF s, of 0] by (intro holds_exec) auto
    then show ?thesis
      using False by (simp add: exec_Go_Cons quit_if_def for_n_def exec_single del: exec.simps)
  qed
qed

lemmas safe_intros =
  safe_wnames safe_wqids safe_point safe_need safe_getv safe_gstr safe_gqd safe_Nil

lemma safe_arm: "m2s_arm ep dotu ty = Some cs \<Longrightarrow> safe ep L D 0 cs"
  unfolding m2s_arm_def
  by (cases dotu)
    (auto simp: m2s_arm_defs simp del: One_nat_def split: if_splits
      intro!: safe_intros simp: whole_def)

lemma safe_message:
  "safe ep L D 3 [get8 (\<lambda>v f. f\<lparr>fc_type := v\<rparr>), get16 (\<lambda>v f. f\<lparr>fc_tag := v\<rparr>), m2s_switch ep dotu]"
proof -
  have "safe ep L D 0 [m2s_switch ep dotu]"
    unfolding safe_def exec_single
    using safe_arm by (fastforce simp: safe_def m2s_switch_def split: option.splits)
  then show ?thesis
    by (intro safe_intros) (simp_all add: whole_def)
qed

text \<open>The message type is the byte at offset 4, and it is one the parser knows.\<close>

lemma m2s_arm_types: "m2s_arm ep dotu ty = Some cs \<Longrightarrow> ty \<in> msg_types"
  by (auto simp: m2s_arm_def msg_types_def split: if_splits)

lemma convM2S_within:
  assumes "nap \<le> length ap" "length (fc_wname f) = 16" "length (fc_wqid f) = 16"
  shows "\<exists>n ap' f'. convM2S ap nap f dotu = Some (n, ap', f') \<and> length ap' = length ap
     \<and> drop nap ap' = drop nap ap \<and> length (fc_wname f') = 16 \<and> length (fc_wqid f') = 16
     \<and> (n \<noteq> 0 \<longrightarrow> 7 \<le> n \<and> n \<le> nap)"
proof (cases "nap < 7")
  case True
  then show ?thesis using assms by (simp add: convM2S_def)
next
  case False
  then obtain b where b: "rdn ap 0 4 = Some b" using assms by (auto simp: rdn_def)
  let ?n = "unat (GBIT32 b)"
  let ?e = "exec [get8 (\<lambda>v f. f\<lparr>fc_type := v\<rparr>), get16 (\<lambda>v f. f\<lparr>fc_tag := v\<rparr>), m2s_switch nap dotu]
    \<lparr>ms_buf = ap, ms_p = 4, ms_f = f\<rparr>"
  have "within nap (length ap) (drop nap ap) 3 \<lparr>ms_buf = ap, ms_p = 4, ms_f = f\<rparr>"
    using assms False by (simp add: within_def)
  then have h: "holds (within nap (length ap) (drop nap ap) 0) ?e"
    using safe_message by (simp only: safe_def)
  show ?thesis
  proof (cases "nap < ?n \<or> ?n < 7")
    case True
    then show ?thesis using assms False b by (auto simp: convM2S_def Let_def)
  next
    case ok: False
    have eq: "convM2S ap nap f dotu = (case ?e of Fault \<Rightarrow> None
        | Quit s \<Rightarrow> Some (0, ms_buf s, ms_f s)
        | Go s \<Rightarrow> if ms_p s > nap then Some (0, ms_buf s, ms_f s)
              else if ?n = ms_p s then Some (?n, ms_buf s, ms_f s)
              else Some (0, ms_buf s, ms_f s))"
      using ok False b by (simp add: convM2S_def Let_def del: exec.simps cong: outcome.case_cong)
    show ?thesis
      using h ok unfolding eq by (cases ?e) (auto simp: within_def)
  qed
qed

section \<open>Where the parsed pointers point\<close>

text \<open>No statement changes a field it does not name; in particular none changes the type.\<close>

definition keeps_type :: "m2s_stmt \<Rightarrow> bool" where
  "keeps_type c \<longleftrightarrow> (\<forall>s s'. c s = Go s' \<longrightarrow> fc_type (ms_f s') = fc_type (ms_f s))"

lemma keeps_type_exec:
  "\<forall>c \<in> set cs. keeps_type c \<Longrightarrow> exec cs s = Go s' \<Longrightarrow> fc_type (ms_f s') = fc_type (ms_f s)"
  by (induction cs arbitrary: s) (auto simp: keeps_type_def split: outcome.splits)

lemma keeps_type_stmts:
  "keeps_type (need ep n)" "keeps_type (need_f ep k)" "keeps_type (quit_if b)"
  "(\<And>v f. fc_type (updv v f) = fc_type f) \<Longrightarrow> keeps_type (getv w g updv)"
  "(\<And>q f. fc_type (updp q f) = fc_type f) \<Longrightarrow> keeps_type (point k updp)"
  "(\<And>q f. fc_type (updp q f) = fc_type f) \<Longrightarrow> keeps_type (gstr ep updp)"
  "(\<And>q f. fc_type (updq q f) = fc_type f) \<Longrightarrow> keeps_type (gqd ep updq)"
  "(\<And>i. keeps_type (body i)) \<Longrightarrow> keeps_type (for_n k body)"
  by (auto simp: keeps_type_def need_def need_f_def quit_if_def point_def getv_def gstr_def
      gqd_def for_n_def split: option.splits if_splits
      dest!: keeps_type_exec [rotated, unfolded keeps_type_def])

lemma keeps_type_wname: "keeps_type (gstr_wname ep i)"
  using keeps_type_stmts(6) [of "\<lambda>q f. f\<lparr>fc_wname := (fc_wname f)[i := q]\<rparr>" ep]
  by (auto simp: keeps_type_def gstr_wname_def split: if_splits)

lemma keeps_type_wqid: "keeps_type (gqd_wqid ep i)"
  using keeps_type_stmts(7) [of "\<lambda>q f. f\<lparr>fc_wqid := (fc_wqid f)[i := q]\<rparr>" ep]
  by (auto simp: keeps_type_def gqd_wqid_def split: if_splits)

lemma keeps_type_arm: "m2s_arm ep dotu ty = Some cs \<Longrightarrow> c \<in> set cs \<Longrightarrow> keeps_type c"
  unfolding m2s_arm_def
  by (cases dotu)
    (auto simp: m2s_arm_defs simp del: One_nat_def split: if_splits
      intro!: keeps_type_stmts keeps_type_wname keeps_type_wqid)

text \<open>A successful parse has run the arm of its type to the end of the message.\<close>

lemma convM2S_success:
  assumes "convM2S ap nap f dotu = Some (n, ap', f')" "n \<noteq> 0"
  shows "\<exists>b t u cs. m2s_arm nap dotu (fc_type f') = Some cs
    \<and> exec cs \<lparr>ms_buf = ap, ms_p = 7, ms_f = f\<lparr>fc_type := t, fc_tag := u\<rparr>\<rparr>
        = Go \<lparr>ms_buf = ap', ms_p = n, ms_f = f'\<rparr>
    \<and> n \<le> nap \<and> rdn ap 0 4 = Some b \<and> unat (GBIT32 b) = n"
proof -
  obtain s b where s: "exec [get8 (\<lambda>v f. f\<lparr>fc_type := v\<rparr>), get16 (\<lambda>v f. f\<lparr>fc_tag := v\<rparr>),
      m2s_switch nap dotu] \<lparr>ms_buf = ap, ms_p = 4, ms_f = f\<rparr> = Go s"
      "n = ms_p s" "ap' = ms_buf s" "f' = ms_f s" "n \<le> nap"
      "rdn ap 0 4 = Some b" "unat (GBIT32 b) = n"
    using assms
    by (auto simp: convM2S_def Let_def simp del: exec.simps split: if_splits option.splits outcome.splits
        Option.bind_splits)
  then obtain t u where "rdn ap 4 1 = Some t" "rdn ap 5 2 = Some u"
      and sw: "m2s_switch nap dotu \<lparr>ms_buf = ap, ms_p = 7,
        ms_f = f\<lparr>fc_type := GBIT8 t, fc_tag := GBIT16 u\<rparr>\<rparr> = Go s"
    by (auto simp: getv_def split: option.splits outcome.splits)
  then obtain cs where cs: "m2s_arm nap dotu (GBIT8 t) = Some cs"
      "exec cs \<lparr>ms_buf = ap, ms_p = 7, ms_f = f\<lparr>fc_type := GBIT8 t, fc_tag := GBIT16 u\<rparr>\<rparr> = Go s"
    by (auto simp: m2s_switch_def split: option.splits)
  then have "fc_type (ms_f s) = GBIT8 t"
    using keeps_type_exec [of cs] keeps_type_arm [OF cs(1)] by fastforce
  with cs s show ?thesis
    by (intro exI [of _ b] exI [of _ "GBIT8 t"] exI [of _ "GBIT16 u"] exI [of _ cs])
      (simp del: exec.simps)
qed

lemma convM2S_Rread:
  assumes "convM2S ap nap f dotu = Some (n, ap', f')" "n \<noteq> 0" "fc_type f' = Rread"
  shows "\<exists>q. fc_data f' = Some q \<and> q + unat (fc_count f') = n"
  using convM2S_success [OF assms(1,2)] assms(3)
  by (auto simp: m2s_arm_def m2s_Rread_def need_def need_f_def getv_def point_def
      split: if_splits option.splits)

lemma convM2S_Rstat:
  assumes "convM2S ap nap f dotu = Some (n, ap', f')" "n \<noteq> 0" "fc_type f' = Rstat"
  shows "\<exists>q b. fc_stat f' = Some q \<and> 9 \<le> q \<and> q + unat (fc_nstat f') = n
    \<and> rdn ap' 0 4 = Some b \<and> unat (GBIT32 b) = n"
  using convM2S_success [OF assms(1,2)] assms(3)
  by (auto simp: m2s_arm_def m2s_Rstat_def need_def need_f_def getv_def point_def
      split: if_splits option.splits)

lemma convM2S_Rwalk:
  assumes "convM2S ap nap f dotu = Some (n, ap', f')" "n \<noteq> 0" "fc_type f' = Rwalk"
  shows "unat (fc_nwqid f') \<le> 16"
proof -
  obtain t u cs where cs: "m2s_arm nap dotu Rwalk = Some cs"
    "exec cs \<lparr>ms_buf = ap, ms_p = 7, ms_f = f\<lparr>fc_type := t, fc_tag := u\<rparr>\<rparr>
       = Go \<lparr>ms_buf = ap', ms_p = n, ms_f = f'\<rparr>"
    using convM2S_success [OF assms(1,2)] assms(3) by auto
  have keep: "fc_nwqid (ms_f s') = fc_nwqid (ms_f s)"
    if "exec (map (gqd_wqid nap) is) s = Go s'" for s s' "is"
    using that
    by (induction "is" arbitrary: s)
      (fastforce simp: gqd_wqid_def gqd_def split: outcome.splits if_splits option.splits)+
  from cs show ?thesis
    by (auto simp: m2s_arm_def m2s_Rwalk_def need_def getv_def quit_if_def for_n_def
        split: if_splits option.splits outcome.splits dest!: keep)
qed

text \<open>An error reply sets no other field.\<close>

lemma convM2S_Rerror:
  assumes "convM2S ap nap f dotu = Some (n, ap', f')" "n \<noteq> 0" "fc_type f' = Rerror"
  shows "fc_count f' = fc_count f \<and> fc_nwqid f' = fc_nwqid f \<and> fc_stat f' = fc_stat f
    \<and> fc_version f' = fc_version f \<and> fc_qid f' = fc_qid f"
proof -
  obtain t u cs where cs: "m2s_arm nap dotu Rerror = Some cs"
    "exec cs \<lparr>ms_buf = ap, ms_p = 7, ms_f = f\<lparr>fc_type := t, fc_tag := u\<rparr>\<rparr>
       = Go \<lparr>ms_buf = ap', ms_p = n, ms_f = f'\<rparr>"
    using convM2S_success [OF assms(1,2)] assms(3) by auto
  then show ?thesis
    by (cases dotu) (auto simp: m2s_arm_def m2s_Rerror_def gstr_def need_def getv_def
        split: if_splits option.splits)
qed

text \<open>\<^verbatim>\<open>gstring\<close> leaves a terminated string inside the message.\<close>

lemma gstring_nul:
  assumes "gstring m p ep = Some (m', Some (p', q))"
  shows "q < p' \<and> (\<exists>n. q + n < length m' \<and> m' ! (q + n) = 0)"
proof -
  have "\<exists>b s m1. wrn m1 (p + 1 + unat (GBIT16 b)) [0] = Some m' \<and> p' = p + 1 + (unat (GBIT16 b) + 1)
      \<and> q = p + 1 \<and> rdn m p 2 = Some b \<and> wrn m (p + 1) s = Some m1"
    using assms unfolding gstring_def Let_def
    by (simp add: bind_eq_Some_conv split: if_split_asm) blast
  then obtain b s m1 where w: "wrn m1 (p + 1 + unat (GBIT16 b)) [0] = Some m'"
    "p' = p + 1 + (unat (GBIT16 b) + 1)" "q = p + 1" by blast
  show ?thesis
    using nth_wrn [OF w(1)] w(2,3) by (intro conjI exI [of _ "unat (GBIT16 b)"]) simp_all
qed

lemma convM2S_Rversion:
  assumes "convM2S ap nap f dotu = Some (n, ap', f')" "n \<noteq> 0" "fc_type f' = Rversion"
  shows "\<exists>q k. fc_version f' = Some q \<and> q + k < length ap' \<and> ap' ! (q + k) = 0"
proof -
  obtain t u cs where cs: "m2s_arm nap dotu Rversion = Some cs"
    "exec cs \<lparr>ms_buf = ap, ms_p = 7, ms_f = f\<lparr>fc_type := t, fc_tag := u\<rparr>\<rparr> = Go \<lparr>ms_buf = ap', ms_p = n, ms_f = f'\<rparr>"
    using convM2S_success [OF assms(1,2)] assms(3) by auto
  then obtain m p q where "gstring m p nap = Some (ap', Some (n, q))" "fc_version f' = Some q"
    by (auto simp: m2s_arm_def m2s_Rversion_def need_def getv_def gstr_def
        split: if_splits option.splits)
  then show ?thesis using gstring_nul [of m p nap ap' n q] by auto
qed

end
