(* ===== verification/MessageProps.thy ===== *)
theory MessageProps
  imports WireRead
begin

text \<open>
  The properties of the message codec of \<^verbatim>\<open>kext/fcall.c\<close>: the printer writes the wire format and
  nothing else, the parser reads it back, no input makes the parser leave its buffer, and the one
  way in which the printer's size computation goes wrong.
\<close>

section \<open>Lemmas\<close>

text \<open>The smallest message that is not empty: \<^verbatim>\<open>Tclunk\<close> of fid 7.\<close>

definition clunk_call :: tx_call where
  "clunk_call = (zero_fcall [])\<lparr>fc_type := Tclunk, fc_fid := 7\<rparr>"

lemma clunk_call_ok:
  "printable clunk_call" "strings_fit dotu clunk_call" "wire_size dotu clunk_call = 11"
  by (simp_all add: clunk_call_def printable_def strings_fit_def wire_strings_def wire_size_def
      wire_payload_def msg_types_def zero_fcall_def)

lemma size_field: "nap < 4 \<or> n \<noteq> 0 \<Longrightarrow> convM2S ap nap f dotu = Some (n, ap', f') \<Longrightarrow> n \<le> nap"
  by (cases "n = 0") (auto dest: convM2S_success)

text \<open>The size of a \<^verbatim>\<open>Twrite\<close> as the code computes it.\<close>

lemma sizeS2M_Twrite: "fc_type f = Twrite \<Longrightarrow> sizeS2M f dotu = Some (23 + fc_count f)"
  by (simp add: sizeS2M_def Let_def)

lemma puts_Fault:
  "length (sm_buf s) < sm_p s + sum_list (map length bss) + n
    \<Longrightarrow> exec (map putb bss @ [putd d n]) s = Fault"
proof (induction bss arbitrary: s)
  case Nil
  then show ?case by (auto simp: putd_def putb_def rdn_def wrn_eq_Some_iff split: option.splits)
next
  case (Cons bs bss)
  show ?case
  proof (cases "wrn (sm_buf s) (sm_p s) bs")
    case None
    then have "putb bs s = Fault" by (simp add: putb_def del: wrn_None_iff)
    then show ?thesis by simp
  next
    case (Some m)
    have "exec (map putb bss @ [putd d n]) \<lparr>sm_buf = m, sm_p = sm_p s + length bs\<rparr> = Fault"
      using Cons.prems length_wrn [OF Some] by (intro Cons.IH) simp
    moreover have "putb bs s = Go \<lparr>sm_buf = m, sm_p = sm_p s + length bs\<rparr>"
      using Some by (simp add: putb_def)
    ultimately show ?thesis by simp
  qed
qed

lemma exec_nested: "exec [a, b, c, exec ds] s = exec ([a, b, c] @ ds) s"
  by (simp split: outcome.splits)

lemma Twrite_Fault:
  assumes "fc_type f = Twrite" "length ap < 23 + unat (fc_count f)"
  shows "exec [put32 sz, put8 (fc_type f), put16 (fc_tag f), s2m_switch f dotu]
    \<lparr>sm_buf = ap, sm_p = 0\<rparr> = Fault"
proof -
  have "s2m_switch f dotu = exec [put32 (fc_fid f), put64 (fc_offset f), put32 (fc_count f),
      putd (fc_data f) (unat (fc_count f))]"
    using assms(1) by (simp add: fun_eq_iff s2m_switch_def s2m_arm_def s2m_Twrite_def del: exec.simps)
  then have "exec [put32 sz, put8 (fc_type f), put16 (fc_tag f), s2m_switch f dotu] s
      = exec (map putb [PBIT32 sz, PBIT8 (fc_type f), PBIT16 (fc_tag f), PBIT32 (fc_fid f),
          PBIT64 (fc_offset f), PBIT32 (fc_count f)] @ [putd (fc_data f) (unat (fc_count f))]) s" for s
    by (simp add: exec_nested del: exec.simps)
  then show ?thesis using assms(2) by (simp only:) (rule puts_Fault, simp)
qed

section \<open>Properties\<close>

text \<open>
  C1. Every message the client can print, and the server answer with, survives the wire:
  \<open>convS2M\<close> prints it into any buffer it fits, and \<open>convM2S\<close>, given those bytes, accepts the whole
  message and rebuilds an \<open>Fcall\<close> with the same contents.
\<close>

theorem message_round_trip:
  assumes "printable f" "strings_fit dotu f" "wire_size dotu f \<le> unat nap" "unat nap \<le> length ap"
    and "length (fc_wname r) = MAXWELEM" "length (fc_wqid r) = MAXWELEM"
  shows "\<exists>n ap' ap'' r'. convS2M f ap nap dotu = Some (n, ap') \<and> n \<noteq> 0
    \<and> convM2S ap' (unat n) r dotu = Some (unat n, ap'', r') \<and> same_call dotu f ap'' r'"
proof -
  have lt: "wire_size dotu f < 2 ^ 32" using assms(3) unat_u32_less [of nap] by simp
  let ?n = "of_nat (wire_size dotu f) :: u32" and ?ap = "wire dotu f @ drop (wire_size dotu f) ap"
  have n: "unat ?n = wire_size dotu f" by (rule unat_wire_size [OF lt])
  have "take (wire_size dotu f) ?ap = wire dotu f" by (simp add: length_wire)
  from convM2S_wire [OF assms(1,2) lt this assms(5,6)] convS2M_fits [OF assms(1,3,4)] show ?thesis
    by (metis n unat_eq_zero wire_size_def add_is_0 zero_neq_numeral)
qed

theorem message_round_trip_witness:
  "\<exists>n ap' ap'' r'. convS2M clunk_call (replicate 16 0) 16 True = Some (n, ap') \<and> n \<noteq> 0
    \<and> convM2S ap' (unat n) (zero_fcall None) True = Some (unat n, ap'', r')
    \<and> same_call True clunk_call ap'' r'"
  by (rule message_round_trip) (simp_all add: clunk_call_ok zero_fcall_def)

text \<open>
  C2. \<open>convS2M\<close> implements the wire format: with enough room it stores exactly the bytes of the
  message, leaves the rest of the buffer, and returns their number; with too little room it stores
  nothing and returns 0. It never leaves the buffer.
\<close>

theorem convS2M_implements_wire:
  assumes "printable f" "wire_size dotu f < 2 ^ 32" "unat nap \<le> length ap"
  shows "convS2M f ap nap dotu =
    (if wire_size dotu f \<le> unat nap
     then Some (of_nat (wire_size dotu f), wire dotu f @ drop (wire_size dotu f) ap)
     else Some (0, ap))"
  using convS2M_fits [OF assms(1) _ assms(3)] convS2M_too_big [OF assms(1) _ assms(2)] by auto

theorem convS2M_implements_wire_witness:
  "convS2M clunk_call (replicate 12 1) 12 False = Some (11, wire False clunk_call @ [1])
   \<and> convS2M clunk_call (replicate 12 1) 10 False = Some (0, replicate 12 1)"
  using convS2M_implements_wire [of clunk_call False 12 "replicate 12 1"]
    convS2M_implements_wire [of clunk_call False 10 "replicate 12 1"]
  by (simp_all add: clunk_call_ok)

text \<open>
  C3. Whatever bytes the server sends, \<open>convM2S\<close> neither reads nor writes outside the message, nor
  outside \<^verbatim>\<open>wname\<close> and \<^verbatim>\<open>wqid\<close>; it returns 0 or a size between 7 and the size of the input, and
  the bytes after the message are as they were.
\<close>

theorem convM2S_memory_safe:
  assumes "nap \<le> length ap" "length (fc_wname f) = MAXWELEM" "length (fc_wqid f) = MAXWELEM"
  shows "\<exists>n ap' f'. convM2S ap nap f dotu = Some (n, ap', f') \<and> length ap' = length ap
     \<and> drop nap ap' = drop nap ap \<and> (n = 0 \<or> 7 \<le> n \<and> n \<le> nap)"
proof -
  from convM2S_within [OF assms, of dotu] obtain n ap' f' where
    "convM2S ap nap f dotu = Some (n, ap', f')" "length ap' = length ap" "drop nap ap' = drop nap ap"
    "n \<noteq> 0 \<longrightarrow> 7 \<le> n \<and> n \<le> nap" by blast
  then show ?thesis by auto
qed

theorem convM2S_memory_safe_witness:
  "\<exists>n ap' f'. convM2S [255, 0, 0, 0, 111, 1, 0, 255, 255] 9 (zero_fcall None) True = Some (n, ap', f')
     \<and> length ap' = 9 \<and> (n = 0 \<or> 7 \<le> n \<and> n \<le> 9)"
  using convM2S_memory_safe [of 9 "[255, 0, 0, 0, 111, 1, 0, 255, 255]" "zero_fcall None :: rx_call" True]
  by (auto simp: zero_fcall_def)

text \<open>
  C4. An accepted message has a known type, its size field is the returned size, and what its
  variable part promises lies inside it: the data of an \<^verbatim>\<open>Rread\<close> and the entry of an \<^verbatim>\<open>Rstat\<close> end
  exactly where the message ends, and an \<^verbatim>\<open>Rwalk\<close> has at most \<^verbatim>\<open>MAXWELEM\<close> qids.
\<close>

theorem convM2S_accepts_only_well_formed:
  assumes "convM2S ap nap f dotu = Some (n, ap', f')" "n \<noteq> 0"
  shows "fc_type f' \<in> msg_types \<and> n \<le> nap
    \<and> (\<exists>b. rdn ap 0 4 = Some b \<and> unat (GBIT32 b) = n)
    \<and> (fc_type f' = Rread \<longrightarrow> (\<exists>q. fc_data f' = Some q \<and> q + unat (fc_count f') = n))
    \<and> (fc_type f' = Rstat \<longrightarrow> (\<exists>q. fc_stat f' = Some q \<and> q + unat (fc_nstat f') = n))
    \<and> (fc_type f' = Rwalk \<longrightarrow> unat (fc_nwqid f') \<le> MAXWELEM)"
  using convM2S_success [OF assms] convM2S_Rread [OF assms] convM2S_Rstat [OF assms]
    convM2S_Rwalk [OF assms] by (auto dest: m2s_arm_types)

theorem convM2S_accepts_only_well_formed_witness:
  "\<exists>f'. convM2S [9, 0, 0, 0, 125, 1, 0, 0, 0] 9 (zero_fcall None) False
      = Some (9, [9, 0, 0, 0, 125, 1, 0, 0, 0], f')
    \<and> (\<exists>q. fc_stat f' = Some q \<and> q + unat (fc_nstat f') = 9)"
proof -
  have "\<exists>f'. convM2S [9, 0, 0, 0, 125, 1, 0, 0, 0] 9 (zero_fcall None) False
      = Some (9, [9, 0, 0, 0, 125, 1, 0, 0, 0], f') \<and> fc_type f' = Rstat"
    by (simp add: convM2S_def rdn_def GBIT32_def GBIT16_def GBIT8_def getv_def m2s_switch_def
        m2s_arm_def m2s_Rstat_def need_def need_f_def point_def)
  then obtain f' where c: "convM2S [9, 0, 0, 0, 125, 1, 0, 0, 0] 9 (zero_fcall None) False
      = Some (9, [9, 0, 0, 0, 125, 1, 0, 0, 0], f')" "fc_type f' = Rstat" by blast
  show ?thesis using convM2S_accepts_only_well_formed [OF c(1)] c by simp
qed

text \<open>
  C40. The size of a \<^verbatim>\<open>Twrite\<close> is computed modulo \<open>2 ^ 32\<close>: with a count within 23 of \<open>2 ^ 32\<close> the
  printer believes that the message fits in a few bytes and stores past its buffer.
\<close>

theorem Twrite_size_wraps:
  assumes "fc_type f = Twrite" "2 ^ 32 - 23 < unat (fc_count f)" "unat nap \<le> length ap"
    "length ap < 2 ^ 32" "unat (fc_count f) + 23 - 2 ^ 32 \<le> unat nap"
  shows "convS2M f ap nap dotu = None"
proof -
  have u: "unat (23 + fc_count f) = unat (fc_count f) + 23 - 2 ^ 32"
    using assms(2) unat_u32_less [of "fc_count f"] by (simp add: unat_word_ariths le_mod_geq)
  then have "23 + fc_count f \<noteq> 0" "\<not> nap < 23 + fc_count f"
    using assms(2,5) by (simp_all add: word_less_nat_alt word_unat_eq_iff)
  moreover have "length ap < 23 + unat (fc_count f)" using assms(2,4) by simp
  ultimately show ?thesis
    using Twrite_Fault [OF assms(1), of ap "23 + fc_count f" dotu] sizeS2M_Twrite [OF assms(1), of dotu]
    by (simp add: convS2M_def del: exec.simps)
qed

theorem Twrite_size_wraps_witness:
  "convS2M ((zero_fcall [])\<lparr>fc_type := Twrite, fc_count := 0xFFFFFFFA\<rparr>) (replicate 32 0) 32 True = None"
  by (rule Twrite_size_wraps) simp_all

end
