(* ===== verification/DirCodec.thy ===== *)
theory DirCodec
  imports Wire
begin

text \<open>
  Directory entries on the wire: \<^verbatim>\<open>sizeD2M\<close>, \<^verbatim>\<open>convD2M\<close>, \<^verbatim>\<open>statcheck\<close> and \<^verbatim>\<open>convM2D\<close>
  of \<^verbatim>\<open>kext/fcall.c\<close>. The client prints a \<open>Dir\<close> for \<^verbatim>\<open>Twstat\<close> and parses the entries of
  \<^verbatim>\<open>Rstat\<close> and of directory reads; the strings are copied to an area the caller provides.
\<close>

abbreviation STAT_NSTRINGS :: "bool \<Rightarrow> nat" where
  "STAT_NSTRINGS dotu \<equiv> if dotu then 5 else 4"

abbreviation STAT_FIX_LEN :: "bool \<Rightarrow> nat" where
  "STAT_FIX_LEN dotu \<equiv> STATFIXLEN + (if dotu then STATUEXTRALEN else 0)"

section \<open>Printing\<close>

text \<open>The array \<^verbatim>\<open>sv\<close>.\<close>

definition dir_sv :: "byte list Dir \<Rightarrow> byte list list" where
  "dir_sv d = [d_name d, d_uid d, d_gid d, d_muid d, d_ext d]"

text \<open>
  \<^verbatim>\<open>ns\<close> and \<^verbatim>\<open>nsv[i]\<close> are \<^verbatim>\<open>int\<close>: the lengths modulo \<open>2 ^ 32\<close>, read as signed numbers when
  they take part in pointer arithmetic.
\<close>

definition strlen32 :: "byte list \<Rightarrow> u32" where
  "strlen32 s = of_nat (length s)"

definition sum_strlen :: "byte list Dir \<Rightarrow> bool \<Rightarrow> u32" where
  "sum_strlen d dotu = foldl (\<lambda>ns i. ns + strlen32 (dir_sv d ! i)) 0 [0..<STAT_NSTRINGS dotu]"

definition sizeD2M :: "byte list Dir \<Rightarrow> bool \<Rightarrow> u32" where
  "sizeD2M d dotu = sum_strlen d dotu + of_nat (STAT_FIX_LEN dotu)"

definition d2m_str :: "nat \<Rightarrow> byte list \<Rightarrow> s2m_stmt" where
  "d2m_str ebuf str s =
     (let ns = sint (strlen32 str) in
      if int (sm_p s) + ns + int BIT16SZ > int ebuf then Quit s
      else exec [put16 (ucast (strlen32 str)),
                 \<lambda>s. if ns < 0 then Fault else putd str (nat ns) s] s)"

text \<open>The fixed part, from \<^verbatim>\<open>d->type\<close> to \<^verbatim>\<open>d->length\<close>.\<close>

definition d2m_fixed :: "byte list Dir \<Rightarrow> s2m_stmt list" where
  "d2m_fixed d =
    [put16 (d_type d), put32 (d_dev d),
     put8 (q_type (d_qid d)), put32 (q_vers (d_qid d)), put64 (q_path (d_qid d)),
     put32 (d_mode d), put32 (d_atime d), put32 (d_mtime d), put64 (d_length d)]"

definition d2m_dotu :: "nat \<Rightarrow> byte list Dir \<Rightarrow> s2m_stmt list" where
  "d2m_dotu ebuf d =
    [\<lambda>s. return0_if (sm_p s + 3 * BIT32SZ > ebuf) s,
     put32 (d_uidnum d), put32 (d_gidnum d), put32 (d_muidnum d)]"

text \<open>The returned count and the buffer; \<^term>\<open>None\<close> is an access outside a buffer.\<close>

definition convD2M :: "byte list Dir \<Rightarrow> memory \<Rightarrow> u32 \<Rightarrow> bool \<Rightarrow> (nat \<times> memory) option" where
  "convD2M d buf nbuf dotu =
     (if unat nbuf < BIT16SZ then Some (0, buf)
      else let ebuf = unat nbuf; ss = sum_strlen d dotu + of_nat (STAT_FIX_LEN dotu) in
        case put16 (ucast (ss - of_nat BIT16SZ)) \<lparr>sm_buf = buf, sm_p = 0\<rparr> of
          Go s \<Rightarrow>
            if ss > nbuf then Some (BIT16SZ, sm_buf s)
            else (case exec (d2m_fixed d
                        @ map (\<lambda>i. d2m_str ebuf (dir_sv d ! i)) [0..<STAT_NSTRINGS dotu]
                        @ (if dotu then d2m_dotu ebuf d else [])) s of
                Go s \<Rightarrow> if sint ss \<noteq> int (sm_p s) then Some (0, sm_buf s)
                        else Some (sm_p s, sm_buf s)
              | Quit s \<Rightarrow> Some (0, sm_buf s)
              | Fault \<Rightarrow> None)
        | _ \<Rightarrow> None)"

section \<open>Checking\<close>

text \<open>
  The loop of \<^verbatim>\<open>statcheck\<close>: \<open>Some None\<close> is \<^verbatim>\<open>return -1\<close>, \<open>Some (Some p)\<close> the pointer after
  the strings.
\<close>

fun stat_skip :: "memory \<Rightarrow> nat \<Rightarrow> nat \<Rightarrow> nat \<Rightarrow> nat option option" where
  "stat_skip m ebuf 0 p = Some (Some p)"
| "stat_skip m ebuf (Suc n) p =
     (if p + BIT16SZ > ebuf then Some None
      else case rdn m p BIT16SZ of
        None \<Rightarrow> None
      | Some b \<Rightarrow> stat_skip m ebuf n (p + BIT16SZ + unat (GBIT16 b)))"

definition statcheck :: "memory \<Rightarrow> nat \<Rightarrow> bool \<Rightarrow> int option" where
  "statcheck buf nbuf dotu =
     (let ebuf = nbuf; p = STATFIXLEN - 4 * BIT16SZ in
      case stat_skip buf ebuf (STAT_NSTRINGS dotu) p of
        None \<Rightarrow> None
      | Some None \<Rightarrow> Some (-1)
      | Some (Some p) \<Rightarrow>
          let p = (if dotu then p + (STATUEXTRALEN - BIT16SZ) else p) in
          if p \<noteq> ebuf then Some (-1) else Some 0)"

section \<open>Parsing\<close>

text \<open>A string of a parsed entry: \<^verbatim>\<open>nil\<close>, the static \<^verbatim>\<open>nullstring\<close>, or in the string area.\<close>

datatype strp = NilP | Nullstring | StrAt nat

text \<open>A \<open>Dir\<close> fresh from \<^verbatim>\<open>malloc_9p\<close>, all zero.\<close>

definition zero_dir :: "strp Dir" where
  "zero_dir = \<lparr>d_type = 0, d_dev = 0, d_qid = zero_qid, d_mode = 0, d_atime = 0, d_mtime = 0,
     d_length = 0, d_name = NilP, d_uid = NilP, d_gid = NilP, d_muid = NilP, d_ext = NilP,
     d_uidnum = 0, d_gidnum = 0, d_muidnum = 0\<rparr>"

definition m2d_fixed :: "memory \<Rightarrow> strp Dir \<Rightarrow> (nat \<times> strp Dir) option" where
  "m2d_fixed buf d = do {
     let p = BIT16SZ;
     b \<leftarrow> rdn buf p BIT16SZ;
     let d = d\<lparr>d_type := GBIT16 b\<rparr>; let p = p + BIT16SZ;
     b \<leftarrow> rdn buf p BIT32SZ;
     let d = d\<lparr>d_dev := GBIT32 b\<rparr>; let p = p + BIT32SZ;
     b \<leftarrow> rdn buf p BIT8SZ;
     let d = d\<lparr>d_qid := (d_qid d)\<lparr>q_type := GBIT8 b\<rparr>\<rparr>; let p = p + BIT8SZ;
     b \<leftarrow> rdn buf p BIT32SZ;
     let d = d\<lparr>d_qid := (d_qid d)\<lparr>q_vers := GBIT32 b\<rparr>\<rparr>; let p = p + BIT32SZ;
     b \<leftarrow> rdn buf p BIT64SZ;
     let d = d\<lparr>d_qid := (d_qid d)\<lparr>q_path := GBIT64 b\<rparr>\<rparr>; let p = p + BIT64SZ;
     b \<leftarrow> rdn buf p BIT32SZ;
     let d = d\<lparr>d_mode := GBIT32 b\<rparr>; let p = p + BIT32SZ;
     b \<leftarrow> rdn buf p BIT32SZ;
     let d = d\<lparr>d_atime := GBIT32 b\<rparr>; let p = p + BIT32SZ;
     b \<leftarrow> rdn buf p BIT32SZ;
     let d = d\<lparr>d_mtime := GBIT32 b\<rparr>; let p = p + BIT32SZ;
     b \<leftarrow> rdn buf p BIT64SZ;
     let d = d\<lparr>d_length := GBIT64 b\<rparr>; let p = p + BIT64SZ;
     Some (p, d\<lparr>d_name := NilP, d_uid := NilP, d_gid := NilP, d_muid := NilP, d_ext := NilP\<rparr>)
   }"

text \<open>
  The state of the loop over the strings: the read pointer, the string area with its write
  pointer (unless \<^verbatim>\<open>strs\<close> is \<^verbatim>\<open>nil\<close>), and \<^verbatim>\<open>sv\<close>.
\<close>

record m2d =
  md_p :: nat
  md_strs :: "(memory \<times> nat) option"
  md_sv :: "strp list"

definition m2d_str :: "memory \<Rightarrow> nat \<Rightarrow> nat \<Rightarrow> m2d \<Rightarrow> m2d outcome" where
  "m2d_str buf ebuf i s =
     (if md_p s + BIT16SZ > ebuf then Quit s
      else case rdn buf (md_p s) BIT16SZ of
        None \<Rightarrow> Fault
      | Some b \<Rightarrow>
          let ns = unat (GBIT16 b); p = md_p s + BIT16SZ in
          if p + ns > ebuf then Quit s
          else case md_strs s of
            None \<Rightarrow> Go (s\<lparr>md_p := p + ns\<rparr>)
          | Some (sm, q) \<Rightarrow>
              (case do { str \<leftarrow> rdn buf p ns; sm1 \<leftarrow> wrn sm q str; wrn sm1 (q + ns) [0] } of
                 None \<Rightarrow> Fault
               | Some sm2 \<Rightarrow> Go \<lparr>md_p = p + ns, md_strs = Some (sm2, q + ns + 1),
                                  md_sv = (md_sv s)[i := StrAt q]\<rparr>))"

definition m2d_set_strings :: "m2d \<Rightarrow> strp Dir \<Rightarrow> strp Dir" where
  "m2d_set_strings s d =
     (if md_strs s = None
      then d\<lparr>d_name := Nullstring, d_uid := Nullstring, d_gid := Nullstring,
             d_muid := Nullstring, d_ext := Nullstring\<rparr>
      else d\<lparr>d_name := md_sv s ! 0, d_uid := md_sv s ! 1, d_gid := md_sv s ! 2,
             d_muid := md_sv s ! 3, d_ext := md_sv s ! 4\<rparr>)"

text \<open>
  The result is the returned count, the \<open>Dir\<close> as it is left, and the string area.
\<close>

definition convM2D :: "memory \<Rightarrow> nat \<Rightarrow> strp Dir \<Rightarrow> (memory \<times> nat) option \<Rightarrow> bool
    \<Rightarrow> (nat \<times> strp Dir \<times> memory option) option" where
  "convM2D buf nbuf d strs dotu = do {
     let ebuf = nbuf;
     (p, d) \<leftarrow> m2d_fixed buf d;
     case exec (map (m2d_str buf ebuf) [0..<STAT_NSTRINGS dotu])
            \<lparr>md_p = p, md_strs = strs, md_sv = replicate 5 NilP\<rparr> of
       Fault \<Rightarrow> None
     | Quit s \<Rightarrow> Some (0, d, map_option fst (md_strs s))
     | Go s \<Rightarrow>
         let d = m2d_set_strings s d; p = md_p s; sm = map_option fst (md_strs s) in
         if \<not> dotu then Some (p, d, sm)
         else if p + 3 * BIT32SZ > ebuf then Some (0, d, sm)
         else do {
           b \<leftarrow> rdn buf p BIT32SZ;
           let d = d\<lparr>d_uidnum := GBIT32 b\<rparr>; let p = p + BIT32SZ;
           b \<leftarrow> rdn buf p BIT32SZ;
           let d = d\<lparr>d_gidnum := GBIT32 b\<rparr>; let p = p + BIT32SZ;
           b \<leftarrow> rdn buf p BIT32SZ;
           let d = d\<lparr>d_muidnum := GBIT32 b\<rparr>; let p = p + BIT32SZ;
           Some (p, d, sm)
         }
   }"

section \<open>The format\<close>

definition dir_strings :: "byte list Dir \<Rightarrow> bool \<Rightarrow> byte list list" where
  "dir_strings d dotu = take (STAT_NSTRINGS dotu) (dir_sv d)"

definition stat_fixed :: "byte list Dir \<Rightarrow> byte list" where
  "stat_fixed d = PBIT16 (d_type d) @ PBIT32 (d_dev d) @ qid_bytes (d_qid d) @ PBIT32 (d_mode d)
     @ PBIT32 (d_atime d) @ PBIT32 (d_mtime d) @ PBIT64 (d_length d)"

definition stat_ids :: "byte list Dir \<Rightarrow> bool \<Rightarrow> byte list" where
  "stat_ids d dotu =
     (if dotu then PBIT32 (d_uidnum d) @ PBIT32 (d_gidnum d) @ PBIT32 (d_muidnum d) else [])"

definition stat_size :: "byte list Dir \<Rightarrow> bool \<Rightarrow> nat" where
  "stat_size d dotu = sum_list (map length (dir_strings d dotu)) + STAT_FIX_LEN dotu"

definition stat_wire :: "byte list Dir \<Rightarrow> bool \<Rightarrow> byte list" where
  "stat_wire d dotu = PBIT16 (of_nat (stat_size d dotu - 2)) @ stat_fixed d
     @ concat (map str_bytes (dir_strings d dotu)) @ stat_ids d dotu"

end
