(* ===== verification/DirWire.thy ===== *)
theory DirWire
  imports DirCodec WireRead
begin

text \<open>
  Directory entries: the printer writes \<open>stat_wire\<close>, the checker accepts it, the parser reads
  it back; and on any input the parser stays inside the entry and inside the string area.
\<close>

definition dir_strings_fit :: "byte list Dir \<Rightarrow> bool \<Rightarrow> bool" where
  "dir_strings_fit d dotu \<longleftrightarrow> (\<forall>s \<in> set (dir_strings d dotu). length s < 65536)"

section \<open>Sizes\<close>

lemma dir_strings_simps:
  "dir_strings d False = [d_name d, d_uid d, d_gid d, d_muid d]"
  "dir_strings d True = [d_name d, d_uid d, d_gid d, d_muid d, d_ext d]"
  by (simp_all add: dir_strings_def dir_sv_def)

lemma sum_strlen_eq: "sum_strlen d dotu = of_nat (sum_list (map length (dir_strings d dotu)))"
  by (cases dotu)
    (simp_all add: sum_strlen_def dir_strings_simps strlen32_def dir_sv_def upt_rec nth_Cons'
      del: upt_Suc)

lemma sizeD2M_stat_size: "sizeD2M d dotu = of_nat (stat_size d dotu)"
  by (simp add: sizeD2M_def sum_strlen_eq stat_size_def)

lemma stat_size_less: "dir_strings_fit d dotu \<Longrightarrow> stat_size d dotu < 2 ^ 31"
  by (cases dotu) (simp_all add: dir_strings_fit_def stat_size_def dir_strings_simps)

lemma unat_sizeD2M: "dir_strings_fit d dotu \<Longrightarrow> unat (sizeD2M d dotu) = stat_size d dotu"
  using stat_size_less [of d dotu] by (simp add: sizeD2M_stat_size unat_of_nat_small)

lemma sint_of_nat_small: "n < 2 ^ 31 \<Longrightarrow> sint (of_nat n :: u32) = int n"
  by (simp add: signed_of_nat signed_take_bit_int_eq_self)

lemma length_stat_fixed [simp]: "length (stat_fixed d) = 39"
  by (simp add: stat_fixed_def)

lemma sum_list_str_bytes:
  "length (concat (map str_bytes ts)) = sum_list (map length ts) + 2 * length ts"
  by (induction ts) (simp_all add: length_str_bytes)

lemma length_stat_wire: "length (stat_wire d dotu) = stat_size d dotu"
  unfolding stat_wire_def stat_size_def length_append sum_list_str_bytes
  by (cases dotu) (simp_all add: stat_ids_def dir_strings_simps)

section \<open>The printer writes the format\<close>

definition prints_in :: "nat \<Rightarrow> s2m_stmt list \<Rightarrow> byte list \<Rightarrow> bool" where
  "prints_in e cs bs \<longleftrightarrow> (\<forall>m p. p + length bs \<le> e \<longrightarrow> e \<le> length m \<longrightarrow>
     exec cs \<lparr>sm_buf = m, sm_p = p\<rparr> =
       Go \<lparr>sm_buf = take p m @ bs @ drop (p + length bs) m, sm_p = p + length bs\<rparr>)"

lemma prints_in_prints: "prints cs bs \<Longrightarrow> prints_in e cs bs"
  by (simp add: prints_def prints_in_def)

lemma prints_in_append: "prints_in e cs bs \<Longrightarrow> prints_in e ds es \<Longrightarrow> prints_in e (cs @ ds) (bs @ es)"
  by (simp add: prints_in_def exec_append min_absorb2 add.assoc ac_simps)

lemma prints_d2m_fixed: "prints (d2m_fixed d) (stat_fixed d)"
  unfolding d2m_fixed_def stat_fixed_def qid_bytes_def append_assoc
  by (intro prints_intros prints_putb [THEN prints_Cons, OF prints_Nil, simplified append_Nil2])

lemma prints_in_d2m_str:
  assumes "length str < 65536"
  shows "prints_in e [d2m_str e str] (str_bytes str)"
proof -
  have s: "sint (strlen32 str) = int (length str)"
    using assms by (simp add: strlen32_def sint_of_nat_small)
  have u: "ucast (strlen32 str) = (of_nat (length str) :: u16)"
    by (simp add: strlen32_def ucast_of_nat_u16)
  have "prints [put16 (of_nat (length str)), putd str (length str)] (str_bytes str)"
    using prints_append [OF prints_putb prints_putd, of "length str" str "PBIT16 (of_nat (length str))"]
    by (simp add: str_bytes_def)
  then show ?thesis
    by (auto simp: prints_in_def prints_def d2m_str_def s u exec_single length_str_bytes
        simp del: exec.simps(2))
qed

lemma prints_in_d2m_strs:
  assumes "\<forall>s \<in> set ts. length s < 65536"
  shows "prints_in e (map (d2m_str e) ts) (concat (map str_bytes ts))"
  using assms
proof (induction ts)
  case Nil
  then show ?case by (simp add: prints_in_def)
next
  case (Cons t ts)
  then show ?case
    using prints_in_append [OF prints_in_d2m_str [of t e]] by force
qed

lemma prints_in_d2m_dotu: "prints_in e (if dotu then d2m_dotu e d else []) (stat_ids d dotu)"
proof (cases dotu)
  case True
  have "prints [put32 (d_uidnum d), put32 (d_gidnum d), put32 (d_muidnum d)] (stat_ids d True)"
    unfolding stat_ids_def if_True
    by (intro prints_intros prints_putb [THEN prints_Cons, OF prints_Nil, simplified append_Nil2])
  with True show ?thesis
    by (simp add: prints_def prints_in_def d2m_dotu_def return0_if_def stat_ids_def)
qed (simp add: prints_in_def stat_ids_def)

lemma map_dir_sv: "map (\<lambda>i. d2m_str e (dir_sv d ! i)) [0..<STAT_NSTRINGS dotu]
    = map (d2m_str e) (dir_strings d dotu)"
  by (cases dotu) (simp_all add: dir_strings_simps dir_sv_def upt_rec nth_Cons' del: upt_Suc)

text \<open>After the size is stored, the rest of \<^verbatim>\<open>convD2M\<close>.\<close>

abbreviation d2m_rest :: "nat \<Rightarrow> byte list Dir \<Rightarrow> bool \<Rightarrow> s2m_stmt list" where
  "d2m_rest e d dotu \<equiv> d2m_fixed d
     @ map (\<lambda>i. d2m_str e (dir_sv d ! i)) [0..<STAT_NSTRINGS dotu]
     @ (if dotu then d2m_dotu e d else [])"

abbreviation stat_rest :: "byte list Dir \<Rightarrow> bool \<Rightarrow> byte list" where
  "stat_rest d dotu \<equiv>
     stat_fixed d @ concat (map str_bytes (dir_strings d dotu)) @ stat_ids d dotu"

lemma prints_in_d2m_rest:
  "dir_strings_fit d dotu \<Longrightarrow> prints_in e (d2m_rest e d dotu) (stat_rest d dotu)"
  unfolding map_dir_sv dir_strings_fit_def
  by (intro prints_in_append prints_in_prints prints_d2m_fixed prints_in_d2m_strs
      prints_in_d2m_dotu) simp

lemma convD2M_unfold:
  assumes "2 \<le> unat nbuf" "unat nbuf \<le> length buf"
  shows "convD2M d buf nbuf dotu =
    (let buf' = PBIT16 (of_nat (stat_size d dotu - 2)) @ drop 2 buf in
     if of_nat (stat_size d dotu) > nbuf then Some (2, buf')
     else (case exec (d2m_rest (unat nbuf) d dotu) \<lparr>sm_buf = buf', sm_p = 2\<rparr> of
         Go s \<Rightarrow> if sint (of_nat (stat_size d dotu) :: u32) \<noteq> int (sm_p s) then Some (0, sm_buf s)
                 else Some (sm_p s, sm_buf s)
       | Quit s \<Rightarrow> Some (0, sm_buf s)
       | Fault \<Rightarrow> None))"
proof -
  have ss: "sum_strlen d dotu + of_nat (STAT_FIX_LEN dotu) = of_nat (stat_size d dotu)"
    by (simp add: sum_strlen_eq stat_size_def)
  have "2 \<le> stat_size d dotu" by (simp add: stat_size_def)
  then have hd: "(ucast (of_nat (stat_size d dotu) - of_nat BIT16SZ :: u32) :: u16)
      = of_nat (stat_size d dotu - 2)"
    by (rule ucast_of_nat_diff_u16)
  have w: "put16 v \<lparr>sm_buf = buf, sm_p = 0\<rparr> = Go \<lparr>sm_buf = PBIT16 v @ drop 2 buf, sm_p = 2\<rparr>" for v
    using assms by (simp add: putb_def mem_simps numeral_2_eq_2)
  show ?thesis
    unfolding convD2M_def Let_def ss hd w using assms by simp
qed

lemma Suc_Suc_diff_2: "2 \<le> n \<Longrightarrow> Suc (Suc (n - 2)) = n"
  by simp

lemma convD2M_fits:
  assumes "dir_strings_fit d dotu" "stat_size d dotu \<le> unat nbuf" "unat nbuf \<le> length buf"
  shows "convD2M d buf nbuf dotu
    = Some (stat_size d dotu, stat_wire d dotu @ drop (stat_size d dotu) buf)"
proof -
  let ?buf = "PBIT16 (of_nat (stat_size d dotu - 2)) @ drop 2 buf"
  have ge: "2 \<le> stat_size d dotu" by (simp add: stat_size_def)
  have len: "2 + length (stat_rest d dotu) = stat_size d dotu"
    using length_stat_wire [of d dotu] by (simp add: stat_wire_def)
  have "exec (d2m_rest (unat nbuf) d dotu) \<lparr>sm_buf = ?buf, sm_p = 2\<rparr>
      = Go \<lparr>sm_buf = take 2 ?buf @ stat_rest d dotu @ drop (2 + length (stat_rest d dotu)) ?buf,
            sm_p = 2 + length (stat_rest d dotu)\<rparr>"
    using prints_in_d2m_rest [OF assms(1), of "unat nbuf"] assms ge len
    unfolding prints_in_def by simp
  also have "\<dots> = Go \<lparr>sm_buf = stat_wire d dotu @ drop (stat_size d dotu) buf,
      sm_p = stat_size d dotu\<rparr>"
    unfolding len using ge by (simp add: stat_wire_def Suc_Suc_diff_2)
  finally have e: "exec (d2m_rest (unat nbuf) d dotu) \<lparr>sm_buf = ?buf, sm_p = 2\<rparr>
      = Go \<lparr>sm_buf = stat_wire d dotu @ drop (stat_size d dotu) buf, sm_p = stat_size d dotu\<rparr>" .
  have "\<not> nbuf < of_nat (stat_size d dotu)"
    using assms(2) stat_size_less [OF assms(1)] by (simp add: word_less_nat_alt unat_of_nat_small)
  then show ?thesis
    using convD2M_unfold [of nbuf buf d dotu] assms ge
      sint_of_nat_small [OF stat_size_less [OF assms(1)]]
    unfolding Let_def e by simp
qed

lemma convD2M_short:
  assumes "dir_strings_fit d dotu" "2 \<le> unat nbuf" "unat nbuf < stat_size d dotu"
    "unat nbuf \<le> length buf"
  shows "convD2M d buf nbuf dotu = Some (2, PBIT16 (of_nat (stat_size d dotu - 2)) @ drop 2 buf)"
proof -
  have "nbuf < of_nat (stat_size d dotu)"
    using assms(3) stat_size_less [OF assms(1)] by (simp add: word_less_nat_alt unat_of_nat_small)
  then show ?thesis
    using convD2M_unfold [of nbuf buf d dotu] assms unfolding Let_def by simp
qed

section \<open>The checker accepts the format\<close>

lemma stat_skip_strings:
  assumes "coming ep m p (concat (map str_bytes ts) @ bs)" "\<forall>t \<in> set ts. length t < 65536"
  shows "stat_skip m ep (length ts) p = Some (Some (p + length (concat (map str_bytes ts))))"
  using assms
proof (induction ts arbitrary: p)
  case Nil
  then show ?case by simp
next
  case (Cons t ts)
  let ?rest = "concat (map str_bytes ts) @ bs"
  have c: "coming ep m p (PBIT16 (of_nat (length t)) @ t @ ?rest)"
    using Cons.prems(1) by (simp add: str_bytes_def [of t])
  have "rdn m p 2 = Some (PBIT16 (of_nat (length t)))" using coming_rdn [OF c] by simp
  moreover have "p + 2 \<le> ep" using c by (simp add: coming_def)
  moreover have "unat (GBIT16 (PBIT16 (of_nat (length t)))) = length t"
    using Cons.prems(2) by (simp add: bit16.get_put unat_of_nat_small)
  moreover have "coming ep m (p + 2 + length t) ?rest"
    using c by (simp add: coming_append add.assoc)
  ultimately show ?case
    using Cons.IH [of "p + 2 + length t"] Cons.prems(2)
    by (simp add: length_str_bytes add.assoc)
qed

lemma coming_stat_wire:
  assumes "take (stat_size d dotu) buf = stat_wire d dotu"
  shows "coming (stat_size d dotu) buf 0 (stat_wire d dotu)"
proof -
  have "stat_size d dotu \<le> length buf"
    using assms length_stat_wire [of d dotu] by (metis length_take min.cobounded1)
  with assms show ?thesis by (simp add: coming_def length_stat_wire)
qed

lemma coming_strings:
  assumes "take (stat_size d dotu) buf = stat_wire d dotu"
  shows "coming (stat_size d dotu) buf 41
    (concat (map str_bytes (dir_strings d dotu)) @ stat_ids d dotu)"
  using coming_stat_wire [OF assms] by (simp add: stat_wire_def coming_append)

lemma length_dir_strings: "length (dir_strings d dotu) = STAT_NSTRINGS dotu"
  by (cases dotu) (simp_all add: dir_strings_simps)

lemma statcheck_wire:
  assumes "dir_strings_fit d dotu" "take (stat_size d dotu) buf = stat_wire d dotu"
  shows "statcheck buf (stat_size d dotu) dotu = Some 0"
proof -
  have "41 + length (concat (map str_bytes (dir_strings d dotu))) + length (stat_ids d dotu)
      = stat_size d dotu"
    using length_stat_wire [of d dotu] by (simp add: stat_wire_def)
  moreover have "length (stat_ids d dotu) = (if dotu then 12 else 0)"
    by (simp add: stat_ids_def)
  moreover have "stat_skip buf (stat_size d dotu) (STAT_NSTRINGS dotu) 41
      = Some (Some (41 + length (concat (map str_bytes (dir_strings d dotu)))))"
    using stat_skip_strings [OF coming_strings [OF assms(2)]] assms(1)
    by (simp add: dir_strings_fit_def length_dir_strings)
  ultimately show ?thesis by (cases dotu) (simp_all add: statcheck_def Let_def)
qed

section \<open>The parser reads the format back\<close>

lemma m2d_fixed_wire:
  assumes "coming ep buf 0 (PBIT16 n @ stat_fixed d @ bs)"
  shows "m2d_fixed buf d0 = Some (41, d0\<lparr>d_type := d_type d, d_dev := d_dev d, d_qid := d_qid d,
      d_mode := d_mode d, d_atime := d_atime d, d_mtime := d_mtime d, d_length := d_length d,
      d_name := NilP, d_uid := NilP, d_gid := NilP, d_muid := NilP, d_ext := NilP\<rparr>)"
proof -
  have at: "rdn buf (length as) (length b) = Some b"
    if "PBIT16 n @ stat_fixed d @ bs = as @ b @ cs" for as b cs
    using assms coming_rdn_at [of ep buf 0 as b cs] that by simp
  note a = at [unfolded stat_fixed_def qid_bytes_def append_assoc]
  have "rdn buf 2 2 = Some (PBIT16 (d_type d))"
    using a [of "PBIT16 n" "PBIT16 (d_type d)"] by simp
  moreover have "rdn buf 4 4 = Some (PBIT32 (d_dev d))"
    using a [of "PBIT16 n @ PBIT16 (d_type d)" "PBIT32 (d_dev d)"] by simp
  moreover have "rdn buf 8 1 = Some (PBIT8 (q_type (d_qid d)))"
    using a [of "PBIT16 n @ PBIT16 (d_type d) @ PBIT32 (d_dev d)" "PBIT8 (q_type (d_qid d))"]
    by simp
  moreover have "rdn buf 9 4 = Some (PBIT32 (q_vers (d_qid d)))"
    using a [of "PBIT16 n @ PBIT16 (d_type d) @ PBIT32 (d_dev d) @ PBIT8 (q_type (d_qid d))"
        "PBIT32 (q_vers (d_qid d))"] by simp
  moreover have "rdn buf 13 8 = Some (PBIT64 (q_path (d_qid d)))"
    using a [of "PBIT16 n @ PBIT16 (d_type d) @ PBIT32 (d_dev d) @ PBIT8 (q_type (d_qid d))
        @ PBIT32 (q_vers (d_qid d))" "PBIT64 (q_path (d_qid d))"] by simp
  moreover have "rdn buf 21 4 = Some (PBIT32 (d_mode d))"
    using at [of "PBIT16 n @ PBIT16 (d_type d) @ PBIT32 (d_dev d) @ qid_bytes (d_qid d)"
        "PBIT32 (d_mode d)"] by (simp add: stat_fixed_def)
  moreover have "rdn buf 25 4 = Some (PBIT32 (d_atime d))"
    using at [of "PBIT16 n @ PBIT16 (d_type d) @ PBIT32 (d_dev d) @ qid_bytes (d_qid d)
        @ PBIT32 (d_mode d)" "PBIT32 (d_atime d)"] by (simp add: stat_fixed_def)
  moreover have "rdn buf 29 4 = Some (PBIT32 (d_mtime d))"
    using at [of "PBIT16 n @ PBIT16 (d_type d) @ PBIT32 (d_dev d) @ qid_bytes (d_qid d)
        @ PBIT32 (d_mode d) @ PBIT32 (d_atime d)" "PBIT32 (d_mtime d)"]
    by (simp add: stat_fixed_def)
  moreover have "rdn buf 33 8 = Some (PBIT64 (d_length d))"
    using at [of "PBIT16 n @ PBIT16 (d_type d) @ PBIT32 (d_dev d) @ qid_bytes (d_qid d)
        @ PBIT32 (d_mode d) @ PBIT32 (d_atime d) @ PBIT32 (d_mtime d)" "PBIT64 (d_length d)"]
    by (simp add: stat_fixed_def)
  ultimately show ?thesis
    by (simp add: m2d_fixed_def bit8.get_put bit16.get_put bit32.get_put bit64.get_put Let_def)
qed

text \<open>What the string loop does with one string that is there, and room for it.\<close>

lemma m2d_str_coming:
  assumes "coming ep buf p (str_bytes t @ bs)" "length t < 65536" "q + length t + 1 \<le> length sm"
  shows "m2d_str buf ep i \<lparr>md_p = p, md_strs = Some (sm, q), md_sv = sv\<rparr>
    = Go \<lparr>md_p = p + length (str_bytes t),
          md_strs = Some (take q sm @ t @ [0] @ drop (q + length t + 1) sm, q + length t + 1),
          md_sv = sv[i := StrAt q]\<rparr>"
proof -
  have c: "coming ep buf p (PBIT16 (of_nat (length t)) @ t @ bs)"
    using assms(1) by (simp add: str_bytes_def)
  have "rdn buf p 2 = Some (PBIT16 (of_nat (length t)))" "rdn buf (p + 2) (length t) = Some t"
    using coming_rdn [OF c] coming_rdn_at [OF c] by simp_all
  moreover have "p + 2 + length t \<le> ep" using c by (simp add: coming_def)
  moreover have "unat (GBIT16 (PBIT16 (of_nat (length t)))) = length t"
    using assms(2) by (simp add: bit16.get_put unat_of_nat_small)
  ultimately show ?thesis
    using assms(3) by (simp add: m2d_str_def Let_def mem_simps length_str_bytes min_absorb2 add.commute)
qed

definition str_at :: "memory \<Rightarrow> strp \<Rightarrow> byte list \<Rightarrow> bool" where
  "str_at sm r t = (case r of StrAt q \<Rightarrow> rdn sm q (length t + 1) = Some (t @ [0]) | _ \<Rightarrow> False)"

lemma m2d_strs_coming:
  assumes "coming ep buf p (concat (map str_bytes ts) @ bs)" "\<forall>t \<in> set ts. length t < 65536"
    "q + sum_list (map length ts) + length ts \<le> length sm" "i + length ts \<le> length sv"
  shows "\<exists>sm' q' sv'. exec (map (m2d_str buf ep) [i..<i + length ts])
      \<lparr>md_p = p, md_strs = Some (sm, q), md_sv = sv\<rparr>
      = Go \<lparr>md_p = p + length (concat (map str_bytes ts)), md_strs = Some (sm', q'), md_sv = sv'\<rparr>
    \<and> length sm' = length sm \<and> take q sm' = take q sm
    \<and> length sv' = length sv \<and> take i sv' = take i sv
    \<and> (\<forall>j < length ts. str_at sm' (sv' ! (i + j)) (ts ! j))
    \<and> drop (i + length ts) sv' = drop (i + length ts) sv"
  using assms
proof (induction ts arbitrary: p q sm i sv)
  case Nil
  then show ?case by simp
next
  case (Cons t ts)
  let ?sm1 = "take q sm @ t @ [0] @ drop (q + length t + 1) sm"
    and ?q1 = "q + length t + 1" and ?p1 = "p + length (str_bytes t)" and ?sv1 = "sv[i := StrAt q]"
  have len: "length ?sm1 = length sm" using Cons.prems(3) by simp
  have step: "m2d_str buf ep i \<lparr>md_p = p, md_strs = Some (sm, q), md_sv = sv\<rparr>
      = Go \<lparr>md_p = ?p1, md_strs = Some (?sm1, ?q1), md_sv = ?sv1\<rparr>"
    using Cons.prems by (intro m2d_str_coming [of _ _ _ _ "concat (map str_bytes ts) @ bs"]) simp_all
  have "coming ep buf ?p1 (concat (map str_bytes ts) @ bs)"
    using Cons.prems(1) by (simp add: coming_append)
  moreover have "\<forall>t \<in> set ts. length t < 65536"
    "?q1 + sum_list (map length ts) + length ts \<le> length ?sm1" "Suc i + length ts \<le> length ?sv1"
    unfolding len using Cons.prems by simp_all
  ultimately obtain sm' q' sv' where
    run: "exec (map (m2d_str buf ep) [Suc i..<Suc i + length ts])
      \<lparr>md_p = ?p1, md_strs = Some (?sm1, ?q1), md_sv = ?sv1\<rparr>
      = Go \<lparr>md_p = ?p1 + length (concat (map str_bytes ts)), md_strs = Some (sm', q'), md_sv = sv'\<rparr>"
    and sm': "length sm' = length ?sm1" "take ?q1 sm' = take ?q1 ?sm1"
    and sv': "length sv' = length ?sv1" "take (Suc i) sv' = take (Suc i) ?sv1"
    and strs: "\<forall>j < length ts. str_at sm' (sv' ! (Suc i + j)) (ts ! j)"
    and rest: "drop (Suc i + length ts) sv' = drop (Suc i + length ts) ?sv1"
    using Cons.IH [of ?p1 ?q1 ?sm1 "Suc i" ?sv1] by blast
  have "sv' ! i = StrAt q"
    using sv' Cons.prems(4) by (metis length_Cons lessI less_le_trans nth_list_update_eq nth_take
        add_Suc_right le_add1 less_Suc_eq_le)
  moreover have "rdn sm' q (length t + 1) = Some (t @ [0])"
    using rdn_cong_take [OF sm'(2,1), of q "length t + 1"] Cons.prems(3)
    by (simp add: rdn_def min_absorb2)
  ultimately have hd: "str_at sm' (sv' ! i) t" by (simp add: str_at_def)
  have "take q sm' = take q (take ?q1 sm')" by (simp add: min_absorb1)
  then have "take q sm' = take q sm" unfolding sm'(2) using Cons.prems(3) by (simp add: min_absorb1)
  moreover have "take i sv' = take i sv"
    using sv'(2) by (metis min.absorb1 take_take take_update_cancel le_add2 le_refl plus_1_eq_Suc)
  moreover have "str_at sm' (sv' ! (i + j)) ((t # ts) ! j)" if "j < length (t # ts)" for j
    using that hd strs by (cases j) auto
  ultimately show ?case
    using step run sm'(1) len sv'(1) rest
    unfolding length_Cons upt_from by (auto simp: add.assoc)
qed

text \<open>A parsed entry says the same as the entry that was printed.\<close>

definition same_dir :: "bool \<Rightarrow> byte list Dir \<Rightarrow> memory \<Rightarrow> strp Dir \<Rightarrow> bool" where
  "same_dir dotu d sm r \<longleftrightarrow> d_type r = d_type d \<and> d_dev r = d_dev d \<and> d_qid r = d_qid d
     \<and> d_mode r = d_mode d \<and> d_atime r = d_atime d \<and> d_mtime r = d_mtime d
     \<and> d_length r = d_length d
     \<and> str_at sm (d_name r) (d_name d) \<and> str_at sm (d_uid r) (d_uid d)
     \<and> str_at sm (d_gid r) (d_gid d) \<and> str_at sm (d_muid r) (d_muid d)
     \<and> (if dotu then str_at sm (d_ext r) (d_ext d) \<and> d_uidnum r = d_uidnum d
          \<and> d_gidnum r = d_gidnum d \<and> d_muidnum r = d_muidnum d
        else d_ext r = NilP)"

lemma convM2D_wire:
  assumes "dir_strings_fit d dotu" "take (stat_size d dotu) buf = stat_wire d dotu"
    "q + stat_size d dotu \<le> length sm"
  shows "\<exists>r sm'. convM2D buf (stat_size d dotu) d0 (Some (sm, q)) dotu
      = Some (stat_size d dotu, r, Some sm')
    \<and> same_dir dotu d sm' r \<and> length sm' = length sm \<and> take q sm' = take q sm"
proof -
  let ?e = "stat_size d dotu" and ?ts = "dir_strings d dotu"
  let ?d1 = "d0\<lparr>d_type := d_type d, d_dev := d_dev d, d_qid := d_qid d,
      d_mode := d_mode d, d_atime := d_atime d, d_mtime := d_mtime d, d_length := d_length d,
      d_name := NilP, d_uid := NilP, d_gid := NilP, d_muid := NilP, d_ext := NilP\<rparr>"
  have c: "coming ?e buf 0 (stat_wire d dotu)" by (rule coming_stat_wire [OF assms(2)])
  have fix': "m2d_fixed buf d0 = Some (41, ?d1)"
    using c unfolding stat_wire_def by (rule m2d_fixed_wire)
  have cs: "coming ?e buf 41 (concat (map str_bytes ?ts) @ stat_ids d dotu)"
    by (rule coming_strings [OF assms(2)])
  have len: "length ?ts = STAT_NSTRINGS dotu" by (rule length_dir_strings)
  have room: "q + sum_list (map length ?ts) + length ?ts \<le> length sm"
    "0 + length ?ts \<le> length (replicate 5 NilP)"
    using assms(3) len by (auto simp: stat_size_def)
  obtain sm' q' sv' where
    run: "exec (map (m2d_str buf ?e) [0..<STAT_NSTRINGS dotu])
      \<lparr>md_p = 41, md_strs = Some (sm, q), md_sv = replicate 5 NilP\<rparr>
      = Go \<lparr>md_p = 41 + length (concat (map str_bytes ?ts)), md_strs = Some (sm', q'), md_sv = sv'\<rparr>"
    and sm': "length sm' = length sm" "take q sm' = take q sm"
    and strs: "\<forall>j < length ?ts. str_at sm' (sv' ! j) (?ts ! j)"
    and rest: "drop (length ?ts) sv' = drop (length ?ts) (replicate 5 NilP)"
    and lsv: "length sv' = 5"
    using m2d_strs_coming [OF cs assms(1) [unfolded dir_strings_fit_def] room]
    unfolding len by auto
  show ?thesis
  proof (cases dotu)
    case False
    then have "sv' ! 4 = NilP"
      using rest lsv len by (simp add: Cons_nth_drop_Suc [symmetric] eval_nat_numeral)
    moreover have "41 + length (concat (map str_bytes ?ts)) = ?e"
      using length_stat_wire [of d dotu] False by (simp add: stat_wire_def stat_ids_def)
    ultimately show ?thesis
      using run strs len sm' False fix'
      by (simp add: convM2D_def m2d_set_strings_def same_dir_def dir_strings_simps All_less_Suc
          eval_nat_numeral Let_def)
  next
    case True
    let ?p = "41 + length (concat (map str_bytes ?ts))"
    have e: "?p + 12 = ?e"
      using length_stat_wire [of d dotu] True by (simp add: stat_wire_def stat_ids_def)
    have ci: "coming ?e buf ?p
        (PBIT32 (d_uidnum d) @ PBIT32 (d_gidnum d) @ PBIT32 (d_muidnum d))"
      using cs True by (simp add: coming_append stat_ids_def)
    have "rdn buf ?p 4 = Some (PBIT32 (d_uidnum d))" "rdn buf (?p + 4) 4 = Some (PBIT32 (d_gidnum d))"
      using coming_rdn [OF ci] coming_rdn_at [OF ci] by simp_all
    moreover have "rdn buf (?p + 8) 4 = Some (PBIT32 (d_muidnum d))"
      using coming_rdn_at [of ?e buf ?p "PBIT32 (d_uidnum d) @ PBIT32 (d_gidnum d)"
          "PBIT32 (d_muidnum d)" "[]"] ci by simp
    ultimately show ?thesis
      using run strs len sm' True fix' e
      by (simp add: convM2D_def m2d_set_strings_def same_dir_def dir_strings_simps All_less_Suc
          eval_nat_numeral Let_def bit32.get_put)
  qed
qed

section \<open>The parser stays inside its buffers\<close>

text \<open>
  The invariant of the string loop: what is left of the string area is at least what is left of
  the entry, and nothing outside the area \<open>[q, q + room)\<close> changes.
\<close>

definition strs_inv :: "nat \<Rightarrow> memory \<Rightarrow> nat \<Rightarrow> nat \<Rightarrow> m2d \<Rightarrow> bool" where
  "strs_inv ebuf sm0 q room s \<longleftrightarrow> (\<exists>sm q'. md_strs s = Some (sm, q') \<and> q \<le> q'
     \<and> q' + (ebuf - md_p s) \<le> q + room \<and> length sm = length sm0 \<and> take q sm = take q sm0
     \<and> drop (q + room) sm = drop (q + room) sm0 \<and> length (md_sv s) = 5)"

lemma keeps_m2d_str:
  assumes "ebuf \<le> length buf" "q + room \<le> length sm0"
  shows "keeps (strs_inv ebuf sm0 q room) (m2d_str buf ebuf i)"
proof (rule keepsI)
  fix s assume "strs_inv ebuf sm0 q room s"
  then obtain sm q' where s: "md_strs s = Some (sm, q')" "q \<le> q'"
      "q' + (ebuf - md_p s) \<le> q + room" "length sm = length sm0" "take q sm = take q sm0"
      "drop (q + room) sm = drop (q + room) sm0" "length (md_sv s) = 5"
    by (auto simp: strs_inv_def)
  show "holds (strs_inv ebuf sm0 q room) (m2d_str buf ebuf i s)"
  proof (cases "md_p s + 2 > ebuf")
    case True
    with s show ?thesis by (auto simp: m2d_str_def strs_inv_def)
  next
    case False
    then obtain b where b: "rdn buf (md_p s) 2 = Some b" using assms by (auto simp: rdn_def)
    let ?n = "unat (GBIT16 b)"
    show ?thesis
    proof (cases "md_p s + 2 + ?n > ebuf")
      case True
      with b False s show ?thesis by (auto simp: m2d_str_def strs_inv_def)
    next
      case le: False
      then obtain str where str: "rdn buf (md_p s + 2) ?n = Some str"
        using assms by (auto simp: rdn_def)
      then have ls: "length str = ?n" by (rule length_rdn)
      have room': "q' + ?n + 1 + (ebuf - (md_p s + 2 + ?n)) \<le> q + room" using s(3) le by linarith
      obtain sm1 where sm1: "wrn sm q' str = Some sm1"
        using room' ls s assms(2) by (auto simp: wrn_def)
      obtain sm2 where sm2: "wrn sm1 (q' + ?n) [0] = Some sm2"
        using room' s assms(2) length_wrn [OF sm1] by (auto simp: wrn_def)
      have "m2d_str buf ebuf i s = Go \<lparr>md_p = md_p s + 2 + ?n, md_strs = Some (sm2, q' + ?n + 1),
          md_sv = (md_sv s)[i := StrAt q']\<rparr>"
        using False le b str sm1 sm2 s by (simp add: m2d_str_def Let_def)
      moreover have "take q sm2 = take q sm0" "drop (q + room) sm2 = drop (q + room) sm0"
        "length sm2 = length sm0"
        using take_wrn [OF sm1, of q] take_wrn [OF sm2, of q] drop_wrn [OF sm1, of "q + room"]
          drop_wrn [OF sm2, of "q + room"] length_wrn [OF sm1] length_wrn [OF sm2] s room' ls
        by simp_all
      ultimately show ?thesis
        using room' s by (auto simp: strs_inv_def)
    qed
  qed
qed

text \<open>Every string read keeps the pointer inside the entry.\<close>

lemma m2d_str_p: "m2d_str buf ebuf i s = Go s' \<Longrightarrow> md_p s' \<le> ebuf"
  by (auto simp: m2d_str_def Let_def split: if_splits option.splits)

lemma m2d_strs_p:
  "exec (map (m2d_str buf ebuf) [i..<i + Suc n]) s = Go s' \<Longrightarrow> md_p s' \<le> ebuf"
proof -
  assume a: "exec (map (m2d_str buf ebuf) [i..<i + Suc n]) s = Go s'"
  then obtain t where "m2d_str buf ebuf (i + n) t = Go s'"
    by (auto simp: exec_append split: outcome.splits)
  then show ?thesis by (rule m2d_str_p)
qed

lemma m2d_fixed_total:
  assumes "41 \<le> length buf"
  shows "\<exists>d'. m2d_fixed buf d = Some (41, d')"
  using assms by (simp add: m2d_fixed_def mem_simps Let_def)

lemma convM2D_within:
  assumes "nbuf \<le> length buf" "41 \<le> length buf" "q + (nbuf - 41) \<le> length sm"
  shows "\<exists>n d' sm'. convM2D buf nbuf d (Some (sm, q)) dotu = Some (n, d', Some sm') \<and> n \<le> nbuf
    \<and> length sm' = length sm \<and> take q sm' = take q sm
    \<and> drop (q + (nbuf - 41)) sm' = drop (q + (nbuf - 41)) sm"
proof -
  let ?I = "strs_inv nbuf sm q (nbuf - 41)"
  let ?s = "\<lparr>md_p = 41, md_strs = Some (sm, q), md_sv = replicate 5 NilP\<rparr>"
  let ?e = "exec (map (m2d_str buf nbuf) [0..<STAT_NSTRINGS dotu]) ?s"
  obtain d1 where d1: "m2d_fixed buf d = Some (41, d1)" using m2d_fixed_total assms(2) by blast
  have "?I ?s" by (simp add: strs_inv_def)
  then have h: "holds ?I ?e"
    using keeps_m2d_str [OF assms(1,3)] by (intro holds_exec) auto
  show ?thesis
  proof (cases ?e)
    case Fault
    with h show ?thesis by simp
  next
    case (Quit s)
    with h d1 show ?thesis by (auto simp: convM2D_def strs_inv_def simp del: exec.simps)
  next
    case (Go s)
    have "md_p s \<le> nbuf"
      using Go m2d_strs_p [of buf nbuf 0 3 ?s s] m2d_strs_p [of buf nbuf 0 4 ?s s]
      by (auto simp del: exec.simps upt_Suc split: if_splits)
    with Go h d1 assms(1) show ?thesis
      by (auto simp: convM2D_def strs_inv_def Let_def mem_simps simp del: exec.simps)
  qed
qed

section \<open>What the checker accepts, the parser parses\<close>

lemma stat_skip_ge: "stat_skip m e n p = Some (Some p') \<Longrightarrow> p + 2 * n \<le> p'"
  by (induction n arbitrary: p) (fastforce split: if_splits option.splits)+

lemma m2d_strs_checked:
  assumes "stat_skip buf ebuf n p = Some (Some p')" "p' \<le> ebuf"
    "\<forall>i \<in> {k..<k + n}. keeps (strs_inv ebuf sm0 q room) (m2d_str buf ebuf i)"
    "strs_inv ebuf sm0 q room s" "md_p s = p"
  shows "\<exists>s'. exec (map (m2d_str buf ebuf) [k..<k + n]) s = Go s' \<and> md_p s' = p'
    \<and> strs_inv ebuf sm0 q room s'"
  using assms
proof (induction n arbitrary: p k s)
  case 0
  then show ?case by simp
next
  case (Suc n)
  then obtain b where b: "p + 2 \<le> ebuf" "rdn buf p 2 = Some b"
    and skip: "stat_skip buf ebuf n (p + 2 + unat (GBIT16 b)) = Some (Some p')"
    by (auto split: if_splits option.splits)
  have le: "p + 2 + unat (GBIT16 b) \<le> ebuf" using stat_skip_ge [OF skip] Suc.prems(2) by simp
  have h: "holds (strs_inv ebuf sm0 q room) (m2d_str buf ebuf k s)"
    using Suc.prems(3,4) by (auto intro: keepsD)
  then have "\<exists>t. m2d_str buf ebuf k s = Go t \<and> md_p t = p + 2 + unat (GBIT16 b)"
    using b le Suc.prems(5)
    by (auto simp: m2d_str_def Let_def not_less split: option.splits)
  then obtain t where t: "m2d_str buf ebuf k s = Go t" "md_p t = p + 2 + unat (GBIT16 b)" by blast
  moreover have "strs_inv ebuf sm0 q room t" using h t by simp
  ultimately show ?case
    using Suc.IH [OF skip Suc.prems(2), of "Suc k" t] Suc.prems(3)
    unfolding upt_from by (simp del: upt_Suc)
qed

lemma convM2D_checked:
  assumes "nbuf \<le> length buf" "statcheck buf nbuf dotu = Some 0" "q + (nbuf - 41) \<le> length sm"
  shows "\<exists>d' sm'. convM2D buf nbuf d (Some (sm, q)) dotu = Some (nbuf, d', Some sm')
    \<and> length sm' = length sm \<and> take q sm' = take q sm
    \<and> drop (q + (nbuf - 41)) sm' = drop (q + (nbuf - 41)) sm"
proof -
  let ?n = "STAT_NSTRINGS dotu" and ?I = "strs_inv nbuf sm q (nbuf - 41)"
  let ?s = "\<lparr>md_p = 41, md_strs = Some (sm, q), md_sv = replicate 5 NilP\<rparr>"
  obtain p where p: "stat_skip buf nbuf ?n 41 = Some (Some p)"
      and e: "p + (if dotu then 12 else 0) = nbuf"
    using assms(2) by (auto simp: statcheck_def Let_def split: option.splits if_splits)
  then have ge: "41 \<le> nbuf" using stat_skip_ge [OF p] by simp
  obtain d1 where d1: "m2d_fixed buf d = Some (41, d1)"
    using m2d_fixed_total [of buf d] ge assms(1) by auto
  have "\<exists>s'. exec (map (m2d_str buf nbuf) [0..<0 + ?n]) ?s = Go s' \<and> md_p s' = p \<and> ?I s'"
    using e keeps_m2d_str [OF assms(1,3)]
    by (intro m2d_strs_checked [OF p]) (auto simp: strs_inv_def)
  then obtain s where "exec (map (m2d_str buf nbuf) [0..<?n]) ?s = Go s" "md_p s = p" "?I s"
    by auto
  then show ?thesis
    using d1 e assms(1)
    by (cases dotu) (auto simp: convM2D_def strs_inv_def Let_def mem_simps simp del: exec.simps)
qed

text \<open>
  An empty entry is read all the same: \<^verbatim>\<open>convM2D\<close> looks at \<^verbatim>\<open>nbuf\<close> only after the fixed part,
  and returns 0, which is \<^verbatim>\<open>nbuf\<close>.
\<close>

lemma convM2D_empty:
  "41 \<le> length buf \<Longrightarrow> \<exists>d'. convM2D buf 0 d strs dotu = Some (0, d', map_option fst strs)
     \<and> d_name d' = NilP"
  "length buf < 41 \<Longrightarrow> convM2D buf nbuf d strs dotu = None"
proof -
  assume "41 \<le> length buf"
  then show "\<exists>d'. convM2D buf 0 d strs dotu = Some (0, d', map_option fst strs) \<and> d_name d' = NilP"
    by (auto simp: convM2D_def m2d_fixed_def mem_simps Let_def m2d_str_def upt_rec)
next
  assume l: "length buf < 41"
  have "m2d_fixed buf d = None"
  proof (cases "m2d_fixed buf d")
    case (Some r)
    then show ?thesis using l
      by (auto simp: m2d_fixed_def Let_def bind_eq_Some_conv rdn_eq_Some_iff)
  qed
  then show "convM2D buf nbuf d strs dotu = None" by (simp add: convM2D_def)
qed

end
