(* ===== verification/DirProps.thy ===== *)
theory DirProps
  imports DirWire
begin

text \<open>
  The properties of directory entries on the wire: print and parse are inverse, the printer
  reports the size it needs, \<^verbatim>\<open>statcheck\<close> accepts only what \<^verbatim>\<open>convM2D\<close> can parse, and what
  happens to an entry that was not checked.
\<close>

text \<open>An entry for the examples: a file \<^verbatim>\<open>a\<close> owned by \<^verbatim>\<open>u\<close>.\<close>

definition small_dir :: "byte list Dir" where
  "small_dir = \<lparr>d_type = 1, d_dev = 2, d_qid = zero_qid, d_mode = 0x1A4, d_atime = 3, d_mtime = 4,
     d_length = 5, d_name = [97], d_uid = [117], d_gid = [], d_muid = [], d_ext = [],
     d_uidnum = 6, d_gidnum = 7, d_muidnum = 8\<rparr>"

lemma small_dir_ok: "dir_strings_fit small_dir dotu"
  "stat_size small_dir False = 51" "stat_size small_dir True = 65"
  by (cases dotu; simp add: small_dir_def dir_strings_fit_def dir_strings_simps stat_size_def)+

text \<open>
  C21. A \<open>Dir\<close> printed by \<open>convD2M\<close> is accepted by \<open>statcheck\<close> and parsed by \<open>convM2D\<close> into the
  same entry: every number, the qid and every string, which lands in the string area; the caller's
  strings before it are kept.
\<close>

theorem stat_round_trip:
  assumes "dir_strings_fit d dotu" "stat_size d dotu \<le> unat nbuf" "unat nbuf \<le> length buf"
    and "q + stat_size d dotu \<le> length sm"
  shows "\<exists>n buf' r sm'. convD2M d buf nbuf dotu = Some (n, buf') \<and> statcheck buf' n dotu = Some 0
    \<and> convM2D buf' n e (Some (sm, q)) dotu = Some (n, r, Some sm') \<and> same_dir dotu d sm' r
    \<and> take q sm' = take q sm"
proof -
  let ?n = "stat_size d dotu" and ?b = "stat_wire d dotu @ drop (stat_size d dotu) buf"
  have t: "take ?n ?b = stat_wire d dotu" by (simp add: length_stat_wire)
  show ?thesis
    using convD2M_fits [OF assms(1-3)] statcheck_wire [OF assms(1) t]
      convM2D_wire [OF assms(1) t assms(4), of e] by blast
qed

theorem stat_round_trip_witness:
  "\<exists>n buf' r sm'. convD2M small_dir (replicate 70 9) 70 True = Some (n, buf')
    \<and> statcheck buf' n True = Some 0
    \<and> convM2D buf' n zero_dir (Some (replicate 80 0, 3)) True = Some (n, r, Some sm')
    \<and> same_dir True small_dir sm' r \<and> take 3 sm' = take 3 (replicate 80 0)"
  by (rule stat_round_trip) (simp_all add: small_dir_ok)

text \<open>
  When the buffer is too short for the entry, \<open>convD2M\<close> stores only the entry's size, returns
  the two bytes of it, and stays inside the buffer, so that the caller can allocate enough.
\<close>

theorem convD2M_reports_size:
  assumes "dir_strings_fit d dotu" "unat nbuf < stat_size d dotu" "unat nbuf \<le> length buf"
  shows "convD2M d buf nbuf dotu =
    (if unat nbuf < 2 then Some (0, buf)
     else Some (2, PBIT16 (of_nat (stat_size d dotu - 2)) @ drop 2 buf))"
  using convD2M_short [OF assms(1) _ assms(2,3)] by (auto simp: convD2M_def)

theorem convD2M_reports_size_witness:
  "convD2M small_dir (replicate 8 9) 8 False = Some (2, PBIT16 49 @ replicate 6 9)"
  using convD2M_reports_size [of small_dir False 8 "replicate 8 9"]
  by (simp add: small_dir_ok)

text \<open>
  C22. What \<open>statcheck\<close> has accepted, \<open>convM2D\<close> parses completely: it returns the size of the entry,
  and stores strings only in the \<open>nbuf - 41\<close> bytes of the string area that the entry's text and
  its NULs can need.
\<close>

theorem statcheck_sound:
  assumes "nbuf \<le> length buf" "statcheck buf nbuf dotu = Some 0" "q + (nbuf - 41) \<le> length sm"
  shows "\<exists>d' sm'. convM2D buf nbuf d (Some (sm, q)) dotu = Some (nbuf, d', Some sm')
    \<and> length sm' = length sm \<and> take q sm' = take q sm
    \<and> drop (q + (nbuf - 41)) sm' = drop (q + (nbuf - 41)) sm"
  using assms by (rule convM2D_checked)

theorem statcheck_sound_witness:
  "\<exists>d' sm'. convM2D (stat_wire small_dir False) 51 zero_dir (Some (replicate 12 1, 1)) False = Some (51, d', Some sm')
    \<and> length sm' = 12 \<and> take 1 sm' = [1] \<and> drop 11 sm' = [1]"
proof -
  have l: "length (stat_wire small_dir False) = 51" by (simp add: length_stat_wire small_dir_ok)
  then have "take 51 (stat_wire small_dir False) = stat_wire small_dir False" by simp
  then have "statcheck (stat_wire small_dir False) 51 False = Some 0"
    using statcheck_wire [OF small_dir_ok(1), of False] by (simp add: small_dir_ok)
  with statcheck_sound [of 51 "stat_wire small_dir False" False 1 "replicate 12 1" zero_dir] l show ?thesis
    by simp
qed

text \<open>
  C35. An entry that was not checked, but lies in a buffer of at least 41 bytes, cannot make
  \<open>convM2D\<close> leave the entry or the string area: it parses a prefix or returns 0.
\<close>

theorem convM2D_safe:
  assumes "nbuf \<le> length buf" "41 \<le> length buf" "q + (nbuf - 41) \<le> length sm"
  shows "\<exists>n d' sm'. convM2D buf nbuf d (Some (sm, q)) dotu = Some (n, d', Some sm') \<and> n \<le> nbuf
    \<and> length sm' = length sm \<and> take q sm' = take q sm"
proof -
  from convM2D_within [OF assms, of d dotu] show ?thesis by blast
qed

theorem convM2D_safe_witness:
  "\<exists>n d' sm'. convM2D (replicate 60 255) 60 zero_dir (Some (replicate 19 0, 0)) True = Some (n, d', Some sm')
    \<and> n \<le> 60 \<and> length sm' = 19"
  using convM2D_safe [of 60 "replicate 60 255" 0 "replicate 19 0" zero_dir True] by auto

text \<open>
  The fixed part is read without a check: with fewer than 41 bytes in the buffer \<open>convM2D\<close>
  reads past it, and an entry of size 0 in a longer buffer is parsed as an entry with no name, with
  the returned count equal to the size given, which the callers take for success.
\<close>

theorem convM2D_unchecked_fixed_part:
  "(convM2D buf nbuf d strs dotu = None \<or> 41 \<le> length buf)
   \<and> (\<exists>d'. convM2D (replicate (41 + k) 0) 0 d strs dotu = Some (0, d', map_option fst strs) \<and> d_name d' = NilP)"
  using convM2D_empty(2) [of buf nbuf d strs dotu] convM2D_empty(1) [of "replicate (41 + k) 0" d strs dotu]
  by (auto simp: not_le)

end
