(* ===== verification/Crypt.thy ===== *)
theory Crypt
  imports CryptTables
begin

text \<open>
  The DES of \<^verbatim>\<open>kext/crypt.c\<close> and the way p9sk1 uses it: \<^verbatim>\<open>block_cipher\<close>, \<^verbatim>\<open>key_setup\<close>,
  \<^verbatim>\<open>encrypt_9p\<close>, \<^verbatim>\<open>decrypt_9p\<close> and \<^verbatim>\<open>passtokey_9p\<close>. A table index out of range and an access
  outside a buffer are \<^term>\<open>None\<close>.
\<close>

abbreviation NAMELEN :: nat where "NAMELEN \<equiv> 28"
abbreviation DESKEYLEN :: nat where "DESKEYLEN \<equiv> 7"

section \<open>Permutations\<close>

text \<open>
  \<^verbatim>\<open>iptab[(block[i] >> 4) & 7]\<close> and the like: the mask keeps the index in range, and selects
  bits of the byte whatever sign \<^verbatim>\<open>char\<close> has.
\<close>

definition ip_low :: "byte list \<Rightarrow> u64" where
  "ip_low block = foldl (\<lambda>l i. l OR drop_bit i (iptab ! unat (drop_bit 4 (block ! i) AND 7))
       OR push_bit (16 - i) (iptab ! unat (block ! i AND 7))) 0 [0..<8]"

definition ip_high :: "byte list \<Rightarrow> u64" where
  "ip_high block = foldl (\<lambda>l i. l OR drop_bit i (iptab ! unat (drop_bit 5 (block ! i) AND 7))
       OR push_bit (16 - i) (iptab ! unat (drop_bit 1 (block ! i) AND 7))) 0 [0..<8]"

text \<open>The inner loop of \<^verbatim>\<open>fp\<close>: four steps over the nibbles of \<^verbatim>\<open>t\<close>.\<close>

definition fp_step :: "u64 \<times> nat \<times> u64 \<times> u64 \<Rightarrow> u64 \<times> nat \<times> u64 \<times> u64" where
  "fp_step s = (case s of (t, sh, v0, v1) \<Rightarrow>
     let v1 = v1 OR drop_bit sh (fptab ! unat (t AND 0xf)); t = drop_bit 4 t;
         v0 = v0 OR drop_bit sh (fptab ! unat (t AND 0xf)); t = drop_bit 4 t
     in (t, sh + 2, v0, v1))"

definition fp_half :: "nat \<Rightarrow> u64 \<Rightarrow> u64 \<times> u64 \<Rightarrow> u64 \<times> u64" where
  "fp_half i t v = snd (snd ((fp_step ^^ 4) (t, i, v)))"

definition fp :: "u64 \<Rightarrow> u64 \<Rightarrow> byte list" where
  "fp left right =
     (let (v0, v1) = fp_half 1 left (fp_half 0 right (0, 0)) in
      map (\<lambda>j. ucast (drop_bit (8 * j) v0)) [0..<4] @ map (\<lambda>j. ucast (drop_bit (8 * j) v1)) [0..<4])"

section \<open>One block\<close>

text \<open>\<^verbatim>\<open>sNp[x ^ *key]\<close>\<close>

definition sbox :: "u64 list \<Rightarrow> u64 \<Rightarrow> byte \<Rightarrow> u64 option" where
  "sbox tab x k = (let i = unat (x XOR ucast k) in if i < length tab then Some (tab ! i) else None)"

text \<open>The eight lookups of a round, on the eight key bytes \<open>k\<close>.\<close>

definition des_f :: "byte list \<Rightarrow> u64 \<Rightarrow> u64 option" where
  "des_f k right = do {
     let temp = push_bit 1 right OR (drop_bit 31 right AND 1);
     c0 \<leftarrow> sbox s0p (temp AND 0x3f) (k ! 0);
     c1 \<leftarrow> sbox s1p (drop_bit 4 temp AND 0x3f) (k ! 1);
     c2 \<leftarrow> sbox s2p (drop_bit 8 temp AND 0x3f) (k ! 2);
     c3 \<leftarrow> sbox s3p (drop_bit 12 temp AND 0x3f) (k ! 3);
     c4 \<leftarrow> sbox s4p (drop_bit 16 temp AND 0x3f) (k ! 4);
     c5 \<leftarrow> sbox s5p (drop_bit 20 temp AND 0x3f) (k ! 5);
     c6 \<leftarrow> sbox s6p (drop_bit 24 temp AND 0x3f) (k ! 6);
     let temp = push_bit 5 (right AND 1) OR (drop_bit 27 right AND 0x1f);
     c7 \<leftarrow> sbox s7p temp (k ! 7);
     Some (c0 OR c1 OR c2 OR c3 OR c4 OR c5 OR c6 OR c7)
   }"

text \<open>
  The sixteen rounds. \<open>key\<close> is the key pointer: each round reads eight bytes from it, and it
  moves on by eight, or back by eight when decrypting.
\<close>

fun des_rounds :: "nat \<Rightarrow> byte list \<Rightarrow> int \<Rightarrow> int \<Rightarrow> u64 \<Rightarrow> u64 \<Rightarrow> (u64 \<times> u64) option" where
  "des_rounds 0 ek key key_offset left right = Some (left, right)"
| "des_rounds (Suc n) ek key key_offset left right =
     (if key < 0 then None
      else do {
        k \<leftarrow> rdn ek (nat key) 8;
        crypto \<leftarrow> des_f k right;
        des_rounds n ek (key + 8 - key_offset) key_offset right (left XOR crypto)
      })"

definition block_cipher :: "byte list \<Rightarrow> byte list \<Rightarrow> bool \<Rightarrow> byte list option" where
  "block_cipher expanded_key block decrypting =
     (let left = ip_low block; right = ip_high block;
          key_offset = (if decrypting then 16 else 0);
          key = (if decrypting then 128 - 8 else 0) in
      do {
        (left, right) \<leftarrow> des_rounds 16 expanded_key key key_offset left right;
        Some (fp right left)
      })"

section \<open>Key set-up\<close>

text \<open>\<^verbatim>\<open>for(j = 0; j < 15; j++) ek[x[j][0]] |= x[j][1];\<close>\<close>

definition key_row :: "(nat \<times> byte) list \<Rightarrow> byte list \<Rightarrow> byte list" where
  "key_row x ek = fold (\<lambda>(p, v) ek. ek[p := ek ! p OR v]) x ek"

definition key_bit :: "byte list \<Rightarrow> nat \<Rightarrow> byte list \<Rightarrow> byte list" where
  "key_bit key b ek = (if bit (key ! (b div 8)) (7 - b mod 8) then key_row (keyexpand ! b) ek else ek)"

definition key_setup :: "byte list \<Rightarrow> byte list option" where
  "key_setup key = (if length key < DESKEYLEN then None
     else Some (fold (key_bit key) [0..<7 * 8] (replicate 128 0)))"

section \<open>Buffers\<close>

definition crypt_at :: "byte list \<Rightarrow> bool \<Rightarrow> nat \<Rightarrow> memory \<Rightarrow> memory option" where
  "crypt_at ek dec p m = do {
     b \<leftarrow> rdn m p 8;
     b' \<leftarrow> block_cipher ek b dec;
     wrn m p b'
   }"

text \<open>\<^verbatim>\<open>for(i = 0; i < n; i++){ block_cipher(ekey, buf, 0); buf += 7; }\<close>, and back.\<close>

fun encrypt_loop :: "byte list \<Rightarrow> nat \<Rightarrow> nat \<Rightarrow> memory \<Rightarrow> (nat \<times> memory) option" where
  "encrypt_loop ek 0 buf m = Some (buf, m)"
| "encrypt_loop ek (Suc n) buf m = do { m \<leftarrow> crypt_at ek False buf m; encrypt_loop ek n (buf + 7) m }"

fun decrypt_loop :: "byte list \<Rightarrow> nat \<Rightarrow> nat \<Rightarrow> memory \<Rightarrow> memory option" where
  "decrypt_loop ek 0 buf m = Some m"
| "decrypt_loop ek (Suc n) buf m = do { m \<leftarrow> crypt_at ek True (buf - 7) m; decrypt_loop ek n (buf - 7) m }"

text \<open>\<open>vbuf\<close> is a pointer into \<open>m\<close>; the result is the returned flag and the memory.\<close>

definition encrypt_9p :: "byte list \<Rightarrow> memory \<Rightarrow> nat \<Rightarrow> int \<Rightarrow> (int \<times> memory) option" where
  "encrypt_9p key m vbuf n =
     (if n < 8 then Some (0, m)
      else do {
        ekey \<leftarrow> key_setup key;
        let n = nat n - 1;
        let r = n mod 7;
        let n = n div 7;
        (buf, m) \<leftarrow> encrypt_loop ekey n vbuf m;
        m \<leftarrow> (if r \<noteq> 0 then crypt_at ekey False (buf - 7 + r) m else Some m);
        Some (1, m)
      })"

definition decrypt_9p :: "byte list \<Rightarrow> memory \<Rightarrow> nat \<Rightarrow> int \<Rightarrow> (int \<times> memory) option" where
  "decrypt_9p key m vbuf n =
     (if n < 8 then Some (0, m)
      else do {
        ekey \<leftarrow> key_setup key;
        let n = nat n - 1;
        let r = n mod 7;
        let n = n div 7;
        let buf = vbuf + n * 7;
        m \<leftarrow> (if r \<noteq> 0 then crypt_at ekey True (buf - 7 + r) m else Some m);
        m \<leftarrow> decrypt_loop ekey n buf m;
        Some (1, m)
      })"

section \<open>Keys from passwords\<close>

text \<open>\<^verbatim>\<open>key[i] = (t[i] >> i) + (t[i+1] << (8 - (i+1)))\<close>, in \<^verbatim>\<open>int\<close>, cut to a byte.\<close>

definition pack_key :: "byte list \<Rightarrow> byte list" where
  "pack_key t = map (\<lambda>i. drop_bit i (t ! i) + push_bit (8 - (i + 1)) (t ! (i + 1))) [0..<DESKEYLEN]"

text \<open>The loop, at pointer \<open>t\<close> into \<open>buf\<close> with \<open>n\<close> bytes to go.\<close>

fun pass_loop :: "memory \<Rightarrow> nat \<Rightarrow> nat \<Rightarrow> byte list option" where
  "pass_loop buf t n = (case rdn buf t 8 of
     None \<Rightarrow> None
   | Some b \<Rightarrow>
       let key = pack_key b in
       if n \<le> 8 then Some key
       else let n = n - 8; t = t + 8;
                t' = (if n < 8 then t - (8 - n) else t); n' = (if n < 8 then 8 else n) in
         (case encrypt_9p key buf t' 8 of
            None \<Rightarrow> None
          | Some (_, buf') \<Rightarrow> pass_loop buf' t' n'))"

text \<open>
  \<open>stack\<close> is what the uninitialised \<^verbatim>\<open>buf[NAMELEN]\<close> holds; \<open>p\<close> is the password, a C string.
\<close>

definition passtokey_9p :: "byte list \<Rightarrow> byte list \<Rightarrow> byte list option" where
  "passtokey_9p stack p = do {
     let n = (if length p \<ge> NAMELEN then NAMELEN - 1 else length p);
     buf \<leftarrow> wrn stack 0 (replicate 8 0x20);
     buf \<leftarrow> wrn buf 0 (take n p);
     buf \<leftarrow> wrn buf n [0];
     pass_loop buf 0 n
   }"

end
