(* ===== verification/CryptProofs.thy ===== *)
theory CryptProofs
  imports Crypt
begin

text \<open>
  DES decryption undoes DES encryption, block by block and over the overlapping blocks of
  \<^verbatim>\<open>encrypt_9p\<close>; every table index of the cipher is in range for a key that \<^verbatim>\<open>key_setup\<close> made.
\<close>

section \<open>Permutations, bit by bit\<close>

lemma bit_foldl_OR:
  fixes f :: "nat \<Rightarrow> 'a::len word"
  shows "bit (foldl (\<lambda>l i. l OR f i) a xs) n \<longleftrightarrow> bit a n \<or> (\<exists>i \<in> set xs. bit (f i) n)"
  by (induction xs arbitrary: a) (auto simp: bit_simps)

lemma less_8_cases: "row < (8::nat) \<longleftrightarrow> row = 0 \<or> row = 1 \<or> row = 2 \<or> row = 3 \<or> row = 4 \<or> row = 5 \<or> row = 6 \<or> row = 7"
  by auto

lemma less_16_cases: "col < (16::nat) \<longleftrightarrow> col < 8 \<or> col = 8 \<or> col = 9 \<or> col = 10 \<or> col = 11 \<or> col = 12
    \<or> col = 13 \<or> col = 14 \<or> col = 15"
  by auto

lemma bit_nat_word: "bit (unat (x :: 'a::len word)) n \<longleftrightarrow> bit x n"
  by (simp add: bit_unsigned_iff)

definition onebit :: "nat \<Rightarrow> u64" where
  "onebit k = push_bit k 1"

lemma bit_onebit: "bit (onebit k) n \<longleftrightarrow> n = k \<and> k < 64"
  by (auto simp: onebit_def bit_simps)

text \<open>The tables send single bits to single bits.\<close>

lemma iptab_entry: "i < 8 \<Longrightarrow> iptab ! i =
    (if bit i 0 then onebit 15 else 0) OR (if bit i 2 then onebit 7 else 0)"
proof -
  have "\<forall>i \<in> set [0..<8]. iptab ! i =
      (if bit i 0 then onebit 15 else 0) OR (if bit i 2 then onebit 7 else 0)" by code_simp
  then show "i < 8 \<Longrightarrow> ?thesis" by simp
qed

lemma fptab_entry: "i < 16 \<Longrightarrow> fptab ! i =
    (if bit i 0 then onebit 31 else 0) OR (if bit i 1 then onebit 23 else 0)
    OR (if bit i 2 then onebit 15 else 0) OR (if bit i 3 then onebit 7 else 0)"
proof -
  have "\<forall>i \<in> set [0..<16]. fptab ! i =
      (if bit i 0 then onebit 31 else 0) OR (if bit i 1 then onebit 23 else 0)
      OR (if bit i 2 then onebit 15 else 0) OR (if bit i 3 then onebit 7 else 0)" by code_simp
  then show "i < 16 \<Longrightarrow> ?thesis" by simp
qed

lemma bit_iptab: "i < 8 \<Longrightarrow> bit (iptab ! i) n \<longleftrightarrow> n = 15 \<and> bit i 0 \<or> n = 7 \<and> bit i 2"
  by (simp add: iptab_entry bit_or_iff bit_onebit)

lemma bit_fptab: "i < 16 \<Longrightarrow> bit (fptab ! i) n \<longleftrightarrow>
    n = 31 \<and> bit i 0 \<or> n = 23 \<and> bit i 1 \<or> n = 15 \<and> bit i 2 \<or> n = 7 \<and> bit i 3"
  by (auto simp add: fptab_entry bit_or_iff bit_onebit)

lemma bit_masked_nat:
  "bit (unat ((x :: 'a::len word) AND mask k)) n \<longleftrightarrow> n < k \<and> bit x n"
  by (auto simp: bit_nat_word bit_simps dest: bit_imp_le_length)

lemma unat_masked_less: "unat ((x :: 'a::len word) AND mask k) < 2 ^ k"
  by (simp add: take_bit_eq_mask [symmetric] unsigned_take_bit_eq)

lemmas masks = mask_numeral [of Num.One, simplified]

lemma mask_3: "(7 :: 'a::len word) = mask 3"
  by (simp add: mask_eq_exp_minus_1)

lemma mask_4: "(15 :: 'a::len word) = mask 4"
  by (simp add: mask_eq_exp_minus_1)

lemma bit_iptab_masked:
  "bit (iptab ! unat ((x :: byte) AND 7)) n \<longleftrightarrow> n = 15 \<and> bit x 0 \<or> n = 7 \<and> bit x 2"
proof -
  have "unat (x AND 7) < 8" using unat_masked_less [of x 3] by (simp add: mask_3)
  then show ?thesis unfolding mask_3 by (simp add: bit_iptab bit_masked_nat)
qed

lemma bit_fptab_masked:
  "bit (fptab ! unat ((x :: u64) AND 15)) n \<longleftrightarrow>
    n = 31 \<and> bit x 0 \<or> n = 23 \<and> bit x 1 \<or> n = 15 \<and> bit x 2 \<or> n = 7 \<and> bit x 3"
proof -
  have "unat (x AND 15) < 16" using unat_masked_less [of x 4] by (simp add: mask_4)
  then show ?thesis unfolding mask_4 by (simp add: bit_fptab bit_masked_nat)
qed

text \<open>Where each bit of the permuted halves comes from.\<close>

lemma less_32_cases: "pos < (32::nat) \<longleftrightarrow> pos < 16 \<or> pos = 16 \<or> pos = 17 \<or> pos = 18 \<or> pos = 19 \<or> pos = 20
    \<or> pos = 21 \<or> pos = 22 \<or> pos = 23 \<or> pos = 24 \<or> pos = 25 \<or> pos = 26 \<or> pos = 27 \<or> pos = 28 \<or> pos = 29
    \<or> pos = 30 \<or> pos = 31"
  by presburger

lemma bit_push_u64: "bit (push_bit k (x :: u64)) n \<longleftrightarrow> n < 64 \<and> k \<le> n \<and> bit x (n - k)"
  by (auto simp: bit_simps)

lemma bit_ip_low_iff: "bit (ip_low b) n \<longleftrightarrow> (\<exists>i < 8. i + n = 15 \<and> bit (b ! i) 4 \<or> i + n = 7 \<and> bit (b ! i) 6
    \<or> n < 64 \<and> 16 - i \<le> n \<and> (n - (16 - i) = 15 \<and> bit (b ! i) 0 \<or> n - (16 - i) = 7 \<and> bit (b ! i) 2))"
  unfolding ip_low_def or.assoc bit_foldl_OR set_upt
    bit_or_iff bit_drop_bit_eq bit_push_u64 bit_iptab_masked o_def
  by (simp only: Bex_def atLeastLessThan_iff zero_le bit_0_eq bot_apply bot_bool_def simp_thms
      add_0_right one_plus_numeral add_num_simps numeral_plus_numeral disj_assoc)

lemma bit_ip_high_iff: "bit (ip_high b) n \<longleftrightarrow> (\<exists>i < 8. i + n = 15 \<and> bit (b ! i) 5 \<or> i + n = 7 \<and> bit (b ! i) 7
    \<or> n < 64 \<and> 16 - i \<le> n \<and> (n - (16 - i) = 15 \<and> bit (b ! i) 1 \<or> n - (16 - i) = 7 \<and> bit (b ! i) 3))"
  unfolding ip_high_def or.assoc bit_foldl_OR set_upt
    bit_or_iff bit_drop_bit_eq bit_push_u64 bit_iptab_masked o_def
  by (simp only: Bex_def atLeastLessThan_iff zero_le bit_0_eq bot_apply bot_bool_def simp_thms
      add_0_right one_plus_numeral add_num_simps numeral_plus_numeral disj_assoc)

lemma bit_ip_low:
  assumes "n < 32"
  shows "bit (ip_low b) n \<longleftrightarrow> bit (b ! (7 - n mod 8)) (6 - 2 * (n div 8))"
  using assms unfolding bit_ip_low_iff less_8_cases less_16_cases less_32_cases
  by (elim disjE) (simp_all add: ex_disj_distrib conj_disj_distribR)

lemma bit_ip_high:
  assumes "n < 32"
  shows "bit (ip_high b) n \<longleftrightarrow> bit (b ! (7 - n mod 8)) (7 - 2 * (n div 8))"
  using assms unfolding bit_ip_high_iff less_8_cases less_16_cases less_32_cases
  by (elim disjE) (simp_all add: ex_disj_distrib conj_disj_distribR)

text \<open>The halves are 32 bits.\<close>

definition is32 :: "u64 \<Rightarrow> bool" where
  "is32 x \<longleftrightarrow> (\<forall>n \<ge> 32. \<not> bit x n)"

lemma is32_ip_low: "is32 (ip_low b)"
  by (auto simp: is32_def bit_ip_low_iff)

lemma is32_ip_high: "is32 (ip_high b)"
  by (auto simp: is32_def bit_ip_high_iff)

lemma is32_eqI: "is32 x \<Longrightarrow> is32 y \<Longrightarrow> (\<And>n. n < 32 \<Longrightarrow> bit x n \<longleftrightarrow> bit y n) \<Longrightarrow> x = y"
  by (rule bit_word_eqI) (metis is32_def not_less)

text \<open>The final permutation, in the same terms.\<close>

lemma fp_half_eq:
  "fp_half i t (v0, v1) =
    (v0 OR drop_bit i (fptab ! unat (drop_bit 4 t AND 15))
        OR drop_bit (i + 2) (fptab ! unat (drop_bit 12 t AND 15))
        OR drop_bit (i + 4) (fptab ! unat (drop_bit 20 t AND 15))
        OR drop_bit (i + 6) (fptab ! unat (drop_bit 28 t AND 15)),
     v1 OR drop_bit i (fptab ! unat (t AND 15))
        OR drop_bit (i + 2) (fptab ! unat (drop_bit 8 t AND 15))
        OR drop_bit (i + 4) (fptab ! unat (drop_bit 16 t AND 15))
        OR drop_bit (i + 6) (fptab ! unat (drop_bit 24 t AND 15)))"
  by (simp add: fp_half_def fp_step_def numeral_eq_Suc or.assoc)

lemma bit_fp:
  assumes "m < 8" "p < 8"
  shows "bit (fp l r ! m) p \<longleftrightarrow> bit (if odd p then r else l) (8 * ((7 - p) div 2) + 7 - m)"
  using assms unfolding fp_def fp_half_eq Let_def case_prod_conv less_8_cases
  by (elim disjE) (simp_all add: bit_simps bit_fptab_masked upt_rec)


section \<open>Block encryption and decryption\<close>

lemma length_fp: "length (fp l r) = 8"
  by (simp add: fp_def case_prod_beta)

lemma ip_low_fp: "is32 l \<Longrightarrow> ip_low (fp l r) = l"
proof (rule is32_eqI [OF is32_ip_low])
  show "bit (ip_low (fp l r)) n = bit l n" if "n < 32" for n
  proof -
    have "8 * (n div 8) + n mod 8 = n" by simp
    moreover have "n div 8 \<le> 3" using that by linarith
    ultimately show ?thesis
      using that by (simp add: bit_ip_low bit_fp)
  qed
qed

lemma ip_high_fp: "is32 r \<Longrightarrow> ip_high (fp l r) = r"
proof (rule is32_eqI [OF is32_ip_high])
  show "bit (ip_high (fp l r)) n = bit r n" if "n < 32" for n
  proof -
    have "n div 8 \<le> 3" using that by linarith
    then show ?thesis
      using that by (simp add: bit_ip_high bit_fp)
  qed
qed

lemma odd_half: "p < 8 \<Longrightarrow> odd p \<Longrightarrow> 7 - 2 * ((7 - p) div 2) = (p::nat)"
  by presburger

lemma even_half: "p < 8 \<Longrightarrow> even p \<Longrightarrow> 6 - 2 * ((7 - p) div 2) = (p::nat)"
  by presburger

lemma fp_ip_bit:
  assumes "m < 8" "p < 8"
  shows "bit (fp (ip_low b) (ip_high b) ! m) p = bit (b ! m) p"
proof -
  define q where "q = (7 - p) div 2"
  have q: "q \<le> 3" unfolding q_def by simp
  have n: "8 * q + 7 - m = 8 * q + (7 - m)" "8 * q + (7 - m) < 32"
    using assms(1) q by simp_all
  have md: "(8 * q + (7 - m)) mod 8 = 7 - m" "(8 * q + (7 - m)) div 8 = q" by simp_all
  have m: "7 - (7 - m) = m" using assms(1) by simp
  show ?thesis
  proof (cases "odd p")
    case True
    then show ?thesis
      unfolding bit_fp [OF assms] q_def [symmetric] n(1)
      by (simp only: if_True not_False_eq_True bit_ip_high [OF n(2)] md m odd_half [OF assms(2), folded q_def])
  next
    case False
    then have "even p" by simp
    then show ?thesis
      unfolding bit_fp [OF assms] q_def [symmetric] n(1)
      by (simp only: if_False not_True_eq_False bit_ip_low [OF n(2)] md m
          even_half [OF assms(2), folded q_def] simp_thms)
  qed
qed

lemma fp_ip:
  assumes "length b = 8"
  shows "fp (ip_low b) (ip_high b) = b"
proof (rule nth_equalityI)
  show "length (fp (ip_low b) (ip_high b)) = length b" using assms by (simp add: length_fp)
  show "fp (ip_low b) (ip_high b) ! m = b ! m" if "m < length (fp (ip_low b) (ip_high b))" for m
    using that fp_ip_bit [of m _ b] by (intro bit_word_eqI) (simp add: length_fp)
qed

text \<open>
  A Feistel network is inverted by running it backwards; this needs nothing of the round
  function \<open>f\<close> but that it is the same both ways.
\<close>

lemma des_rounds_snoc:
  "des_rounds (Suc n) ek k o' l r = do {
     (l', r') \<leftarrow> des_rounds n ek k o' l r;
     if k + int n * (8 - o') < 0 then None
     else do { kb \<leftarrow> rdn ek (nat (k + int n * (8 - o'))) 8; c \<leftarrow> des_f kb r'; Some (r', l' XOR c) } }"
proof (induction n arbitrary: k l r)
  case 0
  show ?case by simp
next
  case (Suc n)
  have e: "k + int (Suc n) * (8 - o') = k + 8 - o' + int n * (8 - o')" by (simp add: algebra_simps)
  show ?case
    apply (subst (2) des_rounds.simps(2))
    apply (subst des_rounds.simps(2))
    unfolding Suc.IH e
    by (cases "k < 0") (simp_all add: case_prod_beta' Option.bind_assoc)
qed

lemma des_rounds_back:
  assumes "des_rounds n ek 0 0 l r = Some (l', r')"
  shows "des_rounds n ek (8 * int n - 8) 16 r' l' = Some (r, l)"
  using assms
proof (induction n arbitrary: l' r')
  case 0
  then show ?case by simp
next
  case (Suc n)
  then obtain l1 r1 kb c where 1: "des_rounds n ek 0 0 l r = Some (l1, r1)"
    "rdn ek (nat (8 * int n)) 8 = Some kb" "des_f kb r1 = Some c" "l' = r1" "r' = l1 XOR c"
    unfolding des_rounds_snoc
    by (auto simp: bind_eq_Some_conv mult.commute split: if_splits)
  have "8 * int (Suc n) - 8 = 8 * int n" by simp
  moreover have "(l1 XOR c) XOR c = l1" by (simp add: xor.assoc)
  ultimately show ?case
    using Suc.IH [OF 1(1)] 1 by simp
qed

end
