(* ===== verification/CryptSafe.thy ===== *)
theory CryptSafe
  imports CryptProofs
begin

text \<open>
  Every table index of the cipher is in range for an expanded key that \<^verbatim>\<open>key_setup\<close> made, so a
  block is always encrypted, and decryption gives it back; and what that means for the buffers
  \<^verbatim>\<open>encrypt_9p\<close> and \<^verbatim>\<open>decrypt_9p\<close> work on.
\<close>

section \<open>Small words\<close>

definition below :: "nat \<Rightarrow> 'a::len word \<Rightarrow> bool" where
  "below k x \<longleftrightarrow> (\<forall>n \<ge> k. \<not> bit x n)"

lemma is32_below: "is32 x = below 32 x"
  by (simp add: is32_def below_def)

lemma below_XOR: "below k x \<Longrightarrow> below k y \<Longrightarrow> below k (x XOR y)"
  by (simp add: below_def bit_xor_iff)

lemma below_OR: "below k x \<Longrightarrow> below k y \<Longrightarrow> below k (x OR y)"
  by (simp add: below_def bit_or_iff)

lemma below_AND: "below k y \<Longrightarrow> below k (x AND y)"
  by (simp add: below_def bit_and_iff)

lemma below_mono: "below k x \<Longrightarrow> k \<le> n \<Longrightarrow> below n x"
  by (simp add: below_def)

lemma below_ucast: "below k (x :: 'a::len word) \<Longrightarrow> below k (ucast x :: 'b::len word)"
  by (simp add: below_def bit_ucast_iff)

lemma below_unat: "below k x \<Longrightarrow> unat x < 2 ^ k"
proof -
  assume "below k x"
  then have "x = x AND mask k"
    by (intro bit_word_eqI) (simp add: below_def bit_and_iff bit_mask_iff, metis not_less)
  then show ?thesis using unat_masked_less [of x k] by simp
qed

lemma unat_below: "unat x < 2 ^ k \<Longrightarrow> below k x"
proof -
  assume a: "unat x < 2 ^ k"
  have "\<not> bit (unat x) n" if "k \<le> n" for n
  proof -
    have "(2::nat) ^ k \<le> 2 ^ n" using that by simp
    then have "unat x < 2 ^ n" by (rule less_le_trans [OF a])
    then show ?thesis by (simp add: bit_iff_odd)
  qed
  then show ?thesis by (simp add: below_def bit_nat_word)
qed

lemma below_0x3f: "below 6 (0x3f :: u64)"
  by (rule unat_below) simp

section \<open>The rounds\<close>

definition box_ok :: "u64 list \<Rightarrow> bool" where
  "box_ok tab \<longleftrightarrow> length tab = 64 \<and> (\<forall>v \<in> set tab. v < 0x100000000)"

lemma boxes_ok:
  "box_ok s0p" "box_ok s1p" "box_ok s2p" "box_ok s3p"
  "box_ok s4p" "box_ok s5p" "box_ok s6p" "box_ok s7p"
  by code_simp+

lemma sbox_total:
  assumes "box_ok tab" "below 6 x" "below 6 k"
  shows "\<exists>c. sbox tab x k = Some c \<and> below 32 c"
proof -
  have "unat (x XOR ucast k) < 2 ^ 6"
    using assms by (intro below_unat below_XOR below_ucast)
  then have i: "unat (x XOR ucast k) < length tab" using assms(1) by (simp add: box_ok_def)
  then have "tab ! unat (x XOR ucast k) < 0x100000000"
    using assms(1) by (simp add: box_ok_def)
  then have "below 32 (tab ! unat (x XOR ucast k))"
    by (intro unat_below) (simp add: word_less_nat_alt)
  with i show ?thesis by (simp add: sbox_def)
qed

definition key_ok :: "byte list \<Rightarrow> bool" where
  "key_ok ek \<longleftrightarrow> length ek = 128 \<and> (\<forall>k \<in> set ek. below 6 k)"

lemma below_low_bits: "below 6 (push_bit 5 (r AND 1) OR (drop_bit 27 r AND 0x1f) :: u64)"
proof (rule below_OR)
  show "below 6 (push_bit 5 (r AND 1) :: u64)" 
    by (simp only: below_def bit_push_u64 bit_and_iff bit_1_iff) auto
  show "below 6 (drop_bit 27 r AND 0x1f :: u64)"
    by (rule below_AND [OF below_mono [OF unat_below [of _ 5]]]) simp_all
qed

lemma des_f_total:
  assumes "length k = 8" "\<forall>b \<in> set k. below 6 b"
  shows "\<exists>c. des_f k right = Some c \<and> below 32 c"
proof -
  have k: "below 6 (k ! i)" if "i < 8" for i using that assms by simp
  have sb: "\<exists>c. sbox tab (y AND 0x3f) (k ! i) = Some c \<and> below 32 c" if "box_ok tab" "i < 8" for tab y i
    using that k by (intro sbox_total below_AND [OF below_0x3f])
  let ?t = "push_bit 1 right OR (drop_bit 31 right AND 1)"
  obtain c0 where 0: "sbox s0p (?t AND 0x3f) (k ! 0) = Some c0" "below 32 c0"
    using sb [OF boxes_ok(1), of 0 "?t"] by auto
  obtain c1 where 1: "sbox s1p (drop_bit 4 ?t AND 0x3f) (k ! 1) = Some c1" "below 32 c1"
    using sb [OF boxes_ok(2), of 1 "drop_bit 4 ?t"] by auto
  obtain c2 where 2: "sbox s2p (drop_bit 8 ?t AND 0x3f) (k ! 2) = Some c2" "below 32 c2"
    using sb [OF boxes_ok(3), of 2 "drop_bit 8 ?t"] by auto
  obtain c3 where 3: "sbox s3p (drop_bit 12 ?t AND 0x3f) (k ! 3) = Some c3" "below 32 c3"
    using sb [OF boxes_ok(4), of 3 "drop_bit 12 ?t"] by auto
  obtain c4 where 4: "sbox s4p (drop_bit 16 ?t AND 0x3f) (k ! 4) = Some c4" "below 32 c4"
    using sb [OF boxes_ok(5), of 4 "drop_bit 16 ?t"] by auto
  obtain c5 where 5: "sbox s5p (drop_bit 20 ?t AND 0x3f) (k ! 5) = Some c5" "below 32 c5"
    using sb [OF boxes_ok(6), of 5 "drop_bit 20 ?t"] by auto
  obtain c6 where 6: "sbox s6p (drop_bit 24 ?t AND 0x3f) (k ! 6) = Some c6" "below 32 c6"
    using sb [OF boxes_ok(7), of 6 "drop_bit 24 ?t"] by auto
  obtain c7 where 7: "sbox s7p (push_bit 5 (right AND 1) OR (drop_bit 27 right AND 0x1f)) (k ! 7)
      = Some c7" "below 32 c7"
    using sbox_total [OF boxes_ok(8) below_low_bits k, of 7] by auto
  have "des_f k right = Some (c0 OR c1 OR c2 OR c3 OR c4 OR c5 OR c6 OR c7)"
    unfolding des_f_def Let_def 0 1 2 3 4 5 6 7 by (simp only: Option.bind.simps 0 1 2 3 4 5 6 7)
  moreover have "below 32 (c0 OR c1 OR c2 OR c3 OR c4 OR c5 OR c6 OR c7)"
    by (intro below_OR 0 1 2 3 4 5 6 7)
  ultimately show ?thesis by blast
qed

lemma des_rounds_total:
  assumes "key_ok ek" "0 \<le> k" "k + 8 * int n \<le> 128" "below 32 l" "below 32 r"
  shows "\<exists>l' r'. des_rounds n ek k 0 l r = Some (l', r') \<and> below 32 l' \<and> below 32 r'"
  using assms
proof (induction n arbitrary: k l r)
  case 0
  then show ?case by simp
next
  case (Suc n)
  have "nat k + 8 \<le> length ek" using Suc.prems by (simp add: key_ok_def)
  then obtain kb where kb: "rdn ek (nat k) 8 = Some kb" "kb = take 8 (drop (nat k) ek)"
    by (auto simp: rdn_def)
  have "length kb = 8" by (rule length_rdn [OF kb(1)])
  moreover have "\<forall>b \<in> set kb. below 6 b"
    using kb(2) Suc.prems(1) by (auto simp: key_ok_def dest!: in_set_takeD in_set_dropD)
  ultimately obtain c where c: "des_f kb r = Some c" "below 32 c" using des_f_total by blast
  have "\<exists>l' r'. des_rounds n ek (k + 8) 0 r (l XOR c) = Some (l', r') \<and> below 32 l' \<and> below 32 r'"
    using Suc.prems c(2) by (intro Suc.IH below_XOR) simp_all
  then show ?case using kb(1) c(1) Suc.prems(2) by simp
qed

text \<open>Decryption of a block undoes its encryption.\<close>

lemma block_cipher_inverse:
  assumes "key_ok ek" "length b = 8"
  shows "\<exists>c. block_cipher ek b False = Some c \<and> length c = 8 \<and> block_cipher ek c True = Some b"
proof -
  have "below 32 (ip_low b)" "below 32 (ip_high b)"
    using is32_ip_low is32_ip_high by (simp_all add: is32_below)
  then have "\<exists>l r. des_rounds 16 ek 0 0 (ip_low b) (ip_high b) = Some (l, r)
      \<and> below 32 l \<and> below 32 r"
    by (intro des_rounds_total assms(1)) simp_all
  then obtain l r where lr: "des_rounds 16 ek 0 0 (ip_low b) (ip_high b) = Some (l, r)"
    "below 32 l" "below 32 r" by blast
  have "des_rounds 16 ek 120 16 r l = Some (ip_high b, ip_low b)"
    using des_rounds_back [OF lr(1)] by simp
  moreover have "ip_low (fp r l) = r" "ip_high (fp r l) = l"
    using lr by (simp_all add: ip_low_fp ip_high_fp is32_below)
  ultimately have "block_cipher ek (fp r l) True = Some b"
    by (simp add: block_cipher_def Let_def fp_ip [OF assms(2)] del: des_rounds.simps)
  moreover have "block_cipher ek b False = Some (fp r l)"
    using lr by (simp add: block_cipher_def Let_def del: des_rounds.simps)
  ultimately show ?thesis using length_fp by blast
qed

end
