(* ===== verification/CryptBuffers.thy ===== *)
theory CryptBuffers
  imports CryptSafe
begin

text \<open>
  \<^verbatim>\<open>encrypt_9p\<close>, \<^verbatim>\<open>decrypt_9p\<close> and \<^verbatim>\<open>passtokey_9p\<close> over DES. The buffer routines use of the
  block cipher only that it is total and invertible on blocks of eight bytes: that is the
  interface \<open>block_code\<close>, which DES provides.
\<close>

section \<open>Key set-up makes good keys\<close>

lemma keyexpand_ok: "\<forall>row \<in> set keyexpand. \<forall>x \<in> set row. fst x < 128 \<and> unat (snd x) < 64"
  by code_simp

lemma length_keyexpand: "length keyexpand = 56"
  by code_simp

lemma key_ok_update: "key_ok ek \<Longrightarrow> p < 128 \<Longrightarrow> below 6 v \<Longrightarrow> key_ok (ek[p := ek ! p OR v])"
  by (auto simp: key_ok_def intro!: below_OR dest!: set_update_subset_insert [THEN subsetD])

lemma key_ok_row:
  "key_ok ek \<Longrightarrow> \<forall>x \<in> set row. fst x < 128 \<and> unat (snd x) < 64 \<Longrightarrow> key_ok (key_row row ek)"
  unfolding key_row_def
proof (induction row arbitrary: ek)
  case (Cons x row)
  have "key_ok (ek[fst x := ek ! fst x OR snd x])"
    using Cons.prems by (intro key_ok_update unat_below) simp_all
  then show ?case using Cons by (simp add: case_prod_beta)
qed simp

lemma key_setup_ok:
  assumes "7 \<le> length key"
  shows "\<exists>ek. key_setup key = Some ek \<and> key_ok ek"
proof -
  have "key_ok (fold (key_bit key) bs ek)" if "key_ok ek" "set bs \<subseteq> {0..<56}" for bs ek
    using that
  proof (induction bs arbitrary: ek)
    case (Cons b bs)
    have "keyexpand ! b \<in> set keyexpand" using Cons.prems(2) length_keyexpand by simp
    then have "key_ok (key_bit key b ek)"
      using Cons.prems(1) keyexpand_ok by (auto simp: key_bit_def intro!: key_ok_row)
    then show ?case using Cons by simp
  qed simp
  moreover have "key_ok (replicate 128 0)" by (simp add: key_ok_def below_def)
  ultimately show ?thesis using assms by (simp add: key_setup_def)
qed

section \<open>Chaining blocks\<close>

text \<open>One block of a buffer, and a sequence of blocks, with any cipher.\<close>

definition cipher_at :: "(byte list \<Rightarrow> bool \<Rightarrow> byte list option) \<Rightarrow> bool \<Rightarrow> nat \<Rightarrow> memory
    \<Rightarrow> memory option" where
  "cipher_at c dec p m = do { b \<leftarrow> rdn m p 8; b' \<leftarrow> c b dec; wrn m p b' }"

fun cipher_seq :: "(byte list \<Rightarrow> bool \<Rightarrow> byte list option) \<Rightarrow> bool \<Rightarrow> nat list \<Rightarrow> memory
    \<Rightarrow> memory option" where
  "cipher_seq c dec [] m = Some m"
| "cipher_seq c dec (p # ps) m = do { m \<leftarrow> cipher_at c dec p m; cipher_seq c dec ps m }"

lemma cipher_seq_append:
  "cipher_seq c dec (ps @ qs) m = do { m \<leftarrow> cipher_seq c dec ps m; cipher_seq c dec qs m }"
  by (induction ps arbitrary: m) (simp_all split: bind_splits)

locale block_code =
  fixes good :: "'k \<Rightarrow> bool"
    and cipher :: "'k \<Rightarrow> byte list \<Rightarrow> bool \<Rightarrow> byte list option"
  assumes inverse: "good k \<Longrightarrow> length b = 8 \<Longrightarrow>
    \<exists>c. cipher k b False = Some c \<and> length c = 8 \<and> cipher k c True = Some b"
begin

lemma at_inverse:
  assumes "good k" "p + 8 \<le> length m"
  shows "\<exists>m'. cipher_at (cipher k) False p m = Some m' \<and> length m' = length m
    \<and> take p m' = take p m \<and> drop (p + 8) m' = drop (p + 8) m
    \<and> cipher_at (cipher k) True p m' = Some m"
proof -
  obtain b where b: "rdn m p 8 = Some b" using assms(2) by (auto simp: rdn_def)
  then have "length b = 8" by (rule length_rdn)
  then obtain c where c: "cipher k b False = Some c" "length c = 8" "cipher k c True = Some b"
    using inverse [OF assms(1)] by blast
  obtain m' where m': "wrn m p c = Some m'" using c(2) assms(2) by (auto simp: wrn_def)
  have l: "length m' = length m" by (rule length_wrn [OF m'])
  have "rdn m' p 8 = Some c" using rdn_wrn_same [OF m'] c(2) by simp
  moreover have "wrn m' p b = Some m"
  proof -
    have "m = take p m @ b @ drop (p + 8) m"
      using b by (metis append_take_drop_id drop_drop rdn_eq_Some_iff add.commute)
    then show ?thesis
      using take_wrn [OF m', of p] drop_wrn [OF m', of "p + 8"] c(2) l assms(2) \<open>length b = 8\<close>
      by (simp add: wrn_eq_Some_iff)
  qed
  ultimately show ?thesis
    using b c m' l take_wrn [OF m', of p] drop_wrn [OF m', of "p + 8"]
    by (simp add: cipher_at_def)
qed

text \<open>Blocks may overlap: undoing them in the opposite order gives the buffer back.\<close>

lemma seq_inverse:
  assumes "good k" "\<forall>p \<in> set ps. lo \<le> p \<and> p + 8 \<le> hi" "hi \<le> length m"
  shows "\<exists>m'. cipher_seq (cipher k) False ps m = Some m' \<and> length m' = length m
    \<and> take lo m' = take lo m \<and> drop hi m' = drop hi m
    \<and> cipher_seq (cipher k) True (rev ps) m' = Some m"
  using assms(2,3)
proof (induction ps arbitrary: m)
  case Nil
  then show ?case by simp
next
  case (Cons p ps)
  obtain m1 where m1: "cipher_at (cipher k) False p m = Some m1" "length m1 = length m"
      "take p m1 = take p m" "drop (p + 8) m1 = drop (p + 8) m"
      "cipher_at (cipher k) True p m1 = Some m"
    using at_inverse [OF assms(1), of p m] Cons.prems by auto
  obtain m' where m': "cipher_seq (cipher k) False ps m1 = Some m'" "length m' = length m1"
      "take lo m' = take lo m1" "drop hi m' = drop hi m1"
      "cipher_seq (cipher k) True (rev ps) m' = Some m1"
    using Cons.IH [of m1] Cons.prems m1(2) by auto
  have "take lo m1 = take lo (take p m1)" "take lo m = take lo (take p m)"
    using Cons.prems(1) by (simp_all add: min_absorb1)
  then have "take lo m1 = take lo m" using m1(3) by simp
  moreover have "drop hi m1 = drop (hi - (p + 8)) (drop (p + 8) m1)"
    "drop hi m = drop (hi - (p + 8)) (drop (p + 8) m)"
    using Cons.prems(1) by simp_all
  then have "drop hi m1 = drop hi m" using m1(4) by simp
  ultimately show ?case using m1 m' by (simp add: cipher_seq_append)
qed

end

interpretation des: block_code key_ok block_cipher
  by unfold_locales (rule block_cipher_inverse)

section \<open>The buffer routines\<close>

lemma crypt_at_eq: "crypt_at ek dec p m = cipher_at (block_cipher ek) dec p m"
  by (simp add: crypt_at_def cipher_at_def)

lemma encrypt_loop_eq:
  "encrypt_loop ek n buf m = map_option (Pair (buf + n * 7))
     (cipher_seq (block_cipher ek) False (map (\<lambda>i. buf + i * 7) [0..<n]) m)"
proof (induction n arbitrary: buf m)
  case 0
  then show ?case by simp
next
  case (Suc n)
  have "map (\<lambda>i. buf + i * 7) [0..<Suc n] = buf # map (\<lambda>i. buf + 7 + i * 7) [0..<n]"
    by (simp add: upt_conv_Cons map_Suc_upt [symmetric] add.assoc add.left_commute del: upt_Suc)
  then show ?case
    by (simp add: Suc.IH crypt_at_eq bind_map_option add.assoc add.left_commute del: upt_Suc
        split: bind_splits)
qed

lemma decrypt_loop_eq:
  "decrypt_loop ek n (buf + n * 7) m
     = cipher_seq (block_cipher ek) True (rev (map (\<lambda>i. buf + i * 7) [0..<n])) m"
  by (induction n arbitrary: m) (simp_all add: crypt_at_eq split: bind_splits)

text \<open>The blocks of a buffer of \<open>n\<close> bytes at \<open>v\<close>, in the order of encryption.\<close>

definition blocks :: "nat \<Rightarrow> nat \<Rightarrow> nat list" where
  "blocks v n = map (\<lambda>i. v + i * 7) [0..<(n - 1) div 7]
     @ (if (n - 1) mod 7 \<noteq> 0 then [v + (n - 1) div 7 * 7 - 7 + (n - 1) mod 7] else [])"

lemma blocks_within:
  assumes "8 \<le> n" "p \<in> set (blocks v n)"
  shows "v \<le> p \<and> p + 8 \<le> v + n"
proof -
  define q r where qr: "q = (n - 1) div 7" "r = (n - 1) mod 7"
  have d: "q * 7 + r = n - 1" by (simp add: qr)
  have q: "1 \<le> q" using assms(1) by (simp add: qr Suc_le_eq div_greater_zero_iff)
  have "(\<exists>i < q. p = v + i * 7) \<or> p = v + q * 7 - 7 + r"
    using assms(2) by (auto simp: blocks_def qr [symmetric] simp del: One_nat_def split: if_splits)
  then show ?thesis
  proof
    assume "\<exists>i < q. p = v + i * 7"
    then obtain i where i: "i + 1 \<le> q" "p = v + i * 7" by auto
    then have "(i + 1) * 7 \<le> q * 7" by (intro mult_right_mono) simp_all
    with i(2) d assms(1) show ?thesis by simp
  next
    assume "p = v + q * 7 - 7 + r"
    with q d assms(1) show ?thesis by simp
  qed
qed

lemma encrypt_9p_eq:
  assumes "8 \<le> n"
  shows "encrypt_9p key m v (int n) = do { ek \<leftarrow> key_setup key;
    m \<leftarrow> cipher_seq (block_cipher ek) False (blocks v n) m; Some (1, m) }"
  using assms
  by (cases "key_setup key")
    (simp_all add: encrypt_9p_def blocks_def Let_def encrypt_loop_eq crypt_at_eq bind_map_option
      cipher_seq_append o_def)

lemma decrypt_9p_eq:
  assumes "8 \<le> n"
  shows "decrypt_9p key m v (int n) = do { ek \<leftarrow> key_setup key;
    m \<leftarrow> cipher_seq (block_cipher ek) True (rev (blocks v n)) m; Some (1, m) }"
  using assms
  by (cases "key_setup key")
    (simp_all add: decrypt_9p_def blocks_def Let_def decrypt_loop_eq crypt_at_eq)

lemma decrypt_encrypt:
  assumes "7 \<le> length key" "8 \<le> n" "v + n \<le> length m"
  shows "\<exists>m'. encrypt_9p key m v (int n) = Some (1, m') \<and> length m' = length m
    \<and> take v m' = take v m \<and> drop (v + n) m' = drop (v + n) m
    \<and> decrypt_9p key m' v (int n) = Some (1, m)"
proof -
  obtain ek where ek: "key_setup key = Some ek" "key_ok ek" using key_setup_ok assms(1) by blast
  show ?thesis
    using des.seq_inverse [OF ek(2), of "blocks v n" v "v + n" m] blocks_within [OF assms(2)] assms(3)
    by (auto simp: encrypt_9p_eq [OF assms(2)] decrypt_9p_eq [OF assms(2)] ek)
qed

section \<open>Passwords\<close>

text \<open>
  Encrypting is injective on the finitely many memories of one length, so it is onto, and
  decrypting has encrypting as its inverse too.
\<close>

lemma encrypt_decrypt:
  assumes "7 \<le> length key" "8 \<le> n" "v + n \<le> length m"
  shows "\<exists>m'. decrypt_9p key m v (int n) = Some (1, m') \<and> length m' = length m
    \<and> take v m' = take v m \<and> drop (v + n) m' = drop (v + n) m
    \<and> encrypt_9p key m' v (int n) = Some (1, m)"
proof -
  let ?A = "{x :: memory. length x = length m}"
  define f where "f x = snd (the (encrypt_9p key x v (int n)))" for x
  have f: "encrypt_9p key x v (int n) = Some (1, f x)" "length (f x) = length m"
      "take v (f x) = take v x" "drop (v + n) (f x) = drop (v + n) x"
      "decrypt_9p key (f x) v (int n) = Some (1, x)" if "x \<in> ?A" for x
    using decrypt_encrypt [OF assms(1,2), of v x] assms(3) that by (auto simp: f_def)
  have "inj_on f ?A" by (rule inj_onI) (metis f(5) option.inject prod.inject)
  moreover have "f ` ?A \<subseteq> ?A" using f(2) by auto
  moreover have "finite ?A" using finite_lists_length_eq [of "UNIV :: byte set" "length m"] by simp
  ultimately have "f ` ?A = ?A" using endo_inj_surj by blast
  then obtain x where "x \<in> ?A" "f x = m" by (metis (mono_tags) imageE mem_Collect_eq)
  with f [OF this(1)] show ?thesis by auto
qed

lemma encrypt_8:
  "encrypt_9p key m v 8 = do { ek \<leftarrow> key_setup key;
    m \<leftarrow> cipher_at (block_cipher ek) False v m; Some (1, m) }"
  using encrypt_9p_eq [of 8 key m v] by (simp add: blocks_def)

lemma length_pack_key: "length (pack_key b) = 7"
  by (simp add: pack_key_def)

declare pass_loop.simps [simp del]

text \<open>
  \<^verbatim>\<open>passtokey_9p\<close> returns for every password, and never looks at what the uninitialised part of
  its stack buffer holds.
\<close>

lemma pass_loop_initialised:
  assumes "length m1 = length m2" "take e m1 = take e m2" "t + 8 \<le> e" "8 < n \<longrightarrow> t + n \<le> e"
    "e \<le> length m1"
  shows "\<exists>key. pass_loop m1 t n = Some key \<and> pass_loop m2 t n = Some key \<and> length key = 7"
  using assms
proof (induction n arbitrary: m1 m2 t rule: less_induct)
  case (less n)
  have r: "rdn m1 t 8 = rdn m2 t 8"
    using rdn_cong_take [of e m1 m2 t 8] less.prems by simp
  obtain b where b: "rdn m2 t 8 = Some b" using less.prems by (auto simp: rdn_def)
  show ?case
  proof (cases "n \<le> 8")
    case True
    with r b show ?thesis by (simp add: pass_loop.simps [of m1] pass_loop.simps [of m2] length_pack_key)
  next
    case False
    let ?t = "if n - 8 < 8 then t + 8 - (8 - (n - 8)) else t + 8"
    let ?n = "if n - 8 < 8 then 8 else n - 8"
    obtain ek where ek: "key_setup (pack_key b) = Some ek" "key_ok ek"
      using key_setup_ok [of "pack_key b"] by (auto simp: length_pack_key)
    have te: "?t + 8 \<le> e" "8 < ?n \<longrightarrow> ?t + ?n \<le> e" using less.prems False by auto
    obtain b' where b': "rdn m2 ?t 8 = Some b'" using te(1) less.prems by (auto simp: rdn_def)
    have rb: "rdn m1 ?t 8 = Some b'"
      using rdn_cong_take [of e m1 m2 ?t 8] less.prems te(1) b' by simp
    obtain c where c: "block_cipher ek b' False = Some c" "length c = 8"
      using block_cipher_inverse [OF ek(2) length_rdn [OF b']] by blast
    obtain n1 n2 where n12: "wrn m1 ?t c = Some n1" "wrn m2 ?t c = Some n2"
      using te(1) c(2) less.prems by (auto simp: wrn_def)
    have "take e n1 = take e n2"
      using wrn_cong_take [OF less.prems(2) n12] te(1) c(2) by simp
    moreover have "length n1 = length m1" "length n2 = length m2"
      using n12 by (simp_all add: length_wrn)
    moreover have "?n < n" using False by auto
    ultimately obtain key where "pass_loop n1 ?t ?n = Some key" "pass_loop n2 ?t ?n = Some key"
      "length key = 7"
      using less.IH [of ?n n1 n2 ?t] less.prems te by auto
    then show ?thesis
      using r b rb b' ek c n12 False
      by (simp add: pass_loop.simps [of m1] pass_loop.simps [of m2] Let_def encrypt_8 cipher_at_def
          del: diff_less)
  qed
qed

text \<open>The stack buffer as the loop first sees it, for a password \<open>q\<close> cut to at most 27 bytes.\<close>

abbreviation pass_buf :: "byte list \<Rightarrow> byte list \<Rightarrow> memory" where
  "pass_buf stack q \<equiv> q @ 0 # drop (length q + 1) (replicate 8 0x20 @ drop 8 stack)"

lemma passtokey_unfold:
  assumes "length stack = 28"
  shows "passtokey_9p stack p = pass_loop (pass_buf stack (take 27 p)) 0 (length (take 27 p))"
proof -
  have n: "(if length p \<ge> NAMELEN then NAMELEN - 1 else length p) = length (take 27 p)" by simp
  have q: "take (length (take 27 p)) p = take 27 p" by (simp add: min_def)
  have w: "wrn a 0 q = Some (q @ drop (length q) a)"
    "wrn (q @ drop (length q) a) (length q) [0] = Some (q @ 0 # drop (length q + 1) a)"
    if "length q \<le> 27" "length a = 28" for q a :: "byte list"
    using that by (simp_all add: wrn_def)
  have w0: "wrn stack 0 (replicate 8 0x20) = Some (replicate 8 0x20 @ drop 8 stack)"
    "length (replicate 8 0x20 @ drop 8 stack) = 28" "length (take 27 p) \<le> 27"
    using assms by (simp_all add: wrn_def)
  show ?thesis
    unfolding passtokey_9p_def Let_def n q by (simp only: w0(1) w [OF w0(3,2)] Option.bind.simps)
qed

lemma passtokey_total:
  assumes "length stack = 28" "length stack' = 28"
  shows "\<exists>key. passtokey_9p stack p = Some key \<and> passtokey_9p stack' p = Some key \<and> length key = 7"
proof -
  let ?q = "take 27 p"
  let ?e = "max 8 (length ?q + 1)"
  have "take ?e (pass_buf stack ?q) = take ?e (pass_buf stack' ?q)"
    by (simp add: max_def take_Cons' drop_take)
  moreover have "length (pass_buf s ?q) = 28" if "length s = 28" for s
    using that by simp
  ultimately show ?thesis
    using pass_loop_initialised [of "pass_buf stack ?q" "pass_buf stack' ?q" ?e 0 "length ?q"]
      assms
    by (simp only: passtokey_unfold assms) simp
qed

end
