(* ===== verification/CryptProps.thy ===== *)
theory CryptProps
  imports CryptBuffers
begin

text \<open>
  The properties of the cipher of \<^verbatim>\<open>kext/crypt.c\<close> that the authentication rests on.
\<close>

text \<open>
  C23. \<open>decrypt_9p\<close> undoes \<open>encrypt_9p\<close>: for every key and every buffer of at least eight bytes,
  encrypting succeeds, changes only the buffer, and decrypting the result restores the memory. The
  overlapping blocks are undone in the right order.
\<close>

theorem decrypt_inverts_encrypt:
  assumes "DESKEYLEN \<le> length key" "8 \<le> n" "v + n \<le> length m"
  shows "\<exists>m'. encrypt_9p key m v (int n) = Some (1, m') \<and> length m' = length m
    \<and> take v m' = take v m \<and> drop (v + n) m' = drop (v + n) m
    \<and> decrypt_9p key m' v (int n) = Some (1, m)"
  using assms by (rule decrypt_encrypt)

theorem decrypt_inverts_encrypt_witness:
  "\<exists>m'. encrypt_9p [1, 2, 3, 4, 5, 6, 7] (replicate 13 65) 2 (int 10) = Some (1, m')
    \<and> length m' = 13 \<and> decrypt_9p [1, 2, 3, 4, 5, 6, 7] m' 2 (int 10) = Some (1, replicate 13 65)"
  using decrypt_inverts_encrypt [of "[1, 2, 3, 4, 5, 6, 7]" 10 2 "replicate 13 65"] by auto

text \<open>
  C24. With a key from \<open>key_setup\<close>, \<open>block_cipher\<close> is total on eight-byte blocks, never indexes a
  table out of range, and decrypting is its inverse; so no two blocks have the same ciphertext.
\<close>

theorem block_cipher_permutation:
  assumes "DESKEYLEN \<le> length key" "length b = 8" "length b' = 8"
  shows "\<exists>ek c. key_setup key = Some ek \<and> block_cipher ek b False = Some c \<and> length c = 8
    \<and> block_cipher ek c True = Some b \<and> (block_cipher ek b' False = Some c \<longrightarrow> b' = b)"
proof -
  obtain ek where ek: "key_setup key = Some ek" "key_ok ek" using key_setup_ok [OF assms(1)] by blast
  obtain c where c: "block_cipher ek b False = Some c" "length c = 8" "block_cipher ek c True = Some b"
    using block_cipher_inverse [OF ek(2) assms(2)] by blast
  have "b' = b" if "block_cipher ek b' False = Some c"
    using block_cipher_inverse [OF ek(2) assms(3)] that c(3) by auto
  with ek(1) c show ?thesis by blast
qed

theorem block_cipher_permutation_witness:
  "\<exists>ek c. key_setup (replicate 7 0) = Some ek \<and> block_cipher ek (replicate 8 1) False = Some c
    \<and> length c = 8 \<and> block_cipher ek c True = Some (replicate 8 1)"
  using block_cipher_permutation [of "replicate 7 0" "replicate 8 1" "replicate 8 2"] by auto

text \<open>
  \<open>passtokey_9p\<close> always yields a seven-byte key, and although its buffer starts
  uninitialised, the key depends on the first 27 bytes of the password alone.
\<close>

theorem passtokey_deterministic:
  assumes "length stack = NAMELEN" "length stack' = NAMELEN" "take 27 p = take 27 p'"
  shows "\<exists>key. passtokey_9p stack p = Some key \<and> passtokey_9p stack' p' = Some key
    \<and> length key = DESKEYLEN"
proof -
  have "passtokey_9p stack' p' = passtokey_9p stack' p"
    unfolding passtokey_unfold [OF assms(2)] assms(3) ..
  with passtokey_total [OF assms(1,2), of p] show ?thesis by auto
qed

theorem passtokey_deterministic_witness:
  "\<exists>key. passtokey_9p (replicate 28 7) (replicate 30 97) = Some key
    \<and> passtokey_9p (replicate 28 0) (replicate 29 97) = Some key \<and> length key = 7"
  by (rule passtokey_deterministic) simp_all

end
