(* ===== verification/Errno.thy ===== *)
theory Errno
  imports Prelude9p
begin

text \<open>
  Error numbers, with the values of the platform's \<^verbatim>\<open>sys/errno.h\<close>, and the translation of
  error strings, \<^verbatim>\<open>errtab\<close> and \<^verbatim>\<open>ename2errno\<close> of \<^verbatim>\<open>kext/socket.c\<close>.
\<close>

definition EPERM :: int where [simp]: "EPERM = 1"
definition ENOENT :: int where [simp]: "ENOENT = 2"
definition ESRCH :: int where [simp]: "ESRCH = 3"
definition EINTR :: int where [simp]: "EINTR = 4"
definition EIO :: int where [simp]: "EIO = 5"
definition ENXIO :: int where [simp]: "ENXIO = 6"
definition ENOEXEC :: int where [simp]: "ENOEXEC = 8"
definition EBADF :: int where [simp]: "EBADF = 9"
definition ECHILD :: int where [simp]: "ECHILD = 10"
definition ENOMEM :: int where [simp]: "ENOMEM = 12"
definition EACCES :: int where [simp]: "EACCES = 13"
definition EFAULT :: int where [simp]: "EFAULT = 14"
definition EBUSY :: int where [simp]: "EBUSY = 16"
definition EEXIST :: int where [simp]: "EEXIST = 17"
definition ENOTDIR :: int where [simp]: "ENOTDIR = 20"
definition EISDIR :: int where [simp]: "EISDIR = 21"
definition EINVAL :: int where [simp]: "EINVAL = 22"
definition EMFILE :: int where [simp]: "EMFILE = 24"
definition EFBIG :: int where [simp]: "EFBIG = 27"
definition ENOSPC :: int where [simp]: "ENOSPC = 28"
definition ESPIPE :: int where [simp]: "ESPIPE = 29"
definition EROFS :: int where [simp]: "EROFS = 30"
definition EPIPE :: int where [simp]: "EPIPE = 32"
definition EINPROGRESS :: int where [simp]: "EINPROGRESS = 36"
definition ENOTSOCK :: int where [simp]: "ENOTSOCK = 38"
definition EPROTONOSUPPORT :: int where [simp]: "EPROTONOSUPPORT = 43"
definition EAFNOSUPPORT :: int where [simp]: "EAFNOSUPPORT = 47"
definition EADDRINUSE :: int where [simp]: "EADDRINUSE = 48"
definition ENOBUFS :: int where [simp]: "ENOBUFS = 55"
definition ESHUTDOWN :: int where [simp]: "ESHUTDOWN = 58"
definition ETIMEDOUT :: int where [simp]: "ETIMEDOUT = 60"
definition ECONNREFUSED :: int where [simp]: "ECONNREFUSED = 61"
definition ENOTEMPTY :: int where [simp]: "ENOTEMPTY = 66"
definition ESTALE :: int where [simp]: "ESTALE = 70"
definition EBADRPC :: int where [simp]: "EBADRPC = 72"
definition EAUTH :: int where [simp]: "EAUTH = 80"
definition EOPNOTSUPP :: int where [simp]: "EOPNOTSUPP = 102"

definition errtab :: "(int \<times> string) list" where
  "errtab = [
    (0, ''no error''),
    (EACCES, ''access permission denied''),
    (EADDRINUSE, ''address in use''),
    (EADDRINUSE, ''network port not available''),
    (EAFNOSUPPORT, ''address family not supported''),
    (EBADF, ''fd out of range or not open''),
    (EBADF, ''read/write -- on non open fid''),
    (EBADF, ''unknown fid''),
    (EBUSY, ''close/read/write -- lock is broken''),
    (EBUSY, ''connection in use''),
    (EBUSY, ''device or object already in use''),
    (EBUSY, ''no free devices''),
    (EBUSY, ''no free mount devices''),
    (EBUSY, ''no free mount rpc buffer''),
    (EBUSY, ''no free routes''),
    (EBUSY, ''no free segments''),
    (EBUSY, ''open/create -- file is locked''),
    (EBUSY, ''walk -- too many (system wide)''),
    (ECHILD, ''no living children''),
    (ECONNREFUSED, ''connection refused''),
    (EEXIST, ''create -- file exists''),
    (EEXIST, ''file already exists''),
    (EFBIG, ''file too big''),
    (EINTR, ''interrupted''),
    (EINVAL, ''attach -- bad specifier''),
    (EINVAL, ''attach -- privileged user''),
    (EINVAL, ''bad arg in system call''),
    (EINVAL, ''bad attach specifier''),
    (EINVAL, ''bad character in directory name''),
    (EINVAL, ''bad character in file name''),
    (EINVAL, ''bad ip address syntax''),
    (EINVAL, ''bad process or channel control request''),
    (EINVAL, ''create -- . and .. illegal names''),
    (EINVAL, ''file name syntax''),
    (EINVAL, ''inconsistent mount''),
    (EINVAL, ''malformed stat buffer''),
    (EINVAL, ''negative i/o offset''),
    (EINVAL, ''not in union''),
    (EINVAL, ''not mounted''),
    (EINVAL, ''open/create -- unknown mode''),
    (EINVAL, ''read/write -- offset negative''),
    (EINVAL, ''segments overlap''),
    (EINVAL, ''stat buffer too small''),
    (EINVAL, ''wrong #args in control message''),
    (EIO, ''device shut down''),
    (EIO, ''i/o count too small''),
    (EIO, ''i/o error in demand load''),
    (EIO, ''i/o error''),
    (EIO, ''mount rpc error''),
    (EIO, ''phase error -- cannot happen''),
    (EIO, ''phase error -- directory entry not allocated''),
    (EIO, ''phase error -- qid does not match''),
    (EIO, ''read or write too large''),
    (EIO, ''read or write too small''),
    (EIO, ''read/write -- count too big''),
    (EISDIR, ''file is a directory''),
    (EISDIR, ''seek in directory''),
    (EMFILE, ''no free file descriptors''),
    (ENOBUFS, ''insufficient buffer space''),
    (ENOBUFS, ''no free Blocks''),
    (ENOENT, ''file does not exist''),
    (ENOEXEC, ''exec header invalid''),
    (ENOMEM, ''kernel allocate failed''),
    (ENOMEM, ''no free memory''),
    (ENOMEM, ''swap space full''),
    (ENOMEM, ''virtual memory allocation failed''),
    (ENOSPC, ''file system full''),
    (ENOTDIR, ''create -- in a non-directory''),
    (ENOTDIR, ''not a directory''),
    (ENOTDIR, ''walk -- in a non-directory''),
    (ENOTEMPTY, ''directory not empty''),
    (ENOTSOCK, ''not a socket''),
    (ENXIO, ''unknown device in # filename''),
    (EOPNOTSUPP, ''operation not supported''),
    (EPERM, ''inappropriate use of fd''),
    (EPERM, ''is a mount point''),
    (EPERM, ''mount/attach disallowed''),
    (EPERM, ''mounted directory forbids creation''),
    (EPERM, ''permission denied''),
    (EPERM, ''wstat -- not in group''),
    (EPERM, ''wstat -- not owner''),
    (EPIPE, ''write to hungup stream''),
    (EPROTONOSUPPORT, ''protocol not supported''),
    (EROFS, ''file system read only''),
    (ESHUTDOWN, ''i/o on hungup channel''),
    (ESPIPE, ''seek on a stream''),
    (ESRCH, ''process exited''),
    (ESTALE, ''/boot/fossil: fid not found''),
    (ESTALE, ''file has been removed''),
    (ETIMEDOUT, ''connection timed out'')]"

text \<open>\<^verbatim>\<open>strcmp(s, errtab[i].s) == 0\<close>, the first match, and \<^verbatim>\<open>EINVAL\<close> when there is none.\<close>

definition ename2errno :: "byte list \<Rightarrow> int" where
  "ename2errno s = (case find (\<lambda>(i, t). bytes_of t = s) errtab of
     Some (i, t) \<Rightarrow> i | None \<Rightarrow> EINVAL)"

section \<open>The table\<close>

text \<open>No name is listed twice, and only the first entry is zero.\<close>

lemma errtab_distinct: "distinct (map snd errtab)"
  by code_simp

lemma errtab_positive: "\<forall>(i, t) \<in> set (tl errtab). 0 < i"
  by code_simp

lemma errtab_hd: "errtab = (0, ''no error'') # tl errtab"
  by code_simp

lemma bytes_of_inj: "bytes_of s = bytes_of t \<longleftrightarrow> s = t"
proof -
  have "inj (of_char :: char \<Rightarrow> byte)"
  proof (rule injI)
    fix c d :: char assume "(of_char c :: byte) = of_char d"
    then have "unat (of_nat (of_char c) :: byte) = unat (of_nat (of_char d) :: byte)"
      by (simp only: of_nat_of_char)
    moreover have "unat (of_nat (of_char x) :: byte) = of_char x" for x :: char
      by (rule unat_of_nat_small) simp
    ultimately have "(of_char c :: nat) = of_char d" by simp
    then show "c = d" by simp
  qed
  then show ?thesis by (simp add: bytes_of_def inj_map_eq_map)
qed

lemma ename2errno_listed:
  assumes "(e, s) \<in> set errtab"
  shows "ename2errno (bytes_of s) = e"
proof -
  have "find (\<lambda>(i, t). t = s) es = Some (e, s)" if "(e, s) \<in> set es" "distinct (map snd es)" for es
    using that by (induction es) (auto simp: image_iff split: prod.splits)
  then have "find (\<lambda>(i, t). t = s) errtab = Some (e, s)"
    using assms errtab_distinct by blast
  then show ?thesis by (simp add: ename2errno_def bytes_of_inj)
qed

lemma ename2errno_unlisted:
  assumes "s \<notin> bytes_of ` snd ` set errtab"
  shows "ename2errno s = EINVAL"
proof -
  have "find (\<lambda>(i, t). bytes_of t = s) errtab = None"
    using assms by (force simp: find_None_iff)
  then show ?thesis by (simp only: ename2errno_def option.case)
qed

lemma ename2errno_cases:
  obtains (listed) e t where "(e, t) \<in> set errtab" "s = bytes_of t" "ename2errno s = e"
  | (unlisted) "ename2errno s = EINVAL"
  using ename2errno_listed ename2errno_unlisted by fastforce

lemma ename2errno_zero: "ename2errno s = 0 \<longleftrightarrow> s = bytes_of ''no error''"
proof
  assume z: "ename2errno s = 0"
  show "s = bytes_of ''no error''"
  proof (cases s rule: ename2errno_cases)
    case (listed e t)
    have "(0, t) \<in> set ((0, ''no error'') # tl errtab)"
      using listed z errtab_hd by metis
    then show ?thesis using errtab_positive listed(2) by auto
  qed (use z in simp)
next
  assume "s = bytes_of ''no error''"
  then show "ename2errno s = 0"
    using ename2errno_listed [of 0 "''no error''"] errtab_hd by (metis list.set_intros(1))
qed

lemma ename2errno_nonneg: "0 \<le> ename2errno s"
proof (cases s rule: ename2errno_cases)
  case (listed e t)
  have "(e, t) = (0, ''no error'') \<or> (e, t) \<in> set (tl errtab)"
    using listed(1) errtab_hd by (metis set_ConsD)
  then show ?thesis using errtab_positive listed(3) by auto
qed simp

end
