(* ===== verification/Socket9p.thy ===== *)
theory Socket9p
  imports WireRead Errno
begin

text \<open>
  \<^verbatim>\<open>kext/socket.c\<close>, in the configuration that is built (\<^verbatim>\<open>USE_UPCALL\<close> is not defined): the
  send and receive loops, \<^verbatim>\<open>recvmsg_9p\<close>, and the remote procedure call \<^verbatim>\<open>rpc_9p\<close>.

  The kernel's socket calls and allocator are not in the repository: they are the record
  \<open>env\<close>, a parameter, over a world type \<open>'w\<close>. A result \<^term>\<open>None\<close> is undefined behaviour of
  the C code (an access out of bounds). Blocks from \<^verbatim>\<open>malloc_9p\<close> are counted in
  \<open>mt_live\<close>, so that leaks and double frees show.
\<close>

section \<open>The kernel and the mount\<close>

record 'w env =
  ev_receive :: "nat option \<Rightarrow> 'w \<Rightarrow> nat \<Rightarrow> int \<times> byte list \<times> 'w"
  ev_send :: "nat option \<Rightarrow> 'w \<Rightarrow> byte list \<Rightarrow> int \<times> nat \<times> 'w"
  ev_malloc :: "'w \<Rightarrow> nat \<Rightarrow> bool \<times> 'w"

text \<open>
  The fields of \<^verbatim>\<open>mount_9p\<close> the protocol code works on, with the world and the number of live
  blocks.
\<close>

record 'w mount =
  mt_flags :: u32
  mt_so :: "nat option"
  mt_msize :: u32
  mt_nfid :: u32
  mt_ntag :: u16
  mt_rpcbuf :: memory
  mt_world :: 'w
  mt_live :: int

abbreviation F_SENDLOCK :: u32 where "F_SENDLOCK \<equiv> 0x10"
abbreviation F_WAITSENDLOCK :: u32 where "F_WAITSENDLOCK \<equiv> 0x20"
abbreviation F_UNMOUNTING :: u32 where "F_UNMOUNTING \<equiv> 0x40"
abbreviation F_DOTU :: u32 where "F_DOTU \<equiv> 0x80"

definition ISSET :: "u32 \<Rightarrow> u32 \<Rightarrow> bool" where
  "ISSET t f \<longleftrightarrow> t AND f \<noteq> 0"

text \<open>\<^verbatim>\<open>malloc_9p\<close> returns zeroed memory (\<^verbatim>\<open>M_ZERO\<close>) or \<^verbatim>\<open>NULL\<close>; \<^verbatim>\<open>free_9p(NULL)\<close> does nothing.\<close>

definition malloc_9p :: "'w env \<Rightarrow> nat \<Rightarrow> 'w mount \<Rightarrow> memory option \<times> 'w mount" where
  "malloc_9p env n m = (case ev_malloc env (mt_world m) n of
     (ok, w) \<Rightarrow> if ok then (Some (replicate n 0), m\<lparr>mt_world := w, mt_live := mt_live m + 1\<rparr>)
                else (None, m\<lparr>mt_world := w\<rparr>))"

definition free_9p :: "memory option \<Rightarrow> 'w mount \<Rightarrow> 'w mount" where
  "free_9p p m = (if p = None then m else m\<lparr>mt_live := mt_live m - 1\<rparr>)"

section \<open>Send and receive\<close>

text \<open>
  \<open>recvsendn_9p\<close> with \<^verbatim>\<open>recv\<close>: \<open>t\<close> bytes have been stored from \<open>b\<close> on. A short read is followed
  by another one; no data is an error.
\<close>

function recv_loop :: "'w env \<Rightarrow> nat option \<Rightarrow> 'w \<Rightarrow> memory \<Rightarrow> nat \<Rightarrow> nat \<Rightarrow> nat
    \<Rightarrow> (int \<times> memory \<times> 'w) option" where
  "recv_loop env so w buf b n t =
     (if t < n then
        (case ev_receive env so w (n - t) of (e, d, w) \<Rightarrow>
           case wrn buf (b + t) d of
             None \<Rightarrow> None
           | Some buf \<Rightarrow>
               if e \<noteq> 0 \<or> length d = 0 then Some (if e = 0 then EINVAL else e, buf, w)
               else recv_loop env so w buf b n (t + length d))
      else Some (0, buf, w))"
  by pat_completeness auto
termination by (relation "measure (\<lambda>(env, so, w, buf, b, n, t). n - t)") (auto simp: neq_Nil_conv)

text \<open>The same loop with \<^verbatim>\<open>sock_send\<close>; \<open>buf\<close> is the message of \<open>n\<close> bytes.\<close>

function send_loop :: "'w env \<Rightarrow> nat option \<Rightarrow> 'w \<Rightarrow> memory \<Rightarrow> nat \<Rightarrow> nat
    \<Rightarrow> (int \<times> 'w) option" where
  "send_loop env so w buf n t =
     (if t < n then
        (case rdn buf t (n - t) of
           None \<Rightarrow> None
         | Some d \<Rightarrow>
             (case ev_send env so w d of (e, k, w) \<Rightarrow>
                if e \<noteq> 0 \<or> k = 0 then Some (if e = 0 then EINVAL else e, w)
                else send_loop env so w buf n (t + k)))
      else Some (0, w))"
  by pat_completeness auto
termination by (relation "measure (\<lambda>(env, so, w, buf, n, t). n - t)") auto

declare recv_loop.simps [simp del] send_loop.simps [simp del]

definition recvn_9p :: "'w env \<Rightarrow> nat option \<Rightarrow> memory \<Rightarrow> nat \<Rightarrow> nat \<Rightarrow> 'w mount
    \<Rightarrow> (int \<times> memory \<times> 'w mount) option" where
  "recvn_9p env so buf b n m = do {
     (e, buf, w) \<leftarrow> recv_loop env so (mt_world m) buf b n 0;
     Some (e, buf, m\<lparr>mt_world := w\<rparr>) }"

definition sendn_9p :: "'w env \<Rightarrow> nat option \<Rightarrow> memory \<Rightarrow> nat \<Rightarrow> 'w mount
    \<Rightarrow> (int \<times> 'w mount) option" where
  "sendn_9p env so buf n m = do {
     (e, w) \<leftarrow> send_loop env so (mt_world m) buf n 0;
     Some (e, m\<lparr>mt_world := w\<rparr>) }"

section \<open>Receiving a message\<close>

text \<open>
  The result is the error, \<^verbatim>\<open>rx\<close>, and what \<^verbatim>\<open>*freep\<close> is set to when the error is 0. A bad
  size leaves \<^verbatim>\<open>e\<close> at 0.
\<close>

definition recvmsg_9p :: "'w env \<Rightarrow> nat option \<Rightarrow> nat \<Rightarrow> bool \<Rightarrow> 'w mount
    \<Rightarrow> (int \<times> rx_call \<times> memory option \<times> 'w mount) option" where
  "recvmsg_9p env so msize dotu m = do {
     let p = None;
     let rx = zero_fcall None;
     (e, bit32, m) \<leftarrow> recvn_9p env so (replicate 8 0) 0 BIT32SZ m;
     if e \<noteq> 0 then Some (e, rx, None, free_9p p m)
     else let n = GBIT32 bit32 in
     if unat n \<le> BIT32SZ \<or> unat n > msize then Some (e, rx, p, m)
     else (case malloc_9p env (unat n) m of
       (None, m) \<Rightarrow> Some (ENOMEM, rx, None, free_9p None m)
     | (Some p, m) \<Rightarrow> do {
         p \<leftarrow> wrn p 0 (take BIT32SZ bit32);
         (e, p, m) \<leftarrow> recvn_9p env so p BIT32SZ (unat n - BIT32SZ) m;
         if e \<noteq> 0 then Some (e, rx, None, free_9p (Some p) m)
         else do {
           (nn, p, rx) \<leftarrow> convM2S p (unat n) rx dotu;
           if nn \<noteq> unat n then Some (EIO, rx, None, free_9p (Some p) m)
           else Some (0, rx, Some p, m)
         }
       })
   }"

section \<open>Remote procedure calls\<close>

text \<open>
  \<^verbatim>\<open>rpclock\<close> here is its effect once it returns; the waiting, and the other threads, are the
  subject of \<^verbatim>\<open>RpcLock\<close>.
\<close>

definition rpclock :: "'w mount \<Rightarrow> 'w mount" where
  "rpclock m = m\<lparr>mt_flags := mt_flags m OR F_SENDLOCK\<rparr>"

definition rpcunlock :: "'w mount \<Rightarrow> 'w mount" where
  "rpcunlock m = m\<lparr>mt_flags := mt_flags m AND NOT F_SENDLOCK AND NOT F_WAITSENDLOCK\<rparr>"

text \<open>What \<^verbatim>\<open>rpc_9p\<close> makes of a reply: \<open>p\<close> is the buffer \<open>rx\<close> points into.\<close>

definition reply_error :: "tx_call \<Rightarrow> rx_call \<Rightarrow> memory option \<Rightarrow> bool \<Rightarrow> int" where
  "reply_error tx rx p dotu =
     (if fc_type rx = Rerror then
        let e = (if dotu then sint (fc_errnum rx) else 0) in
        case (p, fc_ename rx) of
          (Some buf, Some q) \<Rightarrow> if e = 0 then ename2errno (cstr_at buf q) else EIO
        | _ \<Rightarrow> EIO
      else if unat (fc_type rx) \<noteq> unat (fc_type tx) + 1 then EBADRPC
      else 0)"

text \<open>
  \<open>keep\<close> says that the caller passed a \<^verbatim>\<open>freep\<close>; \<open>rx0\<close> is what the caller's \<^verbatim>\<open>rx\<close> holds before
  the call. The result is the error, \<^verbatim>\<open>rx\<close>, and what \<^verbatim>\<open>*freep\<close> is set to.
\<close>

definition rpc_9p :: "'w env \<Rightarrow> tx_call \<Rightarrow> rx_call \<Rightarrow> bool \<Rightarrow> 'w mount
    \<Rightarrow> (int \<times> rx_call \<times> memory option \<times> 'w mount) option" where
  "rpc_9p env tx rx0 keep m = do {
     let m = rpclock m;
     let (tx, m) = (if fc_tag tx \<noteq> NOTAG
                    then (tx\<lparr>fc_tag := mt_ntag m\<rparr>, m\<lparr>mt_ntag := mt_ntag m + 1\<rparr>) else (tx, m));
     let dotu = ISSET (mt_flags m) F_DOTU;
     (n, buf) \<leftarrow> convS2M tx (mt_rpcbuf m) (mt_msize m) dotu;
     let m = m\<lparr>mt_rpcbuf := buf\<rparr>;
     if n = 0 then Some (EINVAL, rx0, None, rpcunlock m)
     else do {
       (e, m) \<leftarrow> sendn_9p env (mt_so m) buf (unat n) m;
       if e \<noteq> 0 then Some (e, rx0, None, rpcunlock m)
       else do {
         (e, rx, p, m) \<leftarrow> recvmsg_9p env (mt_so m) (unat (mt_msize m)) dotu m;
         if e \<noteq> 0 then Some (e, rx, None, rpcunlock m)
         else let e = reply_error tx rx p dotu in
         if e \<noteq> 0 \<or> \<not> keep then Some (e, rx, None, rpcunlock (free_9p p m))
         else Some (e, rx, p, rpcunlock m)
       }
     }
   }"

section \<open>Connecting\<close>

text \<open>
  \<^verbatim>\<open>connect_9p\<close>: the socket calls it makes, by name, are the argument \<open>call\<close>, which gives each
  one's error; \<^verbatim>\<open>e |=\<close> accumulates them. \<open>inet\<close> says that the address family is \<^verbatim>\<open>AF_INET\<close>.
\<close>

datatype sockcall = SockSocket | SockConnect | SoKeepalive | SoNoaddrerr | TcpNodelay | SoRcvtimeo
  | SoSndtimeo

definition setopts :: "sockcall list \<Rightarrow> (sockcall \<Rightarrow> int) \<Rightarrow> int \<Rightarrow> int" where
  "setopts os call e = foldl (\<lambda>e c. e OR call c) e os"

text \<open>The error, the calls made in order, and \<^verbatim>\<open>nmp->so\<close> afterwards.\<close>

definition connect_9p :: "(sockcall \<Rightarrow> int) \<Rightarrow> nat \<Rightarrow> bool \<Rightarrow> 'w mount
    \<Rightarrow> int \<times> sockcall list \<times> 'w mount" where
  "connect_9p call so inet m =
     (let e = call SockSocket in
      if e \<noteq> 0 then (e, [SockSocket], m)
      else let m = m\<lparr>mt_so := Some so\<rparr>; e = call SockConnect in
      if e \<noteq> 0 \<and> e \<noteq> EINPROGRESS then (e, [SockSocket, SockConnect], m)
      else let opts = [SoKeepalive, SoNoaddrerr] @ (if inet then [TcpNodelay] else [])
                        @ [SoRcvtimeo, SoSndtimeo] in
        (setopts opts call e, [SockSocket, SockConnect] @ opts, m))"

text \<open>\<^verbatim>\<open>disconnect_9p\<close>: the new state, and the socket to shut down and close, if any.\<close>

definition disconnect_9p :: "'w mount \<Rightarrow> nat option \<times> 'w mount" where
  "disconnect_9p m = (mt_so m, m\<lparr>mt_so := None\<rparr>)"

text \<open>\<^verbatim>\<open>cancelrpcs_9p\<close> has an empty body in this configuration.\<close>

definition cancelrpcs_9p :: "'w mount \<Rightarrow> 'w mount" where
  "cancelrpcs_9p m = m"

end
