(* ===== verification/SocketProofs.thy ===== *)
theory SocketProofs
  imports Socket9p
begin

text \<open>
  The send and receive loops move exactly the bytes asked for; a reply is received into a block
  of its own size; a remote procedure call releases the send lock and every block on every path,
  and returns what the server said.
\<close>

section \<open>What the socket calls promise\<close>

text \<open>\<^verbatim>\<open>sock_receive\<close> stores at most as many bytes as the buffer it is given has.\<close>

definition recv_ok :: "'w env \<Rightarrow> bool" where
  "recv_ok env \<longleftrightarrow> (\<forall>so w n e d w'. ev_receive env so w n = (e, d, w') \<longrightarrow> length d \<le> n)"

text \<open>
  A connected stream that has \<open>pending w\<close> still to deliver: a read returns some of it, at least
  one byte.
\<close>

definition stream_ok :: "'w env \<Rightarrow> nat option \<Rightarrow> ('w \<Rightarrow> byte list) \<Rightarrow> bool" where
  "stream_ok env so pending \<longleftrightarrow> (\<forall>w n. 0 < n \<longrightarrow> n \<le> length (pending w) \<longrightarrow>
     (\<exists>k w'. 0 < k \<and> k \<le> n \<and> ev_receive env so w n = (0, take k (pending w), w')
        \<and> pending w' = drop k (pending w)))"

text \<open>A stream that takes what is written to it: at least one byte each time.\<close>

definition sink_ok :: "'w env \<Rightarrow> nat option \<Rightarrow> ('w \<Rightarrow> byte list) \<Rightarrow> bool" where
  "sink_ok env so sent \<longleftrightarrow> (\<forall>w d. d \<noteq> [] \<longrightarrow>
     (\<exists>k w'. 0 < k \<and> k \<le> length d \<and> ev_send env so w d = (0, k, w')
        \<and> sent w' = sent w @ take k d))"

section \<open>The loops\<close>

lemma recv_loop_within:
  assumes "recv_ok env" "t \<le> n" "b + n \<le> length buf"
  shows "\<exists>e buf' w'. recv_loop env so w buf b n t = Some (e, buf', w') \<and> length buf' = length buf
    \<and> take b buf' = take b buf \<and> drop (b + n) buf' = drop (b + n) buf"
  using assms
proof (induction env so w buf b n t rule: recv_loop.induct)
  case (1 env so w buf b n t)
  show ?case
  proof (cases "t < n")
    case False
    then show ?thesis by (simp add: recv_loop.simps)
  next
    case True
    obtain e d w1 where r: "ev_receive env so w (n - t) = (e, d, w1)" by (metis prod_cases3)
    then have d: "length d \<le> n - t" using "1.prems"(1) unfolding recv_ok_def by blast
    have "b + t + length d \<le> length buf" using d "1.prems" True by linarith
    then obtain b1 where b1: "wrn buf (b + t) d = Some b1" using wrn_Some by blast
    have l: "length b1 = length buf" "take b b1 = take b buf" "drop (b + n) b1 = drop (b + n) buf"
      using length_wrn [OF b1] take_wrn [OF b1, of b] drop_wrn [OF b1, of "b + n"] d True by simp_all
    show ?thesis
    proof (cases "e \<noteq> 0 \<or> length d = 0")
      case True
      then show ?thesis using l r b1 \<open>t < n\<close> by (simp add: recv_loop.simps [of env so w])
    next
      case False
      then show ?thesis
        using "1.IH" [OF True r [symmetric] refl b1] r b1 l "1.prems" d True
        by (simp add: recv_loop.simps [of env so w])
    qed
  qed
qed

lemma recv_loop_stream:
  assumes "stream_ok env so pending" "t \<le> n" "n - t \<le> length (pending w)" "b + n \<le> length buf"
  shows "\<exists>buf' w'. recv_loop env so w buf b n t = Some (0, buf', w') \<and> length buf' = length buf
    \<and> take (b + n) buf' = take (b + t) buf @ take (n - t) (pending w)
    \<and> drop (b + n) buf' = drop (b + n) buf
    \<and> pending w' = drop (n - t) (pending w)"
  using assms
proof (induction env so w buf b n t rule: recv_loop.induct)
  case (1 env so w buf b n t)
  show ?case
  proof (cases "t < n")
    case False
    then show ?thesis using "1.prems" by (simp add: recv_loop.simps)
  next
    case True
    then obtain k w1 where k: "0 < k" "k \<le> n - t" "pending w1 = drop k (pending w)"
      and r: "ev_receive env so w (n - t) = (0, take k (pending w), w1)"
      using "1.prems"(1,3) unfolding stream_ok_def by (metis zero_less_diff)
    let ?d = "take k (pending w)"
    have d: "length ?d = k" using k(2) "1.prems"(3) by simp
    have "b + t + length ?d \<le> length buf" unfolding d using "1.prems" True k by simp
    then obtain b1 where b1: "wrn buf (b + t) ?d = Some b1" using wrn_Some by blast
    have l: "length b1 = length buf" "drop (b + n) b1 = drop (b + n) buf"
      "take (b + (t + k)) b1 = take (b + t) buf @ ?d"
      using length_wrn [OF b1] drop_wrn [OF b1, of "b + n"] take_wrn_end [OF b1] d k True
      by (simp_all add: add.assoc)
    have tk: "take (n - t) (pending w) = ?d @ take (n - (t + k)) (drop k (pending w))"
      using take_split [OF k(2), of "pending w"] by simp
    have "t + k \<le> n" "n - (t + k) \<le> length (pending w1)" "b + n \<le> length b1" "pending w \<noteq> []"
      using k "1.prems" l True by auto
    then obtain buf' w' where "recv_loop env so w1 b1 b n (t + k) = Some (0, buf', w')"
      "length buf' = length b1" "take (b + n) buf' = take (b + (t + k)) b1 @ take (n - (t + k)) (pending w1)"
      "drop (b + n) buf' = drop (b + n) b1" "pending w' = drop (n - (t + k)) (pending w1)"
      using "1.IH" [OF True r [symmetric] refl b1] d k(1) "1.prems"(1) by auto
    then show ?thesis
      using r b1 d k l tk True by (simp add: recv_loop.simps [of env so w])
  qed
qed

lemma send_loop_total:
  assumes "n \<le> length buf"
  shows "\<exists>e w'. send_loop env so w buf n t = Some (e, w')"
  using assms
proof (induction env so w buf n t rule: send_loop.induct)
  case (1 env so w buf n t)
  let ?d = "take (n - t) (drop t buf)"
  obtain e k w1 where r: "ev_send env so w ?d = (e, k, w1)" by (metis prod_cases3)
  show ?case
  proof (cases "t < n")
    case True
    then have rd: "rdn buf t (n - t) = Some ?d" using "1.prems" by (simp add: rdn_def)
    show ?thesis
    proof (cases "e \<noteq> 0 \<or> k = 0")
      case True
      then show ?thesis using r rd \<open>t < n\<close> by (simp add: send_loop.simps [of env so w])
    next
      case False
      then obtain e' w' where "send_loop env so w1 buf n (t + k) = Some (e', w')"
        using "1.IH" [OF \<open>t < n\<close> rd r [symmetric] refl] "1.prems" by auto
      then show ?thesis using r rd False \<open>t < n\<close> by (simp add: send_loop.simps [of env so w])
    qed
  qed (simp add: send_loop.simps)
qed

lemma send_loop_sink:
  assumes "sink_ok env so sent" "t \<le> n" "n \<le> length buf"
  shows "\<exists>w'. send_loop env so w buf n t = Some (0, w')
    \<and> sent w' = sent w @ take (n - t) (drop t buf)"
  using assms
proof (induction env so w buf n t rule: send_loop.induct)
  case (1 env so w buf n t)
  show ?case
  proof (cases "t < n")
    case False
    then show ?thesis using "1.prems" by (simp add: send_loop.simps)
  next
    case True
    define d where "d = take (n - t) (drop t buf)"
    have len: "length d = n - t" using "1.prems" by (simp add: d_def)
    then have "d \<noteq> []" using True by auto
    then obtain k w1 where k: "0 < k" "k \<le> n - t" "sent w1 = sent w @ take k d"
      and r: "ev_send env so w d = (0, k, w1)"
      using "1.prems"(1) len unfolding sink_ok_def by metis
    have rd: "rdn buf t (n - t) = Some d" using "1.prems" True by (simp add: rdn_def d_def)
    have "take k d = take k (drop t buf)" using k(2) unfolding d_def by (metis min.absorb1 take_take)
    then have split: "d = take k d @ take (n - (t + k)) (drop (t + k) buf)"
      using take_split [OF k(2), of "drop t buf"] by (simp add: d_def add.commute)
    have "t + k \<le> n" using k(2) True by simp
    then obtain w' where w': "send_loop env so w1 buf n (t + k) = Some (0, w')"
      "sent w' = sent w1 @ take (n - (t + k)) (drop (t + k) buf)"
      using "1.IH" [OF True rd r [symmetric] refl] k "1.prems" True by auto
    have "sent w' = sent w @ d" using w'(2) k(3) split by (metis append_assoc)
    then show ?thesis
      using r rd k True w'(1) unfolding d_def [symmetric] by (simp add: send_loop.simps [of env so w])
  qed
qed

text \<open>What writing does not change, the loop does not change.\<close>

lemma send_loop_keeps:
  assumes "send_loop env so w buf n t = Some (e, w')"
    and "\<And>w d e k w'. ev_send env so w d = (e, k, w') \<Longrightarrow> kept w' = kept w"
  shows "kept w' = kept w"
  using assms
proof (induction env so w buf n t rule: send_loop.induct)
  case (1 env so w buf n t)
  note u = send_loop.simps [of env so w buf n t]
  show ?case
  proof (cases "t < n \<and> rdn buf t (n - t) \<noteq> None")
    case False
    then show ?thesis using "1.prems"(1) u by (cases "t < n") (auto simp del: rdn_None_iff)
  next
    case True
    then obtain d where d: "rdn buf t (n - t) = Some d" "t < n" by (auto simp del: rdn_None_iff)
    obtain e1 k w1 where s: "ev_send env so w d = (e1, k, w1)" by (metis prod_cases3)
    note w1 = "1.prems"(2) [OF s]
    show ?thesis
    proof (cases "e1 \<noteq> 0 \<or> k = 0")
      case True
      then show ?thesis using "1.prems"(1) u d s w1 by auto
    next
      case False
      then have "send_loop env so w1 buf n (t + k) = Some (e, w')" using "1.prems"(1) u d s by simp
      then show ?thesis using "1.IH" [OF d(2,1) s [symmetric] refl] False "1.prems"(2) w1 by simp
    qed
  qed
qed

section \<open>Receiving a message\<close>

lemma recvn_within:
  assumes "recv_ok env" "b + n \<le> length buf"
  shows "\<exists>e buf' w'. recvn_9p env so buf b n m = Some (e, buf', m\<lparr>mt_world := w'\<rparr>)
    \<and> length buf' = length buf \<and> take b buf' = take b buf \<and> drop (b + n) buf' = drop (b + n) buf"
  using recv_loop_within [OF assms(1) _ assms(2), of 0 so "mt_world m"]
  by (auto simp: recvn_9p_def)

lemma recvn_stream:
  assumes "stream_ok env so pending" "n \<le> length (pending (mt_world m))" "b + n \<le> length buf"
  shows "\<exists>buf' w'. recvn_9p env so buf b n m = Some (0, buf', m\<lparr>mt_world := w'\<rparr>)
    \<and> length buf' = length buf \<and> take (b + n) buf' = take b buf @ take n (pending (mt_world m))
    \<and> drop (b + n) buf' = drop (b + n) buf \<and> pending w' = drop n (pending (mt_world m))"
  using recv_loop_stream [OF assms(1) _ _ assms(3), of 0 "mt_world m"] assms(2)
  by (auto simp: recvn_9p_def)

text \<open>Everything of the mount but the world and the block count.\<close>

definition same_mount :: "'w mount \<Rightarrow> 'w mount \<Rightarrow> bool" where
  "same_mount m m' \<longleftrightarrow> (\<exists>w n. m' = m\<lparr>mt_world := w, mt_live := n\<rparr>)"

lemma same_mount_id: "same_mount m m"
  unfolding same_mount_def by (intro exI [of _ "mt_world m"] exI [of _ "mt_live m"]) simp

lemma same_mount_world [simp]: "same_mount m (m\<lparr>mt_world := w\<rparr>)"
  unfolding same_mount_def by (intro exI [of _ w] exI [of _ "mt_live m"]) simp

lemma same_mount_both [simp]: "same_mount m (m\<lparr>mt_world := w, mt_live := n\<rparr>)"
  "same_mount m (m\<lparr>mt_live := n, mt_world := w\<rparr>)"
  unfolding same_mount_def by (intro exI [of _ w] exI [of _ n]; simp)+

abbreviation held :: "memory option \<Rightarrow> int" where
  "held p \<equiv> if p = None then 0 else 1"

lemma zero_fcall_arrays:
  "length (fc_wname (zero_fcall x)) = 16" "length (fc_wqid (zero_fcall x)) = 16"
  by (simp_all add: zero_fcall_def)

text \<open>\<open>rx\<close> is what the parser made of the block \<open>buf\<close>.\<close>

definition parsed :: "bool \<Rightarrow> memory \<Rightarrow> rx_call \<Rightarrow> bool" where
  "parsed dotu buf rx \<longleftrightarrow> (\<exists>raw. length raw = length buf \<and> 4 < length buf
     \<and> convM2S raw (length buf) (zero_fcall None) dotu = Some (length buf, buf, rx))"

lemma recvmsg_within:
  assumes "recv_ok env"
  shows "\<exists>e rx p m'. recvmsg_9p env so msize dotu m = Some (e, rx, p, m') \<and> same_mount m m'
    \<and> mt_live m' = mt_live m + held p \<and> (e \<noteq> 0 \<longrightarrow> p = None)
    \<and> length (fc_wname rx) = 16 \<and> length (fc_wqid rx) = 16
    \<and> (\<forall>buf. p = Some buf \<longrightarrow> length buf \<le> msize \<and> parsed dotu buf rx)
    \<and> (e = 0 \<longrightarrow> p = None \<longrightarrow> rx = zero_fcall None)"
proof -
  obtain e1 b w1 where r1: "recvn_9p env so (replicate 8 0) 0 4 m = Some (e1, b, m\<lparr>mt_world := w1\<rparr>)"
    "length b = 8" using recvn_within [OF assms, of 0 4 "replicate 8 0" so m] by auto
  let ?n = "unat (GBIT32 b)" and ?m1 = "m\<lparr>mt_world := w1\<rparr>"
  show ?thesis
  proof (cases "e1 \<noteq> 0 \<or> ?n \<le> 4 \<or> ?n > msize")
    case True
    then show ?thesis
      using r1 by (auto simp: recvmsg_9p_def Let_def free_9p_def zero_fcall_arrays)
  next
    case False
    obtain ok w2 where al: "ev_malloc env w1 ?n = (ok, w2)" by fastforce
    show ?thesis
    proof (cases ok)
      case False
      with \<open>\<not> (e1 \<noteq> 0 \<or> ?n \<le> 4 \<or> ?n > msize)\<close> show ?thesis
        using r1 al by (auto simp: recvmsg_9p_def Let_def free_9p_def malloc_9p_def
            ENOMEM_def zero_fcall_arrays)
    next
      case True
      let ?m2 = "m\<lparr>mt_world := w2, mt_live := mt_live m + 1\<rparr>"
      let ?p0 = "take 4 b @ replicate (?n - 4) 0"
      have w: "wrn (replicate ?n 0) 0 (take 4 b) = Some ?p0"
        using False r1(2) by (simp add: wrn_def)
      have lp: "length ?p0 = ?n" using False r1(2) by simp
      obtain e3 p3 w3 where r3: "recvn_9p env so ?p0 4 (?n - 4) ?m2 = Some (e3, p3, ?m2\<lparr>mt_world := w3\<rparr>)"
        "length p3 = ?n"
        using recvn_within [OF assms, of 4 "?n - 4" ?p0 so ?m2] lp False r1(2) by auto
      obtain nn p4 rx where c: "convM2S p3 ?n (zero_fcall None) dotu = Some (nn, p4, rx)"
        "length p4 = ?n" "length (fc_wname rx) = 16" "length (fc_wqid rx) = 16"
        using convM2S_within [of ?n p3 "zero_fcall None" dotu] r3(2) zero_fcall_arrays [of "None :: ptr"]
        by auto
      have "nn = ?n \<Longrightarrow> parsed dotu p4 rx"
        using c r3(2) False by (auto simp: parsed_def)
      then show ?thesis
        using False True r1(1) al w r3(1) c
        by (cases "e3 = 0"; cases "nn = ?n")
          (simp_all add: recvmsg_9p_def Let_def malloc_9p_def free_9p_def EIO_def
            zero_fcall_arrays)
    qed
  qed
qed

text \<open>A message on the stream is received, parsed and taken off it.\<close>

lemma recvmsg_stream:
  assumes "stream_ok env so pending" "pending (mt_world m) = wire dotu f @ rest"
    and "printable f" "strings_fit dotu f" "wire_size dotu f \<le> msize" "wire_size dotu f < 2 ^ 32"
    and "\<And>w n. \<exists>w'. ev_malloc env w n = (True, w') \<and> pending w' = pending w"
  shows "\<exists>rx p m'. recvmsg_9p env so msize dotu m = Some (0, rx, Some p, m')
    \<and> same_call dotu f p rx \<and> same_mount m m' \<and> mt_live m' = mt_live m + 1
    \<and> pending (mt_world m') = rest"
proof -
  let ?n = "wire_size dotu f" and ?W = "wire dotu f"
  have ge: "7 \<le> ?n" by (simp add: wire_size_def)
  have lw: "length ?W = ?n" by (rule length_wire)
  have t4: "take 4 ?W = PBIT32 (of_nat ?n)" by (simp add: wire_def)
  obtain b w1 where b: "recvn_9p env so (replicate 8 0) 0 4 m = Some (0, b, m\<lparr>mt_world := w1\<rparr>)"
      "length b = 8" "take 4 b = take 4 ?W" "pending w1 = drop 4 ?W @ rest"
    using recvn_stream [OF assms(1), of 4 m 0 "replicate 8 0"] assms(2) ge lw by auto
  have "GBIT32 b = of_nat ?n"
    using b(2,3) t4 bit32.get_put [of "of_nat ?n"] GBIT32_take [of b] by simp
  then have n: "unat (GBIT32 b) = ?n" by (simp add: unat_wire_size [OF assms(6)])
  let ?m1 = "m\<lparr>mt_world := w1\<rparr>"
  obtain w2 where al: "ev_malloc env w1 ?n = (True, w2)" "pending w2 = pending w1"
    using assms(7) by blast
  let ?m2 = "m\<lparr>mt_world := w2, mt_live := mt_live m + 1\<rparr>"
  let ?p0 = "take 4 b @ replicate (?n - 4) 0"
  have w: "wrn (replicate ?n 0) 0 (take 4 b) = Some ?p0" using ge b(2) by (simp add: wrn_def)
  obtain p3 w3 where p3: "recvn_9p env so ?p0 4 (?n - 4) ?m2 = Some (0, p3, ?m2\<lparr>mt_world := w3\<rparr>)"
      "length p3 = ?n" "take (4 + (?n - 4)) p3 = take 4 ?p0 @ take (?n - 4) (pending w2)"
      "pending w3 = drop (?n - 4) (pending w2)"
  proof -
    have "?n - 4 \<le> length (pending (mt_world ?m2))" "4 + (?n - 4) \<le> length ?p0"
      using al(2) b ge lw by simp_all
    from recvn_stream [OF assms(1) this] show thesis using that b(2) ge by auto
  qed
  have "p3 = ?W"
    using p3(2,3) al(2) b(2-4) lw ge by (simp add: append_take_drop_id)
  then obtain p4 rx where c: "convM2S p3 ?n (zero_fcall None) dotu = Some (?n, p4, rx)"
      "same_call dotu f p4 rx"
    using convM2S_wire [OF assms(3,4,6), of p3 "zero_fcall None"] lw
      zero_fcall_arrays [of "None :: ptr"] by auto
  have "recvmsg_9p env so msize dotu m = Some (0, rx, Some p4, ?m2\<lparr>mt_world := w3\<rparr>)"
    using b(1) n ge assms(5) al(1) w p3(1) c(1)
    by (simp add: recvmsg_9p_def Let_def malloc_9p_def)
  moreover have "pending w3 = rest" using p3(4) al(2) b(4) lw ge by simp
  ultimately show ?thesis using c(2) by simp
qed

section \<open>Remote procedure calls\<close>

text \<open>
  The request as it is sent: tagged, unless it carries \<^verbatim>\<open>NOTAG\<close>.
\<close>

definition tagged :: "'w mount \<Rightarrow> tx_call \<Rightarrow> tx_call" where
  "tagged m tx = (if fc_tag tx \<noteq> NOTAG then tx\<lparr>fc_tag := mt_ntag m\<rparr> else tx)"

lemma printable_tagged: "printable tx \<Longrightarrow> printable (tagged m tx)"
  by (simp add: tagged_def printable_def)

lemma type_tagged: "fc_type (tagged m tx) = fc_type tx"
  by (simp add: tagged_def)

text \<open>The state of the mount when the request has been printed.\<close>

definition printed :: "'w mount \<Rightarrow> tx_call \<Rightarrow> memory \<Rightarrow> 'w mount" where
  "printed m tx buf = m\<lparr>mt_flags := mt_flags m OR F_SENDLOCK,
     mt_ntag := (if fc_tag tx \<noteq> NOTAG then mt_ntag m + 1 else mt_ntag m), mt_rpcbuf := buf\<rparr>"

lemma ISSET_rpclock: "ISSET (mt_flags (rpclock m)) F_DOTU = ISSET (mt_flags m) F_DOTU"
proof -
  have "(mt_flags m OR 0x10) AND (0x80 :: u32) = mt_flags m AND 0x80"
    by (simp add: bit.conj_disj_distrib2)
  then show ?thesis by (simp add: ISSET_def rpclock_def)
qed

lemma wire_size_tagged: "wire_size dotu (tagged m tx) = wire_size dotu tx"
  by (simp add: tagged_def wire_size_def wire_payload_def Let_def)

lemma rpc_unfold:
  assumes "printable tx" "wire_size dotu tx < 2 ^ 32" "unat (mt_msize m) \<le> length (mt_rpcbuf m)"
    and dotu: "dotu = ISSET (mt_flags m) F_DOTU"
  shows "rpc_9p env tx rx0 keep m =
    (if unat (mt_msize m) < wire_size dotu tx
     then Some (EINVAL, rx0, None, rpcunlock (printed m tx (mt_rpcbuf m)))
     else let buf = wire dotu (tagged m tx) @ drop (wire_size dotu tx) (mt_rpcbuf m);
              m = printed m tx buf in
       do {
         (e, m) \<leftarrow> sendn_9p env (mt_so m) buf (wire_size dotu tx) m;
         if e \<noteq> 0 then Some (e, rx0, None, rpcunlock m)
         else do {
           (e, rx, p, m) \<leftarrow> recvmsg_9p env (mt_so m) (unat (mt_msize m)) dotu m;
           if e \<noteq> 0 then Some (e, rx, None, rpcunlock m)
           else let e = reply_error tx rx p dotu in
           if e \<noteq> 0 \<or> \<not> keep then Some (e, rx, None, rpcunlock (free_9p p m))
           else Some (e, rx, p, rpcunlock m)
         }
       })"
proof -
  let ?t = "tagged m tx" and ?m1 = "printed m tx (mt_rpcbuf m)"
  have step: "(if fc_tag tx \<noteq> NOTAG
      then (tx\<lparr>fc_tag := mt_ntag (rpclock m)\<rparr>, (rpclock m)\<lparr>mt_ntag := mt_ntag (rpclock m) + 1\<rparr>)
      else (tx, rpclock m)) = (?t, ?m1)"
    by (simp add: tagged_def printed_def rpclock_def)
  have flags: "ISSET (mt_flags ?m1) F_DOTU = dotu"
    using ISSET_rpclock [of m] by (simp add: dotu printed_def rpclock_def)
  have m1: "mt_rpcbuf ?m1 = mt_rpcbuf m" "mt_msize ?m1 = mt_msize m" "mt_so ?m1 = mt_so m"
    "?m1\<lparr>mt_rpcbuf := b\<rparr> = printed m tx b" for b
    by (simp_all add: printed_def)
  have rep: "reply_error ?t rx p dotu = reply_error tx rx p dotu" for rx p
    by (simp add: reply_error_def type_tagged)
  have ws: "wire_size dotu ?t = wire_size dotu tx" by (rule wire_size_tagged)
  have lt: "wire_size dotu ?t < 2 ^ 32" using assms(2) ws by simp
  note p = printable_tagged [OF assms(1), of m]
  show ?thesis
  proof (cases "unat (mt_msize m) < wire_size dotu tx")
    case True
    then have "convS2M ?t (mt_rpcbuf m) (mt_msize m) dotu = Some (0, mt_rpcbuf m)"
      using convS2M_too_big [OF p _ lt] by (simp add: ws)
    then show ?thesis
      unfolding rpc_9p_def Let_def step case_prod_conv flags m1
      using True by simp
  next
    case False
    have c: "convS2M ?t (mt_rpcbuf m) (mt_msize m) dotu
        = Some (of_nat (wire_size dotu tx), wire dotu ?t @ drop (wire_size dotu tx) (mt_rpcbuf m))"
      using convS2M_fits [OF p, of dotu "mt_msize m" "mt_rpcbuf m"] False assms(3) by (simp add: ws)
    have u: "unat (of_nat (wire_size dotu tx) :: u32) = wire_size dotu tx"
      by (rule unat_wire_size [OF assms(2)])
    then have nz: "of_nat (wire_size dotu tx) \<noteq> (0 :: u32)"
      by (metis unat_0 add_is_0 wire_size_def zero_neq_numeral)
    show ?thesis
      unfolding rpc_9p_def Let_def step case_prod_conv flags m1 c rep
      using False nz by (simp add: u m1)
  qed
qed

text \<open>The reply is the one that was asked for, or a plain \<^verbatim>\<open>"no error"\<close>.\<close>

definition answers :: "tx_call \<Rightarrow> rx_call \<Rightarrow> bool" where
  "answers tx rx \<longleftrightarrow> fc_type rx = Rerror \<or> unat (fc_type rx) = unat (fc_type tx) + 1"

lemma reply_error_0: "reply_error tx rx p dotu = 0 \<Longrightarrow> answers tx rx"
  by (auto simp: reply_error_def answers_def Let_def split: if_splits option.splits)

lemma reply_error_zero_fcall: "reply_error tx (zero_fcall None) p dotu \<noteq> 0"
  by (simp add: reply_error_def zero_fcall_def)

text \<open>What every call leaves as it was, and that the send lock is free again.\<close>

definition rpc_frame :: "'w mount \<Rightarrow> 'w mount \<Rightarrow> bool" where
  "rpc_frame m m' \<longleftrightarrow> mt_so m' = mt_so m \<and> mt_msize m' = mt_msize m \<and> mt_nfid m' = mt_nfid m
     \<and> length (mt_rpcbuf m') = length (mt_rpcbuf m)
     \<and> mt_flags m' = mt_flags m AND NOT F_SENDLOCK AND NOT F_WAITSENDLOCK"

lemma rpcunlock_rpclock_flags:
  "mt_flags (rpcunlock (m\<lparr>mt_flags := f OR F_SENDLOCK\<rparr>)) = f AND NOT F_SENDLOCK AND NOT F_WAITSENDLOCK"
  by (simp add: rpcunlock_def bit.conj_disj_distrib2)

lemma lock_mask: "(f OR 0x10) AND - 49 = f AND (- 49 :: u32)"
  by (simp add: bit.conj_disj_distrib2)

lemma rpc_within:
  assumes "recv_ok env" "printable tx" "wire_size (ISSET (mt_flags m) F_DOTU) tx < 2 ^ 32"
    "unat (mt_msize m) \<le> length (mt_rpcbuf m)"
  shows "\<exists>e rx p m'. rpc_9p env tx rx0 keep m = Some (e, rx, p, m') \<and> rpc_frame m m'
    \<and> mt_live m' = mt_live m + held p \<and> (p = None \<longleftrightarrow> e \<noteq> 0 \<or> \<not> keep)
    \<and> (e = 0 \<longrightarrow> answers tx rx \<and> length (fc_wname rx) = 16 \<and> length (fc_wqid rx) = 16
          \<and> (\<exists>buf. parsed (ISSET (mt_flags m) F_DOTU) buf rx))
    \<and> (\<forall>buf. p = Some buf \<longrightarrow> length buf \<le> unat (mt_msize m)
          \<and> parsed (ISSET (mt_flags m) F_DOTU) buf rx)"
proof -
  let ?dotu = "ISSET (mt_flags m) F_DOTU"
  let ?buf = "wire ?dotu (tagged m tx) @ drop (wire_size ?dotu tx) (mt_rpcbuf m)"
  let ?m1 = "printed m tx ?buf"
  note u = rpc_unfold [OF assms(2-4) refl]
  show ?thesis
  proof (cases "unat (mt_msize m) < wire_size ?dotu tx")
    case True
    then show ?thesis
      by (simp add: u rpc_frame_def printed_def rpcunlock_def lock_mask)
  next
    case False
    then have "wire_size ?dotu tx \<le> length ?buf"
      using length_wire [of ?dotu "tagged m tx"] by (simp add: wire_size_tagged)
    then obtain e1 w1 where s: "sendn_9p env (mt_so ?m1) ?buf (wire_size ?dotu tx) ?m1
        = Some (e1, ?m1\<lparr>mt_world := w1\<rparr>)"
      using send_loop_total [of "wire_size ?dotu tx" ?buf env "mt_so ?m1" "mt_world ?m1" 0]
      by (auto simp: sendn_9p_def)
    have lb: "length ?buf = length (mt_rpcbuf m)"
      using False assms(4) length_wire [of ?dotu "tagged m tx"] by (simp add: wire_size_tagged)
    let ?m2 = "?m1\<lparr>mt_world := w1\<rparr>"
    have m2: "mt_so ?m2 = mt_so m" "mt_msize ?m2 = mt_msize m" "mt_live ?m2 = mt_live m"
      by (simp_all add: printed_def)
    obtain e rx p m3 where r: "recvmsg_9p env (mt_so m) (unat (mt_msize m)) ?dotu ?m2
        = Some (e, rx, p, m3)" "same_mount ?m2 m3" "mt_live m3 = mt_live m + held p"
        "e \<noteq> 0 \<longrightarrow> p = None" "length (fc_wname rx) = 16" "length (fc_wqid rx) = 16"
        "\<forall>buf. p = Some buf \<longrightarrow> length buf \<le> unat (mt_msize m) \<and> parsed ?dotu buf rx"
        "e = 0 \<longrightarrow> p = None \<longrightarrow> rx = zero_fcall None"
      using recvmsg_within [OF assms(1), of "mt_so m" "unat (mt_msize m)" ?dotu ?m2] m2(3) by auto
    have f: "rpc_frame m (rpcunlock m3)" "rpc_frame m (rpcunlock (free_9p p m3))"
        "rpc_frame m (rpcunlock ?m2)"
      using r(2) lb by (auto simp: rpc_frame_def same_mount_def printed_def rpcunlock_def
          lock_mask free_9p_def)
    show ?thesis
    proof (cases "e1 \<noteq> 0 \<or> e \<noteq> 0")
      case True
      then show ?thesis
        using False s r f m2 by (cases "e1 = 0") (auto simp: u Let_def rpcunlock_def)
    next
      case ok: False
      let ?r = "reply_error tx rx p ?dotu"
      have "?r = 0 \<longrightarrow> p \<noteq> None"
        using r(8) ok reply_error_zero_fcall by metis
      moreover have "mt_live (rpcunlock (free_9p p m3)) = mt_live m" "mt_live (rpcunlock m3) = mt_live m3"
        using r(3) by (simp_all add: rpcunlock_def free_9p_def)
      ultimately show ?thesis
        using False s r ok f m2 reply_error_0 [of tx rx p ?dotu]
        by (cases "?r \<noteq> 0 \<or> \<not> keep") (auto simp: u Let_def)
    qed
  qed
qed

text \<open>With a peer that takes the request and answers it, the answer is what the caller gets.\<close>

lemma rpc_stream:
  assumes "printable tx" "wire_size (ISSET (mt_flags m) F_DOTU) tx \<le> unat (mt_msize m)"
    "unat (mt_msize m) \<le> length (mt_rpcbuf m)" and dotu: "dotu = ISSET (mt_flags m) F_DOTU"
    and "sink_ok env (mt_so m) sent" "stream_ok env (mt_so m) pending"
    and "\<And>buf w. take (wire_size dotu tx) buf = wire dotu (tagged m tx)
        \<Longrightarrow> send_loop env (mt_so m) (mt_world m) buf (wire_size dotu tx) 0 = Some (0, w)
        \<Longrightarrow> pending w = wire dotu r @ rest"
    and "printable r" "strings_fit dotu r" "wire_size dotu r \<le> unat (mt_msize m)"
    and "\<And>w n. \<exists>w'. ev_malloc env w n = (True, w') \<and> pending w' = pending w"
  shows "\<exists>rx p m'. let e = reply_error tx rx (Some p) dotu in
      rpc_9p env tx rxi keep m = Some (e, rx, if e = 0 \<and> keep then Some p else None, m')
    \<and> same_call dotu r p rx \<and> pending (mt_world m') = rest"
proof -
  have lt: "wire_size dotu tx < 2 ^ 32" "wire_size dotu r < 2 ^ 32"
    using assms(2,10) unat_u32_less [of "mt_msize m"] dotu by simp_all
  let ?buf = "wire dotu (tagged m tx) @ drop (wire_size dotu tx) (mt_rpcbuf m)"
  let ?m1 = "printed m tx ?buf"
  have m1: "mt_so ?m1 = mt_so m" "mt_msize ?m1 = mt_msize m" "mt_world ?m1 = mt_world m"
    by (simp_all add: printed_def)
  have lw: "length (wire dotu (tagged m tx)) = wire_size dotu tx"
    by (simp add: length_wire wire_size_tagged)
  obtain w1 where w1: "send_loop env (mt_so m) (mt_world m) ?buf (wire_size dotu tx) 0 = Some (0, w1)"
      "sent w1 = sent (mt_world m) @ wire dotu (tagged m tx)"
    using send_loop_sink [OF assms(5), of 0 "wire_size dotu tx" ?buf "mt_world m"] lw by auto
  let ?m2 = "?m1\<lparr>mt_world := w1\<rparr>"
  have s: "sendn_9p env (mt_so ?m1) ?buf (wire_size dotu tx) ?m1 = Some (0, ?m2)"
    using w1(1) by (simp add: sendn_9p_def m1)
  have "pending (mt_world ?m2) = wire dotu r @ rest" using assms(7) [OF _ w1(1)] lw by simp
  then obtain rx p m3 where r: "recvmsg_9p env (mt_so m) (unat (mt_msize m)) dotu ?m2 = Some (0, rx, Some p, m3)"
    "same_call dotu r p rx" "pending (mt_world m3) = rest"
    using recvmsg_stream [OF assms(6) _ assms(8,9,10) lt(2) assms(11)] by blast
  have "pending (mt_world (rpcunlock (free_9p (Some p) m3))) = rest"
    "pending (mt_world (rpcunlock m3)) = rest"
    using r(3) by (simp_all add: rpcunlock_def free_9p_def)
  moreover have "mt_so ?m2 = mt_so m" "mt_msize ?m2 = mt_msize m" by (simp_all add: m1)
  moreover have "\<not> unat (mt_msize m) < wire_size dotu tx" using assms(2) dotu by simp
  ultimately show ?thesis
    using r(1,2) s unfolding rpc_unfold [OF assms(1) lt(1) assms(3) dotu] Let_def
    by (cases "reply_error tx rx (Some p) dotu = 0 \<and> keep")
      (intro exI [of _ rx] exI [of _ p] exI [of _ "rpcunlock m3"],
       simp, intro exI [of _ rx] exI [of _ p] exI [of _ "rpcunlock (free_9p (Some p) m3)"], auto)
qed

lemma cstr_nul: "cstr (s @ 0 # r) = cstr s"
  by (induction s) (simp_all add: cstr_def)

lemma cstr_at_str_is: "str_is p (Some q) s \<Longrightarrow> cstr_at p q = cstr s"
proof -
  assume "str_is p (Some q) s"
  then have "take (length s + 1) (drop q p) = s @ [0]"
    by (simp add: data_is_def rdn_eq_Some_iff)
  then have "drop q p = s @ 0 # drop (length s + 1) (drop q p)"
    by (metis append.assoc append_Cons append_Nil append_take_drop_id)
  then show ?thesis unfolding cstr_at_def by (metis cstr_nul)
qed

lemma sint_eq_0: "sint (x :: u32) = 0 \<longleftrightarrow> x = 0"
  by (simp add: signed_eq_0_iff)

lemma reply_error_Rerror:
  assumes "same_call dotu r p rx" "fc_type r = Rerror"
  shows "reply_error tx rx (Some p) dotu =
    (if dotu \<and> fc_errnum r \<noteq> 0 then EIO else ename2errno (cstr (fc_ename r)))"
proof -
  obtain q where q: "fc_ename rx = Some q" "str_is p (Some q) (fc_ename r)"
    using assms by (cases "fc_ename rx") (auto simp: same_call_def data_is_def)
  have "fc_type rx = Rerror" "dotu \<longrightarrow> fc_errnum rx = fc_errnum r"
    using assms by (simp_all add: same_call_def)
  then show ?thesis
    using q cstr_at_str_is [OF q(2)] by (simp add: reply_error_def sint_eq_0)
qed

end
