(* ===== verification/Versneg.thy ===== *)
theory Versneg
  imports Main
begin

text \<open>
  \<^verbatim>\<open>common/versneg.c\<close>: the ordered list of protocol versions to try in the negotiation.
  The array \<^verbatim>\<open>out\<close> with its fill count \<^verbatim>\<open>*n\<close> is the list of the entries written so far.
  Version strings are HOL strings, compared as \<^verbatim>\<open>strcmp\<close> compares them.
\<close>

definition append_unique :: "string option \<Rightarrow> string list \<Rightarrow> int \<Rightarrow> int \<times> string list" where
  "append_unique v out outmax =
     (case v of
        None \<Rightarrow> (0, out)
      | Some s \<Rightarrow>
          if outmax \<le> 0 then (0, out)
          else if s \<in> set out then (0, out)
          else if int (length out) \<ge> outmax then (0, out)
          else (1, out @ [s]))"

definition mac9p_build_version_candidates ::
    "string option \<Rightarrow> bool \<Rightarrow> bool \<Rightarrow> bool \<Rightarrow> int \<Rightarrow> int \<times> string list" where
  "mac9p_build_version_candidates requested prefer_dotl prefer_dotu out_null outmax =
     (if out_null \<or> outmax \<le> 0 then (0, [])
      else
        let v2000 = ''9P2000''; v2000u = ''9P2000.u''; v2000L = ''9P2000.L'';
            add = (\<lambda>v out. snd (append_unique (Some v) out outmax));
            out = [];
            out = (case requested of None \<Rightarrow> out
                   | Some r \<Rightarrow> if r \<noteq> [] then snd (append_unique requested out outmax) else out);
            out = (if prefer_dotl then add v2000L out else out);
            out = (if prefer_dotu then add v2000u out else out);
            out = add v2000L out;
            out = add v2000u out;
            out = add v2000 out
        in (int (length out), out))"

text \<open>The specification: the wish list in order, later duplicates dropped, cut at \<open>outmax\<close>.\<close>

definition wish_list :: "string option \<Rightarrow> bool \<Rightarrow> bool \<Rightarrow> string list" where
  "wish_list requested prefer_dotl prefer_dotu =
     (case requested of None \<Rightarrow> [] | Some r \<Rightarrow> if r \<noteq> [] then [r] else [])
     @ (if prefer_dotl then [''9P2000.L''] else [])
     @ (if prefer_dotu then [''9P2000.u''] else [])
     @ [''9P2000.L'', ''9P2000.u'', ''9P2000'']"

fun keep_first :: "'a list \<Rightarrow> 'a list \<Rightarrow> 'a list" where
  "keep_first seen [] = []"
| "keep_first seen (x # xs) =
     (if x \<in> set seen then keep_first seen xs else x # keep_first (seen @ [x]) xs)"

lemma keep_first_disjoint: "set (keep_first seen xs) = set xs - set seen"
  by (induction seen xs rule: keep_first.induct) auto

lemma distinct_keep_first: "distinct (keep_first seen xs)"
  by (induction seen xs rule: keep_first.induct) (auto simp: keep_first_disjoint)

lemma hd_keep_first: "hd (keep_first [] (x # xs)) = x"
  by simp

definition add_all :: "int \<Rightarrow> string list \<Rightarrow> string list \<Rightarrow> string list" where
  "add_all outmax vs out = foldl (\<lambda>out v. snd (append_unique (Some v) out outmax)) out vs"

text \<open>
  Appending uniquely under a cap is the capped unique list: once the array is full, nothing
  more is added, and until then nothing is lost.
\<close>

lemma add_all_spec:
  "0 < outmax \<Longrightarrow> out = take (nat outmax) all \<Longrightarrow> distinct all \<Longrightarrow>
   add_all outmax vs out = take (nat outmax) (all @ keep_first all vs)"
proof (induction vs arbitrary: out all)
  case Nil
  then show ?case by (simp add: add_all_def)
next
  case (Cons v vs)
  define out' where "out' = snd (append_unique (Some v) out outmax)"
  have step: "add_all outmax (v # vs) out = add_all outmax vs out'"
    by (simp add: add_all_def out'_def)
  show ?case
  proof (cases "v \<in> set all")
    case True
    have "out' = take (nat outmax) all"
    proof (cases "v \<in> set out")
      case True
      then show ?thesis using Cons.prems by (simp add: out'_def append_unique_def)
    next
      case False
      with True Cons.prems have "nat outmax < length all"
        by (metis not_less take_all)
      then have "int (length out) \<ge> outmax" using Cons.prems by simp
      then show ?thesis using Cons.prems False by (simp add: out'_def append_unique_def)
    qed
    then show ?thesis
      unfolding step using Cons.IH [of out' all] Cons.prems True by simp
  next
    case False
    then have "v \<notin> set out" using Cons.prems by (auto dest: in_set_takeD)
    then have "out' = take (nat outmax) (all @ [v])"
      using Cons.prems by (auto simp: out'_def append_unique_def min_def take_Cons'
          split: if_splits)
    then show ?thesis
      unfolding step using Cons.prems False Cons.IH [of out' "all @ [v]"] by simp
  qed
qed

lemma build_is_add_all:
  "outmax > 0 \<Longrightarrow> mac9p_build_version_candidates requested dl du False outmax =
     (let out = add_all outmax (wish_list requested dl du) [] in (int (length out), out))"
  by (auto simp: mac9p_build_version_candidates_def add_all_def wish_list_def Let_def
      split: option.split)

lemma build_spec:
  "outmax > 0 \<Longrightarrow> snd (mac9p_build_version_candidates requested dl du False outmax) =
     take (nat outmax) (keep_first [] (wish_list requested dl du))"
  by (simp add: build_is_add_all Let_def add_all_spec [where all = "[]"])

end
