(* ===== verification/SocketProps.thy ===== *)
theory SocketProps
  imports SocketProofs Versneg
begin

text \<open>
  The properties of version negotiation, of the error table, and of the remote procedure call.
  The examples run on a world of two byte streams, what the peer will send and what it has been
  sent, with a socket that moves one byte at a time.
\<close>

section \<open>A slow socket\<close>

type_synonym streams = "byte list \<times> byte list"

definition slow_env :: "streams env" where
  "slow_env = \<lparr>ev_receive = (\<lambda>so (i, out) n. case i of [] \<Rightarrow> (0, [], (i, out))
       | b # bs \<Rightarrow> if n = 0 then (0, [], (i, out)) else (0, [b], (bs, out))),
     ev_send = (\<lambda>so (i, out) d. (0, min 1 (length d), (i, out @ take 1 d))),
     ev_malloc = (\<lambda>w n. (True, w))\<rparr>"

lemma slow_recv_ok: "recv_ok slow_env"
  by (auto simp: recv_ok_def slow_env_def split: list.splits if_splits)

lemma slow_stream_ok: "stream_ok slow_env so fst"
  unfolding stream_ok_def
proof (intro allI impI)
  fix w :: streams and n assume "0 < n" "n \<le> length (fst w)"
  then obtain b bs out where "w = (b # bs, out)" by (cases w; cases "fst w") auto
  then show "\<exists>k w'. 0 < k \<and> k \<le> n \<and> ev_receive slow_env so w n = (0, take k (fst w), w')
      \<and> fst w' = drop k (fst w)"
    using \<open>0 < n\<close> by (intro exI [of _ 1]) (simp add: slow_env_def)
qed

lemma slow_sink_ok: "sink_ok slow_env so snd"
  unfolding sink_ok_def
proof (intro allI impI)
  fix w :: streams and d :: "byte list" assume "d \<noteq> []"
  then show "\<exists>k w'. 0 < k \<and> k \<le> length d \<and> ev_send slow_env so w d = (0, k, w')
      \<and> snd w' = snd w @ take k d"
    by (cases d; cases w; intro exI [of _ 1]) (simp_all add: slow_env_def)
qed

lemma slow_malloc: "\<exists>w'. ev_malloc slow_env w n = (True, w') \<and> fst w' = fst w"
  by (simp add: slow_env_def)

definition slow_mount :: "byte list \<Rightarrow> streams mount" where
  "slow_mount reply = \<lparr>mt_flags = 0, mt_so = Some 1, mt_msize = 64, mt_nfid = 5, mt_ntag = 9,
     mt_rpcbuf = replicate 64 0, mt_world = (reply, []), mt_live = 0\<rparr>"

section \<open>Version negotiation\<close>

text \<open>
  \<open>mac9p_build_version_candidates\<close> is the wish list (the requested version, the preferred
  dialects, then all three) without later duplicates, cut at \<open>outmax\<close>; it returns the length, and
  nothing when there is no room.
\<close>

theorem version_candidates_spec:
  "mac9p_build_version_candidates requested dl du out_null outmax =
     (let vs = (if out_null \<or> outmax \<le> 0 then []
                else take (nat outmax) (keep_first [] (wish_list requested dl du)))
      in (int (length vs), vs))"
proof (cases "out_null \<or> outmax \<le> 0")
  case True
  then show ?thesis by (simp add: mac9p_build_version_candidates_def)
next
  case False
  then show ?thesis
    using build_spec [of outmax requested dl du]
    by (auto simp: build_is_add_all Let_def)
qed

section \<open>Error strings\<close>

text \<open>
  \<open>ename2errno\<close> gives an error string its number from the table, whichever entry it is, and
  \<^verbatim>\<open>EINVAL\<close> to every other string.
\<close>

theorem ename2errno_table:
  "ename2errno s = (case find (\<lambda>(e, t). bytes_of t = s) errtab of
     Some (e, t) \<Rightarrow> e | None \<Rightarrow> EINVAL)"
proof (cases "find (\<lambda>(e, t). bytes_of t = s) errtab")
  case None
  then have "\<not> (\<exists>x. x \<in> set errtab \<and> (\<lambda>(e, t). bytes_of t = s) x)" by (rule find_None_iff [THEN iffD1])
  then have "\<not> ((e, t) \<in> set errtab \<and> bytes_of t = s)" for e t by blast
  then have "s \<notin> bytes_of ` snd ` set errtab" by (metis imageE prod.collapse)
  then have "ename2errno s = EINVAL" by (rule ename2errno_unlisted)
  with None show ?thesis by simp
next
  case (Some et)
  then have "et \<in> set errtab" "bytes_of (snd et) = s"
    by (auto simp: find_Some_iff dest: nth_mem)
  then show ?thesis using ename2errno_listed [of "fst et" "snd et"] Some
    by (auto split: prod.split)
qed

text \<open>
  C37. An error reply of plain 9P2000 becomes the number of its string. It stays 0, and the call
  counts as successful, exactly when the server's error string is \<^verbatim>\<open>no error\<close>. With 9P2000.u every
  nonzero error number is replaced by \<^verbatim>\<open>EIO\<close>.
\<close>

theorem Rerror_mapping:
  assumes "same_call dotu r p rx" "fc_type r = Rerror"
  shows "reply_error tx rx (Some p) dotu =
      (if dotu \<and> fc_errnum r \<noteq> 0 then EIO else ename2errno (cstr (fc_ename r)))
    \<and> (reply_error tx rx (Some p) dotu = 0 \<longleftrightarrow>
        cstr (fc_ename r) = bytes_of ''no error'' \<and> (dotu \<longrightarrow> fc_errnum r = 0))"
  using reply_error_Rerror [OF assms] by (auto simp: ename2errno_zero)

theorem Rerror_mapping_witness:
  "reply_error (zero_fcall []) ((zero_fcall None)\<lparr>fc_type := Rerror, fc_ename := Some 0, fc_errnum := 2\<rparr>)
     (Some [120, 0]) True = EIO"
proof -
  have "same_call True ((zero_fcall [])\<lparr>fc_type := Rerror, fc_ename := [120], fc_errnum := 2\<rparr>)
      [120, 0] ((zero_fcall None)\<lparr>fc_type := Rerror, fc_ename := Some 0, fc_errnum := 2\<rparr>)"
    by (simp add: same_call_def data_is_def rdn_def zero_fcall_def)
  from Rerror_mapping [OF this, of "zero_fcall []"] show ?thesis by simp
qed

section \<open>The socket\<close>

text \<open>
  \<open>recvn_9p\<close> collects exactly \<open>n\<close> bytes of the stream, however the socket splits them, and
  leaves the rest of the stream and of the buffer alone.
\<close>

theorem recvn_exact:
  assumes "stream_ok env so pending" "n \<le> length (pending (mt_world m))" "b + n \<le> length buf"
  shows "\<exists>buf' w'. recvn_9p env so buf b n m = Some (0, buf', m\<lparr>mt_world := w'\<rparr>)
    \<and> buf' = take b buf @ take n (pending (mt_world m)) @ drop (b + n) buf
    \<and> pending w' = drop n (pending (mt_world m))"
proof -
  from recvn_stream [OF assms] obtain buf' w' where
    r: "recvn_9p env so buf b n m = Some (0, buf', m\<lparr>mt_world := w'\<rparr>)" "length buf' = length buf"
      "take (b + n) buf' = take b buf @ take n (pending (mt_world m))"
      "drop (b + n) buf' = drop (b + n) buf" "pending w' = drop n (pending (mt_world m))"
    by auto
  then have "buf' = take b buf @ take n (pending (mt_world m)) @ drop (b + n) buf"
    by (metis append_take_drop_id append.assoc)
  with r show ?thesis by blast
qed

theorem recvn_exact_witness:
  "\<exists>buf' w'. recvn_9p slow_env (Some 1) [9, 9, 9, 9] 1 2 (slow_mount [1, 2, 3])
      = Some (0, buf', (slow_mount [1, 2, 3])\<lparr>mt_world := w'\<rparr>)
    \<and> buf' = [9, 1, 2, 9] \<and> fst w' = [3]"
  using recvn_exact [OF slow_stream_ok, of 2 "slow_mount [1, 2, 3]" 1 "[9, 9, 9, 9]" "Some 1"]
  by (simp add: slow_mount_def)

text \<open>
  \<open>sendn_9p\<close> writes the first \<open>n\<close> bytes of the buffer to the stream, in order and once,
  however many writes the socket needs.
\<close>

theorem sendn_exact:
  assumes "sink_ok env so sent" "n \<le> length buf"
  shows "\<exists>w'. sendn_9p env so buf n m = Some (0, m\<lparr>mt_world := w'\<rparr>)
    \<and> sent w' = sent (mt_world m) @ take n buf"
  using send_loop_sink [OF assms(1) _ assms(2), of 0 "mt_world m"] by (auto simp: sendn_9p_def)

theorem sendn_exact_witness:
  "\<exists>w'. sendn_9p slow_env None [1, 2, 3] 2 (slow_mount []) = Some (0, (slow_mount [])\<lparr>mt_world := w'\<rparr>)
    \<and> snd w' = [1, 2]"
  using sendn_exact [OF slow_sink_ok, of 2 "[1, 2, 3]" None "slow_mount []"]
  by (simp add: slow_mount_def)

text \<open>
  C31. Whatever the socket delivers, \<open>recvmsg_9p\<close> ends without leaving its buffers. It returns a
  block only with error 0, never a block larger than \<open>msize\<close>, and frees the block on every error.
\<close>

theorem recvmsg_total:
  assumes "recv_ok env"
  shows "\<exists>e rx p m'. recvmsg_9p env so msize dotu m = Some (e, rx, p, m')
    \<and> mt_live m' = mt_live m + held p \<and> (e \<noteq> 0 \<longrightarrow> p = None)
    \<and> (\<forall>buf. p = Some buf \<longrightarrow> length buf \<le> msize)"
proof -
  from recvmsg_within [OF assms, of so msize dotu m] show ?thesis by blast
qed

theorem recvmsg_total_witness:
  "\<exists>e rx p m'. recvmsg_9p slow_env (Some 1) 64 False (slow_mount [1, 2]) = Some (e, rx, p, m')
    \<and> mt_live m' = held p \<and> (\<forall>buf. p = Some buf \<longrightarrow> length buf \<le> 64)"
proof -
  obtain e rx p m' where "recvmsg_9p slow_env (Some 1) 64 False (slow_mount [1, 2]) = Some (e, rx, p, m')"
      "mt_live m' = mt_live (slow_mount [1, 2]) + held p" "\<forall>buf. p = Some buf \<longrightarrow> length buf \<le> 64"
    using recvmsg_total [OF slow_recv_ok, of "Some 1" 64 False "slow_mount [1, 2]"] by blast
  then show ?thesis by (intro exI conjI) (assumption, simp_all add: slow_mount_def)
qed

text \<open>
  C30. A message on the stream is received whole: \<open>recvmsg_9p\<close> allocates one block of its size,
  parses it to the same contents, and leaves the stream at the next message.
\<close>

theorem recvmsg_receives:
  assumes "stream_ok env so pending" "pending (mt_world m) = wire dotu f @ rest"
    and "printable f" "strings_fit dotu f" "wire_size dotu f \<le> msize" "wire_size dotu f < 2 ^ 32"
    and "\<And>w n. \<exists>w'. ev_malloc env w n = (True, w') \<and> pending w' = pending w"
  shows "\<exists>rx p m'. recvmsg_9p env so msize dotu m = Some (0, rx, Some p, m')
    \<and> same_call dotu f p rx \<and> mt_live m' = mt_live m + 1 \<and> pending (mt_world m') = rest"
proof -
  from recvmsg_stream [OF assms] show ?thesis by blast
qed

definition rclunk :: tx_call where
  "rclunk = (zero_fcall [])\<lparr>fc_type := Rclunk, fc_tag := 3\<rparr>"

lemma rclunk_ok: "printable rclunk" "strings_fit dotu rclunk" "wire_size dotu rclunk = 7"
  by (simp_all add: rclunk_def printable_def strings_fit_def wire_strings_def wire_size_def
      wire_payload_def msg_types_def zero_fcall_def)

theorem recvmsg_receives_witness:
  "\<exists>rx p m'. recvmsg_9p slow_env (Some 1) 64 False (slow_mount (wire False rclunk @ [1]))
      = Some (0, rx, Some p, m')
    \<and> same_call False rclunk p rx \<and> fst (mt_world m') = [1]"
proof -
  have "fst (mt_world (slow_mount (wire False rclunk @ [1]))) = wire False rclunk @ [1]"
    by (simp add: slow_mount_def)
  from recvmsg_receives [OF slow_stream_ok this rclunk_ok(1,2) _ _ slow_malloc, of 64 "Some 1"]
  show ?thesis by (auto simp: rclunk_ok)
qed

section \<open>Remote procedure calls\<close>

text \<open>
  C10. Whatever the server answers, \<open>rpc_9p\<close> ends, stays inside its buffers, releases the send lock
  and the flag of the waiting threads, keeps the session's socket, size and fid counter, and holds a
  block exactly when it returns one, which it does only on success.
\<close>

theorem rpc_releases:
  assumes "recv_ok env" "printable tx" "wire_size (ISSET (mt_flags m) F_DOTU) tx < 2 ^ 32"
    "unat (mt_msize m) \<le> length (mt_rpcbuf m)"
  shows "\<exists>e rx p m'. rpc_9p env tx rx0 keep m = Some (e, rx, p, m')
    \<and> mt_flags m' = mt_flags m AND NOT F_SENDLOCK AND NOT F_WAITSENDLOCK
    \<and> mt_so m' = mt_so m \<and> mt_msize m' = mt_msize m \<and> mt_nfid m' = mt_nfid m
    \<and> mt_live m' = mt_live m + held p \<and> (p = None \<longleftrightarrow> e \<noteq> 0 \<or> \<not> keep)"
proof -
  from rpc_within [OF assms, of rx0 keep] show ?thesis unfolding rpc_frame_def by blast
qed

theorem rpc_releases_witness:
  "\<exists>e rx p m'. rpc_9p slow_env rclunk (zero_fcall None) True (slow_mount [255]) = Some (e, rx, p, m')
    \<and> mt_flags m' = 0 \<and> mt_live m' = held p"
proof -
  have "unat (mt_msize (slow_mount [255])) \<le> length (mt_rpcbuf (slow_mount [255]))"
    "wire_size (ISSET (mt_flags (slow_mount [255])) F_DOTU) rclunk < 2 ^ 32"
    by (simp_all add: slow_mount_def rclunk_ok)
  then obtain e rx p m' where "rpc_9p slow_env rclunk (zero_fcall None) True (slow_mount [255]) = Some (e, rx, p, m')"
      "mt_flags m' = mt_flags (slow_mount [255]) AND NOT F_SENDLOCK AND NOT F_WAITSENDLOCK"
      "mt_live m' = mt_live (slow_mount [255]) + held p"
    using rpc_releases [OF slow_recv_ok rclunk_ok(1), of "slow_mount [255]" "zero_fcall None" True] by blast
  then show ?thesis by (intro exI conjI) (assumption, simp_all add: slow_mount_def)
qed

text \<open>
  C11. End to end: the server is sent exactly the tagged request, and when it answers with the
  message \<open>r\<close>, the caller gets the contents of \<open>r\<close> and the error \<open>reply_error\<close> makes of them;
  the stream is left after the reply. Nothing is asked of the reply's tag.
\<close>

theorem rpc_delivers:
  assumes "printable tx" "wire_size dotu tx \<le> unat (mt_msize m)"
    "unat (mt_msize m) \<le> length (mt_rpcbuf m)" "dotu = ISSET (mt_flags m) F_DOTU"
    and "sink_ok env (mt_so m) sent" "stream_ok env (mt_so m) pending"
    and "\<And>buf w. take (wire_size dotu tx) buf = wire dotu (tagged m tx)
        \<Longrightarrow> send_loop env (mt_so m) (mt_world m) buf (wire_size dotu tx) 0 = Some (0, w)
        \<Longrightarrow> pending w = wire dotu r @ rest"
    and "printable r" "strings_fit dotu r" "wire_size dotu r \<le> unat (mt_msize m)"
    and "\<And>w n. \<exists>w'. ev_malloc env w n = (True, w') \<and> pending w' = pending w"
  shows "\<exists>rx p m'. rpc_9p env tx rxi keep m = Some (reply_error tx rx (Some p) dotu, rx,
        if reply_error tx rx (Some p) dotu = 0 \<and> keep then Some p else None, m')
    \<and> same_call dotu r p rx \<and> pending (mt_world m') = rest"
  using rpc_stream [OF assms(1) _ assms(3-11), where rxi = rxi and keep = keep] assms(2,4)
  by (simp add: Let_def)

text \<open>The slow socket delivers what was pending before the call.\<close>

lemma slow_send_keeps: "send_loop env so w buf n t = Some (e, w') \<Longrightarrow> env = slow_env \<Longrightarrow> fst w' = fst w"
  by (erule send_loop_keeps) (auto simp: slow_env_def)

definition tclunk :: tx_call where
  "tclunk = (zero_fcall [])\<lparr>fc_type := Tclunk, fc_fid := 7\<rparr>"

lemma tclunk_ok: "printable tclunk" "wire_size dotu tclunk = 11"
  by (simp_all add: tclunk_def printable_def wire_size_def wire_payload_def msg_types_def zero_fcall_def)

text \<open>The example accepts a reply that carries tag 3 for a request sent with tag 9.\<close>

theorem rpc_delivers_witness:
  "\<exists>rx p m'. rpc_9p slow_env tclunk (zero_fcall None) False (slow_mount (wire False rclunk)) = Some (0, rx, None, m')
    \<and> fc_tag rx = 3 \<and> mt_ntag (slow_mount (wire False rclunk)) = 9 \<and> fst (mt_world m') = []"
proof -
  let ?m = "slow_mount (wire False rclunk)"
  have m: "mt_so ?m = Some 1" "mt_flags ?m = 0" "mt_msize ?m = 64" "length (mt_rpcbuf ?m) = 64"
    "mt_ntag ?m = 9" "mt_world ?m = (wire False rclunk, [])" by (simp_all add: slow_mount_def)
  have "False = ISSET (mt_flags ?m) F_DOTU" by (simp add: m ISSET_def)
  moreover have "pending = wire False rclunk @ []" if
      "send_loop slow_env (mt_so ?m) (mt_world ?m) buf (wire_size False tclunk) 0 = Some (0, w)"
      "pending = fst w" for buf w pending
    using slow_send_keeps [OF that(1) refl] that(2) by (simp add: m)
  ultimately obtain rx p m' where "rpc_9p slow_env tclunk (zero_fcall None) False ?m
      = Some (reply_error tclunk rx (Some p) False, rx,
          if reply_error tclunk rx (Some p) False = 0 \<and> False then Some p else None, m')"
      "same_call False rclunk p rx" "fst (mt_world m') = []"
    using rpc_delivers [OF tclunk_ok(1) _ _ _ slow_sink_ok slow_stream_ok _ rclunk_ok(1,2) _ slow_malloc,
        where m = ?m and rest = "[]" and rxi = "zero_fcall None" and keep = False]
    by (simp add: m tclunk_ok rclunk_ok) blast
  moreover have "fc_type rx = Rclunk" "fc_tag rx = 3"
    using \<open>same_call False rclunk p rx\<close> by (simp_all add: same_call_def rclunk_def)
  then have "reply_error tclunk rx (Some p) False = 0"
    by (simp add: reply_error_def tclunk_def)
  ultimately show ?thesis using \<open>fc_tag rx = 3\<close> m(5) by auto
qed

end
