(* ===== verification/Proto.thy ===== *)
theory Proto
  imports SocketProofs DirWire
begin

text \<open>
  The 9P operations of \<^verbatim>\<open>kext/proto.c\<close>, each one a remote procedure call. A caller's local
  \<^verbatim>\<open>Fcall tx, rx\<close> start uninitialised: their contents are the arguments \<open>tx0\<close> and \<open>rx0\<close>.
  Every operation returns its error, its results, and the mount.
\<close>

section \<open>Helpers\<close>

text \<open>\<^verbatim>\<open>nextfid\<close> is \<^verbatim>\<open>OSIncrementAtomic(&nmp->nfid)\<close>, which returns the old value.\<close>

definition nextfid :: "'w mount \<Rightarrow> u32 \<times> 'w mount" where
  "nextfid m = (mt_nfid m, m\<lparr>mt_nfid := mt_nfid m + 1\<rparr>)"

text \<open>
  \<^verbatim>\<open>strndup\<close>: \<open>name\<close> is the memory the pointer points to, \<^term>\<open>None\<close> for \<^verbatim>\<open>NULL\<close>. The new
  string is a block of its own, here without its NUL.
\<close>

definition strndup :: "'w env \<Rightarrow> memory option \<Rightarrow> int \<Rightarrow> 'w mount
    \<Rightarrow> (int \<times> byte list option \<times> 'w mount) option" where
  "strndup env name nname m =
     (case name of
        None \<Rightarrow> Some (EINVAL, None, m)
      | Some s \<Rightarrow>
          if nname \<le> 0 then Some (EINVAL, None, m)
          else (case malloc_9p env (nat (nname + 1)) m of
              (None, m) \<Rightarrow> Some (ENOMEM, None, m)
            | (Some _, m) \<Rightarrow> do { d \<leftarrow> rdn s 0 (nat nname); Some (0, Some (cstr d), m) }))"

section \<open>Sessions\<close>

text \<open>\<^verbatim>\<open>version_9p\<close>; the result is the error and the new string \<^verbatim>\<open>*versp\<close>.\<close>

definition version_9p :: "'w env \<Rightarrow> tx_call \<Rightarrow> rx_call \<Rightarrow> byte list \<Rightarrow> 'w mount
    \<Rightarrow> (int \<times> byte list option \<times> 'w mount) option" where
  "version_9p env tx0 rx0 vers m = do {
     let m = m\<lparr>mt_msize := of_nat MAXMSG\<rparr>;
     let tx = tx0\<lparr>fc_tag := NOTAG, fc_type := Tversion, fc_version := vers, fc_msize := mt_msize m\<rparr>;
     (e, rx, p, m) \<leftarrow> rpc_9p env tx rx0 True m;
     if e \<noteq> 0 then Some (e, None, m)
     else do {
       let m = m\<lparr>mt_msize := min (fc_msize rx) (of_nat MAXMSG)\<rparr>;
       buf \<leftarrow> p;
       q \<leftarrow> fc_version rx;
       (e, v, m) \<leftarrow> strndup env (Some (drop q buf)) (int (length (cstr_at buf q))) m;
       Some (e, v, free_9p p m)
     }
   }"

definition auth_9p :: "'w env \<Rightarrow> tx_call \<Rightarrow> rx_call \<Rightarrow> byte list \<Rightarrow> byte list \<Rightarrow> u32 \<Rightarrow> Qid \<Rightarrow> 'w mount
    \<Rightarrow> (int \<times> u32 \<times> Qid \<times> 'w mount) option" where
  "auth_9p env tx0 rx0 uname aname unamenum qid m = do {
     let (fid, m) = nextfid m;
     let tx = tx0\<lparr>fc_type := Tauth, fc_tag := 0, fc_afid := fid, fc_uname := uname,
               fc_aname := aname, fc_unamenum := unamenum\<rparr>;
     (e, rx, p, m) \<leftarrow> rpc_9p env tx rx0 False m;
     if e \<noteq> 0 then Some (if fc_type rx = Rerror then 0 else e, NOFID, qid, m)
     else Some (0, fid, fc_aqid rx, m)
   }"

text \<open>The outputs \<^verbatim>\<open>*fidp\<close> and \<^verbatim>\<open>*qidp\<close> keep their old values \<open>fid0\<close> and \<open>qid0\<close> on an error.\<close>

definition attach_9p :: "'w env \<Rightarrow> tx_call \<Rightarrow> rx_call \<Rightarrow> byte list \<Rightarrow> byte list \<Rightarrow> u32 \<Rightarrow> u32
    \<Rightarrow> u32 \<Rightarrow> Qid \<Rightarrow> 'w mount \<Rightarrow> (int \<times> u32 \<times> Qid \<times> 'w mount) option" where
  "attach_9p env tx0 rx0 uname aname afid unamenum fid0 qid0 m = do {
     let tx = tx0\<lparr>fc_type := Tattach, fc_afid := afid, fc_tag := 0\<rparr>;
     let (fid, m) = nextfid m;
     let tx = tx\<lparr>fc_fid := fid, fc_uname := uname, fc_aname := aname, fc_unamenum := unamenum\<rparr>;
     (e, rx, p, m) \<leftarrow> rpc_9p env tx rx0 False m;
     if e \<noteq> 0 then Some (e, fid0, qid0, m)
     else Some (0, fid, fc_qid rx, m)
   }"

section \<open>Walking, opening, creating\<close>

text \<open>An index past \<^verbatim>\<open>rx.wqid\<close> is \<^term>\<open>None\<close>.\<close>

definition walk_9p :: "'w env \<Rightarrow> tx_call \<Rightarrow> rx_call \<Rightarrow> u32 \<Rightarrow> memory option \<Rightarrow> int
    \<Rightarrow> u32 \<Rightarrow> Qid \<Rightarrow> 'w mount \<Rightarrow> (int \<times> u32 \<times> Qid \<times> 'w mount) option" where
  "walk_9p env tx0 rx0 fid name nname fid0 qid0 m = do {
     let (newfid, m) = nextfid m;
     let tx = tx0\<lparr>fc_type := Twalk, fc_fid := fid, fc_newfid := newfid, fc_nwname := 0\<rparr>;
     (e, s, m) \<leftarrow> (if name = None then Some (0, None, m) else strndup env name nname m);
     if e \<noteq> 0 then Some (e, fid0, qid0, m)
     else do {
       let tx = (case s of None \<Rightarrow> tx
                 | Some s \<Rightarrow> tx\<lparr>fc_nwname := 1, fc_wname := (fc_wname tx)[0 := s]\<rparr>);
       (e, rx, p, m) \<leftarrow> rpc_9p env tx rx0 False m;
       let m = free_9p s m;
       if e \<noteq> 0 then Some (e, fid0, qid0, m)
       else if name \<noteq> None \<and> fc_nwqid rx = 0 then Some (ENOENT, fid0, qid0, m)
       else if fc_nwqid rx = 0 then Some (0, newfid, fc_qid rx, m)
       else if unat (fc_nwqid rx - 1) < length (fc_wqid rx)
       then Some (0, newfid, fc_wqid rx ! unat (fc_nwqid rx - 1), m)
       else None
     }
   }"

definition opencreate_9p :: "'w env \<Rightarrow> tx_call \<Rightarrow> rx_call \<Rightarrow> byte \<Rightarrow> u32 \<Rightarrow> memory option \<Rightarrow> int
    \<Rightarrow> byte \<Rightarrow> u32 \<Rightarrow> byte list \<Rightarrow> Qid \<Rightarrow> u32 \<Rightarrow> 'w mount
    \<Rightarrow> (int \<times> Qid \<times> u32 \<times> 'w mount) option" where
  "opencreate_9p env tx0 rx0 type fid name nname mode perm ext qid0 iounit0 m = do {
     let tx = tx0\<lparr>fc_type := type, fc_fid := fid, fc_mode := mode\<rparr>;
     (e, s, m) \<leftarrow> (if type = Tcreate then strndup env name nname m else Some (0, None, m));
     if e \<noteq> 0 then Some (e, qid0, iounit0, m)
     else do {
       let tx = (case s of None \<Rightarrow> tx
                 | Some s \<Rightarrow> tx\<lparr>fc_name := s, fc_perm := perm, fc_ext := ext\<rparr>);
       (e, rx, p, m) \<leftarrow> rpc_9p env tx rx0 False m;
       let m = free_9p s m;
       if e \<noteq> 0 then Some (e, qid0, iounit0, m)
       else Some (0, fc_qid rx, fc_iounit rx, m)
     }
   }"

definition open_9p :: "'w env \<Rightarrow> tx_call \<Rightarrow> rx_call \<Rightarrow> u32 \<Rightarrow> byte \<Rightarrow> Qid \<Rightarrow> u32 \<Rightarrow> 'w mount
    \<Rightarrow> (int \<times> Qid \<times> u32 \<times> 'w mount) option" where
  "open_9p env tx0 rx0 fid mode qid0 iounit0 m =
     opencreate_9p env tx0 rx0 Topen fid None 0 mode 0 [] qid0 iounit0 m"

definition create_9p :: "'w env \<Rightarrow> tx_call \<Rightarrow> rx_call \<Rightarrow> u32 \<Rightarrow> memory option \<Rightarrow> int \<Rightarrow> byte \<Rightarrow> u32
    \<Rightarrow> byte list \<Rightarrow> Qid \<Rightarrow> u32 \<Rightarrow> 'w mount \<Rightarrow> (int \<times> Qid \<times> u32 \<times> 'w mount) option" where
  "create_9p env tx0 rx0 fid name nname mode perm ext qid0 iounit0 m =
     opencreate_9p env tx0 rx0 Tcreate fid name nname mode perm ext qid0 iounit0 m"

section \<open>Reading and writing\<close>

text \<open>
  \<open>rdwr_9p\<close>: \<open>buf\<close> is the caller's buffer from the pointer on; the result is the error,
  \<^verbatim>\<open>*countp\<close> and the buffer. The count is cut to what fits a message. A \<^verbatim>\<open>bcopy\<close> of no bytes
  does not look at its pointers.
\<close>

definition rdwr_9p :: "'w env \<Rightarrow> tx_call \<Rightarrow> rx_call \<Rightarrow> byte \<Rightarrow> u32 \<Rightarrow> memory \<Rightarrow> u32 \<Rightarrow> u64 \<Rightarrow> 'w mount
    \<Rightarrow> (int \<times> u32 \<times> memory \<times> 'w mount) option" where
  "rdwr_9p env tx0 rx0 type fid buf count off m = do {
     let count = min count (mt_msize m - IOHDRSZ);
     let tx = tx0\<lparr>fc_type := type, fc_fid := fid, fc_offset := off, fc_count := count\<rparr>;
     let tx = (if type = Twrite then tx\<lparr>fc_data := buf\<rparr> else tx);
     (e, rx, p, m) \<leftarrow> rpc_9p env tx rx0 True m;
     if e \<noteq> 0 then Some (e, 0, buf, m)
     else if type = Tread then do {
       let n = (if fc_count rx > count then count else fc_count rx);
       d \<leftarrow> (if n = 0 then Some [] else do { pb \<leftarrow> p; q \<leftarrow> fc_data rx; rdn pb q (unat n) });
       buf \<leftarrow> wrn buf 0 d;
       Some (0, n, buf, free_9p p m)
     }
     else Some (0, fc_count rx, buf, free_9p p m)
   }"

definition read_9p :: "'w env \<Rightarrow> tx_call \<Rightarrow> rx_call \<Rightarrow> u32 \<Rightarrow> memory \<Rightarrow> u32 \<Rightarrow> u64 \<Rightarrow> 'w mount
    \<Rightarrow> (int \<times> u32 \<times> memory \<times> 'w mount) option" where
  "read_9p env tx0 rx0 fid buf count off m = rdwr_9p env tx0 rx0 Tread fid buf count off m"

definition write_9p :: "'w env \<Rightarrow> tx_call \<Rightarrow> rx_call \<Rightarrow> u32 \<Rightarrow> memory \<Rightarrow> u32 \<Rightarrow> u64 \<Rightarrow> 'w mount
    \<Rightarrow> (int \<times> u32 \<times> memory \<times> 'w mount) option" where
  "write_9p env tx0 rx0 fid buf count off m = rdwr_9p env tx0 rx0 Twrite fid buf count off m"

section \<open>Closing and removing\<close>

definition clunk_9p :: "'w env \<Rightarrow> tx_call \<Rightarrow> rx_call \<Rightarrow> u32 \<Rightarrow> 'w mount \<Rightarrow> (int \<times> 'w mount) option" where
  "clunk_9p env tx0 rx0 fid m =
     (if fid = NOFID then Some (EBADF, m)
      else do {
        (e, rx, p, m) \<leftarrow> rpc_9p env (tx0\<lparr>fc_type := Tclunk, fc_fid := fid\<rparr>) rx0 False m;
        Some (e, m) })"

definition remove_9p :: "'w env \<Rightarrow> tx_call \<Rightarrow> rx_call \<Rightarrow> u32 \<Rightarrow> 'w mount \<Rightarrow> (int \<times> 'w mount) option" where
  "remove_9p env tx0 rx0 fid m = do {
     (e, rx, p, m) \<leftarrow> rpc_9p env (tx0\<lparr>fc_type := Tremove, fc_fid := fid\<rparr>) rx0 False m;
     Some (e, m) }"

section \<open>Attributes\<close>

text \<open>
  \<open>stat_9p\<close>: the block \<^verbatim>\<open>dp\<close> is a \<open>Dir\<close> and a string area of \<^verbatim>\<open>BIT16SZ + n\<close> bytes, where
  \<^verbatim>\<open>n\<close> is read from the start of the message. \<^verbatim>\<open>*dpp\<close> is set even on an error.
\<close>

definition stat_9p :: "'w env \<Rightarrow> tx_call \<Rightarrow> rx_call \<Rightarrow> nat \<Rightarrow> u32 \<Rightarrow> 'w mount
    \<Rightarrow> (int \<times> (strp Dir \<times> memory) option \<times> 'w mount) option" where
  "stat_9p env tx0 rx0 sizeof_Dir fid m = do {
     (e, rx, p, m) \<leftarrow> rpc_9p env (tx0\<lparr>fc_type := Tstat, fc_fid := fid\<rparr>) rx0 True m;
     if e \<noteq> 0 then Some (e, None, m)
     else do {
       buf \<leftarrow> p;
       b \<leftarrow> rdn buf 0 BIT16SZ;
       let n = unat (GBIT16 b);
       case malloc_9p env (sizeof_Dir + BIT16SZ + n) m of
         (None, m) \<Rightarrow> Some (ENOMEM, None, free_9p p m)
       | (Some _, m) \<Rightarrow> do {
           q \<leftarrow> fc_stat rx;
           (r, dp, strs) \<leftarrow> convM2D (drop q buf) (unat (fc_nstat rx)) zero_dir
              (Some (replicate (BIT16SZ + n) 0, 0)) (ISSET (mt_flags m) F_DOTU);
           sm \<leftarrow> strs;
           Some (if r \<noteq> unat (fc_nstat rx) then EBADRPC else 0, Some (dp, sm), free_9p p m)
         }
     }
   }"

definition wstat_9p :: "'w env \<Rightarrow> tx_call \<Rightarrow> rx_call \<Rightarrow> u32 \<Rightarrow> byte list Dir \<Rightarrow> 'w mount
    \<Rightarrow> (int \<times> 'w mount) option" where
  "wstat_9p env tx0 rx0 fid dp m = do {
     let dotu = ISSET (mt_flags m) F_DOTU;
     let n = sizeD2M dp dotu;
     case malloc_9p env (unat n) m of
       (None, m) \<Rightarrow> Some (ENOMEM, m)
     | (Some p, m) \<Rightarrow> do {
         (r, p) \<leftarrow> convD2M dp p n dotu;
         if of_nat r \<noteq> n then Some (EINVAL, free_9p (Some p) m)
         else do {
           let tx = tx0\<lparr>fc_type := Twstat, fc_fid := fid, fc_stat := p, fc_nstat := ucast n\<rparr>;
           (e, rx, q, m) \<leftarrow> rpc_9p env tx rx0 False m;
           Some (e, free_9p (Some p) m)
         }
       }
   }"

section \<open>Directories\<close>

text \<open>
  The first pass of \<^verbatim>\<open>dirpackage\<close>: where the loop stops, the total size and the number of the
  entries before. Each step is at least two bytes, so \<open>ts - i\<close> decreases.
\<close>

function dp_count :: "memory \<Rightarrow> bool \<Rightarrow> nat \<Rightarrow> nat \<Rightarrow> nat \<Rightarrow> nat \<Rightarrow> (nat \<times> nat \<times> nat) option" where
  "dp_count buf dotu ts i ss n =
     (if i < ts then
        (case rdn buf i BIT16SZ of
           None \<Rightarrow> None
         | Some b \<Rightarrow>
             let m = BIT16SZ + unat (GBIT16 b) in
             (case statcheck (drop i buf) m dotu of
                None \<Rightarrow> None
              | Some r \<Rightarrow> if r < 0 then Some (i, ss, n)
                          else dp_count buf dotu ts (i + m) (ss + m) (n + 1)))
      else Some (i, ss, n))"
  by pat_completeness auto
termination by (relation "measure (\<lambda>(buf, dotu, ts, i, ss, n). ts - i)") auto

text \<open>
  The second pass: \<open>strs\<close> is the string area, \<open>s\<close> the pointer into it, \<open>ds\<close> the entries so
  far. \<open>Some None\<close> is the \<^verbatim>\<open>EBADRPC\<close> exit.
\<close>

function dp_convert :: "memory \<Rightarrow> bool \<Rightarrow> nat \<Rightarrow> nat \<Rightarrow> nat \<Rightarrow> memory \<Rightarrow> nat \<Rightarrow> strp Dir list
    \<Rightarrow> (strp Dir list \<times> memory) option option" where
  "dp_convert buf dotu ts n i strs s ds =
     (if i < ts then
        (case rdn buf i BIT16SZ of
           None \<Rightarrow> None
         | Some b \<Rightarrow>
             let m = BIT16SZ + unat (GBIT16 b) in
             if length ds \<ge> n then Some None
             else (case convM2D (drop i buf) m zero_dir (Some (strs, s)) dotu of
                Some (r, d, Some strs) \<Rightarrow>
                  if r \<noteq> m then Some None
                  else dp_convert buf dotu ts n (i + m) strs (s + m) (ds @ [d])
              | _ \<Rightarrow> None))
      else Some (Some (ds, strs)))"
  by pat_completeness auto
termination by (relation "measure (\<lambda>(buf, dotu, ts, n, i, strs, s, ds). ts - i)") auto

declare dp_count.simps [simp del] dp_convert.simps [simp del]

text \<open>
  \<open>dirpackage\<close>: \<open>ts\<close> is an \<^verbatim>\<open>int\<close>. The result is the error and, on success, the entries with
  their string area (\<^term>\<open>None\<close> when there are none).
\<close>

definition dirpackage :: "'w env \<Rightarrow> nat \<Rightarrow> memory \<Rightarrow> int \<Rightarrow> bool \<Rightarrow> 'w mount
    \<Rightarrow> (int \<times> (strp Dir list \<times> memory) option \<times> 'w mount) option" where
  "dirpackage env sizeof_Dir buf ts dotu m =
     (if ts \<le> 0 then Some (0, None, m)
      else do {
        (i, ss, n) \<leftarrow> dp_count buf dotu (nat ts) 0 0 0;
        if i \<noteq> nat ts then Some (EBADRPC, None, m)
        else (case malloc_9p env (n * sizeof_Dir + ss) m of
            (None, m) \<Rightarrow> Some (ENOMEM, None, m)
          | (Some d, m) \<Rightarrow> do {
              r \<leftarrow> dp_convert buf dotu (nat ts) n 0 (replicate ss 0) 0 [];
              case r of
                None \<Rightarrow> Some (EBADRPC, None, free_9p (Some d) m)
              | Some (ds, strs) \<Rightarrow> Some (0, Some (ds, strs), m)
            })
      })"

text \<open>\<^verbatim>\<open>DIRMAX\<close> is \<^verbatim>\<open>sizeof(Dir) + STATMAX\<close>; the size of the struct is a parameter.\<close>

abbreviation DIRMAX :: "nat \<Rightarrow> nat" where
  "DIRMAX sizeof_Dir \<equiv> sizeof_Dir + STATMAX"

definition readdir_9p :: "'w env \<Rightarrow> tx_call \<Rightarrow> rx_call \<Rightarrow> nat \<Rightarrow> u32 \<Rightarrow> u64 \<Rightarrow> 'w mount
    \<Rightarrow> (int \<times> (strp Dir list \<times> memory) option \<times> u32 \<times> 'w mount) option" where
  "readdir_9p env tx0 rx0 sizeof_Dir fid off m =
     (case malloc_9p env (DIRMAX sizeof_Dir) m of
        (None, m) \<Rightarrow> Some (ENOMEM, None, 0, m)
      | (Some p, m) \<Rightarrow> do {
          (e, nrd, p, m) \<leftarrow> read_9p env tx0 rx0 fid p (of_nat (DIRMAX sizeof_Dir)) off m;
          (e, d, m) \<leftarrow> (if e = 0 then dirpackage env sizeof_Dir p (int (unat nrd))
                                      (ISSET (mt_flags m) F_DOTU) m
                        else Some (e, None, m));
          Some (e, d, nrd, free_9p (Some p) m)
        })"

text \<open>
  The loop of \<^verbatim>\<open>readdirs_9p\<close> ends when a read fails or returns nothing; a server may keep it
  going, so it runs on fuel. \<open>p\<close> holds the \<open>ts\<close> bytes read so far.
\<close>

fun readdirs_loop :: "nat \<Rightarrow> 'w env \<Rightarrow> tx_call \<Rightarrow> rx_call \<Rightarrow> nat \<Rightarrow> u32 \<Rightarrow> memory option \<Rightarrow> nat
    \<Rightarrow> 'w mount \<Rightarrow> (int \<times> memory option \<times> nat \<times> 'w mount) option" where
  "readdirs_loop 0 env tx0 rx0 sizeof_Dir fid p ts m = None"
| "readdirs_loop (Suc fuel) env tx0 rx0 sizeof_Dir fid p ts m =
     (case malloc_9p env (ts + DIRMAX sizeof_Dir) m of
        (None, m) \<Rightarrow> Some (ENOMEM, p, ts, m)
      | (Some newp, m) \<Rightarrow> do {
          old \<leftarrow> (case p of None \<Rightarrow> Some [] | Some b \<Rightarrow> rdn b 0 ts);
          newp \<leftarrow> wrn newp 0 old;
          let m = free_9p p m;
          (e, n, tail, m) \<leftarrow> read_9p env tx0 rx0 fid (drop ts newp) (of_nat (DIRMAX sizeof_Dir))
             (of_nat ts) m;
          let p = Some (take ts newp @ tail);
          if e \<noteq> 0 \<or> n = 0 then Some (e, p, ts, m)
          else readdirs_loop fuel env tx0 rx0 sizeof_Dir fid p (ts + unat n) m
        })"

definition readdirs_9p :: "nat \<Rightarrow> 'w env \<Rightarrow> tx_call \<Rightarrow> rx_call \<Rightarrow> nat \<Rightarrow> u32 \<Rightarrow> 'w mount
    \<Rightarrow> (int \<times> (strp Dir list \<times> memory) option \<times> 'w mount) option" where
  "readdirs_9p fuel env tx0 rx0 sizeof_Dir fid m = do {
     (e, p, ts, m) \<leftarrow> readdirs_loop fuel env tx0 rx0 sizeof_Dir fid None 0 m;
     (e, d, m) \<leftarrow> (if e = 0 then do {
                       buf \<leftarrow> p;
                       dirpackage env sizeof_Dir buf (int ts) (ISSET (mt_flags m) F_DOTU) m }
                   else Some (e, None, m));
     Some (e, d, free_9p p m)
   }"

end
