(* ===== verification/ProtoProofs.thy ===== *)
theory ProtoProofs
  imports Proto
begin

text \<open>
  What every 9P operation guarantees whatever the server does: it stays inside its buffers, it
  keeps the mount well-formed with the send lock free, and it frees every block but those it
  returns.
\<close>

section \<open>Well-formed mounts\<close>

definition mount_ok :: "'w mount \<Rightarrow> bool" where
  "mount_ok m \<longleftrightarrow> length (mt_rpcbuf m) = MAXMSG \<and> unat (mt_msize m) \<le> MAXMSG
     \<and> \<not> ISSET (mt_flags m) F_SENDLOCK"

text \<open>An uninitialised \<^verbatim>\<open>Fcall\<close> still has arrays of \<^verbatim>\<open>MAXWELEM\<close> elements.\<close>

definition stack_ok :: "tx_call \<Rightarrow> bool" where
  "stack_ok tx \<longleftrightarrow> length (fc_wname tx) = MAXWELEM \<and> length (fc_wqid tx) = MAXWELEM"

text \<open>\<open>after m k m'\<close>: an operation has ended in \<open>m'\<close>, with \<open>k\<close> more blocks in use.\<close>

definition after :: "'w mount \<Rightarrow> int \<Rightarrow> 'w mount \<Rightarrow> bool" where
  "after m k m' \<longleftrightarrow> mount_ok m' \<and> mt_so m' = mt_so m \<and> mt_live m' = mt_live m + k
     \<and> ISSET (mt_flags m') F_DOTU = ISSET (mt_flags m) F_DOTU"

lemma after_refl: "mount_ok m \<Longrightarrow> after m 0 m"
  by (simp add: after_def)

lemma after_trans: "after m j m1 \<Longrightarrow> after m1 k m2 \<Longrightarrow> after m (j + k) m2"
  by (simp add: after_def)

lemma after_free: "after m k m' \<Longrightarrow> after m (k - held p) (free_9p p m')"
  by (auto simp: after_def free_9p_def mount_ok_def)

lemma after_malloc:
  assumes "mount_ok m" "malloc_9p env n m = (p, m')"
  shows "after m (held p) m' \<and> (\<forall>b. p = Some b \<longrightarrow> b = replicate n 0)
    \<and> mt_msize m' = mt_msize m"
  using assms by (auto simp: malloc_9p_def after_def mount_ok_def split: prod.splits if_splits)

lemma rpc_frame_after:
  assumes "rpc_frame m m'" "mt_live m' = mt_live m + k" "mount_ok m"
  shows "after m k m' \<and> mt_msize m' = mt_msize m"
proof -
  have "(x AND - 49) AND 0x80 = x AND (0x80 :: u32)" "(x AND - 49) AND 0x10 = (0 :: u32)" for x
    by (simp_all add: and.assoc)
  then show ?thesis
    using assms by (simp add: rpc_frame_def after_def mount_ok_def ISSET_def)
qed

section \<open>The call\<close>

lemma rpc_call:
  assumes "recv_ok env" "mount_ok m" "printable tx" "wire_size (ISSET (mt_flags m) F_DOTU) tx < 2 ^ 32"
  obtains e rx p m' where "rpc_9p env tx rxi keep m = Some (e, rx, p, m')"
    "after m (held p) m'" "mt_msize m' = mt_msize m" "p = None \<longleftrightarrow> e \<noteq> 0 \<or> \<not> keep"
    "e = 0 \<Longrightarrow> answers tx rx \<and> length (fc_wname rx) = 16 \<and> length (fc_wqid rx) = 16
       \<and> (\<exists>buf. parsed (ISSET (mt_flags m) F_DOTU) buf rx)"
    "\<And>buf. p = Some buf \<Longrightarrow> length buf \<le> unat (mt_msize m)
      \<and> parsed (ISSET (mt_flags m) F_DOTU) buf rx"
proof -
  have "unat (mt_msize m) \<le> length (mt_rpcbuf m)" using assms(2) by (simp add: mount_ok_def)
  from rpc_within [OF assms(1,3,4) this, of rxi keep] obtain e rx p m'
    where r: "rpc_9p env tx rxi keep m = Some (e, rx, p, m')" "rpc_frame m m'"
      "mt_live m' = mt_live m + held p" "p = None \<longleftrightarrow> e \<noteq> 0 \<or> \<not> keep"
      "e = 0 \<longrightarrow> answers tx rx \<and> length (fc_wname rx) = 16 \<and> length (fc_wqid rx) = 16
         \<and> (\<exists>buf. parsed (ISSET (mt_flags m) F_DOTU) buf rx)"
      "\<forall>buf. p = Some buf \<longrightarrow> length buf \<le> unat (mt_msize m)
          \<and> parsed (ISSET (mt_flags m) F_DOTU) buf rx"
    by blast
  show ?thesis
    using that [OF r(1)] rpc_frame_after [OF r(2,3) assms(2)] r(4-6) by blast
qed

lemma small_printable:
  assumes "stack_ok tx" "fc_type tx \<in> {Tversion, Tauth, Tattach, Tcreate, Topen, Tclunk, Tremove, Tstat, Tread}"
  shows "printable tx"
  using assms by (auto simp: printable_def stack_ok_def msg_types_def)

text \<open>Requests of fixed size.\<close>

lemma wire_size_fixed:
  "fc_type tx \<in> {Tclunk, Tremove, Tstat} \<Longrightarrow> wire_size dotu tx = 11"
  "fc_type tx = Topen \<Longrightarrow> wire_size dotu tx = 12"
  "fc_type tx = Tread \<Longrightarrow> wire_size dotu tx = 23"
  by (auto simp: wire_size_def wire_payload_def)

text \<open>What a parsed reply is known to satisfy.\<close>

lemma parsed_Rwalk: "parsed dotu buf rx \<Longrightarrow> fc_type rx = Rwalk \<Longrightarrow> unat (fc_nwqid rx) \<le> 16"
  by (auto simp: parsed_def dest: convM2S_Rwalk)

lemma parsed_Rerror:
  "parsed dotu buf rx \<Longrightarrow> fc_type rx = Rerror \<Longrightarrow> fc_count rx = 0 \<and> fc_nwqid rx = 0
     \<and> fc_stat rx = None \<and> fc_version rx = None \<and> fc_qid rx = zero_qid"
  by (auto simp: parsed_def zero_fcall_def dest: convM2S_Rerror)

lemma parsed_Rread:
  "parsed dotu buf rx \<Longrightarrow> fc_type rx = Rread
     \<Longrightarrow> \<exists>q. fc_data rx = Some q \<and> q + unat (fc_count rx) = length buf"
  by (auto simp: parsed_def dest: convM2S_Rread)

lemma parsed_Rversion:
  "parsed dotu buf rx \<Longrightarrow> fc_type rx = Rversion
     \<Longrightarrow> \<exists>q k. fc_version rx = Some q \<and> q + k < length buf \<and> buf ! (q + k) = 0"
  unfolding parsed_def by (elim exE conjE, drule convM2S_Rversion) auto

lemma parsed_Rstat:
  "parsed dotu buf rx \<Longrightarrow> fc_type rx = Rstat \<Longrightarrow> \<exists>q b. fc_stat rx = Some q \<and> 9 \<le> q
     \<and> q + unat (fc_nstat rx) = length buf \<and> rdn buf 0 4 = Some b \<and> unat (GBIT32 b) = length buf"
  by (auto simp: parsed_def dest: convM2S_Rstat)

section \<open>Operations\<close>

lemma clunk_total:
  assumes "recv_ok env" "mount_ok m" "stack_ok tx0"
  shows "\<exists>e m'. clunk_9p env tx0 rx0 fid m = Some (e, m') \<and> after m 0 m'"
proof (cases "fid = NOFID")
  case True
  then show ?thesis using assms by (simp add: clunk_9p_def after_refl)
next
  case False
  let ?tx = "tx0\<lparr>fc_type := Tclunk, fc_fid := fid\<rparr>"
  have pr: "printable ?tx" using assms(3) by (intro small_printable) (simp_all add: stack_ok_def)
  have sz: "wire_size d ?tx < 2 ^ 32" for d by (simp add: wire_size_fixed)
  show ?thesis
    using False by (rule_tac rpc_call [OF assms(1,2) pr sz, where rxi = rx0 and keep = False])
      (auto simp: clunk_9p_def)
qed

lemma remove_total:
  assumes "recv_ok env" "mount_ok m" "stack_ok tx0"
  shows "\<exists>e m'. remove_9p env tx0 rx0 fid m = Some (e, m') \<and> after m 0 m'"
proof -
  let ?tx = "tx0\<lparr>fc_type := Tremove, fc_fid := fid\<rparr>"
  have pr: "printable ?tx" using assms(3) by (intro small_printable) (simp_all add: stack_ok_def)
  have sz: "wire_size d ?tx < 2 ^ 32" for d by (simp add: wire_size_fixed)
  show ?thesis
    by (rule rpc_call [OF assms(1,2) pr sz, where rxi = rx0 and keep = False])
      (auto simp: remove_9p_def)
qed

lemma after_nextfid: "mount_ok m \<Longrightarrow> after m 0 (m\<lparr>mt_nfid := n\<rparr>)"
  by (simp add: after_def mount_ok_def)

lemma mount_ok_nfid: "mount_ok (m\<lparr>mt_nfid := n\<rparr>) = mount_ok m"
  by (simp add: mount_ok_def)

lemma after_nfid: "after (m\<lparr>mt_nfid := n\<rparr>) k m' = after m k m'"
  by (simp add: after_def)

lemma auth_total:
  assumes "recv_ok env" "mount_ok m" "stack_ok tx0" "length uname + length aname < 2 ^ 31"
  shows "\<exists>e fid q m'. auth_9p env tx0 rx0 uname aname unamenum qid m = Some (e, fid, q, m')
    \<and> after m 0 m'"
proof -
  let ?tx = "tx0\<lparr>fc_type := Tauth, fc_tag := 0, fc_afid := mt_nfid m, fc_uname := uname,
               fc_aname := aname, fc_unamenum := unamenum\<rparr>"
  let ?m = "m\<lparr>mt_nfid := mt_nfid m + 1\<rparr>"
  have pr: "printable ?tx" using assms(3) by (intro small_printable) (simp_all add: stack_ok_def)
  have sz: "wire_size d ?tx < 2 ^ 32" for d
    using assms(4) by (simp add: wire_size_def wire_payload_def length_str_bytes)
  have mo: "mount_ok ?m" using assms(2) by (simp add: mount_ok_nfid)
  show ?thesis
    by (rule rpc_call [OF assms(1) mo pr sz, where rxi = rx0 and keep = False])
      (auto simp: auth_9p_def nextfid_def after_nfid)
qed

lemma attach_total:
  assumes "recv_ok env" "mount_ok m" "stack_ok tx0" "length uname + length aname < 2 ^ 31"
  shows "\<exists>e fid q m'. attach_9p env tx0 rx0 uname aname afid unamenum fid0 qid0 m = Some (e, fid, q, m')
    \<and> after m 0 m'"
proof -
  let ?tx = "tx0\<lparr>fc_type := Tattach, fc_afid := afid, fc_tag := 0, fc_fid := mt_nfid m,
               fc_uname := uname, fc_aname := aname, fc_unamenum := unamenum\<rparr>"
  let ?m = "m\<lparr>mt_nfid := mt_nfid m + 1\<rparr>"
  have pr: "printable ?tx" using assms(3) by (intro small_printable) (simp_all add: stack_ok_def)
  have sz: "wire_size d ?tx < 2 ^ 32" for d
    using assms(4) by (simp add: wire_size_def wire_payload_def length_str_bytes)
  have mo: "mount_ok ?m" using assms(2) by (simp add: mount_ok_nfid)
  show ?thesis
    by (rule rpc_call [OF assms(1) mo pr sz, where rxi = rx0 and keep = False])
      (auto simp: attach_9p_def nextfid_def after_nfid)
qed

lemma strndup_total:
  assumes "mount_ok m" "\<And>s. name = Some s \<Longrightarrow> nname \<le> int (length s)"
  shows "\<exists>e v m'. strndup env name nname m = Some (e, v, m') \<and> after m (held v) m'
    \<and> mt_msize m' = mt_msize m \<and> (v = None \<longleftrightarrow> e \<noteq> 0) \<and> (\<forall>d. v = Some d \<longrightarrow> length d \<le> nat nname)"
proof -
  obtain p m' where a: "malloc_9p env (nat (nname + 1)) m = (p, m')" by fastforce
  show ?thesis
  proof (cases "name = None \<or> nname \<le> 0")
    case True
    then have "strndup env name nname m = Some (EINVAL, None, m)"
      by (cases name) (simp_all add: strndup_def)
    then show ?thesis using assms(1) by (simp add: after_refl)
  next
    case False
    then obtain s where s: "name = Some s" "0 < nname" by auto
    have "0 + nat nname \<le> length s" using assms(2) [OF s(1)] s(2) by simp
    then obtain d where d: "rdn s 0 (nat nname) = Some d" using rdn_Some by blast
    then have "length (cstr d) \<le> nat nname"
      using length_cstr_le [of d] length_rdn [OF d] by simp
    then show ?thesis
      using s a d after_malloc [OF assms(1) a] by (cases p) (auto simp: strndup_def)
  qed
qed

lemma walk_total:
  assumes "recv_ok env" "mount_ok m" "stack_ok tx0"
    and "\<And>s. name = Some s \<Longrightarrow> nname \<le> int (length s)" "nname < 2 ^ 31"
  shows "\<exists>e f q m'. walk_9p env tx0 rx0 fid name nname fid0 qid0 m = Some (e, f, q, m')
    \<and> after m 0 m' \<and> (e \<noteq> 0 \<longrightarrow> f = fid0 \<and> q = qid0) \<and> (e = 0 \<longrightarrow> f = mt_nfid m)"
proof -
  let ?m = "m\<lparr>mt_nfid := mt_nfid m + 1\<rparr>"
  let ?tx = "tx0\<lparr>fc_type := Twalk, fc_fid := fid, fc_newfid := mt_nfid m, fc_nwname := 0\<rparr>"
  have mo: "mount_ok ?m" using assms(2) by (simp add: mount_ok_nfid)
  obtain e s m1 where s: "(if name = None then Some (0, None, ?m) else strndup env name nname ?m)
      = Some (e, s, m1)" "after m (held s) m1" "e \<noteq> 0 \<longrightarrow> s = None"
      "\<forall>d. s = Some d \<longrightarrow> length d \<le> nat nname"
  proof (cases "name = None")
    case True
    then show thesis using that [of 0 None ?m] after_nextfid [OF assms(2)] by simp
  next
    case False
    have "\<exists>e v m'. strndup env name nname ?m = Some (e, v, m') \<and> after ?m (held v) m'
        \<and> mt_msize m' = mt_msize ?m \<and> (v = None \<longleftrightarrow> e \<noteq> 0) \<and> (\<forall>d. v = Some d \<longrightarrow> length d \<le> nat nname)"
      using assms(4) by (rule strndup_total [OF mo])
    then show thesis using that False by (auto simp: after_nfid)
  qed
  let ?tx1 = "case s of None \<Rightarrow> ?tx
                 | Some s \<Rightarrow> ?tx\<lparr>fc_nwname := 1, fc_wname := (fc_wname ?tx)[0 := s]\<rparr>"
  have pr: "printable ?tx1" using assms(3)
    by (auto simp: printable_def stack_ok_def msg_types_def split: option.splits)
  have sz: "wire_size d ?tx1 < 2 ^ 32" for d
  proof (cases s)
    case (Some v)
    have "take 1 ((fc_wname tx0)[0 := v]) = [v]"
      using assms(3) by (cases "fc_wname tx0") (auto simp: stack_ok_def)
    then show ?thesis
      using Some s(4) assms(5) by (simp add: wire_size_def wire_payload_def length_str_bytes)
  qed (simp add: wire_size_def wire_payload_def)
  show ?thesis
  proof (cases "e = 0")
    case False
    then show ?thesis using s by (simp add: walk_9p_def nextfid_def)
  next
    case True
    have mo1: "mount_ok m1" using s(2) by (simp add: after_def)
    show ?thesis
    proof (rule rpc_call [OF assms(1) mo1 pr sz, where rxi = rx0 and keep = False])
      fix e2 rx p m2
      assume r: "rpc_9p env ?tx1 rx0 False m1 = Some (e2, rx, p, m2)" "after m1 (held p) m2"
        "p = None \<longleftrightarrow> e2 \<noteq> 0 \<or> \<not> False"
        "e2 = 0 \<Longrightarrow> answers ?tx1 rx \<and> length (fc_wname rx) = 16 \<and> length (fc_wqid rx) = 16
           \<and> (\<exists>buf. parsed (ISSET (mt_flags m1) F_DOTU) buf rx)"
      have "after m 0 (free_9p s m2)"
        using after_free [OF after_trans [OF s(2) r(2)], of s] r(3) by simp
      moreover have "unat (fc_nwqid rx - 1) < length (fc_wqid rx)" if "e2 = 0" "fc_nwqid rx \<noteq> 0"
      proof -
        have "unat (fc_type rx) = unat (fc_type ?tx1) + 1 \<or> fc_type rx = Rerror"
          "length (fc_wqid rx) = 16" and "\<exists>buf. parsed (ISSET (mt_flags m1) F_DOTU) buf rx"
          using r(4) that by (auto simp: answers_def)
        then have "fc_type rx = Rwalk" "unat (fc_nwqid rx) \<le> 16"
          using that(2) parsed_Rwalk parsed_Rerror by (auto simp: word_unat_eq_iff split: option.splits)
        then show ?thesis
          using that(2) \<open>length (fc_wqid rx) = 16\<close> by (simp add: unat_minus_one)
      qed
      ultimately show ?thesis
        using r(1) s(1) True by (auto simp: walk_9p_def nextfid_def Let_def)
    qed
  qed
qed

lemma open_total:
  assumes "recv_ok env" "mount_ok m" "stack_ok tx0"
  shows "\<exists>e q io m'. open_9p env tx0 rx0 fid mode qid0 iounit0 m = Some (e, q, io, m')
    \<and> after m 0 m' \<and> (e \<noteq> 0 \<longrightarrow> q = qid0 \<and> io = iounit0)"
proof -
  let ?tx = "tx0\<lparr>fc_type := Topen, fc_fid := fid, fc_mode := mode\<rparr>"
  have pr: "printable ?tx" using assms(3) by (intro small_printable) (simp_all add: stack_ok_def)
  have sz: "wire_size d ?tx < 2 ^ 32" for d by (simp add: wire_size_fixed)
  show ?thesis
    by (rule rpc_call [OF assms(1,2) pr sz, where rxi = rx0 and keep = False])
      (auto simp: open_9p_def opencreate_9p_def free_9p_def Let_def)
qed

lemma create_total:
  assumes "recv_ok env" "mount_ok m" "stack_ok tx0"
    and "\<And>s. name = Some s \<Longrightarrow> nname \<le> int (length s)" "nat nname + length ext < 2 ^ 31"
  shows "\<exists>e q io m'. create_9p env tx0 rx0 fid name nname mode perm ext qid0 iounit0 m
      = Some (e, q, io, m') \<and> after m 0 m' \<and> (e \<noteq> 0 \<longrightarrow> q = qid0 \<and> io = iounit0)"
proof -
  let ?tx = "tx0\<lparr>fc_type := Tcreate, fc_fid := fid, fc_mode := mode\<rparr>"
  have "\<exists>e v m'. strndup env name nname m = Some (e, v, m') \<and> after m (held v) m'
      \<and> mt_msize m' = mt_msize m \<and> (v = None \<longleftrightarrow> e \<noteq> 0) \<and> (\<forall>d. v = Some d \<longrightarrow> length d \<le> nat nname)"
    using assms(4) by (rule strndup_total [OF assms(2)])
  then obtain e s m1 where s: "strndup env name nname m = Some (e, s, m1)" "after m (held s) m1"
      "s = None \<longleftrightarrow> e \<noteq> 0" "\<forall>d. s = Some d \<longrightarrow> length d \<le> nat nname" by blast
  show ?thesis
  proof (cases s)
    case None
    then show ?thesis using s by (auto simp: create_9p_def opencreate_9p_def Let_def)
  next
    case (Some v)
    let ?tx1 = "?tx\<lparr>fc_name := v, fc_perm := perm, fc_ext := ext\<rparr>"
    have pr: "printable ?tx1" using assms(3) by (intro small_printable) (simp_all add: stack_ok_def)
    have "length v + length ext < 2 ^ 31" using s(4) Some assms(5) by auto
    then have sz: "wire_size d ?tx1 < 2 ^ 32" for d
      by (simp add: wire_size_def wire_payload_def length_str_bytes)
    have mo: "mount_ok m1" using s(2) by (simp add: after_def)
    show ?thesis
    proof (rule rpc_call [OF assms(1) mo pr sz, where rxi = rx0 and keep = False])
      fix e2 rx p m2
      assume r: "rpc_9p env ?tx1 rx0 False m1 = Some (e2, rx, p, m2)" "after m1 (held p) m2"
        "p = None \<longleftrightarrow> e2 \<noteq> 0 \<or> \<not> False"
      have "after m 0 (free_9p s m2)"
        using after_free [OF after_trans [OF s(2) r(2)], of s] r(3) by simp
      then show ?thesis
        using r(1) s(1,3) Some by (auto simp: create_9p_def opencreate_9p_def Let_def)
    qed
  qed
qed

lemma count_le: "min (c :: u32) x \<le> c"
  by simp

lemma read_total:
  assumes "recv_ok env" "mount_ok m" "stack_ok tx0" "unat count \<le> length buf"
  shows "\<exists>e n buf' m'. read_9p env tx0 rx0 fid buf count off m = Some (e, n, buf', m')
    \<and> after m 0 m' \<and> mt_msize m' = mt_msize m \<and> n \<le> count \<and> length buf' = length buf
    \<and> drop (unat n) buf' = drop (unat n) buf \<and> (e \<noteq> 0 \<longrightarrow> n = 0)"
proof -
  let ?c = "min count (mt_msize m - IOHDRSZ)"
  let ?tx = "tx0\<lparr>fc_type := Tread, fc_fid := fid, fc_offset := off, fc_count := ?c\<rparr>"
  have pr: "printable ?tx" using assms(3) by (intro small_printable) (simp_all add: stack_ok_def)
  have sz: "wire_size d ?tx < 2 ^ 32" for d by (simp add: wire_size_fixed)
  show ?thesis
  proof (rule rpc_call [OF assms(1,2) pr sz, where rxi = rx0 and keep = True])
    fix e rx p m1
    assume r: "rpc_9p env ?tx rx0 True m = Some (e, rx, p, m1)" "after m (held p) m1"
      "mt_msize m1 = mt_msize m" "p = None \<longleftrightarrow> e \<noteq> 0 \<or> \<not> True"
      "e = 0 \<Longrightarrow> answers ?tx rx \<and> length (fc_wname rx) = 16 \<and> length (fc_wqid rx) = 16
        \<and> (\<exists>buf. parsed (ISSET (mt_flags m) F_DOTU) buf rx)"
      "\<And>buf. p = Some buf \<Longrightarrow> length buf \<le> unat (mt_msize m)
        \<and> parsed (ISSET (mt_flags m) F_DOTU) buf rx"
    show ?thesis
    proof (cases p)
      case None
      then show ?thesis using r by (auto simp: read_9p_def rdwr_9p_def Let_def)
    next
      case (Some pb)
      then have e: "e = 0" using r(4) by simp
      have pa: "parsed (ISSET (mt_flags m) F_DOTU) pb rx" using r(6) Some by simp
      let ?n = "if fc_count rx > ?c then ?c else fc_count rx"
      have n: "?n \<le> count" "unat ?n \<le> unat (fc_count rx)" "unat ?n \<le> length buf"
        using assms(4) by (auto simp: word_le_nat_alt word_less_nat_alt min_def not_less
            intro: order_trans)
      have "\<exists>d. (if ?n = 0 then Some [] else do { pb \<leftarrow> p; q \<leftarrow> fc_data rx; rdn pb q (unat ?n) }) = Some d
          \<and> length d = unat ?n"
      proof (cases "?n = 0")
        case False
        then have "fc_type rx \<noteq> Rerror" using parsed_Rerror [OF pa] by auto
        then have "fc_type rx = Rread"
          using r(5) e by (simp add: answers_def word_unat_eq_iff)
        then obtain q where "fc_data rx = Some q" "q + unat (fc_count rx) = length pb"
          using parsed_Rread [OF pa] by blast
        then show ?thesis using False Some n(2) by (auto simp: rdn_def)
      qed simp
      then obtain d where d: "(if ?n = 0 then Some [] else do { pb \<leftarrow> p; q \<leftarrow> fc_data rx; rdn pb q (unat ?n) })
          = Some d" "length d = unat ?n" by blast
      obtain b' where b': "wrn buf 0 d = Some b'" using d(2) n(3) by (auto simp: wrn_def)
      have "read_9p env tx0 rx0 fid buf count off m = Some (0, ?n, b', free_9p p m1)"
        using r(1) e d(1) b' by (simp add: read_9p_def rdwr_9p_def Let_def cong: if_cong)
      moreover have "after m 0 (free_9p p m1)" using after_free [OF r(2), of p] by simp
      moreover have "mt_msize (free_9p p m1) = mt_msize m" using r(3) by (simp add: free_9p_def)
      ultimately show ?thesis
        using n(1) length_wrn [OF b'] drop_wrn [OF b', of "unat ?n"] d(2) by auto
    qed
  qed
qed

lemma write_total:
  assumes "recv_ok env" "mount_ok m" "stack_ok tx0" "unat count \<le> length buf" "unat count < 2 ^ 31"
  shows "\<exists>e n m'. write_9p env tx0 rx0 fid buf count off m = Some (e, n, buf, m')
    \<and> after m 0 m' \<and> mt_msize m' = mt_msize m \<and> (e \<noteq> 0 \<longrightarrow> n = 0)"
proof -
  let ?c = "min count (mt_msize m - IOHDRSZ)"
  let ?tx = "tx0\<lparr>fc_type := Twrite, fc_fid := fid, fc_offset := off, fc_count := ?c, fc_data := buf\<rparr>"
  have c: "unat ?c \<le> unat count" by (simp add: min_def word_le_nat_alt)
  then have pr: "printable ?tx"
    using assms(3,4) by (auto simp: printable_def stack_ok_def msg_types_def)
  have sz: "wire_size d ?tx < 2 ^ 32" for d
    using c assms(4,5) by (simp add: wire_size_def wire_payload_def)
  show ?thesis
  proof (rule rpc_call [OF assms(1,2) pr sz, where rxi = rx0 and keep = True])
    fix e rx p m1
    assume r: "rpc_9p env ?tx rx0 True m = Some (e, rx, p, m1)" "after m (held p) m1"
      "mt_msize m1 = mt_msize m" "p = None \<longleftrightarrow> e \<noteq> 0 \<or> \<not> True"
    have "after m 0 (free_9p p m1)" "mt_msize (free_9p p m1) = mt_msize m"
      using after_free [OF r(2), of p] r(3) by (simp_all add: free_9p_def)
    then show ?thesis using r by (cases "e = 0") (auto simp: write_9p_def rdwr_9p_def Let_def)
  qed
qed

end
