(* ===== verification/ProtoRuns.thy ===== *)
theory ProtoRuns
  imports ProtoProofs
begin

text \<open>
  The 9P operations with a server that answers: what the caller gets is what the reply says.
\<close>

section \<open>An answered call\<close>

text \<open>
  A peer that takes what is written, and has the message \<open>r\<close> waiting, followed by \<open>rest\<close>, once the
  request has been sent; the allocator does not fail.
\<close>

definition answered :: "'w env \<Rightarrow> ('w \<Rightarrow> byte list) \<Rightarrow> 'w mount \<Rightarrow> tx_call \<Rightarrow> tx_call \<Rightarrow> byte list \<Rightarrow> bool" where
  "answered env pending m tx r rest \<longleftrightarrow>
     (let dotu = ISSET (mt_flags m) F_DOTU in
      recv_ok env \<and> (\<exists>sent. sink_ok env (mt_so m) sent) \<and> stream_ok env (mt_so m) pending
    \<and> (\<forall>w n. \<exists>w'. ev_malloc env w n = (True, w') \<and> pending w' = pending w)
    \<and> (\<forall>buf w. take (wire_size dotu tx) buf = wire dotu (tagged m tx)
         \<longrightarrow> send_loop env (mt_so m) (mt_world m) buf (wire_size dotu tx) 0 = Some (0, w)
         \<longrightarrow> pending w = wire dotu r @ rest)
    \<and> printable r \<and> strings_fit dotu r \<and> wire_size dotu r \<le> unat (mt_msize m))"

lemma rpc_answered:
  assumes "answered env pending m tx r rest" "mount_ok m" "printable tx"
    "wire_size (ISSET (mt_flags m) F_DOTU) tx \<le> unat (mt_msize m)"
  obtains rx p m' where
    "rpc_9p env tx rxi keep m = Some (reply_error tx rx (Some p) (ISSET (mt_flags m) F_DOTU), rx,
       if reply_error tx rx (Some p) (ISSET (mt_flags m) F_DOTU) = 0 \<and> keep then Some p else None, m')"
    "same_call (ISSET (mt_flags m) F_DOTU) r p rx" "pending (mt_world m') = rest"
    "after m (if reply_error tx rx (Some p) (ISSET (mt_flags m) F_DOTU) = 0 \<and> keep then 1 else 0) m'"
    "mt_msize m' = mt_msize m" "mt_nfid m' = mt_nfid m"
proof -
  let ?d = "ISSET (mt_flags m) F_DOTU"
  obtain sent where a: "recv_ok env" "sink_ok env (mt_so m) sent" "stream_ok env (mt_so m) pending"
      "printable r" "strings_fit ?d r" "wire_size ?d r \<le> unat (mt_msize m)"
      "\<And>w n. \<exists>w'. ev_malloc env w n = (True, w') \<and> pending w' = pending w"
      "\<And>buf w. take (wire_size ?d tx) buf = wire ?d (tagged m tx)
         \<Longrightarrow> send_loop env (mt_so m) (mt_world m) buf (wire_size ?d tx) 0 = Some (0, w)
         \<Longrightarrow> pending w = wire ?d r @ rest"
    using assms(1) unfolding answered_def Let_def by blast
  have le: "unat (mt_msize m) \<le> length (mt_rpcbuf m)" using assms(2) by (simp add: mount_ok_def)
  have lt: "wire_size ?d tx < 2 ^ 32" using assms(4) unat_u32_less [of "mt_msize m"] by simp
  have "\<exists>rx p m'. rpc_9p env tx rxi keep m = Some (reply_error tx rx (Some p) ?d, rx,
       if reply_error tx rx (Some p) ?d = 0 \<and> keep then Some p else None, m')
     \<and> same_call ?d r p rx \<and> pending (mt_world m') = rest"
    using rpc_stream [OF assms(3,4) le refl a(2,3) _ a(4,5,6) a(7), where rxi = rxi and keep = keep] a(8)
    by (simp add: Let_def)
  then obtain rx p m' where r: "rpc_9p env tx rxi keep m = Some (reply_error tx rx (Some p) ?d, rx,
       if reply_error tx rx (Some p) ?d = 0 \<and> keep then Some p else None, m')"
    "same_call ?d r p rx" "pending (mt_world m') = rest" by blast
  have nf: "mt_nfid m' = mt_nfid m"
    using rpc_within [OF a(1) assms(3) lt le, of rxi keep] r(1) by (auto simp: rpc_frame_def)
  show ?thesis
  proof (rule rpc_call [OF a(1) assms(2,3) lt, where rxi = rxi and keep = keep])
    fix e rx' p' m''
    assume "rpc_9p env tx rxi keep m = Some (e, rx', p', m'')" "after m (held p') m''"
      "mt_msize m'' = mt_msize m"
    then show ?thesis using r nf by (intro that [OF r]) (auto split: if_splits)
  qed
qed

section \<open>Reading and writing\<close>

lemma read_answered:
  fixes count :: u32 and m :: "'w mount"
  defines "c \<equiv> min count (mt_msize m - IOHDRSZ)"
  assumes "answered env pending m (tx0\<lparr>fc_type := Tread, fc_fid := fid, fc_offset := off, fc_count := c\<rparr>) r rest"
    and "mount_ok m" "stack_ok tx0" "23 \<le> unat (mt_msize m)" "unat count \<le> length buf"
    and "fc_type r = Rread" "fc_count r \<le> c"
  shows "\<exists>m'. read_9p env tx0 rx0 fid buf count off m = Some (0, fc_count r,
      take (unat (fc_count r)) (fc_data r) @ drop (unat (fc_count r)) buf, m')
    \<and> after m 0 m' \<and> mt_msize m' = mt_msize m \<and> pending (mt_world m') = rest"
proof -
  let ?tx = "tx0\<lparr>fc_type := Tread, fc_fid := fid, fc_offset := off, fc_count := c\<rparr>"
  let ?n = "unat (fc_count r)"
  have pr: "printable ?tx" using assms(4) by (intro small_printable) (simp_all add: stack_ok_def)
  have sz: "wire_size d ?tx \<le> unat (mt_msize m)" for d using assms(5) by (simp add: wire_size_fixed)
  have n: "?n \<le> length (fc_data r)"
    using assms(2,7) by (auto simp: answered_def printable_def Let_def)
  have "unat c \<le> unat count" by (simp add: c_def min_def word_le_nat_alt)
  then have nb: "?n \<le> length buf" using assms(6,8) by (simp add: word_le_nat_alt)
  show ?thesis
  proof (rule rpc_answered [OF assms(2,3) pr sz, where rxi = rx0 and keep = True])
    fix rx p m'
    assume a: "rpc_9p env ?tx rx0 True m = Some (reply_error ?tx rx (Some p) (ISSET (mt_flags m) F_DOTU), rx,
       if reply_error ?tx rx (Some p) (ISSET (mt_flags m) F_DOTU) = 0 \<and> True then Some p else None, m')"
      "same_call (ISSET (mt_flags m) F_DOTU) r p rx" "pending (mt_world m') = rest"
      "after m (if reply_error ?tx rx (Some p) (ISSET (mt_flags m) F_DOTU) = 0 \<and> True then 1 else 0) m'"
      "mt_msize m' = mt_msize m"
    have rx: "fc_type rx = Rread" "fc_count rx = fc_count r"
      "data_is p (fc_data rx) (take ?n (fc_data r))"
      using a(2) assms(7) by (simp_all add: same_call_def)
    then have e: "reply_error ?tx rx (Some p) (ISSET (mt_flags m) F_DOTU) = 0"
      by (simp add: reply_error_def)
    obtain q where q: "fc_data rx = Some q" "rdn p q ?n = Some (take ?n (fc_data r))"
      using rx(3) n by (auto simp: data_is_def min_absorb2 split: option.splits)
    have w: "wrn buf 0 (take ?n (fc_data r)) = Some (take ?n (fc_data r) @ drop ?n buf)"
      using n nb by (simp add: wrn_def min_absorb2)
    have "\<not> c < fc_count rx" using assms(8) rx(2) by simp
    then have "read_9p env tx0 rx0 fid buf count off m
        = Some (0, fc_count r, take ?n (fc_data r) @ drop ?n buf, free_9p (Some p) m')"
      using a(1) e rx(2) q w
      by (cases "fc_count r = 0") (simp_all add: read_9p_def rdwr_9p_def Let_def c_def [symmetric])
    moreover have "after m 0 (free_9p (Some p) m')" using after_free [OF a(4), of "Some p"] e by simp
    ultimately show ?thesis using a(3,5) by (simp add: free_9p_def)
  qed
qed

lemma write_answered:
  fixes count :: u32 and m :: "'w mount"
  defines "c \<equiv> min count (mt_msize m - IOHDRSZ)"
  assumes "answered env pending m (tx0\<lparr>fc_type := Twrite, fc_fid := fid, fc_offset := off, fc_count := c,
      fc_data := buf\<rparr>) r rest"
    and "mount_ok m" "stack_ok tx0" "24 \<le> unat (mt_msize m)" "unat count \<le> length buf"
    and "fc_type r = Rwrite"
  shows "\<exists>m'. write_9p env tx0 rx0 fid buf count off m = Some (0, fc_count r, buf, m')
    \<and> after m 0 m' \<and> mt_msize m' = mt_msize m \<and> pending (mt_world m') = rest"
proof -
  let ?tx = "tx0\<lparr>fc_type := Twrite, fc_fid := fid, fc_offset := off, fc_count := c, fc_data := buf\<rparr>"
  have cc: "unat c \<le> unat count" "unat c \<le> unat (mt_msize m) - 24"
    using assms(5) by (auto simp: c_def min_def word_le_nat_alt unat_sub)
  then have pr: "printable ?tx" using assms(4,6) by (simp add: printable_def stack_ok_def msg_types_def)
  have sz: "wire_size d ?tx \<le> unat (mt_msize m)" for d
    using cc assms(5,6) by (simp add: wire_size_def wire_payload_def)
  show ?thesis
  proof (rule rpc_answered [OF assms(2,3) pr sz, where rxi = rx0 and keep = True])
    fix rx p m'
    assume a: "rpc_9p env ?tx rx0 True m = Some (reply_error ?tx rx (Some p) (ISSET (mt_flags m) F_DOTU), rx,
       if reply_error ?tx rx (Some p) (ISSET (mt_flags m) F_DOTU) = 0 \<and> True then Some p else None, m')"
      "same_call (ISSET (mt_flags m) F_DOTU) r p rx" "pending (mt_world m') = rest"
      "after m (if reply_error ?tx rx (Some p) (ISSET (mt_flags m) F_DOTU) = 0 \<and> True then 1 else 0) m'"
      "mt_msize m' = mt_msize m"
    have rx: "fc_type rx = Rwrite" "fc_count rx = fc_count r"
      using a(2) assms(7) by (simp_all add: same_call_def)
    then have e: "reply_error ?tx rx (Some p) (ISSET (mt_flags m) F_DOTU) = 0"
      by (simp add: reply_error_def)
    have "write_9p env tx0 rx0 fid buf count off m = Some (0, fc_count r, buf, free_9p (Some p) m')"
      using a(1) e rx(2) by (simp add: write_9p_def rdwr_9p_def Let_def c_def [symmetric])
    moreover have "after m 0 (free_9p (Some p) m')" using after_free [OF a(4), of "Some p"] e by simp
    ultimately show ?thesis using a(3,5) by (simp add: free_9p_def)
  qed
qed

end
