(* ===== verification/ProtoProps.thy ===== *)
theory ProtoProps
  imports ProtoRuns SocketProps
begin

text \<open>
  The properties of the 9P operations of \<^verbatim>\<open>kext/proto.c\<close>: they are total whatever the server
  answers, free what they allocate, and keep their results within what the caller asked for.
\<close>

lemma slow_big_mount_ok: "mount_ok ((slow_mount d)\<lparr>mt_rpcbuf := replicate MAXMSG 0\<rparr>)"
  by (simp add: mount_ok_def slow_mount_def ISSET_def)

lemma zero_stack_ok: "stack_ok (zero_fcall [])"
  by (simp add: stack_ok_def zero_fcall_def)

text \<open>The slow socket answers whatever it is sent with what was pending.\<close>

lemma slow_answered:
  assumes "fst (mt_world m) = wire (ISSET (mt_flags m) F_DOTU) r @ rest"
    "printable r" "strings_fit (ISSET (mt_flags m) F_DOTU) r"
    "wire_size (ISSET (mt_flags m) F_DOTU) r \<le> unat (mt_msize m)"
  shows "answered slow_env fst m tx r rest"
  using assms slow_malloc slow_send_keeps [OF _ refl]
  by (auto simp: answered_def Let_def slow_recv_ok intro!: exI [of _ snd] slow_sink_ok slow_stream_ok)

text \<open>
  C32. \<open>walk_9p\<close> ends whatever the server answers, with the lock free and no block kept (the copy of
  the name is freed on every path). On an error the caller's fid and qid are untouched; on success
  the fid is the one \<open>nextfid\<close> drew.
\<close>

theorem walk_9p_total:
  assumes "recv_ok env" "mount_ok m" "stack_ok tx0"
    and "\<And>s. name = Some s \<Longrightarrow> nname \<le> int (length s)" "nname < 2 ^ 31"
  shows "\<exists>e f q m'. walk_9p env tx0 rx0 fid name nname fid0 qid0 m = Some (e, f, q, m')
    \<and> mount_ok m' \<and> mt_live m' = mt_live m
    \<and> (if e = 0 then f = mt_nfid m else f = fid0 \<and> q = qid0)"
proof -
  have "\<exists>e f q m'. walk_9p env tx0 rx0 fid name nname fid0 qid0 m = Some (e, f, q, m')
      \<and> after m 0 m' \<and> (e \<noteq> 0 \<longrightarrow> f = fid0 \<and> q = qid0) \<and> (e = 0 \<longrightarrow> f = mt_nfid m)"
    using assms(4,5) by (rule walk_total [OF assms(1-3)])
  then obtain e f q m' where "walk_9p env tx0 rx0 fid name nname fid0 qid0 m = Some (e, f, q, m')"
      "after m 0 m'" "e \<noteq> 0 \<longrightarrow> f = fid0 \<and> q = qid0" "e = 0 \<longrightarrow> f = mt_nfid m" by blast
  then show ?thesis
    by (intro exI [of _ e] exI [of _ f] exI [of _ q] exI [of _ m']) (simp add: after_def)
qed

theorem walk_9p_total_witness:
  "\<exists>e f q m'. walk_9p slow_env (zero_fcall []) (zero_fcall None) 1 (Some [97, 98]) 2 3 zero_qid
      ((slow_mount [7, 0])\<lparr>mt_rpcbuf := replicate MAXMSG 0\<rparr>) = Some (e, f, q, m')
    \<and> mount_ok m' \<and> mt_live m' = mt_live ((slow_mount [7, 0])\<lparr>mt_rpcbuf := replicate MAXMSG 0\<rparr>)"
proof -
  let ?m = "(slow_mount [7, 0])\<lparr>mt_rpcbuf := replicate MAXMSG 0\<rparr>"
  have "\<exists>e f q m'. walk_9p slow_env (zero_fcall []) (zero_fcall None) 1 (Some [97, 98]) 2 3 zero_qid ?m
      = Some (e, f, q, m') \<and> mount_ok m' \<and> mt_live m' = mt_live ?m
    \<and> (if e = 0 then f = mt_nfid ?m else f = 3 \<and> q = zero_qid)"
    by (rule walk_9p_total [OF slow_recv_ok slow_big_mount_ok zero_stack_ok]) auto
  then show ?thesis by blast
qed

text \<open>
  C33. \<open>read_9p\<close> stores at most the count asked for into the caller's buffer, whatever count the
  server claims, and returns the number stored; the rest of the buffer is as it was. On an error
  the number is 0.
\<close>

theorem read_9p_bounded:
  assumes "recv_ok env" "mount_ok m" "stack_ok tx0" "unat count \<le> length buf"
  shows "\<exists>e n buf' m'. read_9p env tx0 rx0 fid buf count off m = Some (e, n, buf', m')
    \<and> mount_ok m' \<and> mt_live m' = mt_live m \<and> n \<le> count \<and> length buf' = length buf
    \<and> drop (unat n) buf' = drop (unat n) buf \<and> (e \<noteq> 0 \<longrightarrow> n = 0)"
proof -
  from read_total [OF assms, of rx0 fid off] show ?thesis by (auto simp: after_def)
qed

theorem read_9p_bounded_witness:
  "\<exists>e n buf' m'. read_9p slow_env (zero_fcall []) (zero_fcall None) 1 (replicate 9 0) 8 0
      ((slow_mount [7, 0])\<lparr>mt_rpcbuf := replicate MAXMSG 0\<rparr>) = Some (e, n, buf', m')
    \<and> mount_ok m' \<and> n \<le> 8 \<and> length buf' = 9"
proof -
  have "unat (8 :: u32) \<le> length (replicate 9 (0 :: byte))" by simp
  from read_9p_bounded [OF slow_recv_ok slow_big_mount_ok zero_stack_ok this, of "zero_fcall None" 1 0 "[7, 0]"]
  show ?thesis by (elim exE conjE) (intro exI conjI, assumption+, simp)
qed

text \<open>
  When the server answers a read with an \<^verbatim>\<open>Rread\<close> of at most the count asked for, \<open>read_9p\<close>
  succeeds, the caller's buffer starts with exactly the server's bytes, and the rest of it is as it
  was; the stream is left after the reply and nothing stays allocated.
\<close>

theorem read_9p_delivers:
  fixes count :: u32 and m :: "'w mount"
  assumes "answered env pending m (tx0\<lparr>fc_type := Tread, fc_fid := fid, fc_offset := off,
      fc_count := min count (mt_msize m - IOHDRSZ)\<rparr>) r rest"
    and "mount_ok m" "stack_ok tx0" "23 \<le> unat (mt_msize m)" "unat count \<le> length buf"
    and "fc_type r = Rread" "fc_count r \<le> min count (mt_msize m - IOHDRSZ)"
  shows "\<exists>m'. read_9p env tx0 rx0 fid buf count off m = Some (0, fc_count r,
      take (unat (fc_count r)) (fc_data r) @ drop (unat (fc_count r)) buf, m')
    \<and> mount_ok m' \<and> mt_live m' = mt_live m \<and> pending (mt_world m') = rest"
proof -
  from read_answered [OF assms, of rx0] show ?thesis by (auto simp: after_def)
qed

definition rread :: "byte list \<Rightarrow> tx_call" where
  "rread d = (zero_fcall [])\<lparr>fc_type := Rread, fc_tag := 3, fc_count := of_nat (length d), fc_data := d\<rparr>"

lemma rread_ok:
  assumes "length d < 2 ^ 31"
  shows "printable (rread d)" "strings_fit dotu (rread d)" "wire_size dotu (rread d) = 11 + length d"
    "fc_type (rread d) = Rread" "unat (fc_count (rread d)) = length d" "fc_data (rread d) = d"
  using assms by (simp_all add: rread_def printable_def strings_fit_def wire_strings_def wire_size_def
      wire_payload_def msg_types_def zero_fcall_def unat_of_nat_small)

theorem read_9p_delivers_witness:
  "\<exists>m'. read_9p slow_env (zero_fcall []) (zero_fcall None) 1 (replicate 9 0) 8 0
      ((slow_mount (wire False (rread [5, 6]) @ [7]))\<lparr>mt_rpcbuf := replicate MAXMSG 0\<rparr>)
      = Some (0, 2, [5, 6, 0, 0, 0, 0, 0, 0, 0], m') \<and> fst (mt_world m') = [7]"
proof -
  let ?m = "(slow_mount (wire False (rread [5, 6]) @ [7]))\<lparr>mt_rpcbuf := replicate MAXMSG 0\<rparr>"
  have m: "mt_flags ?m = 0" "mt_msize ?m = 64" "fst (mt_world ?m) = wire False (rread [5, 6]) @ [7]"
    by (simp_all add: slow_mount_def)
  note r = rread_ok [of "[5, 6]", simplified]
  have f: "ISSET (mt_flags ?m) F_DOTU = False" by (simp add: m ISSET_def)
  have c: "fc_count (rread [5, 6]) = 2" by (simp add: rread_def)
  have an: "answered slow_env fst ?m tx (rread [5, 6]) [7]" for tx
    by (rule slow_answered, unfold f m(2,3)) (simp_all add: r)
  have le: "23 \<le> unat (mt_msize ?m)" "unat (8 :: u32) \<le> length (replicate 9 (0 :: byte))"
      "fc_count (rread [5, 6]) \<le> min 8 (mt_msize ?m - IOHDRSZ)" by (simp_all add: m(2) c)
  obtain m' where m': "read_9p slow_env (zero_fcall []) (zero_fcall None) 1 (replicate 9 0) 8 0 ?m
      = Some (0, fc_count (rread [5, 6]), take (unat (fc_count (rread [5, 6]))) (fc_data (rread [5, 6]))
          @ drop (unat (fc_count (rread [5, 6]))) (replicate 9 0), m')" "fst (mt_world m') = [7]"
    using read_9p_delivers [OF an slow_big_mount_ok zero_stack_ok le(1,2) r(4) le(3), of "zero_fcall None"] by blast
  have "drop 2 (replicate 9 0) = [0, 0, 0, 0, 0, 0, 0 :: byte]" by (simp add: numeral_eq_Suc)
  then have "take (unat (fc_count (rread [5, 6]))) (fc_data (rread [5, 6]))
      @ drop (unat (fc_count (rread [5, 6]))) (replicate 9 0) = [5, 6, 0, 0, 0, 0, 0, 0, 0]" by (simp add: c r)
  with m' show ?thesis unfolding c by (intro exI conjI) simp_all
qed

end
