(* ===== verification/RpcLock.thy ===== *)
theory RpcLock
  imports Socket9p
begin

text \<open>
  The send lock of \<^verbatim>\<open>kext/socket.c\<close> with many threads: \<^verbatim>\<open>rpclock\<close> and \<^verbatim>\<open>rpcunlock\<close> as steps of
  threads that interleave. Each part of them that runs under \<^verbatim>\<open>nmp->lck\<close> is one step;
  \<^verbatim>\<open>msleep\<close> gives the mutex up and sleeps in one step, and \<^verbatim>\<open>wakeup\<close>, called after the mutex is
  released, wakes every sleeper. In between, any other thread may run.
\<close>

section \<open>The code under the mutex\<close>

text \<open>
  One test of the loop condition of \<^verbatim>\<open>rpclock\<close>: the lock is taken, or the thread announces that
  it waits and goes to sleep.
\<close>

definition rpclock_try :: "'w mount \<Rightarrow> bool \<times> 'w mount" where
  "rpclock_try m =
     (if ISSET (mt_flags m) F_SENDLOCK
      then (False, m\<lparr>mt_flags := mt_flags m OR F_WAITSENDLOCK\<rparr>)
      else (True, rpclock m))"

text \<open>\<^verbatim>\<open>rpcunlock\<close> up to its \<^verbatim>\<open>wakeup\<close>; \<^term>\<open>None\<close> is the \<^verbatim>\<open>panic\<close>.\<close>

definition rpcunlock_wake :: "'w mount \<Rightarrow> (bool \<times> 'w mount) option" where
  "rpcunlock_wake m =
     (if \<not> ISSET (mt_flags m) F_SENDLOCK then None
      else Some (ISSET (mt_flags m) F_WAITSENDLOCK, rpcunlock m))"

lemma ISSET_iff: "ISSET t f \<longleftrightarrow> (\<exists>n. bit t n \<and> bit f n)"
proof -
  have "n < 32" if "bit t n" for n using bit_imp_le_length [OF that] by simp
  then show ?thesis by (auto simp: ISSET_def bit_eq_iff bit_simps)
qed

lemma ISSET_OR: "ISSET (a OR b) c \<longleftrightarrow> ISSET a c \<or> ISSET b c"
  by (auto simp: ISSET_iff bit_simps)

lemma ISSET_ANDNOT_same: "\<not> ISSET (a AND NOT c AND NOT d) c" "\<not> ISSET (a AND NOT c AND NOT d) d"
  by (auto simp: ISSET_iff bit_simps)

lemma ISSET_lock_flags: "ISSET F_SENDLOCK F_SENDLOCK" "ISSET F_WAITSENDLOCK F_WAITSENDLOCK"
  "\<not> ISSET F_WAITSENDLOCK F_SENDLOCK" "\<not> ISSET F_SENDLOCK F_WAITSENDLOCK"
  by (simp_all add: ISSET_def)

lemma rpclock_flags:
  "ISSET (mt_flags (rpclock m)) F_SENDLOCK"
  "ISSET (mt_flags (rpclock m)) F_WAITSENDLOCK = ISSET (mt_flags m) F_WAITSENDLOCK"
  by (simp_all add: rpclock_def ISSET_OR ISSET_lock_flags)

lemma rpcunlock_flags:
  "\<not> ISSET (mt_flags (rpcunlock m)) F_SENDLOCK" "\<not> ISSET (mt_flags (rpcunlock m)) F_WAITSENDLOCK"
proof -
  have f: "mt_flags (rpcunlock m) = mt_flags m AND NOT F_SENDLOCK AND NOT F_WAITSENDLOCK"
    by (simp add: rpcunlock_def)
  show "\<not> ISSET (mt_flags (rpcunlock m)) F_SENDLOCK" unfolding f by (rule ISSET_ANDNOT_same)
  show "\<not> ISSET (mt_flags (rpcunlock m)) F_WAITSENDLOCK" unfolding f by (rule ISSET_ANDNOT_same)
qed

section \<open>Threads\<close>

text \<open>
  \<open>Waking w\<close> is a thread in \<^verbatim>\<open>rpcunlock\<close> that has released the mutex, with \<^verbatim>\<open>wake\<close> equal to \<open>w\<close>.
\<close>

datatype pc = Outside | Trying | Sleeping | Holding | Waking bool

record 'w sys =
  sy_mount :: "'w mount"
  sy_pc :: "nat \<Rightarrow> pc"

definition move :: "'w sys \<Rightarrow> nat \<Rightarrow> pc \<Rightarrow> 'w mount \<Rightarrow> 'w sys" where
  "move s i c m = \<lparr>sy_mount = m, sy_pc = (sy_pc s)(i := c)\<rparr>"

definition wake_all :: "(nat \<Rightarrow> pc) \<Rightarrow> nat \<Rightarrow> pc" where
  "wake_all pcs j = (if pcs j = Sleeping then Trying else pcs j)"

text \<open>
  A thread that holds the lock works on the mount; neither it nor a thread outside touches the two
  flags of the lock.
\<close>

inductive lock_step :: "'w sys \<Rightarrow> 'w sys \<Rightarrow> bool" where
  call: "sy_pc s i = Outside \<Longrightarrow> lock_step s (move s i Trying (sy_mount s))"
| sleep: "sy_pc s i = Trying \<Longrightarrow> rpclock_try (sy_mount s) = (False, m)
    \<Longrightarrow> lock_step s (move s i Sleeping m)"
| acquire: "sy_pc s i = Trying \<Longrightarrow> rpclock_try (sy_mount s) = (True, m)
    \<Longrightarrow> lock_step s (move s i Holding m)"
| work: "ISSET (mt_flags m) F_SENDLOCK = ISSET (mt_flags (sy_mount s)) F_SENDLOCK
    \<Longrightarrow> ISSET (mt_flags m) F_WAITSENDLOCK = ISSET (mt_flags (sy_mount s)) F_WAITSENDLOCK
    \<Longrightarrow> lock_step s (s\<lparr>sy_mount := m\<rparr>)"
| unlock: "sy_pc s i = Holding \<Longrightarrow> rpcunlock_wake (sy_mount s) = Some (w, m)
    \<Longrightarrow> lock_step s (move s i (Waking w) m)"
| wakeup: "sy_pc s i = Waking True
    \<Longrightarrow> lock_step s \<lparr>sy_mount = sy_mount s, sy_pc = (wake_all (sy_pc s))(i := Outside)\<rparr>"
| leave: "sy_pc s i = Waking False \<Longrightarrow> lock_step s (move s i Outside (sy_mount s))"

inductive_cases lock_stepE: "lock_step s t"

definition lock_start :: "'w sys \<Rightarrow> bool" where
  "lock_start s \<longleftrightarrow> (\<forall>i. sy_pc s i = Outside) \<and> \<not> ISSET (mt_flags (sy_mount s)) F_SENDLOCK
     \<and> \<not> ISSET (mt_flags (sy_mount s)) F_WAITSENDLOCK"

inductive lock_reachable :: "'w sys \<Rightarrow> bool" where
  start: "lock_start s \<Longrightarrow> lock_reachable s"
| step: "lock_reachable s \<Longrightarrow> lock_step s t \<Longrightarrow> lock_reachable t"

section \<open>The invariant\<close>

text \<open>
  The flag is set exactly while one thread holds the lock; a thread sleeps only while somebody is
  bound to wake it, the holder (who will find \<^verbatim>\<open>F_WAITSENDLOCK\<close> set) or a thread on its way to
  \<^verbatim>\<open>wakeup\<close>.
\<close>

definition lock_inv :: "'w sys \<Rightarrow> bool" where
  "lock_inv s \<longleftrightarrow>
     (\<forall>i j. sy_pc s i = Holding \<longrightarrow> sy_pc s j = Holding \<longrightarrow> i = j)
   \<and> (ISSET (mt_flags (sy_mount s)) F_SENDLOCK \<longleftrightarrow> (\<exists>i. sy_pc s i = Holding))
   \<and> ((\<exists>i. sy_pc s i = Sleeping) \<longrightarrow>
        ISSET (mt_flags (sy_mount s)) F_SENDLOCK \<and> ISSET (mt_flags (sy_mount s)) F_WAITSENDLOCK
        \<or> (\<exists>i. sy_pc s i = Waking True))"

lemma lock_inv_start: "lock_start s \<Longrightarrow> lock_inv s"
  by (simp add: lock_start_def lock_inv_def)

lemma inv_call: "lock_inv s \<Longrightarrow> sy_pc s i = Outside \<Longrightarrow> lock_inv (move s i Trying (sy_mount s))"
  by (auto simp: lock_inv_def move_def) (metis pc.distinct)+

lemma inv_leave: "lock_inv s \<Longrightarrow> sy_pc s i = Waking False \<Longrightarrow> lock_inv (move s i Outside (sy_mount s))"
  by (auto simp: lock_inv_def move_def) (metis pc.distinct pc.inject)+

lemma inv_sleep:
  "lock_inv s \<Longrightarrow> sy_pc s i = Trying \<Longrightarrow> rpclock_try (sy_mount s) = (False, m)
    \<Longrightarrow> lock_inv (move s i Sleeping m)"
  by (auto simp: lock_inv_def move_def rpclock_try_def ISSET_OR ISSET_lock_flags split: if_splits)
    (metis pc.distinct)+

lemma inv_acquire:
  assumes "lock_inv s" "sy_pc s i = Trying" "rpclock_try (sy_mount s) = (True, m)"
  shows "lock_inv (move s i Holding m)"
proof -
  have m: "m = rpclock (sy_mount s)" "\<not> ISSET (mt_flags (sy_mount s)) F_SENDLOCK"
    using assms(3) by (auto simp: rpclock_try_def split: if_splits)
  then have none: "sy_pc s j \<noteq> Holding" for j using assms(1) by (auto simp: lock_inv_def)
  have wk: "\<exists>k. sy_pc s k = Waking True" if "sy_pc s j = Sleeping" for j
    using assms(1) m(2) that by (auto simp: lock_inv_def)
  show ?thesis
    using none wk assms(2) by (auto simp: lock_inv_def move_def m(1) rpclock_flags) (metis pc.distinct)+
qed

lemma inv_unlock:
  assumes "lock_inv s" "sy_pc s i = Holding" "rpcunlock_wake (sy_mount s) = Some (w, m)"
  shows "lock_inv (move s i (Waking w) m)"
proof -
  have m: "m = rpcunlock (sy_mount s)" "w = ISSET (mt_flags (sy_mount s)) F_WAITSENDLOCK"
    using assms(3) by (auto simp: rpcunlock_wake_def split: if_splits)
  have none: "sy_pc s j \<noteq> Holding" if "j \<noteq> i" for j using assms(1,2) that by (auto simp: lock_inv_def)
  have wk: "w \<or> (\<exists>k. sy_pc s k = Waking True)" if "sy_pc s j = Sleeping" for j
    using assms(1) m(2) that by (auto simp: lock_inv_def)
  show ?thesis
    using none wk assms(2) by (auto simp: lock_inv_def move_def m(1) rpcunlock_flags split: if_splits)
      (metis pc.distinct)+
qed

lemma inv_wakeup:
  "lock_inv s \<Longrightarrow> sy_pc s i = Waking True
    \<Longrightarrow> lock_inv \<lparr>sy_mount = sy_mount s, sy_pc = (wake_all (sy_pc s))(i := Outside)\<rparr>"
  by (auto simp: lock_inv_def wake_all_def split: if_splits) (metis pc.distinct)+

lemma inv_work:
  assumes "lock_inv s" "ISSET (mt_flags m) F_SENDLOCK = ISSET (mt_flags (sy_mount s)) F_SENDLOCK"
    "ISSET (mt_flags m) F_WAITSENDLOCK = ISSET (mt_flags (sy_mount s)) F_WAITSENDLOCK"
  shows "lock_inv (s\<lparr>sy_mount := m\<rparr>)"
proof -
  have "sy_pc (s\<lparr>sy_mount := m\<rparr>) = sy_pc s" "sy_mount (s\<lparr>sy_mount := m\<rparr>) = m" by simp_all
  then have "lock_inv (s\<lparr>sy_mount := m\<rparr>) = lock_inv s"
    unfolding lock_inv_def by (simp only: assms(2,3))
  then show ?thesis using assms(1) by simp
qed

lemmas inv_steps = inv_call inv_leave inv_sleep inv_acquire inv_unlock inv_wakeup inv_work

lemma lock_step_inv: "lock_step s t \<Longrightarrow> lock_inv s \<Longrightarrow> lock_inv t"
  by (erule lock_stepE) (simp_all only: inv_steps)

lemma lock_reachable_inv: "lock_reachable s \<Longrightarrow> lock_inv s"
  by (induction rule: lock_reachable.induct) (auto intro: lock_inv_start lock_step_inv)

section \<open>Serving a sleeper\<close>

text \<open>A step of the threads that are inside already: nobody comes in.\<close>

definition inside_step :: "'w sys \<Rightarrow> 'w sys \<Rightarrow> bool" where
  "inside_step s t \<longleftrightarrow> lock_step s t \<and> (\<forall>j. sy_pc s j = Outside \<longrightarrow> sy_pc t j = Outside)"

text \<open>Who is bound to wake the sleepers: a thread on its way to \<^verbatim>\<open>wakeup\<close>, or the holder when it unlocks.\<close>

lemma sleeper_has_waker:
  assumes "lock_inv s" "sy_pc s i = Sleeping"
  shows "(\<exists>k. sy_pc s k = Waking True)
    \<or> (\<exists>h m. sy_pc s h = Holding \<and> rpcunlock_wake (sy_mount s) = Some (True, m))"
proof (cases "\<exists>k. sy_pc s k = Waking True")
  case False
  then have "ISSET (mt_flags (sy_mount s)) F_SENDLOCK" "ISSET (mt_flags (sy_mount s)) F_WAITSENDLOCK"
    using assms unfolding lock_inv_def by blast+
  moreover then obtain h where "sy_pc s h = Holding" using assms(1) unfolding lock_inv_def by blast
  ultimately show ?thesis by (auto simp: rpcunlock_wake_def)
qed simp

text \<open>A sleeper with a thread on its way to \<^verbatim>\<open>wakeup\<close>, and the lock free: two steps serve it.\<close>

lemma served_after_wakeup:
  assumes "sy_pc s i = Sleeping" "sy_pc s k = Waking True" "\<not> ISSET (mt_flags (sy_mount s)) F_SENDLOCK"
  shows "\<exists>t. inside_step\<^sup>*\<^sup>* s t \<and> sy_pc t i = Holding"
proof -
  let ?s1 = "\<lparr>sy_mount = sy_mount s, sy_pc = (wake_all (sy_pc s))(k := Outside)\<rparr>"
  let ?s2 = "move ?s1 i Holding (rpclock (sy_mount s))"
  have pc: "sy_pc ?s1 i = Trying" using assms(1,2) by (auto simp: wake_all_def)
  have "lock_step s ?s1" using assms(2) by (rule lock_step.wakeup)
  then have "inside_step s ?s1" by (auto simp: inside_step_def wake_all_def)
  moreover have "lock_step ?s1 ?s2" using pc assms(3) by (intro lock_step.acquire) (simp_all add: rpclock_try_def)
  then have "inside_step ?s1 ?s2" using pc by (auto simp: inside_step_def move_def)
  moreover have "sy_pc ?s2 i = Holding" by (simp add: move_def)
  ultimately show ?thesis by (meson rtranclp.rtrancl_into_rtrancl rtranclp.rtrancl_refl)
qed

lemma sleeper_served:
  assumes "lock_inv s" "sy_pc s i = Sleeping"
  shows "\<exists>t. inside_step\<^sup>*\<^sup>* s t \<and> sy_pc t i = Holding"
proof (cases "ISSET (mt_flags (sy_mount s)) F_SENDLOCK")
  case False
  then obtain k where "sy_pc s k = Waking True" using assms by (auto simp: lock_inv_def)
  then show ?thesis using assms(2) False by (blast intro: served_after_wakeup)
next
  case True
  then obtain h where h: "sy_pc s h = Holding" using assms(1) by (auto simp: lock_inv_def)
  let ?w = "ISSET (mt_flags (sy_mount s)) F_WAITSENDLOCK"
  let ?s1 = "move s h (Waking ?w) (rpcunlock (sy_mount s))"
  have st: "lock_step s ?s1"
    using h True by (intro lock_step.unlock) (simp_all add: rpcunlock_wake_def)
  have "inside_step s ?s1" using st h by (auto simp: inside_step_def move_def)
  moreover have free: "\<not> ISSET (mt_flags (sy_mount ?s1)) F_SENDLOCK" by (simp add: move_def rpcunlock_flags)
  have sl: "sy_pc ?s1 i = Sleeping" using assms(2) h by (auto simp: move_def)
  have "lock_inv ?s1" using st assms(1) by (rule lock_step_inv)
  then obtain k where "sy_pc ?s1 k = Waking True" using free sl by (auto simp: lock_inv_def)
  from served_after_wakeup [OF sl this free] \<open>inside_step s ?s1\<close> show ?thesis
    by (meson converse_rtranclp_into_rtranclp)
qed

section \<open>Properties\<close>

text \<open>
  C13. Mutual exclusion: in every reachable state at most one thread holds the send lock, and a
  thread that holds it finds the flag set, so \<^verbatim>\<open>rpcunlock\<close> never panics.
\<close>

theorem send_lock_exclusive:
  assumes "lock_reachable s" "sy_pc s i = Holding"
  shows "(\<forall>j. sy_pc s j = Holding \<longrightarrow> j = i) \<and> rpcunlock_wake (sy_mount s) \<noteq> None"
proof -
  have "lock_inv s" using assms(1) by (rule lock_reachable_inv)
  then show ?thesis using assms(2) by (auto simp: lock_inv_def rpcunlock_wake_def)
qed

text \<open>
  C14. No wake-up is lost. In every reachable state in which a thread sleeps on the lock, either a
  thread is on its way to \<^verbatim>\<open>wakeup\<close>, or the lock is held and the holder's \<^verbatim>\<open>rpcunlock\<close> will call it. And
  without any new thread coming in, the threads inside can go on so that the sleeper gets the lock.
\<close>

theorem send_lock_no_lost_wakeup:
  assumes "lock_reachable s" "sy_pc s i = Sleeping"
  shows "((\<exists>k. sy_pc s k = Waking True)
      \<or> (\<exists>h m. sy_pc s h = Holding \<and> rpcunlock_wake (sy_mount s) = Some (True, m)))
    \<and> (\<exists>t. inside_step\<^sup>*\<^sup>* s t \<and> sy_pc t i = Holding)"
  using sleeper_has_waker sleeper_served lock_reachable_inv [OF assms(1)] assms(2) by blast

text \<open>A run for the examples: thread 0 takes the lock, and thread 1 goes to sleep on it.\<close>

definition idle_mount :: "unit mount" where
  "idle_mount = \<lparr>mt_flags = 0, mt_so = None, mt_msize = 64, mt_nfid = 0, mt_ntag = 0,
     mt_rpcbuf = [], mt_world = (), mt_live = 0\<rparr>"

definition busy_sys :: "unit sys" where
  "busy_sys = \<lparr>sy_mount = idle_mount\<lparr>mt_flags := F_SENDLOCK OR F_WAITSENDLOCK\<rparr>,
     sy_pc = (\<lambda>i. if i = 0 then Holding else if i = 1 then Sleeping else Outside)\<rparr>"

lemma busy_reachable: "lock_reachable busy_sys"
proof -
  let ?s0 = "\<lparr>sy_mount = idle_mount, sy_pc = (\<lambda>_. Outside)\<rparr>"
  let ?s1 = "move ?s0 0 Trying (sy_mount ?s0)"
  let ?m = "rpclock idle_mount"
  let ?s2 = "move ?s1 0 Holding ?m"
  let ?s3 = "move ?s2 1 Trying (sy_mount ?s2)"
  let ?s4 = "move ?s3 1 Sleeping (?m\<lparr>mt_flags := mt_flags ?m OR F_WAITSENDLOCK\<rparr>)"
  have "lock_reachable ?s0"
    by (rule lock_reachable.start) (simp add: lock_start_def idle_mount_def ISSET_def)
  then have "lock_reachable ?s1"
    by (rule lock_reachable.step) (rule lock_step.call, simp)
  then have "lock_reachable ?s2"
    by (rule lock_reachable.step)
      (rule lock_step.acquire, simp_all add: move_def rpclock_try_def idle_mount_def ISSET_def)
  then have "lock_reachable ?s3"
    by (rule lock_reachable.step) (rule lock_step.call, simp add: move_def)
  then have "lock_reachable ?s4"
    by (rule lock_reachable.step)
      (rule lock_step.sleep, simp_all add: move_def rpclock_try_def rpclock_flags)
  moreover have "?s4 = busy_sys"
    by (simp add: busy_sys_def move_def rpclock_def idle_mount_def fun_eq_iff)
  ultimately show ?thesis by simp
qed

theorem send_lock_exclusive_witness:
  "sy_pc busy_sys 0 = Holding \<and> rpcunlock_wake (sy_mount busy_sys) \<noteq> None"
proof -
  have h: "sy_pc busy_sys 0 = Holding" by (simp add: busy_sys_def)
  with send_lock_exclusive [OF busy_reachable h] show ?thesis by blast
qed

theorem send_lock_no_lost_wakeup_witness:
  "sy_pc busy_sys 1 = Sleeping \<and> (\<exists>m. rpcunlock_wake (sy_mount busy_sys) = Some (True, m))
    \<and> (\<exists>t. inside_step\<^sup>*\<^sup>* busy_sys t \<and> sy_pc t 1 = Holding)"
proof -
  have pc: "sy_pc busy_sys 1 = Sleeping" "\<nexists>k. sy_pc busy_sys k = Waking True" by (auto simp: busy_sys_def)
  from send_lock_no_lost_wakeup [OF busy_reachable pc(1)] pc show ?thesis by blast
qed

end
