(* ===== verification/RpcThreads.thy ===== *)
theory RpcThreads
  imports RpcLock Proto SocketProps
begin

text \<open>
  \<open>rpc_9p\<close> called by many threads: its phases as steps that interleave, and the proof that the send lock
  makes every interleaving equal to the calls made one after the other.
\<close>

section \<open>The phases\<close>

text \<open>
  Between \<^verbatim>\<open>rpclock\<close> and \<^verbatim>\<open>rpcunlock\<close>: the request is tagged, printed and sent; the reply is received and
  looked at.
\<close>

definition rpc_send :: "'w env \<Rightarrow> tx_call \<Rightarrow> 'w mount \<Rightarrow> (int \<times> tx_call \<times> 'w mount) option" where
  "rpc_send env tx m = do {
     let (tx, m) = (if fc_tag tx \<noteq> NOTAG
                    then (tx\<lparr>fc_tag := mt_ntag m\<rparr>, m\<lparr>mt_ntag := mt_ntag m + 1\<rparr>) else (tx, m));
     (n, buf) \<leftarrow> convS2M tx (mt_rpcbuf m) (mt_msize m) (ISSET (mt_flags m) F_DOTU);
     let m = m\<lparr>mt_rpcbuf := buf\<rparr>;
     if n = 0 then Some (EINVAL, tx, m)
     else do {
       (e, m) \<leftarrow> sendn_9p env (mt_so m) buf (unat n) m;
       Some (e, tx, m)
     }
   }"

definition rpc_receive :: "'w env \<Rightarrow> tx_call \<Rightarrow> bool \<Rightarrow> 'w mount
    \<Rightarrow> (int \<times> rx_call \<times> memory option \<times> 'w mount) option" where
  "rpc_receive env tx keep m = do {
     let dotu = ISSET (mt_flags m) F_DOTU;
     (e, rx, p, m) \<leftarrow> recvmsg_9p env (mt_so m) (unat (mt_msize m)) dotu m;
     if e \<noteq> 0 then Some (e, rx, None, m)
     else let e = reply_error tx rx p dotu in
     if e \<noteq> 0 \<or> \<not> keep then Some (e, rx, None, free_9p p m)
     else Some (e, rx, p, m)
   }"

type_synonym answer = "int \<times> rx_call \<times> memory option"

text \<open>What is done with the lock held.\<close>

definition rpc_body :: "'w env \<Rightarrow> tx_call \<Rightarrow> rx_call \<Rightarrow> bool \<Rightarrow> 'w mount \<Rightarrow> (answer \<times> 'w mount) option" where
  "rpc_body env tx rx0 keep m = do {
     (e, tx, m) \<leftarrow> rpc_send env tx m;
     if e \<noteq> 0 then Some ((e, rx0, None), m)
     else do {
       (e, rx, p, m) \<leftarrow> rpc_receive env tx keep m;
       Some ((e, rx, p), m)
     }
   }"

lemma sendn_flags: "sendn_9p env so buf n m = Some (e, m') \<Longrightarrow> mt_flags m' = mt_flags m"
  by (auto simp: sendn_9p_def split: bind_splits)

lemma rpc_9p_phases:
  "rpc_9p env tx rx0 keep m
    = map_option (\<lambda>((e, rx, p), m). (e, rx, p, rpcunlock m)) (rpc_body env tx rx0 keep (rpclock m))"
proof -
  let ?m = "rpclock m"
  obtain t m1 where t: "(if fc_tag tx \<noteq> NOTAG
      then (tx\<lparr>fc_tag := mt_ntag ?m\<rparr>, ?m\<lparr>mt_ntag := mt_ntag ?m + 1\<rparr>) else (tx, ?m)) = (t, m1)" by fastforce
  show ?thesis
  proof (cases "convS2M t (mt_rpcbuf m1) (mt_msize m1) (ISSET (mt_flags m1) F_DOTU)")
    case None
    then show ?thesis using t by (simp add: rpc_9p_def rpc_body_def rpc_send_def Let_def)
  next
    case (Some r)
    obtain n buf where r: "r = (n, buf)" by (cases r)
    show ?thesis
    proof (cases "sendn_9p env (mt_so m1) buf (unat n) (m1\<lparr>mt_rpcbuf := buf\<rparr>)")
      case None
      then show ?thesis using t Some r by (simp add: rpc_9p_def rpc_body_def rpc_send_def Let_def)
    next
      case s: (Some q)
      obtain e m2 where q: "q = (e, m2)" by (cases q)
      have f: "mt_flags m2 = mt_flags m1" using sendn_flags [of env _ _ _ _ e m2] s q by fastforce
      show ?thesis
      proof (cases "recvmsg_9p env (mt_so m2) (unat (mt_msize m2)) (ISSET (mt_flags m1) F_DOTU) m2")
        case None
        then show ?thesis using t Some r s q f by (simp add: rpc_9p_def rpc_body_def rpc_send_def rpc_receive_def Let_def)
      next
        case v: (Some v)
        obtain e2 rx p m3 where "v = (e2, rx, p, m3)" by (cases v)
        then show ?thesis using t Some r s q f v
          by (simp add: rpc_9p_def rpc_body_def rpc_send_def rpc_receive_def Let_def)
      qed
    qed
  qed
qed

section \<open>What a call does not look at\<close>

text \<open>A change of the mount that the phases neither see nor undo.\<close>

locale aside =
  fixes f :: "'w mount \<Rightarrow> 'w mount"
  assumes so [simp]: "mt_so (f m) = mt_so m"
    and msize [simp]: "mt_msize (f m) = mt_msize m"
    and rpcbuf [simp]: "mt_rpcbuf (f m) = mt_rpcbuf m"
    and ntag [simp]: "mt_ntag (f m) = mt_ntag m"
    and same_world [simp]: "mt_world (f m) = mt_world m"
    and dotu [simp]: "ISSET (mt_flags (f m)) F_DOTU = ISSET (mt_flags m) F_DOTU"
    and set_ntag: "f (m\<lparr>mt_ntag := t\<rparr>) = (f m)\<lparr>mt_ntag := t\<rparr>"
    and set_rpcbuf: "f (m\<lparr>mt_rpcbuf := b\<rparr>) = (f m)\<lparr>mt_rpcbuf := b\<rparr>"
    and put_world: "f (m\<lparr>mt_world := w\<rparr>) = (f m)\<lparr>mt_world := w\<rparr>"
    and add_live: "f (m\<lparr>mt_live := mt_live m + k\<rparr>) = (f m)\<lparr>mt_live := mt_live (f m) + k\<rparr>"
begin

lemma free_aside: "free_9p p (f m) = f (free_9p p m)"
  using add_live [of m "-1"] by (simp add: free_9p_def)

lemma malloc_aside: "malloc_9p env n (f m) = map_prod id f (malloc_9p env n m)"
  using add_live [of "m\<lparr>mt_world := w\<rparr>" 1 for w]
  by (auto simp: malloc_9p_def put_world split: prod.split)

lemma sendn_aside: "sendn_9p env so buf n (f m) = map_option (map_prod id f) (sendn_9p env so buf n m)"
  by (auto simp: sendn_9p_def put_world split: bind_splits)

lemma recvn_aside:
  "recvn_9p env so buf b n (f m) = map_option (map_prod id (map_prod id f)) (recvn_9p env so buf b n m)"
  by (auto simp: recvn_9p_def put_world split: bind_splits)

lemma recvmsg_aside:
  "recvmsg_9p env so n dotu (f m) = map_option (map_prod id (map_prod id (map_prod id f))) (recvmsg_9p env so n dotu m)"
proof (cases "recvn_9p env so (replicate 8 0) 0 BIT32SZ m")
  case None
  then show ?thesis by (simp add: recvmsg_9p_def recvn_aside)
next
  case (Some r)
  obtain e b m1 where r: "r = (e, b, m1)" by (cases r)
  obtain q m2 where q: "malloc_9p env (unat (GBIT32 b)) m1 = (q, m2)" by fastforce
  show ?thesis
  proof (cases q)
    case None
    then show ?thesis using Some r q by (simp add: recvmsg_9p_def recvn_aside malloc_aside free_aside Let_def)
  next
    case p: (Some p)
    show ?thesis
    proof (cases "wrn p 0 (take BIT32SZ b)")
      case None
      then show ?thesis using Some r q p by (simp add: recvmsg_9p_def recvn_aside malloc_aside free_aside Let_def del: wrn_None_iff)
    next
      case w: (Some p1)
      show ?thesis using Some r q p w
        by (cases "recvn_9p env so p1 BIT32SZ (unat (GBIT32 b) - BIT32SZ) m2")
          (auto simp: recvmsg_9p_def recvn_aside malloc_aside free_aside Let_def split: bind_splits)
    qed
  qed
qed

lemma rpc_send_aside: "rpc_send env tx (f m) = map_option (map_prod id (map_prod id f)) (rpc_send env tx m)"
  unfolding rpc_send_def Let_def
  by (auto simp: set_ntag [symmetric] set_rpcbuf [symmetric] sendn_aside split: bind_splits prod.splits if_splits)

lemma rpc_receive_aside:
  "rpc_receive env tx keep (f m) = map_option (map_prod id (map_prod id (map_prod id f))) (rpc_receive env tx keep m)"
  unfolding rpc_receive_def Let_def
  by (auto simp: recvmsg_aside free_aside split: bind_splits prod.splits if_splits)

lemma rpc_body_aside: "rpc_body env tx rx0 keep (f m) = map_option (map_prod id f) (rpc_body env tx rx0 keep m)"
  unfolding rpc_body_def rpc_send_aside
  by (auto simp: rpc_receive_aside split: bind_splits prod.splits if_splits)

end

text \<open>Such are the flag of the waiting threads, the fid counter and the number of blocks.\<close>

definition no_wait :: "'w mount \<Rightarrow> 'w mount" where
  "no_wait m = m\<lparr>mt_flags := mt_flags m AND NOT F_WAITSENDLOCK\<rparr>"

definition next_fid :: "'w mount \<Rightarrow> 'w mount" where
  "next_fid m = snd (nextfid m)"

interpretation waiting: aside no_wait
  by unfold_locales (simp_all add: no_wait_def ISSET_def and.assoc)

text \<open>The last two leave the flags alone.\<close>

locale quiet = aside +
  assumes flags [simp]: "mt_flags (f m) = mt_flags m"
    and set_flags: "f (m\<lparr>mt_flags := x\<rparr>) = (f m)\<lparr>mt_flags := x\<rparr>"
begin

lemma quiet_locks: "rpclock (f m) = f (rpclock m)" "no_wait (f m) = f (no_wait m)"
  by (simp_all add: rpclock_def no_wait_def set_flags)

end

interpretation fids: quiet next_fid
  by unfold_locales (simp_all add: next_fid_def nextfid_def)

interpretation freeing: quiet "free_9p p" for p
  by unfold_locales (auto simp: free_9p_def)

section \<open>Threads\<close>

text \<open>
  A call is what \<^verbatim>\<open>rpc_9p\<close> is given: the request, the contents of \<^verbatim>\<open>rx\<close> and whether there is a
  \<^verbatim>\<open>freep\<close>. \<open>Leaving w\<close> has released the lock, with \<^verbatim>\<open>wake\<close> equal to \<open>w\<close>.
\<close>

type_synonym call = "tx_call \<times> rx_call \<times> bool"

datatype rpc_pc = Idle | Wants call | Asleep call | Has call | Sent call tx_call | Replied call answer | Leaving bool

text \<open>The log has the calls in the order in which they released the lock, and what else was done to the mount.\<close>

datatype rpc_event = Called nat call answer | NextFid | Freed "memory option"

record 'w rpcs =
  rs_mount :: "'w mount"
  rs_pc :: "nat \<Rightarrow> rpc_pc"
  rs_log :: "rpc_event list"

definition goto :: "'w rpcs \<Rightarrow> nat \<Rightarrow> rpc_pc \<Rightarrow> 'w mount \<Rightarrow> 'w rpcs" where
  "goto s i c m = s\<lparr>rs_mount := m, rs_pc := (rs_pc s)(i := c)\<rparr>"

fun roused :: "rpc_pc \<Rightarrow> rpc_pc" where
  "roused (Asleep c) = Wants c"
| "roused c = c"

text \<open>
  Threads that are not inside may also take the next fid, as the operations of \<^verbatim>\<open>proto.c\<close> do, and free the
  blocks they got.
\<close>

inductive rpc_step :: "'w env \<Rightarrow> 'w rpcs \<Rightarrow> 'w rpcs \<Rightarrow> bool" for env where
  call: "rs_pc s i = Idle \<Longrightarrow> rpc_step env s (goto s i (Wants c) (rs_mount s))"
| sleep: "rs_pc s i = Wants c \<Longrightarrow> rpclock_try (rs_mount s) = (False, m) \<Longrightarrow> rpc_step env s (goto s i (Asleep c) m)"
| acquire: "rs_pc s i = Wants c \<Longrightarrow> rpclock_try (rs_mount s) = (True, m) \<Longrightarrow> rpc_step env s (goto s i (Has c) m)"
| send: "rs_pc s i = Has (tx, rx0, keep) \<Longrightarrow> rpc_send env tx (rs_mount s) = Some (e, tx', m)
    \<Longrightarrow> rpc_step env s (goto s i (if e = 0 then Sent (tx, rx0, keep) tx' else Replied (tx, rx0, keep) (e, rx0, None)) m)"
| receive: "rs_pc s i = Sent (tx, rx0, keep) tx' \<Longrightarrow> rpc_receive env tx' keep (rs_mount s) = Some (e, rx, p, m)
    \<Longrightarrow> rpc_step env s (goto s i (Replied (tx, rx0, keep) (e, rx, p)) m)"
| unlock: "rs_pc s i = Replied c a \<Longrightarrow> rpcunlock_wake (rs_mount s) = Some (w, m)
    \<Longrightarrow> rpc_step env s ((goto s i (Leaving w) m)\<lparr>rs_log := rs_log s @ [Called i c a]\<rparr>)"
| wakeup: "rs_pc s i = Leaving True
    \<Longrightarrow> rpc_step env s (s\<lparr>rs_pc := (\<lambda>j. roused (rs_pc s j))(i := Idle)\<rparr>)"
| leave: "rs_pc s i = Leaving False \<Longrightarrow> rpc_step env s (goto s i Idle (rs_mount s))"
| fid: "rpc_step env s (s\<lparr>rs_mount := next_fid (rs_mount s), rs_log := rs_log s @ [NextFid]\<rparr>)"
| free: "rpc_step env s (s\<lparr>rs_mount := free_9p p (rs_mount s), rs_log := rs_log s @ [Freed p]\<rparr>)"

inductive_cases rpc_stepE: "rpc_step env s t"

definition rpc_start :: "'w mount \<Rightarrow> 'w rpcs" where
  "rpc_start m = \<lparr>rs_mount = m, rs_pc = (\<lambda>_. Idle), rs_log = []\<rparr>"

definition lock_free :: "'w mount \<Rightarrow> bool" where
  "lock_free m \<longleftrightarrow> \<not> ISSET (mt_flags m) F_SENDLOCK \<and> \<not> ISSET (mt_flags m) F_WAITSENDLOCK"

text \<open>The calls of a log one after the other, each with the answer it got.\<close>

fun replay :: "'w env \<Rightarrow> rpc_event list \<Rightarrow> 'w mount \<Rightarrow> 'w mount option" where
  "replay env [] m = Some m"
| "replay env (Called i (tx, rx0, keep) a # es) m =
     (case rpc_9p env tx rx0 keep m of
        Some (e, rx, p, m) \<Rightarrow> if (e, rx, p) = a then replay env es m else None
      | None \<Rightarrow> None)"
| "replay env (NextFid # es) m = replay env es (next_fid m)"
| "replay env (Freed p # es) m = replay env es (free_9p p m)"

lemma replay_append: "replay env (es @ es') m = Option.bind (replay env es m) (replay env es')"
  by (induction env es m rule: replay.induct) (auto split: option.split)

section \<open>The lock\<close>

text \<open>Forgetting what the calls are about, the threads are those of the send lock.\<close>

fun lock_pc :: "rpc_pc \<Rightarrow> pc" where
  "lock_pc Idle = Outside"
| "lock_pc (Wants c) = Trying"
| "lock_pc (Asleep c) = Sleeping"
| "lock_pc (Leaving w) = Waking w"
| "lock_pc _ = Holding"

definition lock_view :: "'w rpcs \<Rightarrow> 'w sys" where
  "lock_view s = \<lparr>sy_mount = rs_mount s, sy_pc = (\<lambda>i. lock_pc (rs_pc s i))\<rparr>"

lemma lock_view_goto: "lock_view (goto s i c m) = move (lock_view s) i (lock_pc c) m"
  by (simp add: lock_view_def goto_def move_def fun_eq_iff)

lemma rpc_send_flags:
  assumes "rpc_send env tx m = Some (e, tx', m')"
  shows "mt_flags m' = mt_flags m"
proof -
  obtain t m1 where t: "(if fc_tag tx \<noteq> NOTAG
      then (tx\<lparr>fc_tag := mt_ntag m\<rparr>, m\<lparr>mt_ntag := mt_ntag m + 1\<rparr>) else (tx, m)) = (t, m1)" by fastforce
  then have "mt_flags m1 = mt_flags m" by (auto split: if_splits)
  then show ?thesis using assms t by (auto simp: rpc_send_def Let_def dest!: sendn_flags split: bind_splits if_splits)
qed

lemma recvn_flags: "recvn_9p env so buf b n m = Some (e, buf', m') \<Longrightarrow> mt_flags m' = mt_flags m"
  by (auto simp: recvn_9p_def split: bind_splits)

lemma malloc_flags: "malloc_9p env n m = (q, m') \<Longrightarrow> mt_flags m' = mt_flags m"
  by (auto simp: malloc_9p_def split: prod.splits if_splits)

lemma recvmsg_flags:
  assumes "recvmsg_9p env so n dotu m = Some (e, rx, p, m')"
  shows "mt_flags m' = mt_flags m"
proof -
  obtain e1 b m1 where r: "recvn_9p env so (replicate 8 0) 0 BIT32SZ m = Some (e1, b, m1)"
    using assms by (auto simp: recvmsg_9p_def Let_def split: bind_splits)
  obtain q m2 where q: "malloc_9p env (unat (GBIT32 b)) m1 = (q, m2)" by fastforce
  have f: "mt_flags m1 = mt_flags m" "mt_flags m2 = mt_flags m" using recvn_flags [OF r] malloc_flags [OF q] by simp_all
  show ?thesis using assms r q f
    by (auto simp: recvmsg_9p_def Let_def dest!: recvn_flags split: bind_splits if_splits option.splits)
qed

lemma rpc_receive_flags: "rpc_receive env tx keep m = Some (e, rx, p, m') \<Longrightarrow> mt_flags m' = mt_flags m"
  by (auto simp: rpc_receive_def Let_def dest!: recvmsg_flags split: bind_splits if_splits)

lemma lock_view_sel [simp]: "sy_mount (lock_view s) = rs_mount s" "sy_pc (lock_view s) i = lock_pc (rs_pc s i)"
  "lock_view (s\<lparr>rs_log := l\<rparr>) = lock_view s" "lock_view (s\<lparr>rs_mount := m\<rparr>) = (lock_view s)\<lparr>sy_mount := m\<rparr>"
  by (simp_all add: lock_view_def)

lemma holding_stays:
  assumes "lock_pc (rs_pc s i) = Holding" "lock_pc c = Holding" "mt_flags m = mt_flags (rs_mount s)"
  shows "lock_step (lock_view s) (lock_view (goto s i c m))"
proof -
  have "lock_view (goto s i c m) = (lock_view s)\<lparr>sy_mount := m\<rparr>"
    using assms(1,2) by (simp add: lock_view_def goto_def fun_eq_iff)
  then show ?thesis using assms(3) by (simp add: lock_step.work)
qed

lemma roused_pc: "lock_pc (roused c) = (if lock_pc c = Sleeping then Trying else lock_pc c)"
  by (cases c) simp_all

lemma rpc_step_lock: "rpc_step env s t \<Longrightarrow> lock_step (lock_view s) (lock_view t)"
proof (induction rule: rpc_step.induct)
  case (call s i c)
  then show ?case using lock_step.call [of "lock_view s" i] by (simp add: lock_view_goto)
next
  case (leave s i)
  then show ?case using lock_step.leave [of "lock_view s" i] by (simp add: lock_view_goto)
next
  case (send s i tx rx0 keep e tx' m)
  then show ?case using rpc_send_flags [OF send(2)] by (intro holding_stays) simp_all
next
  case (receive s i tx rx0 keep tx' e rx p m)
  then show ?case using rpc_receive_flags [OF receive(2)] by (intro holding_stays) simp_all
next
  case (wakeup s i)
  have "lock_view (s\<lparr>rs_pc := (\<lambda>j. roused (rs_pc s j))(i := Idle)\<rparr>)
      = \<lparr>sy_mount = sy_mount (lock_view s), sy_pc = (wake_all (sy_pc (lock_view s)))(i := Outside)\<rparr>"
    by (simp add: lock_view_def fun_eq_iff wake_all_def roused_pc)
  then show ?case using lock_step.wakeup [of "lock_view s" i] wakeup by simp
qed (auto simp: lock_view_goto intro: lock_step.intros)

inductive rpc_reachable :: "'w env \<Rightarrow> 'w mount \<Rightarrow> 'w rpcs \<Rightarrow> bool" for env m0 where
  start: "lock_free m0 \<Longrightarrow> rpc_reachable env m0 (rpc_start m0)"
| step: "rpc_reachable env m0 s \<Longrightarrow> rpc_step env s t \<Longrightarrow> rpc_reachable env m0 t"

lemma rpc_lock_inv: "rpc_reachable env m0 s \<Longrightarrow> lock_inv (lock_view s)"
proof (induction rule: rpc_reachable.induct)
  case start
  then show ?case by (intro lock_inv_start) (simp add: lock_start_def lock_free_def rpc_start_def)
next
  case (step s t)
  then show ?case using rpc_step_lock lock_step_inv by blast
qed

section \<open>One call after the other\<close>

text \<open>
  The mount that a thread in the middle of a call sees, when the calls of the log have been made one after
  the other and led to \<open>m\<close>.
\<close>

fun phase :: "'w env \<Rightarrow> 'w mount \<Rightarrow> rpc_pc \<Rightarrow> 'w mount option" where
  "phase env m (Has c) = Some (rpclock m)"
| "phase env m (Sent (tx, rx0, keep) tx') =
     (case rpc_send env tx (rpclock m) of Some (e, t, m) \<Rightarrow> if e = 0 \<and> t = tx' then Some m else None | None \<Rightarrow> None)"
| "phase env m (Replied (tx, rx0, keep) a) =
     (case rpc_body env tx rx0 keep (rpclock m) of Some (b, m) \<Rightarrow> if b = a then Some m else None | None \<Rightarrow> None)"
| "phase env m c = None"

definition serial :: "'w env \<Rightarrow> 'w mount \<Rightarrow> 'w rpcs \<Rightarrow> bool" where
  "serial env m0 s \<longleftrightarrow> (\<exists>m. replay env (rs_log s) m0 = Some m \<and> lock_free m
     \<and> (\<forall>i. lock_pc (rs_pc s i) = Holding \<longrightarrow> phase env m (rs_pc s i) = Some (no_wait (rs_mount s)))
     \<and> ((\<forall>i. lock_pc (rs_pc s i) \<noteq> Holding) \<longrightarrow> rs_mount s = m))"

lemma serialI:
  assumes "replay env (rs_log s) m0 = Some m" "lock_free m"
    and "\<And>i. lock_pc (rs_pc s i) = Holding \<Longrightarrow> phase env m (rs_pc s i) = Some (no_wait (rs_mount s))"
    and "\<forall>i. lock_pc (rs_pc s i) \<noteq> Holding \<Longrightarrow> rs_mount s = m"
  shows "serial env m0 s"
  using assms unfolding serial_def by blast

lemma serialE:
  assumes "serial env m0 s"
  obtains m where "replay env (rs_log s) m0 = Some m" "lock_free m"
    "\<And>i. lock_pc (rs_pc s i) = Holding \<Longrightarrow> phase env m (rs_pc s i) = Some (no_wait (rs_mount s))"
    "(\<And>i. lock_pc (rs_pc s i) \<noteq> Holding) \<Longrightarrow> rs_mount s = m"
  using assms unfolding serial_def by blast

lemma ISSET_ANDNOT_id: "\<not> ISSET x f \<Longrightarrow> x AND NOT f = x"
  by (rule bit_word_eqI) (auto simp: ISSET_iff bit_simps)

lemma no_wait_flags: "no_wait (m\<lparr>mt_flags := mt_flags m OR F_WAITSENDLOCK\<rparr>) = no_wait m"
  by (simp add: no_wait_def and.commute bit.conj_disj_distrib)

lemma no_wait_rpclock: "lock_free m \<Longrightarrow> no_wait (rpclock m) = rpclock m"
proof -
  assume "lock_free m"
  then have "mt_flags (rpclock m) AND NOT F_WAITSENDLOCK = mt_flags (rpclock m)"
    by (intro ISSET_ANDNOT_id) (simp add: lock_free_def rpclock_flags)
  then show ?thesis unfolding no_wait_def by simp
qed

lemma rpcunlock_no_wait: "rpcunlock (no_wait m) = rpcunlock m"
  by (simp add: rpcunlock_def no_wait_def and.assoc)

lemma lock_free_rpcunlock: "lock_free (rpcunlock m)"
  by (simp add: lock_free_def rpcunlock_flags)

text \<open>Each kind of step keeps this.\<close>

lemma others_stay:
  assumes "lock_pc (rs_pc s i) \<noteq> Holding" "lock_pc c \<noteq> Holding" "no_wait m = no_wait (rs_mount s)"
    and "(\<And>j. lock_pc (rs_pc s j) \<noteq> Holding) \<Longrightarrow> m = rs_mount s"
    and "serial env m0 s"
  shows "serial env m0 (goto s i c m)"
proof (rule serialE [OF assms(5)])
  fix m' assume h: "replay env (rs_log s) m0 = Some m'" "lock_free m'"
    "\<And>j. lock_pc (rs_pc s j) = Holding \<Longrightarrow> phase env m' (rs_pc s j) = Some (no_wait (rs_mount s))"
    "(\<And>j. lock_pc (rs_pc s j) \<noteq> Holding) \<Longrightarrow> rs_mount s = m'"
  have pc: "lock_pc (rs_pc (goto s i c m) j) = Holding \<Longrightarrow> rs_pc (goto s i c m) j = rs_pc s j" for j
    using assms(2) by (auto simp: goto_def split: if_splits)
  have none: "lock_pc (rs_pc s j) \<noteq> Holding" if "\<forall>k. lock_pc (rs_pc (goto s i c m) k) \<noteq> Holding" for j
    using spec [OF that, of j] assms(1) by (auto simp: goto_def split: if_splits)
  show ?thesis
  proof (rule serialI)
    show "replay env (rs_log (goto s i c m)) m0 = Some m'" "lock_free m'" using h(1,2) by (simp_all add: goto_def)
    show "phase env m' (rs_pc (goto s i c m) j) = Some (no_wait (rs_mount (goto s i c m)))"
      if "lock_pc (rs_pc (goto s i c m) j) = Holding" for j
      using pc [OF that] h(3) [of j] that assms(3) by (simp add: goto_def)
    show "rs_mount (goto s i c m) = m'" if "\<forall>k. lock_pc (rs_pc (goto s i c m) k) \<noteq> Holding"
    proof -
      have "lock_pc (rs_pc s j) \<noteq> Holding" for j by (rule none [OF that])
      then show ?thesis using assms(4) h(4) by (simp add: goto_def)
    qed
  qed
qed

text \<open>A step of the thread that holds the lock.\<close>

lemma holder_step:
  assumes "lock_inv (lock_view s)" "lock_pc (rs_pc s i) = Holding" "lock_pc c = Holding"
    and "\<And>m'. lock_free m' \<Longrightarrow> phase env m' (rs_pc s i) = Some (no_wait (rs_mount s)) \<Longrightarrow> phase env m' c = Some (no_wait m)"
    and "serial env m0 s"
  shows "serial env m0 (goto s i c m)"
proof (rule serialE [OF assms(5)])
  fix m' assume h: "replay env (rs_log s) m0 = Some m'" "lock_free m'"
    "\<And>j. lock_pc (rs_pc s j) = Holding \<Longrightarrow> phase env m' (rs_pc s j) = Some (no_wait (rs_mount s))"
  have only: "j = i" if "lock_pc (rs_pc s j) = Holding" for j
    using assms(1,2) that unfolding lock_inv_def by simp
  show ?thesis
  proof (rule serialI)
    show "replay env (rs_log (goto s i c m)) m0 = Some m'" "lock_free m'" using h(1,2) by (simp_all add: goto_def)
    show "phase env m' (rs_pc (goto s i c m) j) = Some (no_wait (rs_mount (goto s i c m)))"
      if "lock_pc (rs_pc (goto s i c m) j) = Holding" for j
    proof -
      have "j = i" using only [of j] that by (auto simp: goto_def split: if_splits)
      then show ?thesis using assms(4) [OF h(2) h(3) [OF assms(2)]] by (simp add: goto_def)
    qed
    show "rs_mount (goto s i c m) = m'" if "\<forall>k. lock_pc (rs_pc (goto s i c m) k) \<noteq> Holding"
      using spec [OF that, of i] assms(3) by (simp add: goto_def)
  qed
qed

text \<open>A quiet change, whoever makes it.\<close>

context quiet
begin

lemma phase_quiet: "phase env (f m) c = map_option f (phase env m c)"
  by (induction env m c rule: phase.induct)
    (auto simp: quiet_locks rpc_send_aside rpc_body_aside split: option.split prod.split)

lemma serial_quiet:
  assumes "serial env m0 s" "\<And>m. replay env [ev] m = Some (f m)"
  shows "serial env m0 (s\<lparr>rs_mount := f (rs_mount s), rs_log := rs_log s @ [ev]\<rparr>)"
proof (rule serialE [OF assms(1)])
  fix m assume h: "replay env (rs_log s) m0 = Some m" "lock_free m"
    "\<And>j. lock_pc (rs_pc s j) = Holding \<Longrightarrow> phase env m (rs_pc s j) = Some (no_wait (rs_mount s))"
    "(\<And>j. lock_pc (rs_pc s j) \<noteq> Holding) \<Longrightarrow> rs_mount s = m"
  show ?thesis
    by (rule serialI [of _ _ _ "f m"])
      (use h assms(2) in \<open>simp_all add: replay_append lock_free_def phase_quiet quiet_locks\<close>)
qed

end

lemma serial_acquire:
  assumes "lock_inv (lock_view s)" "rpclock_try (rs_mount s) = (True, m)" "serial env m0 s"
  shows "serial env m0 (goto s i (Has c) m)"
proof (rule serialE [OF assms(3)])
  fix m' assume h: "replay env (rs_log s) m0 = Some m'" "lock_free m'"
    "(\<And>j. lock_pc (rs_pc s j) \<noteq> Holding) \<Longrightarrow> rs_mount s = m'"
  have free: "\<not> ISSET (mt_flags (rs_mount s)) F_SENDLOCK" "m = rpclock (rs_mount s)"
    using assms(2) by (auto simp: rpclock_try_def split: if_splits)
  then have none: "lock_pc (rs_pc s j) \<noteq> Holding" for j using assms(1) by (auto simp: lock_inv_def)
  then have m: "m = rpclock m'" using free(2) h(3) by simp
  have "\<exists>j. lock_pc (rs_pc (goto s i (Has c) m) j) = Holding" by (intro exI [of _ i]) (simp add: goto_def)
  then show ?thesis
    by (intro serialI [of _ _ _ m']) (use h(1,2) none m in \<open>auto simp: goto_def no_wait_rpclock split: if_splits\<close>)
qed

lemma serial_unlock:
  assumes "lock_inv (lock_view s)" "rs_pc s i = Replied c a" "rpcunlock_wake (rs_mount s) = Some (w, m)" "serial env m0 s"
  shows "serial env m0 ((goto s i (Leaving w) m)\<lparr>rs_log := rs_log s @ [Called i c a]\<rparr>)"
proof (rule serialE [OF assms(4)])
  fix m' assume h: "replay env (rs_log s) m0 = Some m'"
    "\<And>j. lock_pc (rs_pc s j) = Holding \<Longrightarrow> phase env m' (rs_pc s j) = Some (no_wait (rs_mount s))"
  obtain tx rx0 keep where c: "c = (tx, rx0, keep)" by (cases c)
  obtain e rx p where a: "a = (e, rx, p)" by (cases a)
  have m: "m = rpcunlock (rs_mount s)" using assms(3) by (auto simp: rpcunlock_wake_def split: if_splits)
  have "phase env m' (Replied c a) = Some (no_wait (rs_mount s))" using h(2) [of i] assms(2) by simp
  then have "rpc_body env tx rx0 keep (rpclock m') = Some (a, no_wait (rs_mount s))"
    by (auto simp: c split: option.splits if_splits)
  then have r: "rpc_9p env tx rx0 keep m' = Some (e, rx, p, m)" by (simp add: rpc_9p_phases a rpcunlock_no_wait m)
  have only: "lock_pc (rs_pc s j) \<noteq> Holding" if "j \<noteq> i" for j
    using assms(1,2) that unfolding lock_inv_def by (metis lock_pc.simps(7) lock_view_sel(2))
  show ?thesis
    by (rule serialI [of _ _ _ m])
      (use h(1) r only in \<open>auto simp: goto_def replay_append c a m lock_free_rpcunlock split: if_splits\<close>)
qed

lemma serial_wakeup:
  assumes "rs_pc s i = Leaving True" "serial env m0 s"
  shows "serial env m0 (s\<lparr>rs_pc := (\<lambda>j. roused (rs_pc s j))(i := Idle)\<rparr>)"
proof (rule serialE [OF assms(2)])
  fix m assume h: "replay env (rs_log s) m0 = Some m" "lock_free m"
    "\<And>j. lock_pc (rs_pc s j) = Holding \<Longrightarrow> phase env m (rs_pc s j) = Some (no_wait (rs_mount s))"
    "(\<And>j. lock_pc (rs_pc s j) \<noteq> Holding) \<Longrightarrow> rs_mount s = m"
  have same: "lock_pc (roused d) = Holding \<longleftrightarrow> lock_pc d = Holding" "lock_pc d = Holding \<Longrightarrow> roused d = d" for d
    by (cases d; simp)+
  have i: "lock_pc (rs_pc s i) \<noteq> Holding" using assms(1) by simp
  let ?pc = "(\<lambda>j. roused (rs_pc s j))(i := Idle)"
  have pc: "lock_pc (?pc j) = Holding \<longleftrightarrow> lock_pc (rs_pc s j) = Holding" for j
    using i same(1) by simp
  show ?thesis
  proof (rule serialI [of _ _ _ m])
    show "phase env m (rs_pc (s\<lparr>rs_pc := ?pc\<rparr>) j) = Some (no_wait (rs_mount (s\<lparr>rs_pc := ?pc\<rparr>)))"
      if "lock_pc (rs_pc (s\<lparr>rs_pc := ?pc\<rparr>) j) = Holding" for j
    proof -
      have "lock_pc (rs_pc s j) = Holding" using that pc [of j] by simp
      moreover then have "?pc j = rs_pc s j" using i same(2) by auto
      ultimately show ?thesis using h(3) by simp
    qed
    show "rs_mount (s\<lparr>rs_pc := ?pc\<rparr>) = m" if "\<forall>j. lock_pc (rs_pc (s\<lparr>rs_pc := ?pc\<rparr>) j) \<noteq> Holding"
    proof -
      have "lock_pc (rs_pc s j) \<noteq> Holding" for j using spec [OF that, of j] pc [of j] by simp
      then show ?thesis using h(4) by simp
    qed
  qed (use h(1,2) in simp_all)
qed

lemma serial_step: "rpc_step env s t \<Longrightarrow> lock_inv (lock_view s) \<Longrightarrow> serial env m0 s \<Longrightarrow> serial env m0 t"
proof (induction rule: rpc_step.induct)
  case (sleep s i c m)
  have m: "ISSET (mt_flags (rs_mount s)) F_SENDLOCK" "no_wait m = no_wait (rs_mount s)"
    using sleep(2) no_wait_flags by (auto simp: rpclock_try_def split: if_splits)
  then obtain j where "lock_pc (rs_pc s j) = Holding" using sleep(3) by (auto simp: lock_inv_def)
  then show ?case using sleep(1,4) m(2) by (intro others_stay) auto
next
  case (send s i tx rx0 keep e tx' m)
  have "rpc_send env tx (no_wait (rs_mount s)) = Some (e, tx', no_wait m)"
    using send(2) by (simp add: waiting.rpc_send_aside)
  then show ?case using send(1,3,4) by (intro holder_step) (auto simp: rpc_body_def)
next
  case (receive s i tx rx0 keep tx' e rx p m)
  have "rpc_receive env tx' keep (no_wait (rs_mount s)) = Some (e, rx, p, no_wait m)"
    using receive(2) by (simp add: waiting.rpc_receive_aside)
  then show ?case using receive(1,3,4)
    by (intro holder_step) (auto simp: rpc_body_def split: option.splits if_splits)
next
  case fid
  then show ?case by (intro fids.serial_quiet) simp_all
next
  case (free s p)
  then show ?case by (intro freeing.serial_quiet) simp_all
qed (auto intro: others_stay serial_acquire serial_unlock serial_wakeup)

lemma rpc_serial: "rpc_reachable env m0 s \<Longrightarrow> serial env m0 s"
proof (induction rule: rpc_reachable.induct)
  case start
  then show ?case by (intro serialI) (simp_all add: rpc_start_def)
next
  case (step s t)
  then show ?case using serial_step rpc_lock_inv by blast
qed

section \<open>Whole calls\<close>

lemma goto_sel [simp]: "rs_mount (goto s i c m) = m" "rs_pc (goto s i c m) i = c" "rs_log (goto s i c m) = rs_log s"
  "goto (goto s i c m) i c' m' = goto s i c' m'"
  by (simp_all add: goto_def)

text \<open>A thread that finds the lock free can make its call, and nobody else need do anything.\<close>

lemma whole_call:
  assumes "rpc_reachable env m0 s" "rs_pc s i = Idle" "lock_free (rs_mount s)"
    and "rpc_9p env tx rx0 keep (rs_mount s) = Some (e, rx, p, m')"
  shows "rpc_reachable env m0 (s\<lparr>rs_mount := m', rs_log := rs_log s @ [Called i (tx, rx0, keep) (e, rx, p)]\<rparr>)"
proof -
  let ?c = "(tx, rx0, keep)" and ?M = "rs_mount s"
  have "rpc_reachable env m0 (goto s i (Wants ?c) ?M)"
    using rpc_reachable.step [OF assms(1) rpc_step.call [OF assms(2)]] .
  from rpc_reachable.step [OF this rpc_step.acquire [of _ i ?c "rpclock ?M"]] assms(3)
  have 2: "rpc_reachable env m0 (goto s i (Has ?c) (rpclock ?M))" by (simp add: rpclock_try_def lock_free_def)
  obtain m1 where body: "rpc_body env tx rx0 keep (rpclock ?M) = Some ((e, rx, p), m1)" "m' = rpcunlock m1"
    using assms(4) by (auto simp: rpc_9p_phases)
  then obtain e1 tx' m2 where snd: "rpc_send env tx (rpclock ?M) = Some (e1, tx', m2)"
    by (auto simp: rpc_body_def split: bind_splits)
  from rpc_reachable.step [OF 2 rpc_step.send [of _ i tx rx0 keep env e1 tx' m2]] snd
  have 3: "rpc_reachable env m0 (goto s i (if e1 = 0 then Sent ?c tx' else Replied ?c (e1, rx0, None)) m2)" by simp
  have "rpc_reachable env m0 (goto s i (Replied ?c (e, rx, p)) m1) \<and> mt_flags m1 = mt_flags (rpclock ?M)"
  proof (cases "e1 = 0")
    case False
    then show ?thesis using 3 body(1) snd rpc_send_flags [OF snd] by (simp add: rpc_body_def)
  next
    case True
    then have r: "rpc_receive env tx' keep m2 = Some (e, rx, p, m1)" using body(1) snd
      by (auto simp: rpc_body_def split: bind_splits)
    from rpc_reachable.step [OF 3 rpc_step.receive [of _ i tx rx0 keep tx' env e rx p m1]] True r
    show ?thesis using rpc_send_flags [OF snd] rpc_receive_flags [OF r] by simp
  qed
  then have 4: "rpc_reachable env m0 (goto s i (Replied ?c (e, rx, p)) m1)" "rpcunlock_wake m1 = Some (False, m')"
    using assms(3) by (simp_all add: rpcunlock_wake_def rpclock_flags lock_free_def body(2))
  from rpc_reachable.step [OF 4(1) rpc_step.unlock [of _ i ?c "(e, rx, p)" False m']] 4(2)
  have "rpc_reachable env m0 (goto s i (Leaving False) m'\<lparr>rs_log := rs_log s @ [Called i ?c (e, rx, p)]\<rparr>)" by simp
  from rpc_reachable.step [OF this rpc_step.leave [of _ i]]
  have "rpc_reachable env m0 (goto (goto s i (Leaving False) m'\<lparr>rs_log := rs_log s @ [Called i ?c (e, rx, p)]\<rparr>) i Idle m')"
    by simp
  moreover have "goto (goto s i (Leaving False) m'\<lparr>rs_log := l\<rparr>) i Idle m' = s\<lparr>rs_mount := m', rs_log := l\<rparr>" for l
    using assms(2) by (intro rpcs.equality) (simp_all add: goto_def fun_upd_idem)
  ultimately show ?thesis by simp
qed

section \<open>Properties\<close>

text \<open>
  C12. Under every interleaving of threads, sleepers and wake-ups included, the calls of \<open>rpc_9p\<close> that have ended got the
  answers, and left the mount, that they get when they are made one after the other in the order in which
  they released the lock; a call that has its reply but not yet released the lock is the next one.
\<close>

theorem calls_serialised:
  assumes "rpc_reachable env m0 s"
  shows "\<exists>m. replay env (rs_log s) m0 = Some m
    \<and> ((\<forall>i. lock_pc (rs_pc s i) \<noteq> Holding) \<longrightarrow> rs_mount s = m)
    \<and> (\<forall>i tx rx0 keep e rx p. rs_pc s i = Replied (tx, rx0, keep) (e, rx, p) \<longrightarrow>
         rpc_9p env tx rx0 keep m = Some (e, rx, p, rpcunlock (rs_mount s)))"
proof (rule serialE [OF rpc_serial [OF assms]])
  fix m assume h: "replay env (rs_log s) m0 = Some m"
    "\<And>i. lock_pc (rs_pc s i) = Holding \<Longrightarrow> phase env m (rs_pc s i) = Some (no_wait (rs_mount s))"
    "(\<And>i. lock_pc (rs_pc s i) \<noteq> Holding) \<Longrightarrow> rs_mount s = m"
  have "rpc_9p env tx rx0 keep m = Some (e, rx, p, rpcunlock (rs_mount s))"
    if "rs_pc s i = Replied (tx, rx0, keep) (e, rx, p)" for i tx rx0 keep e rx p
  proof -
    have "phase env m (Replied (tx, rx0, keep) (e, rx, p)) = Some (no_wait (rs_mount s))" using h(2) [of i] that by simp
    then show ?thesis using rpcunlock_no_wait by (auto simp: rpc_9p_phases split: option.splits if_splits)
  qed
  then show ?thesis using h(1,3) by blast
qed

text \<open>Thread 1 waits while thread 0 makes two calls, of which the server answers one.\<close>

theorem calls_serialised_witness:
  "\<exists>s a b. rpc_reachable slow_env (slow_mount (wire False rclunk)) s \<and> rs_pc s 1 = Wants (tclunk, zero_fcall None, True)
    \<and> rs_log s = [Called 0 (tclunk, zero_fcall None, False) a, NextFid, Called 0 (tclunk, zero_fcall None, False) b]
    \<and> replay slow_env (rs_log s) (slow_mount (wire False rclunk)) = Some (rs_mount s)"
proof -
  let ?m = "slow_mount (wire False rclunk)" and ?c = "(tclunk, zero_fcall None, False)"
  have ok: "\<exists>e rx p m'. rpc_9p slow_env tclunk (zero_fcall None) False m = Some (e, rx, p, m') \<and> lock_free m'
      \<and> mt_msize m' = 64 \<and> length (mt_rpcbuf m') = 64"
    if "mt_msize m = 64" "length (mt_rpcbuf m) = 64" for m :: "streams mount"
    using rpc_within [OF slow_recv_ok tclunk_ok(1), of m "zero_fcall None" False] that lock_free_rpcunlock
    by (fastforce simp: rpc_frame_def tclunk_ok rpc_9p_phases)
  have m: "mt_msize ?m = 64" "length (mt_rpcbuf ?m) = 64" "lock_free ?m"
    by (simp_all add: slow_mount_def lock_free_def ISSET_def)
  let ?s0 = "goto (rpc_start ?m) 1 (Wants (tclunk, zero_fcall None, True)) ?m"
  have 0: "rpc_reachable slow_env ?m ?s0"
    using rpc_reachable.step [OF rpc_reachable.start [OF m(3)] rpc_step.call [of _ 1]] by (simp add: rpc_start_def)
  obtain e rx p m1 where r1: "rpc_9p slow_env tclunk (zero_fcall None) False ?m = Some (e, rx, p, m1)"
    "lock_free m1" "mt_msize m1 = 64" "length (mt_rpcbuf m1) = 64" using ok [OF m(1,2)] by blast
  let ?s1 = "?s0\<lparr>rs_mount := m1, rs_log := rs_log ?s0 @ [Called 0 ?c (e, rx, p)]\<rparr>"
  have 1: "rpc_reachable slow_env ?m ?s1"
    by (rule whole_call [OF 0]) (use m(3) r1(1) in \<open>simp_all add: goto_def rpc_start_def\<close>)
  let ?s2 = "?s1\<lparr>rs_mount := next_fid (rs_mount ?s1), rs_log := rs_log ?s1 @ [NextFid]\<rparr>"
  have 2: "rpc_reachable slow_env ?m ?s2" by (rule rpc_reachable.step [OF 1 rpc_step.fid])
  obtain e' rx' p' m2 where r2: "rpc_9p slow_env tclunk (zero_fcall None) False (next_fid m1) = Some (e', rx', p', m2)"
    using ok [of "next_fid m1"] r1(3,4) by auto
  let ?s3 = "?s2\<lparr>rs_mount := m2, rs_log := rs_log ?s2 @ [Called 0 ?c (e', rx', p')]\<rparr>"
  have 3: "rpc_reachable slow_env ?m ?s3"
    by (rule whole_call [OF 2]) (use r1(2) r2 in \<open>simp_all add: goto_def rpc_start_def lock_free_def\<close>)
  have pc: "lock_pc (rs_pc ?s3 j) \<noteq> Holding" for j by (simp add: goto_def rpc_start_def)
  from calls_serialised [OF 3] pc 3 show ?thesis
    by (intro exI [of _ ?s3] exI [of _ "(e, rx, p)"] exI [of _ "(e', rx', p')"]) (auto simp: goto_def rpc_start_def)
qed

end
