(* ===== verification/Kernel.thy ===== *)
theory Kernel
  imports ProtoProofs
begin

text \<open>
  What the code above the 9P operations needs of the kernel, as a parameter: the sockets and the
  allocator of \<^verbatim>\<open>Socket9p\<close>, random bytes, and the contents of uninitialised local variables, which
  may be anything and may differ from call to call.
\<close>

record 'w kern =
  k_env :: "'w env"
  k_tx :: "'w \<Rightarrow> tx_call"
  k_rx :: "'w \<Rightarrow> rx_call"
  k_u32 :: "'w \<Rightarrow> u32"
  k_random :: "'w \<Rightarrow> nat \<Rightarrow> byte list \<times> 'w"
  k_sizeof_Dir :: nat

text \<open>The laws the proofs rely on.\<close>

definition kern_ok :: "'w kern \<Rightarrow> bool" where
  "kern_ok k \<longleftrightarrow> recv_ok (k_env k) \<and> (\<forall>w. stack_ok (k_tx k w))
     \<and> (\<forall>w n. length (fst (k_random k w n)) = n)"

text \<open>The 9P operations as the handlers call them.\<close>

definition kread :: "'w kern \<Rightarrow> u32 \<Rightarrow> memory \<Rightarrow> u32 \<Rightarrow> u64 \<Rightarrow> 'w mount
    \<Rightarrow> (int \<times> u32 \<times> memory \<times> 'w mount) option" where
  "kread k fid buf count off m =
     read_9p (k_env k) (k_tx k (mt_world m)) (k_rx k (mt_world m)) fid buf count off m"

definition kwrite :: "'w kern \<Rightarrow> u32 \<Rightarrow> memory \<Rightarrow> u32 \<Rightarrow> u64 \<Rightarrow> 'w mount
    \<Rightarrow> (int \<times> u32 \<times> memory \<times> 'w mount) option" where
  "kwrite k fid buf count off m =
     write_9p (k_env k) (k_tx k (mt_world m)) (k_rx k (mt_world m)) fid buf count off m"

definition read_random :: "'w kern \<Rightarrow> nat \<Rightarrow> 'w mount \<Rightarrow> byte list \<times> 'w mount" where
  "read_random k n m = (case k_random k (mt_world m) n of (b, w) \<Rightarrow> (b, m\<lparr>mt_world := w\<rparr>))"

end
