(* ===== verification/Auth9p.thy ===== *)
theory Auth9p
  imports Kernel Crypt
begin

text \<open>
  \<^verbatim>\<open>kext/auth.c\<close>: the Plan 9 authentication protocols p9any and p9sk1. The three structs are
  records; their character arrays are byte lists of fixed length. Buffers are memories, and a
  pointer into one is an offset. The authentication server is reached over a socket of its own.
\<close>

section \<open>Data\<close>

abbreviation DOMLEN :: nat where "DOMLEN \<equiv> 48"
abbreviation CHALLEN :: nat where "CHALLEN \<equiv> 8"
abbreviation AuthTreq :: byte where "AuthTreq \<equiv> 1"
abbreviation AuthOK :: byte where "AuthOK \<equiv> 4"
abbreviation AuthTs :: byte where "AuthTs \<equiv> 64"
abbreviation AuthTc :: byte where "AuthTc \<equiv> 65"
abbreviation AuthAs :: byte where "AuthAs \<equiv> 66"
abbreviation AuthAc :: byte where "AuthAc \<equiv> 67"

record Ticketreq =
  tr_type :: byte
  tr_authid :: "byte list"
  tr_authdom :: "byte list"
  tr_chal :: "byte list"
  tr_hostid :: "byte list"
  tr_uid :: "byte list"

record Ticket =
  t_num :: byte
  t_chal :: "byte list"
  t_cuid :: "byte list"
  t_suid :: "byte list"
  t_key :: "byte list"

record Authenticator =
  a_num :: byte
  a_chal :: "byte list"
  a_id :: u32

abbreviation TICKREQLEN :: nat where "TICKREQLEN \<equiv> 3 * NAMELEN + CHALLEN + DOMLEN + 1"
abbreviation TICKETLEN :: nat where "TICKETLEN \<equiv> CHALLEN + 2 * NAMELEN + DESKEYLEN + 1"
abbreviation AUTHENTLEN :: nat where "AUTHENTLEN \<equiv> CHALLEN + 4 + 1"

section \<open>Printing\<close>

text \<open>
  The statements store at \<^verbatim>\<open>p\<close>, from \<open>ap\<close> on; with a key the \<open>n\<close> bytes stored are encrypted in
  place. The result is \<open>n\<close> and the buffer.
\<close>

definition pack :: "s2m_stmt list \<Rightarrow> memory \<Rightarrow> nat \<Rightarrow> byte list option \<Rightarrow> (nat \<times> memory) option" where
  "pack cs buf ap key =
     (case exec cs \<lparr>sm_buf = buf, sm_p = ap\<rparr> of
        Go s \<Rightarrow> (let n = sm_p s - ap in
          case key of
            None \<Rightarrow> Some (n, sm_buf s)
          | Some k \<Rightarrow> do { (_, b) \<leftarrow> encrypt_9p k (sm_buf s) ap (int n); Some (n, b) })
      | _ \<Rightarrow> None)"

definition convTR2M :: "Ticketreq \<Rightarrow> memory \<Rightarrow> nat \<Rightarrow> (nat \<times> memory) option" where
  "convTR2M f buf ap = pack
     [put8 (tr_type f), putd (tr_authid f) NAMELEN, putd (tr_authdom f) DOMLEN,
      putd (tr_chal f) CHALLEN, putd (tr_hostid f) NAMELEN, putd (tr_uid f) NAMELEN] buf ap None"

definition convT2M :: "Ticket \<Rightarrow> memory \<Rightarrow> nat \<Rightarrow> byte list option \<Rightarrow> (nat \<times> memory) option" where
  "convT2M f buf ap key = pack
     [put8 (t_num f), putd (t_chal f) CHALLEN, putd (t_cuid f) NAMELEN, putd (t_suid f) NAMELEN,
      putd (t_key f) DESKEYLEN] buf ap key"

definition convA2M :: "Authenticator \<Rightarrow> memory \<Rightarrow> nat \<Rightarrow> byte list option \<Rightarrow> (nat \<times> memory) option" where
  "convA2M f buf ap key = pack
     [put8 (a_num f), putd (a_chal f) CHALLEN, put32 (a_id f)] buf ap key"

section \<open>Parsing\<close>

text \<open>\<^verbatim>\<open>if(key) decrypt_9p(key, ap, n);\<close>\<close>

definition unlock_buf :: "byte list option \<Rightarrow> memory \<Rightarrow> nat \<Rightarrow> nat \<Rightarrow> memory option" where
  "unlock_buf key buf ap n = (case key of
       None \<Rightarrow> Some buf
     | Some k \<Rightarrow> do { (_, b) \<leftarrow> decrypt_9p k buf ap (int n); Some b })"

definition convM2A :: "memory \<Rightarrow> nat \<Rightarrow> byte list option \<Rightarrow> (Authenticator \<times> memory) option" where
  "convM2A buf ap key = do {
     buf \<leftarrow> unlock_buf key buf ap AUTHENTLEN;
     let p = ap;
     num \<leftarrow> rdn buf p 1; let p = p + 1;
     chal \<leftarrow> rdn buf p CHALLEN; let p = p + CHALLEN;
     i \<leftarrow> rdn buf p 4;
     Some (\<lparr>a_num = GBIT8 num, a_chal = chal, a_id = GBIT32 i\<rparr>, buf)
   }"

definition convM2T :: "memory \<Rightarrow> nat \<Rightarrow> byte list option \<Rightarrow> (Ticket \<times> memory) option" where
  "convM2T buf ap key = do {
     buf \<leftarrow> unlock_buf key buf ap TICKETLEN;
     let p = ap;
     num \<leftarrow> rdn buf p 1; let p = p + 1;
     chal \<leftarrow> rdn buf p CHALLEN; let p = p + CHALLEN;
     cuid \<leftarrow> rdn buf p NAMELEN; let p = p + NAMELEN;
     suid \<leftarrow> rdn buf p NAMELEN; let p = p + NAMELEN;
     ky \<leftarrow> rdn buf p DESKEYLEN;
     Some (\<lparr>t_num = GBIT8 num, t_chal = chal, t_cuid = cuid[NAMELEN - 1 := 0],
            t_suid = suid[NAMELEN - 1 := 0], t_key = ky\<rparr>, buf)
   }"

definition convM2TR :: "memory \<Rightarrow> nat \<Rightarrow> Ticketreq option" where
  "convM2TR buf ap = do {
     let p = ap;
     ty \<leftarrow> rdn buf p 1; let p = p + 1;
     authid \<leftarrow> rdn buf p NAMELEN; let p = p + NAMELEN;
     authdom \<leftarrow> rdn buf p DOMLEN; let p = p + DOMLEN;
     chal \<leftarrow> rdn buf p CHALLEN; let p = p + CHALLEN;
     hostid \<leftarrow> rdn buf p NAMELEN; let p = p + NAMELEN;
     uid \<leftarrow> rdn buf p NAMELEN;
     Some \<lparr>tr_type = GBIT8 ty, tr_authid = authid[NAMELEN - 1 := 0],
           tr_authdom = authdom[DOMLEN - 1 := 0], tr_chal = chal,
           tr_hostid = hostid[NAMELEN - 1 := 0], tr_uid = uid[NAMELEN - 1 := 0]\<rparr>
   }"

section \<open>Tickets\<close>

text \<open>
  \<open>mkserverticket\<close>: without an authentication server the host makes the tickets itself, when it is
  the server's own owner. \<^verbatim>\<open>strcmp\<close> compares up to the NUL.
\<close>

definition mkserverticket :: "'w kern \<Rightarrow> Ticketreq \<Rightarrow> byte list \<Rightarrow> memory \<Rightarrow> 'w mount
    \<Rightarrow> (int \<times> memory \<times> 'w mount) option" where
  "mkserverticket k tr authkey tbuf m =
     (if cstr (tr_authid tr) \<noteq> cstr (tr_hostid tr) then Some (EINVAL, tbuf, m)
      else do {
        chal \<leftarrow> rdn (tr_chal tr) 0 CHALLEN;
        cuid \<leftarrow> rdn (tr_uid tr) 0 NAMELEN;
        suid \<leftarrow> rdn (tr_uid tr) 0 NAMELEN;
        let (ky, m) = read_random k DESKEYLEN m;
        let t = \<lparr>t_num = AuthTc, t_chal = chal, t_cuid = cuid, t_suid = suid, t_key = ky\<rparr>;
        (_, tbuf) \<leftarrow> convT2M t tbuf 0 (Some authkey);
        (_, tbuf) \<leftarrow> convT2M (t\<lparr>t_num := AuthTs\<rparr>) tbuf TICKETLEN (Some authkey);
        Some (0, tbuf, m)
      })"

text \<open>
  \<open>gettickets\<close>: \<open>call\<close> gives the errors of \<^verbatim>\<open>sock_socket\<close> and \<^verbatim>\<open>sock_connect\<close>, \<open>so\<close> is the socket
  they make; the errors of the socket options are ignored. When no socket was made, the code shuts
  down and closes \<^verbatim>\<open>NULL\<close>, which is \<^term>\<open>None\<close>.
\<close>

definition gettickets :: "'w kern \<Rightarrow> (sockcall \<Rightarrow> int) \<Rightarrow> nat \<Rightarrow> memory \<Rightarrow> memory \<Rightarrow> 'w mount
    \<Rightarrow> (int \<times> memory \<times> memory \<times> 'w mount) option" where
  "gettickets k call so trbuf tbuf m =
     (if call SockSocket \<noteq> 0 then None
      else if call SockConnect \<noteq> 0 then Some (call SockConnect, trbuf, tbuf, m)
      else do {
        (e, m) \<leftarrow> sendn_9p (k_env k) (Some so) trbuf TICKREQLEN m;
        if e \<noteq> 0 then Some (e, trbuf, tbuf, m)
        else do {
          (e, trbuf, m) \<leftarrow> recvn_9p (k_env k) (Some so) trbuf 0 1 m;
          if e \<noteq> 0 then Some (e, trbuf, tbuf, m)
          else if trbuf ! 0 \<noteq> AuthOK then Some (EINVAL, trbuf, tbuf, m)
          else do {
            (e, tbuf, m) \<leftarrow> recvn_9p (k_env k) (Some so) tbuf 0 (TICKETLEN * 2) m;
            Some (e, trbuf, tbuf, m)
          }
        }
      })"

section \<open>p9sk1\<close>

text \<open>
  What \<open>p9sk1\<close> makes of the server's authenticator: the last test of the protocol.
\<close>

definition check_authenticator :: "byte list \<Rightarrow> byte list \<Rightarrow> memory \<Rightarrow> int option" where
  "check_authenticator cchal ky tbuf = do {
     (a, _) \<leftarrow> convM2A tbuf 0 (Some ky);
     Some (if a_num a \<noteq> AuthAs \<or> a_chal a \<noteq> cchal \<or> a_id a \<noteq> 0 then EPERM else 0)
   }"

text \<open>
  The server's ticket and our authenticator are sent, and its authenticator is read. A short one may
  be followed by the text of an error, which is read and dropped.
\<close>

definition p9sk1_exchange :: "'w kern \<Rightarrow> u32 \<Rightarrow> byte list \<Rightarrow> byte list \<Rightarrow> memory \<Rightarrow> u64 \<Rightarrow> 'w mount
    \<Rightarrow> (int \<times> 'w mount) option" where
  "p9sk1_exchange k afid cchal ky tbuf off m = do {
     (e, l, tbuf, m) \<leftarrow> kwrite k afid tbuf (of_nat (TICKETLEN + AUTHENTLEN)) off m;
     if e \<noteq> 0 \<or> l \<noteq> of_nat (TICKETLEN + AUTHENTLEN)
     then Some (if e = 0 then EINVAL else e, m)
     else do {
       let off = off + ucast l;
       (e, l, tbuf, m) \<leftarrow> kread k afid tbuf (of_nat AUTHENTLEN) off m;
       if e \<noteq> 0 \<or> l \<noteq> of_nat AUTHENTLEN
       then do {
         let e = (if e = 0 then EINVAL else e);
         let off = off + ucast l;
         if l > 4
         then do {
           (_, _, _, m) \<leftarrow> kread k afid tbuf (of_nat (TICKETLEN + TICKETLEN + AUTHENTLEN)) off m;
           Some (e, m)
         }
         else Some (e, m)
       }
       else do {
         e \<leftarrow> check_authenticator cchal ky tbuf;
         Some (e, m)
       }
     }
   }"

text \<open>The tickets, from the authentication server or made here.\<close>

definition p9sk1_gettickets :: "'w kern \<Rightarrow> (sockcall \<Rightarrow> int) \<Rightarrow> nat \<Rightarrow> Ticketreq \<Rightarrow> byte list
    \<Rightarrow> memory \<Rightarrow> memory \<Rightarrow> 'w mount \<Rightarrow> (int \<times> memory \<times> 'w mount) option" where
  "p9sk1_gettickets k call so tr akey trbuf tbuf m = do {
     (e, trbuf, tbuf, m) \<leftarrow> gettickets k call so trbuf tbuf m;
     (if e \<noteq> 0 then mkserverticket k tr akey tbuf m else Some (0, tbuf, m))
   }"

text \<open>From the ticket request \<open>tr\<close> on. \<^verbatim>\<open>uname\<close> is a buffer of \<^verbatim>\<open>NAME_MAX+1\<close> bytes.\<close>

definition p9sk1_tickets :: "'w kern \<Rightarrow> (sockcall \<Rightarrow> int) \<Rightarrow> nat \<Rightarrow> u32 \<Rightarrow> memory \<Rightarrow> byte list
    \<Rightarrow> byte list \<Rightarrow> Ticketreq \<Rightarrow> memory \<Rightarrow> memory \<Rightarrow> u64 \<Rightarrow> 'w mount
    \<Rightarrow> (int \<times> 'w mount) option" where
  "p9sk1_tickets k call so afid uname akey cchal tr trbuf tbuf off m = do {
     hostid \<leftarrow> rdn uname 0 NAMELEN;
     uid \<leftarrow> rdn uname 0 NAMELEN;
     let tr = tr\<lparr>tr_type := AuthTreq, tr_hostid := hostid, tr_uid := uid\<rparr>;
     (_, trbuf) \<leftarrow> convTR2M tr trbuf 0;
     (e, tbuf, m) \<leftarrow> p9sk1_gettickets k call so tr akey trbuf tbuf m;
     if e \<noteq> 0 then Some (e, m)
     else do {
       (t, tbuf) \<leftarrow> convM2T tbuf 0 (Some akey);
       if t_num t \<noteq> AuthTc then Some (EAUTH, m)
       else do {
         st \<leftarrow> rdn tbuf TICKETLEN TICKETLEN;
         tbuf \<leftarrow> wrn tbuf 0 st;
         let auth = \<lparr>a_num = AuthAc, a_chal = tr_chal tr, a_id = 0\<rparr>;
         (_, tbuf) \<leftarrow> convA2M auth tbuf TICKETLEN (Some (t_key t));
         p9sk1_exchange k afid cchal (t_key t) tbuf off m
       }
     }
   }"

definition p9sk1 :: "'w kern \<Rightarrow> (sockcall \<Rightarrow> int) \<Rightarrow> nat \<Rightarrow> u32 \<Rightarrow> memory \<Rightarrow> byte list \<Rightarrow> u64
    \<Rightarrow> 'w mount \<Rightarrow> (int \<times> 'w mount) option" where
  "p9sk1 k call so afid uname akey off m =
     (let (tb, m) = malloc_9p (k_env k) (TICKETLEN + TICKETLEN + AUTHENTLEN) m;
          (trb, m) = malloc_9p (k_env k) TICKREQLEN m in
      case (tb, trb) of
        (Some tbuf, Some trbuf) \<Rightarrow>
          (let (cchal, m) = read_random k CHALLEN m in
           do {
             (e, l, cchal, m) \<leftarrow> kwrite k afid cchal (of_nat CHALLEN) off m;
             if e \<noteq> 0 \<or> l \<noteq> of_nat CHALLEN
             then Some (if e = 0 then EINVAL else e, free_9p trb (free_9p tb m))
             else do {
               let off = off + ucast l;
               (e, l, trbuf, m) \<leftarrow> kread k afid trbuf (of_nat TICKREQLEN) off m;
               if e \<noteq> 0 \<or> l \<noteq> of_nat TICKREQLEN
               then Some (if e = 0 then EINVAL else e, free_9p trb (free_9p tb m))
               else do {
                 let off = off + ucast l;
                 tr \<leftarrow> convM2TR trbuf 0;
                 if tr_type tr \<noteq> AuthTreq
                 then Some (0, free_9p trb (free_9p tb m))
                 else do {
                   (e, m) \<leftarrow> p9sk1_tickets k call so afid uname akey cchal tr trbuf tbuf off m;
                   Some (e, free_9p trb (free_9p tb m))
                 }
               }
             }
           })
      | _ \<Rightarrow> Some (ENOMEM, m))"

section \<open>p9any\<close>

definition strchr :: "memory \<Rightarrow> nat \<Rightarrow> byte \<Rightarrow> nat option" where
  "strchr m p c =
     (let s = cstr_at m p in
      if c \<in> set s then Some (p + length (takeWhile (\<lambda>b. b \<noteq> c) s)) else None)"

abbreviation BSIZ :: nat where "BSIZ \<equiv> 128"

text \<open>
  The offer of the server in \<open>buf\<close>, which ends in a NUL: the protocol and domain it names, and
  whether it speaks version 2. Only p9sk1 is known.
\<close>

definition p9any_offer :: "memory \<Rightarrow> (int + bool \<times> byte list)" where
  "p9any_offer buf =
     (let v2 = (take 4 (cstr_at buf 0) = bytes_of ''v.2 '');
          p = (if v2 then 4 else 0);
          buf = (case strchr buf p (of_char CHR '' '') of None \<Rightarrow> buf | Some q \<Rightarrow> buf[q := 0]) in
      case strchr buf p (of_char CHR ''@'') of
        None \<Rightarrow> Inl EINVAL
      | Some d \<Rightarrow>
          let buf = buf[d := 0]; dom = d + 1 in
          if cstr_at buf p \<noteq> bytes_of ''p9sk1'' then Inl EPROTONOSUPPORT
          else Inr (v2, cstr_at buf p @ bytes_of '' '' @ cstr_at buf dom))"

text \<open>A server that speaks version 2 confirms the choice.\<close>

definition p9any_confirm :: "'w kern \<Rightarrow> u32 \<Rightarrow> bool \<Rightarrow> memory \<Rightarrow> u64 \<Rightarrow> 'w mount
    \<Rightarrow> (int \<times> u64 \<times> 'w mount) option" where
  "p9any_confirm k afid v2 buf off m =
     (if v2 then do {
        (e, l, buf, m) \<leftarrow> kread k afid buf (of_nat (BSIZ - 1)) off m;
        if e \<noteq> 0 then Some (e, off, m)
        else let off = off + ucast l in
        if take 2 (cstr_at buf 0) \<noteq> bytes_of ''OK'' then Some (EINVAL, off, m)
        else Some (0, off, m)
      } else Some (0, off, m))"

definition authp9any_9p :: "'w kern \<Rightarrow> (sockcall \<Rightarrow> int) \<Rightarrow> nat \<Rightarrow> u32 \<Rightarrow> memory \<Rightarrow> byte list
    \<Rightarrow> 'w mount \<Rightarrow> (int \<times> 'w mount) option" where
  "authp9any_9p k call so afid uname akey m =
     (let (b1, m) = malloc_9p (k_env k) BSIZ m; (b2, m) = malloc_9p (k_env k) BSIZ m in
      case (b1, b2) of
        (Some buf, Some buf2) \<Rightarrow> do {
          (e, l, buf, m) \<leftarrow> kread k afid buf (of_nat (BSIZ - 1)) 0 m;
          if e \<noteq> 0 then Some (e, m)
          else do {
            let off = ucast l;
            buf \<leftarrow> wrn buf (unat l) [0];
            (case p9any_offer buf of
               Inl e \<Rightarrow> Some (e, free_9p b2 (free_9p b1 m))
             | Inr (v2, choice) \<Rightarrow> do {
                 let n = length choice;
                 buf2 \<leftarrow> wrn buf2 0 (take (BSIZ - 1) choice @ [0]);
                 (e, l, buf2, m) \<leftarrow> kwrite k afid buf2 (of_nat (n + 1)) off m;
                 if e \<noteq> 0 \<or> l \<noteq> of_nat (n + 1)
                 then Some (if e = 0 then EIO else e, free_9p b2 (free_9p b1 m))
                 else do {
                   let off = off + ucast l;
                   (e, off, m) \<leftarrow> p9any_confirm k afid v2 buf off m;
                   if e \<noteq> 0 then Some (e, free_9p b2 (free_9p b1 m))
                   else do {
                     (e, m) \<leftarrow> p9sk1 k call so afid uname akey off m;
                     Some (e, free_9p b2 (free_9p b1 m))
                   }
                 }
               })
          }
        }
      | _ \<Rightarrow> Some (ENOMEM, m))"

end
