(* ===== verification/AuthProofs.thy ===== *)
theory AuthProofs
  imports Auth9p CryptBuffers
begin

text \<open>
  Tickets and authenticators survive being packed, encrypted, decrypted and unpacked, and the
  server's last message is accepted only if it is the answer to our challenge under the ticket's
  key.
\<close>

section \<open>Packing\<close>

lemma pack_plain:
  assumes "prints cs bs" "ap + length bs \<le> length buf"
  shows "pack cs buf ap None = Some (length bs, take ap buf @ bs @ drop (ap + length bs) buf)"
  using assms by (simp add: pack_def prints_def Let_def)

lemma pack_key:
  assumes "prints cs bs" "ap + length bs \<le> length buf" "7 \<le> length k" "8 \<le> length bs"
  shows "\<exists>buf'. pack cs buf ap (Some k) = Some (length bs, buf') \<and> length buf' = length buf
    \<and> take ap buf' = take ap buf \<and> drop (ap + length bs) buf' = drop (ap + length bs) buf
    \<and> unlock_buf (Some k) buf' ap (length bs) = Some (take ap buf @ bs @ drop (ap + length bs) buf)"
proof -
  let ?b = "take ap buf @ bs @ drop (ap + length bs) buf"
  have "ap + length bs \<le> length ?b" using assms(2) by simp
  from decrypt_encrypt [OF assms(3,4) this] obtain b' where
    b': "encrypt_9p k ?b ap (int (length bs)) = Some (1, b')" "length b' = length ?b"
      "take ap b' = take ap ?b" "drop (ap + length bs) b' = drop (ap + length bs) ?b"
      "decrypt_9p k b' ap (int (length bs)) = Some (1, ?b)" by blast
  then show ?thesis
    using assms(1,2) by (simp add: pack_def prints_def Let_def unlock_buf_def)
qed

definition ticket_bytes :: "Ticket \<Rightarrow> byte list" where
  "ticket_bytes t = PBIT8 (t_num t) @ t_chal t @ t_cuid t @ t_suid t @ t_key t"

definition ticket_len :: "Ticket \<Rightarrow> bool" where
  "ticket_len t \<longleftrightarrow> length (t_chal t) = CHALLEN \<and> length (t_cuid t) = NAMELEN
     \<and> length (t_suid t) = NAMELEN \<and> length (t_key t) = DESKEYLEN"

definition ticket_ok :: "Ticket \<Rightarrow> bool" where
  "ticket_ok t \<longleftrightarrow> ticket_len t \<and> t_cuid t ! 27 = 0 \<and> t_suid t ! 27 = 0"

definition auth_bytes :: "Authenticator \<Rightarrow> byte list" where
  "auth_bytes a = PBIT8 (a_num a) @ a_chal a @ PBIT32 (a_id a)"

definition treq_bytes :: "Ticketreq \<Rightarrow> byte list" where
  "treq_bytes f = PBIT8 (tr_type f) @ tr_authid f @ tr_authdom f @ tr_chal f @ tr_hostid f @ tr_uid f"

definition treq_ok :: "Ticketreq \<Rightarrow> bool" where
  "treq_ok f \<longleftrightarrow> length (tr_authid f) = NAMELEN \<and> length (tr_authdom f) = DOMLEN
     \<and> length (tr_chal f) = CHALLEN \<and> length (tr_hostid f) = NAMELEN \<and> length (tr_uid f) = NAMELEN"

lemma prints_putd_all: "length src = n \<Longrightarrow> prints [putd src n] src"
  using prints_putd [of n src] by simp

lemma prints_ticket:
  "ticket_len t \<Longrightarrow> prints [put8 (t_num t), putd (t_chal t) CHALLEN, putd (t_cuid t) NAMELEN,
     putd (t_suid t) NAMELEN, putd (t_key t) DESKEYLEN] (ticket_bytes t)"
  unfolding ticket_bytes_def ticket_len_def
  by (intro prints_Cons [OF prints_putb] prints_Cons [OF prints_putd_all] prints_putd_all) simp_all

lemma prints_auth:
  "length (a_chal a) = CHALLEN \<Longrightarrow> prints [put8 (a_num a), putd (a_chal a) CHALLEN, put32 (a_id a)] (auth_bytes a)"
  unfolding auth_bytes_def
  by (intro prints_Cons [OF prints_putb] prints_Cons [OF prints_putd_all] prints_putb) simp_all

lemma prints_treq:
  "treq_ok f \<Longrightarrow> prints [put8 (tr_type f), putd (tr_authid f) NAMELEN, putd (tr_authdom f) DOMLEN,
      putd (tr_chal f) CHALLEN, putd (tr_hostid f) NAMELEN, putd (tr_uid f) NAMELEN] (treq_bytes f)"
  unfolding treq_bytes_def treq_ok_def
  by (intro prints_Cons [OF prints_putb] prints_Cons [OF prints_putd_all] prints_putd_all) simp_all

lemma length_ticket_bytes: "ticket_len t \<Longrightarrow> length (ticket_bytes t) = TICKETLEN"
  by (simp add: ticket_bytes_def ticket_len_def)

lemma length_auth_bytes: "length (a_chal a) = CHALLEN \<Longrightarrow> length (auth_bytes a) = AUTHENTLEN"
  by (simp add: auth_bytes_def)

lemma length_treq_bytes: "treq_ok f \<Longrightarrow> length (treq_bytes f) = TICKREQLEN"
  by (simp add: treq_bytes_def treq_ok_def)

section \<open>Unpacking\<close>

text \<open>A field in the middle of a buffer.\<close>

lemma rdn_mid: "length pre = p \<Longrightarrow> length bs = n \<Longrightarrow> rdn (pre @ bs @ post) p n = Some bs"
  by (auto simp: rdn_def)

lemma rdn_field:
  "length pre = p \<Longrightarrow> length xs = n \<Longrightarrow> rdn (pre @ as @ xs @ post) (p + length as) n = Some xs"
  using rdn_mid [of "pre @ as" "p + length as" xs n post] by simp

lemma unpack_ticket:
  assumes "ticket_ok t" "length pre = ap" "unlock_buf key buf ap TICKETLEN = Some (pre @ ticket_bytes t @ post)"
  shows "convM2T buf ap key = Some (t, pre @ ticket_bytes t @ post)"
proof -
  let ?b = "pre @ ticket_bytes t @ post"
  have l: "length (t_chal t) = 8" "length (t_cuid t) = 28" "length (t_suid t) = 28" "length (t_key t) = 7"
    using assms(1) by (simp_all add: ticket_ok_def ticket_len_def)
  have "rdn ?b ap 1 = Some (PBIT8 (t_num t))" "rdn ?b (ap + 1) 8 = Some (t_chal t)"
    "rdn ?b (ap + 9) 28 = Some (t_cuid t)" "rdn ?b (ap + 37) 28 = Some (t_suid t)"
    "rdn ?b (ap + 65) 7 = Some (t_key t)"
    using rdn_mid [OF assms(2), of "PBIT8 (t_num t)" 1]
      rdn_field [OF assms(2), of "t_chal t" 8 "PBIT8 (t_num t)"]
      rdn_field [OF assms(2), of "t_cuid t" 28 "PBIT8 (t_num t) @ t_chal t"]
      rdn_field [OF assms(2), of "t_suid t" 28 "PBIT8 (t_num t) @ t_chal t @ t_cuid t"]
      rdn_field [OF assms(2), of "t_key t" 7 "PBIT8 (t_num t) @ t_chal t @ t_cuid t @ t_suid t"] l
    by (simp_all add: ticket_bytes_def add.commute)
  moreover have "(t_cuid t)[27 := 0] = t_cuid t" "(t_suid t)[27 := 0] = t_suid t"
    using assms(1) unfolding ticket_ok_def by (metis list_update_id)+
  ultimately show ?thesis
    using assms(3) by (simp add: convM2T_def PBIT8_def GBIT8_def add.commute [of ap])
qed

lemma unpack_auth:
  assumes "length (a_chal a) = CHALLEN" "length pre = ap"
    "unlock_buf key buf ap AUTHENTLEN = Some (pre @ auth_bytes a @ post)"
  shows "convM2A buf ap key = Some (a, pre @ auth_bytes a @ post)"
proof -
  let ?b = "pre @ auth_bytes a @ post"
  have "rdn ?b ap 1 = Some (PBIT8 (a_num a))" "rdn ?b (ap + 1) 8 = Some (a_chal a)"
    "rdn ?b (ap + 9) 4 = Some (PBIT32 (a_id a))"
    using rdn_mid [OF assms(2), of "PBIT8 (a_num a)" 1]
      rdn_field [OF assms(2), of "a_chal a" 8 "PBIT8 (a_num a)"]
      rdn_field [OF assms(2), of "PBIT32 (a_id a)" 4 "PBIT8 (a_num a) @ a_chal a"] assms(1)
    by (simp_all add: auth_bytes_def add.commute)
  then show ?thesis
    using assms(3) by (simp add: convM2A_def PBIT8_def GBIT8_def bit32.get_put add.commute [of ap])
qed

section \<open>The server's authenticator\<close>

lemma take_pieces: "take (a + b) xs = take a xs @ take b (drop a xs)"
  by (simp add: take_add)

lemma check_authenticator_total:
  assumes "7 \<le> length ky" "AUTHENTLEN \<le> length tbuf"
  shows "\<exists>x. decrypt_9p ky tbuf 0 (int AUTHENTLEN) = Some (1, x) \<and> length x = length tbuf
    \<and> encrypt_9p ky x 0 (int AUTHENTLEN) = Some (1, tbuf)
    \<and> check_authenticator cchal ky tbuf = Some
        (if x ! 0 \<noteq> AuthAs \<or> take 8 (drop 1 x) \<noteq> cchal \<or> GBIT32 (take 4 (drop 9 x)) \<noteq> 0
         then EPERM else 0)"
proof -
  have "(8::nat) \<le> AUTHENTLEN" "0 + AUTHENTLEN \<le> length tbuf" using assms(2) by simp_all
  from encrypt_decrypt [OF assms(1) this] obtain x where
    x: "decrypt_9p ky tbuf 0 (int AUTHENTLEN) = Some (1, x)" "length x = length tbuf"
      "encrypt_9p ky x 0 (int AUTHENTLEN) = Some (1, tbuf)" by blast
  have "convM2A tbuf 0 (Some ky) = Some (\<lparr>a_num = x ! 0, a_chal = take 8 (drop 1 x),
      a_id = GBIT32 (take 4 (drop 9 x))\<rparr>, x)"
    using x(1,2) assms(2)
    by (simp add: convM2A_def unlock_buf_def rdn_def GBIT8_def del: of_nat_add)
  then show ?thesis using x by (simp add: check_authenticator_def)
qed

lemma check_authenticator_iff:
  assumes "length cchal = CHALLEN" "7 \<le> length ky" "AUTHENTLEN \<le> length tbuf"
  shows "check_authenticator cchal ky tbuf = Some 0 \<longleftrightarrow>
    (\<exists>b. length b = length tbuf
       \<and> convA2M \<lparr>a_num = AuthAs, a_chal = cchal, a_id = 0\<rparr> b 0 (Some ky) = Some (AUTHENTLEN, tbuf))"
    (is "_ \<longleftrightarrow> ?sent")
proof -
  let ?a = "\<lparr>a_num = AuthAs, a_chal = cchal, a_id = 0\<rparr>"
  have pr: "prints [put8 (a_num ?a), putd (a_chal ?a) CHALLEN, put32 (a_id ?a)] (auth_bytes ?a)"
    using assms(1) by (intro prints_auth) simp
  have la: "length (auth_bytes ?a) = AUTHENTLEN" using assms(1) by (simp add: auth_bytes_def)
  obtain x where x: "decrypt_9p ky tbuf 0 (int AUTHENTLEN) = Some (1, x)" "length x = length tbuf"
      "encrypt_9p ky x 0 (int AUTHENTLEN) = Some (1, tbuf)"
      "check_authenticator cchal ky tbuf = Some
        (if x ! 0 \<noteq> AuthAs \<or> take 8 (drop 1 x) \<noteq> cchal \<or> GBIT32 (take 4 (drop 9 x)) \<noteq> 0
         then EPERM else 0)"
    using check_authenticator_total [OF assms(2,3)] by blast
  show ?thesis
  proof
    assume "check_authenticator cchal ky tbuf = Some 0"
    then have c: "x ! 0 = AuthAs" "take 8 (drop 1 x) = cchal" "GBIT32 (take 4 (drop 9 x)) = 0"
      using x(4) by (auto split: if_splits)
    have "PBIT32 (GBIT32 (take 4 (drop 9 x))) = take 4 (drop 9 x)"
      using x(2) assms(3) by (intro PBIT32_GBIT32) simp
    then have i: "take 4 (drop 9 x) = PBIT32 0" using c(3) by simp
    have "take 1 x = [x ! 0]" using x(2) assms(3) by (cases x) simp_all
    then have "take 13 x = auth_bytes ?a"
      using take_pieces [of 9 4 x] take_pieces [of 1 8 x] c(1,2) i
      by (simp add: auth_bytes_def PBIT8_def)
    then have xe: "auth_bytes ?a @ drop AUTHENTLEN x = x"
      using append_take_drop_id [of 13 x] by (simp del: append_take_drop_id)
    have "exec [put8 (a_num ?a), putd (a_chal ?a) CHALLEN, put32 (a_id ?a)] \<lparr>sm_buf = x, sm_p = 0\<rparr>
        = Go \<lparr>sm_buf = x, sm_p = AUTHENTLEN\<rparr>"
      using pr x(2) assms(3) xe la unfolding prints_def by (simp del: exec.simps)
    then have "convA2M ?a x 0 (Some ky) = Some (AUTHENTLEN, tbuf)"
      using x(3) by (simp add: convA2M_def pack_def Let_def del: exec.simps)
    then show ?sent using x(2) by blast
  next
    assume ?sent
    then obtain b where b: "length b = length tbuf" "convA2M ?a b 0 (Some ky) = Some (AUTHENTLEN, tbuf)" by blast
    have "0 + length (auth_bytes ?a) \<le> length b" "8 \<le> length (auth_bytes ?a)"
      using la b(1) assms(3) by simp_all
    from pack_key [OF pr this(1) assms(2) this(2)] b(2) la
    have "unlock_buf (Some ky) tbuf 0 AUTHENTLEN = Some ([] @ auth_bytes ?a @ drop AUTHENTLEN b)"
      by (auto simp: convA2M_def)
    from unpack_auth [OF _ _ this] assms(1) show "check_authenticator cchal ky tbuf = Some 0"
      by (simp add: check_authenticator_def)
  qed
qed

section \<open>The protocol ends\<close>

lemma after_world: "after m k m' \<Longrightarrow> after m k (m'\<lparr>mt_world := w\<rparr>)"
  by (simp add: after_def mount_ok_def)

lemma after_mount_ok: "after m k m' \<Longrightarrow> mount_ok m'"
  by (simp add: after_def)

lemma kread_total:
  assumes "kern_ok k" "mount_ok m" "unat count \<le> length buf"
  obtains e n buf' m' where "kread k fid buf count off m = Some (e, n, buf', m')" "after m 0 m'"
    "n \<le> count" "length buf' = length buf"
proof -
  have "recv_ok (k_env k)" "stack_ok (k_tx k (mt_world m))" using assms(1) by (simp_all add: kern_ok_def)
  from read_total [OF this(1) assms(2) this(2) assms(3), of "k_rx k (mt_world m)" fid off] that
  show ?thesis unfolding kread_def by blast
qed

lemma kwrite_total:
  assumes "kern_ok k" "mount_ok m" "unat count \<le> length buf" "unat count < 2 ^ 31"
  obtains e n m' where "kwrite k fid buf count off m = Some (e, n, buf, m')" "after m 0 m'"
proof -
  have "recv_ok (k_env k)" "stack_ok (k_tx k (mt_world m))" using assms(1) by (simp_all add: kern_ok_def)
  from write_total [OF this(1) assms(2) this(2) assms(3,4), of "k_rx k (mt_world m)" fid off] that
  show ?thesis unfolding kwrite_def by blast
qed

lemma read_random_total:
  assumes "kern_ok k" "mount_ok m"
  obtains b m' where "read_random k n m = (b, m')" "length b = n" "after m 0 m'"
proof -
  obtain b w where "k_random k (mt_world m) n = (b, w)" by fastforce
  moreover have "length (fst (k_random k (mt_world m) n)) = n" using assms(1) by (simp add: kern_ok_def)
  ultimately show ?thesis
    using that after_world [OF after_refl [OF assms(2)], of w] by (simp add: read_random_def)
qed

lemma recvn_after:
  assumes "recv_ok env" "mount_ok m" "b + n \<le> length buf"
  obtains e buf' m' where "recvn_9p env so buf b n m = Some (e, buf', m')" "after m 0 m'"
    "length buf' = length buf"
proof -
  from recvn_within [OF assms(1,3), of so m] obtain e buf' w' where
    "recvn_9p env so buf b n m = Some (e, buf', m\<lparr>mt_world := w'\<rparr>)" "length buf' = length buf" by auto
  with that after_world [OF after_refl [OF assms(2)]] show ?thesis by blast
qed

lemma sendn_after:
  assumes "mount_ok m" "n \<le> length buf"
  obtains e m' where "sendn_9p env so buf n m = Some (e, m')" "after m 0 m'"
proof -
  from send_loop_total [OF assms(2), of env so "mt_world m" 0] obtain e w where
    "sendn_9p env so buf n m = Some (e, m\<lparr>mt_world := w\<rparr>)" by (auto simp: sendn_9p_def)
  with that after_world [OF after_refl [OF assms(1)]] show ?thesis by blast
qed

lemma gettickets_total:
  assumes "kern_ok k" "mount_ok m" "call SockSocket = 0"
    and "length trbuf = TICKREQLEN" "2 * TICKETLEN \<le> length tbuf"
  obtains e trbuf' tbuf' m' where "gettickets k call so trbuf tbuf m = Some (e, trbuf', tbuf', m')"
    "after m 0 m'" "length tbuf' = length tbuf"
proof (cases "call SockConnect = 0")
  case False
  then show ?thesis
    using that assms after_refl [OF assms(2)] by (auto simp: gettickets_def)
next
  case True
  have rk: "recv_ok (k_env k)" using assms(1) by (simp add: kern_ok_def)
  obtain e1 m1 where s: "sendn_9p (k_env k) (Some so) trbuf TICKREQLEN m = Some (e1, m1)" "after m 0 m1"
    by (rule sendn_after [OF assms(2), of TICKREQLEN trbuf]) (use assms(4) in auto)
  obtain e2 tr2 m2 where r: "recvn_9p (k_env k) (Some so) trbuf 0 1 m1 = Some (e2, tr2, m2)" "after m1 0 m2"
    by (rule recvn_after [OF rk after_mount_ok [OF s(2)], of 0 1 trbuf]) (use assms(4) in auto)
  obtain e3 tb3 m3 where r2: "recvn_9p (k_env k) (Some so) tbuf 0 (TICKETLEN * 2) m2 = Some (e3, tb3, m3)"
      "after m2 0 m3" "length tb3 = length tbuf"
    by (rule recvn_after [OF rk after_mount_ok [OF r(2)], of 0 "TICKETLEN * 2" tbuf]) (use assms(5) in auto)
  have a: "after m 0 m2" "after m 0 m3"
    using after_trans [OF s(2) r(2)] after_trans [OF after_trans [OF s(2) r(2)] r2(2)] by simp_all
  show ?thesis
  proof (cases "e1 \<noteq> 0 \<or> e2 \<noteq> 0 \<or> tr2 ! 0 \<noteq> AuthOK")
    case True
    then show ?thesis
      using that s r a(1) assms(3) \<open>call SockConnect = 0\<close> by (cases "e1 = 0"; cases "e2 = 0") (auto simp: gettickets_def)
  next
    case False
    then show ?thesis
      using that s(1) r(1) r2(1,3) a(2) assms(3) True by (simp add: gettickets_def)
  qed
qed

lemma convT2M_total:
  assumes "ticket_len t" "7 \<le> length key" "ap + TICKETLEN \<le> length buf"
  obtains buf' where "convT2M t buf ap (Some key) = Some (TICKETLEN, buf')" "length buf' = length buf"
proof -
  have l: "length (ticket_bytes t) = TICKETLEN" by (rule length_ticket_bytes [OF assms(1)])
  have "ap + length (ticket_bytes t) \<le> length buf" "8 \<le> length (ticket_bytes t)"
    using l assms(3) by simp_all
  from pack_key [OF prints_ticket [OF assms(1)] this(1) assms(2) this(2)] that l show ?thesis
    unfolding convT2M_def by force
qed

lemma convA2M_total:
  assumes "length (a_chal a) = CHALLEN" "7 \<le> length key" "ap + AUTHENTLEN \<le> length buf"
  obtains buf' where "convA2M a buf ap (Some key) = Some (AUTHENTLEN, buf')" "length buf' = length buf"
proof -
  have l: "length (auth_bytes a) = AUTHENTLEN" by (rule length_auth_bytes [OF assms(1)])
  have "ap + length (auth_bytes a) \<le> length buf" "8 \<le> length (auth_bytes a)"
    using l assms(3) by simp_all
  from pack_key [OF prints_auth [OF assms(1)] this(1) assms(2) this(2)] that l show ?thesis
    unfolding convA2M_def by force
qed

lemma convTR2M_total:
  assumes "treq_ok f" "length buf = TICKREQLEN"
  shows "convTR2M f buf 0 = Some (TICKREQLEN, treq_bytes f)"
  using pack_plain [OF prints_treq [OF assms(1)], of 0 buf] length_treq_bytes [OF assms(1)] assms(2)
  by (simp add: convTR2M_def)

lemma convM2TR_total:
  assumes "TICKREQLEN \<le> length buf"
  obtains tr where "convM2TR buf 0 = Some tr" "treq_ok tr" "tr_type tr = buf ! 0"
proof -
  have "take (Suc 0) buf ! 0 = buf ! 0" using assms by simp
  then show ?thesis
    using that assms by (simp add: convM2TR_def rdn_def treq_ok_def GBIT8_def)
qed

lemma convM2T_total:
  assumes "7 \<le> length key" "TICKETLEN \<le> length buf"
  obtains t buf' where "convM2T buf 0 (Some key) = Some (t, buf')" "ticket_ok t" "length buf' = length buf"
proof -
  have "(8::nat) \<le> TICKETLEN" "0 + TICKETLEN \<le> length buf" using assms(2) by simp_all
  from encrypt_decrypt [OF assms(1) this] obtain x where
    x: "decrypt_9p key buf 0 (int TICKETLEN) = Some (1, x)" "length x = length buf" by blast
  have "unlock_buf (Some key) buf 0 TICKETLEN = Some x"
    using x(1) unfolding unlock_buf_def by simp
  then show ?thesis
    using that x(2) assms(2) unfolding convM2T_def by (simp add: rdn_def ticket_ok_def ticket_len_def)
qed

lemma mkserverticket_total:
  assumes "kern_ok k" "mount_ok m" "treq_ok tr" "7 \<le> length key"
    "2 * TICKETLEN \<le> length tbuf"
  obtains e tbuf' m' where "mkserverticket k tr key tbuf m = Some (e, tbuf', m')" "after m 0 m'"
    "length tbuf' = length tbuf"
proof (cases "cstr (tr_authid tr) = cstr (tr_hostid tr)")
  case False
  then show ?thesis using that after_refl [OF assms(2)] by (simp add: mkserverticket_def)
next
  case True
  obtain ky m1 where ky: "read_random k DESKEYLEN m = (ky, m1)" "length ky = DESKEYLEN" "after m 0 m1"
    by (rule read_random_total [OF assms(1,2)])
  let ?t = "\<lparr>t_num = AuthTc, t_chal = tr_chal tr, t_cuid = tr_uid tr, t_suid = tr_uid tr, t_key = ky\<rparr>"
  have tk: "ticket_len ?t" "ticket_len (?t\<lparr>t_num := AuthTs\<rparr>)"
    using assms(3) ky(2) by (simp_all add: ticket_len_def treq_ok_def)
  obtain b1 where b1: "convT2M ?t tbuf 0 (Some key) = Some (TICKETLEN, b1)" "length b1 = length tbuf"
    by (rule convT2M_total [OF tk(1) assms(4), of 0 tbuf]) (use assms(5) in auto)
  obtain b2 where b2: "convT2M (?t\<lparr>t_num := AuthTs\<rparr>) b1 TICKETLEN (Some key) = Some (TICKETLEN, b2)"
      "length b2 = length b1"
    by (rule convT2M_total [OF tk(2) assms(4), of TICKETLEN b1]) (use assms(5) b1(2) in auto)
  have "rdn (tr_chal tr) 0 CHALLEN = Some (tr_chal tr)" "rdn (tr_uid tr) 0 NAMELEN = Some (tr_uid tr)"
    using assms(3) by (simp_all add: treq_ok_def rdn_def)
  then have "mkserverticket k tr key tbuf m = Some (0, b2, m1)"
    using True ky(1) b1(1) b2(1) by (simp add: mkserverticket_def)
  then show ?thesis using that ky(3) b1(2) b2(2) by simp
qed

lemma tickets_total:
  assumes "kern_ok k" "mount_ok m" "treq_ok tr" "7 \<le> length key"
    "call SockSocket = 0" "length trbuf = TICKREQLEN" "2 * TICKETLEN \<le> length tbuf"
  obtains e tbuf' m' where "p9sk1_gettickets k call so tr key trbuf tbuf m = Some (e, tbuf', m')"
    "after m 0 m'" "length tbuf' = length tbuf"
proof -
  obtain e1 tr1 tb1 m1 where g: "gettickets k call so trbuf tbuf m = Some (e1, tr1, tb1, m1)"
      "after m 0 m1" "length tb1 = length tbuf"
    by (rule gettickets_total [where call = call, OF assms(1,2,5-7)])
  obtain e2 tb2 m2 where s: "mkserverticket k tr key tb1 m1 = Some (e2, tb2, m2)" "after m1 0 m2"
      "length tb2 = length tb1"
    by (rule mkserverticket_total [OF assms(1) after_mount_ok [OF g(2)] assms(3,4), of tb1])
      (use g(3) assms(7) in auto)
  show ?thesis
    using that g s after_trans [OF g(2) s(2)] by (cases "e1 = 0") (auto simp: p9sk1_gettickets_def)
qed

lemma exchange_total:
  assumes "kern_ok k" "mount_ok m" "length tbuf = 2 * TICKETLEN + AUTHENTLEN" "7 \<le> length ky"
  obtains e m' where "p9sk1_exchange k afid cchal ky tbuf off m = Some (e, m')" "after m 0 m'"
proof -
  obtain e1 l1 m1 where w: "kwrite k afid tbuf (of_nat (TICKETLEN + AUTHENTLEN)) off m = Some (e1, l1, tbuf, m1)"
      "after m 0 m1"
    by (rule kwrite_total [OF assms(1,2), of "of_nat (TICKETLEN + AUTHENTLEN)" tbuf])
      (use assms(3) in auto)
  obtain e2 l2 b2 m2 where r: "kread k afid tbuf (of_nat AUTHENTLEN) (off + ucast l1) m1 = Some (e2, l2, b2, m2)"
      "after m1 0 m2" "length b2 = length tbuf"
    by (rule kread_total [OF assms(1) after_mount_ok [OF w(2)], of "of_nat AUTHENTLEN" tbuf])
      (use assms(3) in auto)
  obtain e3 l3 b3 m3 where r3: "kread k afid b2 (of_nat (TICKETLEN + TICKETLEN + AUTHENTLEN))
      (off + ucast l1 + ucast l2) m2 = Some (e3, l3, b3, m3)" "after m2 0 m3"
    by (rule kread_total [OF assms(1) after_mount_ok [OF r(2)], of
          "of_nat (TICKETLEN + TICKETLEN + AUTHENTLEN)" b2]) (use assms(3) r(3) in auto)
  obtain c where c: "check_authenticator cchal ky b2 = Some c"
    using check_authenticator_total [OF assms(4), of b2 cchal] r(3) assms(3) by auto
  have a: "after m 0 m2" "after m 0 m3"
    using after_trans [OF w(2) r(2)] after_trans [OF after_trans [OF w(2) r(2)] r3(2)] by simp_all
  have "p9sk1_exchange k afid cchal ky tbuf off m =
      Some (if e1 \<noteq> 0 \<or> l1 \<noteq> of_nat (TICKETLEN + AUTHENTLEN) then (if e1 = 0 then EINVAL else e1, m1)
        else if e2 \<noteq> 0 \<or> l2 \<noteq> of_nat AUTHENTLEN
        then (if e2 = 0 then EINVAL else e2, if l2 > 4 then m3 else m2) else (c, m2))"
    using w(1) r(1) r3(1) c
    by (cases "e1 \<noteq> 0 \<or> l1 \<noteq> of_nat (TICKETLEN + AUTHENTLEN)";
        cases "e2 \<noteq> 0 \<or> l2 \<noteq> of_nat AUTHENTLEN"; cases "l2 > 4")
      (simp_all add: p9sk1_exchange_def)
  then show ?thesis using that w(2) a by (auto split: if_splits)
qed

lemma p9sk1_tickets_total:
  assumes "kern_ok k" "mount_ok m" "treq_ok tr" "NAMELEN \<le> length uname" "7 \<le> length akey"
    "call SockSocket = 0" "length trbuf = TICKREQLEN" "length tbuf = 2 * TICKETLEN + AUTHENTLEN"
  obtains e m' where "p9sk1_tickets k call so afid uname akey cchal tr trbuf tbuf off m = Some (e, m')"
    "after m 0 m'"
proof -
  let ?u = "take NAMELEN uname"
  let ?tr = "tr\<lparr>tr_type := AuthTreq, tr_hostid := ?u, tr_uid := ?u\<rparr>"
  have u: "rdn uname 0 NAMELEN = Some ?u" using assms(4) by (simp add: rdn_def)
  have tr: "treq_ok ?tr" using assms(3,4) by (simp add: treq_ok_def)
  note tm = convTR2M_total [OF tr assms(7)]
  obtain e1 b1 m1 where g: "p9sk1_gettickets k call so ?tr akey (treq_bytes ?tr) tbuf m = Some (e1, b1, m1)"
      "after m 0 m1" "length b1 = length tbuf"
    by (rule tickets_total [where call = call, OF assms(1,2) tr assms(5,6) length_treq_bytes [OF tr], of tbuf])
      (use assms(8) in auto)
  obtain t b2 where t: "convM2T b1 0 (Some akey) = Some (t, b2)" "ticket_ok t" "length b2 = length b1"
    by (rule convM2T_total [OF assms(5), of b1]) (use g(3) assms(8) in auto)
  let ?b3 = "take TICKETLEN (drop TICKETLEN b2) @ drop TICKETLEN b2"
  have st: "rdn b2 TICKETLEN TICKETLEN = Some (take TICKETLEN (drop TICKETLEN b2))"
    "wrn b2 0 (take TICKETLEN (drop TICKETLEN b2)) = Some ?b3"
    using g(3) t(3) assms(8) by (simp_all add: rdn_def wrn_def)
  have lb3: "length ?b3 = length tbuf" using g(3) t(3) assms(8) by simp
  have ky: "7 \<le> length (t_key t)" using t(2) by (simp add: ticket_ok_def ticket_len_def)
  obtain b4 where b4: "convA2M \<lparr>a_num = AuthAc, a_chal = tr_chal tr, a_id = 0\<rparr> ?b3 TICKETLEN (Some (t_key t))
      = Some (AUTHENTLEN, b4)" "length b4 = length ?b3"
    by (rule convA2M_total [OF _ ky, of "\<lparr>a_num = AuthAc, a_chal = tr_chal tr, a_id = 0\<rparr>" TICKETLEN ?b3])
      (use assms(3,8) lb3 in \<open>auto simp: treq_ok_def\<close>)
  obtain e5 m5 where x: "p9sk1_exchange k afid cchal (t_key t) b4 off m1 = Some (e5, m5)" "after m1 0 m5"
    by (rule exchange_total [OF assms(1) after_mount_ok [OF g(2)] _ ky, of b4]) (use b4(2) lb3 assms(8) in auto)
  have "p9sk1_tickets k call so afid uname akey cchal tr trbuf tbuf off m
      = Some (if e1 \<noteq> 0 then (e1, m1) else if t_num t \<noteq> AuthTc then (EAUTH, m1) else (e5, m5))"
    using u tm g(1) t(1) st b4(1) x(1) by (simp add: p9sk1_tickets_def Let_def)
  then show ?thesis using that g(2) after_trans [OF g(2) x(2)] by (auto split: if_splits)
qed

lemma malloc_after:
  assumes "mount_ok m"
  obtains p m' where "malloc_9p env n m = (p, m')" "after m (held p) m'" "\<forall>b. p = Some b \<longrightarrow> length b = n"
proof -
  obtain p m' where p: "malloc_9p env n m = (p, m')" by fastforce
  from after_malloc [OF assms p] show ?thesis by (intro that [OF p]) auto
qed

lemma after_free2: "after m 2 m' \<Longrightarrow> after m 0 (free_9p (Some a) (free_9p (Some b) m'))"
  by (auto simp: after_def free_9p_def mount_ok_def)

lemma p9sk1_total:
  assumes "kern_ok k" "mount_ok m" "NAMELEN \<le> length uname" "7 \<le> length akey" "call SockSocket = 0"
  obtains e j m' where "p9sk1 k call so afid uname akey off m = Some (e, m')" "after m j m'"
    "j = 0 \<or> j = 1 \<and> e = ENOMEM"
proof -
  obtain tb m1 where a1: "malloc_9p (k_env k) (TICKETLEN + TICKETLEN + AUTHENTLEN) m = (tb, m1)"
      "after m (held tb) m1" "\<forall>b. tb = Some b \<longrightarrow> length b = TICKETLEN + TICKETLEN + AUTHENTLEN"
    by (rule malloc_after [OF assms(2)])
  obtain trb m2 where a2: "malloc_9p (k_env k) TICKREQLEN m1 = (trb, m2)"
      "after m1 (held trb) m2" "\<forall>b. trb = Some b \<longrightarrow> length b = TICKREQLEN"
    by (rule malloc_after [OF after_mount_ok [OF a1(2)]])
  note a12 = after_trans [OF a1(2) a2(2)]
  show ?thesis
  proof (cases "\<exists>tbuf trbuf. tb = Some tbuf \<and> trb = Some trbuf")
    case False
    then have "p9sk1 k call so afid uname akey off m = Some (ENOMEM, m2)"
      using a1(1) a2(1) by (auto simp: p9sk1_def split: option.splits)
    moreover have "held tb + held trb = 0 \<or> held tb + held trb = 1" using False by auto
    ultimately show ?thesis using that a12 by blast
  next
    case True
    then obtain tbuf trbuf where bb: "tb = Some tbuf" "trb = Some trbuf" by blast
    have a: "after m 2 m2" using a12 bb by simp
    obtain cc m3 where c: "read_random k CHALLEN m2 = (cc, m3)" "length cc = CHALLEN" "after m2 0 m3"
      by (rule read_random_total [OF assms(1) after_mount_ok [OF a]])
    obtain e4 l4 m4 where w: "kwrite k afid cc (of_nat CHALLEN) off m3 = Some (e4, l4, cc, m4)" "after m3 0 m4"
      by (rule kwrite_total [OF assms(1) after_mount_ok [OF c(3)], of "of_nat CHALLEN" cc]) (use c(2) in auto)
    obtain e5 l5 b5 m5 where r: "kread k afid trbuf (of_nat TICKREQLEN) (off + ucast l4) m4 = Some (e5, l5, b5, m5)"
        "after m4 0 m5" "length b5 = length trbuf"
      by (rule kread_total [OF assms(1) after_mount_ok [OF w(2)], of "of_nat TICKREQLEN" trbuf])
        (use a2(3) bb in auto)
    obtain tr where tr: "convM2TR b5 0 = Some tr" "treq_ok tr"
      by (rule convM2TR_total [of b5]) (use r(3) a2(3) bb in auto)
    let ?off = "off + ucast l4 + ucast l5"
    obtain e6 m6 where t: "p9sk1_tickets k call so afid uname akey cc tr b5 tbuf ?off m5 = Some (e6, m6)"
        "after m5 0 m6"
      by (rule p9sk1_tickets_total [where call = call, OF assms(1) after_mount_ok [OF r(2)] tr(2) assms(3-5), of b5 tbuf])
        (use r(3) a1(3) a2(3) bb in auto)
    have m4: "after m 2 m4" using after_trans [OF after_trans [OF a c(3)] w(2)] by simp
    have m5: "after m 2 m5" using after_trans [OF m4 r(2)] by simp
    have m6: "after m 2 m6" using after_trans [OF m5 t(2)] by simp
    have "p9sk1 k call so afid uname akey off m = Some
      (if e4 \<noteq> 0 \<or> l4 \<noteq> of_nat CHALLEN then (if e4 = 0 then EINVAL else e4, free_9p trb (free_9p tb m4))
       else if e5 \<noteq> 0 \<or> l5 \<noteq> of_nat TICKREQLEN
       then (if e5 = 0 then EINVAL else e5, free_9p trb (free_9p tb m5))
       else if tr_type tr \<noteq> AuthTreq then (0, free_9p trb (free_9p tb m5))
       else (e6, free_9p trb (free_9p tb m6)))"
      using a1(1) a2(1) bb c(1) w(1) r(1) tr(1) t(1)
      by (cases "e4 \<noteq> 0 \<or> l4 \<noteq> of_nat CHALLEN"; cases "e5 \<noteq> 0 \<or> l5 \<noteq> of_nat TICKREQLEN";
          cases "tr_type tr = AuthTreq") (simp_all add: p9sk1_def)
    then show ?thesis
      using that [of _ _ 0] after_free2 [OF m4, of trbuf tbuf] after_free2 [OF m5, of trbuf tbuf]
        after_free2 [OF m6, of trbuf tbuf] bb by (auto split: if_splits)
  qed
qed

section \<open>Offers\<close>

lemma cstr_at_bound:
  assumes "m ! l = 0" "q \<le> l" "l < length m"
  shows "length (cstr_at m q) \<le> l - q"
proof (rule ccontr)
  assume "\<not> ?thesis"
  then have "l - q < length (takeWhile (\<lambda>b. b \<noteq> 0) (drop q m))" by (simp add: cstr_at_def cstr_def)
  from nth_mem [OF this] takeWhile_nth [OF this] have "drop q m ! (l - q) \<noteq> 0"
    by (metis set_takeWhileD)
  then show False using assms by simp
qed

lemma strchr_Some:
  assumes "strchr m p c = Some d" "c \<noteq> 0"
  shows "d < length m" "p \<le> d" "cstr_at (m[d := 0]) p = takeWhile (\<lambda>b. b \<noteq> c) (cstr_at m p)"
    "length (takeWhile (\<lambda>b. b \<noteq> c) (cstr_at m p)) = d - p" "d - p < length (cstr_at m p)"
proof -
  let ?s = "cstr_at m p" and ?k = "length (takeWhile (\<lambda>b. b \<noteq> c) (cstr_at m p))"
  have c: "c \<in> set ?s" "d = p + ?k" using assms(1) by (auto simp: strchr_def Let_def split: if_splits)
  have "takeWhile (\<lambda>b. b \<noteq> c) ?s \<noteq> ?s" using c(1) by (auto simp: takeWhile_eq_all_conv)
  then have k: "?k < length ?s"
    using takeWhile_eq_take [of "\<lambda>b. b \<noteq> c" ?s] length_takeWhile_le [of "\<lambda>b. b \<noteq> c" ?s]
    by (metis le_neq_implies_less take_all order_refl)
  have s: "?s = takeWhile (\<lambda>b. b \<noteq> 0) (drop p m)" by (simp add: cstr_at_def cstr_def)
  have "length ?s \<le> length m - p" using length_cstr_le [of "drop p m"] by (simp add: cstr_at_def)
  then show "d < length m" "p \<le> d" "?k = d - p" "d - p < length ?s" using k c(2) by auto
  have dr: "drop p (m[d := 0]) = (drop p m)[?k := 0]" using c(2) by (simp add: drop_update_swap)
  have ts: "take ?k (drop p m) = take ?k ?s"
  proof -
    have "?s = take (length ?s) (drop p m)" unfolding s by (rule takeWhile_eq_take)
    then have "take ?k ?s = take ?k (take (length ?s) (drop p m))" by simp
    then show ?thesis using k by simp
  qed
  have nz: "0 \<notin> set (take ?k (drop p m))"
    using set_take_subset [of ?k ?s] unfolding ts by (auto simp: s dest: set_takeWhileD)
  have "(drop p m)[?k := 0] = take ?k (drop p m) @ 0 # drop (Suc ?k) (drop p m)"
    using \<open>d < length m\<close> c(2) by (intro upd_conv_take_nth_drop) simp
  moreover have "cstr (take ?k (drop p m) @ 0 # r) = take ?k (drop p m)" for r
    by (rule cstr_append_nul) (use nz in \<open>simp add: is_cstr_def\<close>)
  ultimately have "cstr ((drop p m)[?k := 0]) = take ?k (drop p m)" by simp
  then have "cstr_at (m[d := 0]) p = take ?k (drop p m)"
    by (simp only: cstr_at_def [of "m[d := 0]" p] dr)
  also have "\<dots> = takeWhile (\<lambda>b. b \<noteq> c) ?s"
    unfolding ts by (rule takeWhile_eq_take [symmetric])
  finally show "cstr_at (m[d := 0]) p = takeWhile (\<lambda>b. b \<noteq> c) ?s" .
qed

lemma strchr_cut: "m ! l = 0 \<Longrightarrow> l < length m \<Longrightarrow> m[d := 0] ! l = (0 :: byte)"
  by (cases "d = l") simp_all

lemma p9any_offer_bound:
  assumes "buf ! l = 0" "l < length buf" "p9any_offer buf = Inr (v2, choice)"
  shows "length choice \<le> l"
proof -
  let ?p = "if v2 then 4 else 0 :: nat"
  let ?b1 = "case strchr buf ?p (of_char CHR '' '') of None \<Rightarrow> buf | Some q \<Rightarrow> buf[q := 0]"
  have v2: "v2 \<longleftrightarrow> take 4 (cstr_at buf 0) = bytes_of ''v.2 ''"
    using assms(3) by (auto simp: p9any_offer_def Let_def split: option.splits if_splits)
  obtain d where d: "strchr ?b1 ?p (of_char CHR ''@'') = Some d"
      "cstr_at (?b1[d := 0]) ?p = bytes_of ''p9sk1''"
      "choice = bytes_of ''p9sk1'' @ bytes_of '' '' @ cstr_at (?b1[d := 0]) (d + 1)"
    using assms(3) v2 by (auto simp: p9any_offer_def Let_def split: option.splits if_splits)
  have b1: "?b1 ! l = 0" "l < length ?b1" using assms(1,2) by (auto simp: strchr_cut split: option.splits)
  have pl: "?p \<le> l"
  proof (cases v2)
    case True
    then have "length (bytes_of ''v.2 '') \<le> length (cstr_at buf 0)" using v2 by (metis length_take min.cobounded1)
    then show ?thesis using cstr_at_bound [OF assms(1) _ assms(2), of 0] by (simp add: bytes_of_def)
  qed simp
  have at: "of_char CHR ''@'' \<noteq> (0 :: byte)" by (simp add: of_char_def)
  note s = strchr_Some [OF d(1) at]
  have "d - ?p = length (bytes_of ''p9sk1'')" using s(3,4) d(2) by metis
  then have dp: "d = ?p + 5" using s(2) by (simp add: bytes_of_def)
  have "d - ?p < l - ?p" using s(5) cstr_at_bound [OF b1(1) pl b1(2)] by simp
  then have dl: "d + 1 \<le> l" by simp
  have "length (cstr_at (?b1[d := 0]) (d + 1)) \<le> l - (d + 1)"
    by (rule cstr_at_bound) (use b1 dl in \<open>auto simp: strchr_cut\<close>)
  then show ?thesis using d(3) dp dl by (simp add: bytes_of_def)
qed

text \<open>The confirmation of version 2.\<close>

lemma confirm_total:
  assumes "kern_ok k" "mount_ok m" "length buf = BSIZ"
  obtains e off' m' where "p9any_confirm k afid v2 buf off m = Some (e, off', m')" "after m 0 m'"
proof -
  obtain e1 l1 b1 m1 where r: "kread k afid buf (of_nat (BSIZ - 1)) off m = Some (e1, l1, b1, m1)"
      "after m 0 m1"
    by (rule kread_total [OF assms(1,2), of "of_nat (BSIZ - 1)" buf]) (use assms(3) in auto)
  have "p9any_confirm k afid v2 buf off m = Some (if \<not> v2 then (0, off, m)
      else if e1 \<noteq> 0 then (e1, off, m1)
      else if take 2 (cstr_at b1 0) \<noteq> bytes_of ''OK'' then (EINVAL, off + ucast l1, m1)
      else (0, off + ucast l1, m1))"
    using r(1) by (cases "e1 = 0") (simp_all add: p9any_confirm_def)
  then show ?thesis using that r(2) after_refl [OF assms(2)] by (auto split: if_splits)
qed

lemma after_drop2:
  "after m j m' \<Longrightarrow> after m (j - 2) (free_9p (Some a) (free_9p (Some b) m'))"
  by (auto simp: after_def free_9p_def mount_ok_def)

lemma authp9any_total:
  assumes "kern_ok k" "mount_ok m" "NAMELEN \<le> length uname" "7 \<le> length akey" "call SockSocket = 0"
  obtains e j m' where "authp9any_9p k call so afid uname akey m = Some (e, m')" "after m j m'"
    "0 \<le> j" "j = 0 \<or> e \<noteq> 0"
proof -
  obtain p1 m1 where a1: "malloc_9p (k_env k) BSIZ m = (p1, m1)" "after m (held p1) m1"
      "\<forall>b. p1 = Some b \<longrightarrow> length b = BSIZ" by (rule malloc_after [OF assms(2)])
  obtain p2 m2 where a2: "malloc_9p (k_env k) BSIZ m1 = (p2, m2)" "after m1 (held p2) m2"
      "\<forall>b. p2 = Some b \<longrightarrow> length b = BSIZ" by (rule malloc_after [OF after_mount_ok [OF a1(2)]])
  note a12 = after_trans [OF a1(2) a2(2)]
  show ?thesis
  proof (cases "\<exists>b b'. p1 = Some b \<and> p2 = Some b'")
    case False
    then have "authp9any_9p k call so afid uname akey m = Some (ENOMEM, m2)"
      using a1(1) a2(1) by (auto simp: authp9any_9p_def split: option.splits)
    with that [OF _ a12] show ?thesis by simp
  next
    case True
    then obtain buf buf2 where bb: "p1 = Some buf" "p2 = Some buf2" by blast
    have a: "after m 2 m2" using a12 bb by simp
    obtain e3 l3 b3 m3 where r: "kread k afid buf (of_nat (BSIZ - 1)) 0 m2 = Some (e3, l3, b3, m3)"
        "after m2 0 m3" "l3 \<le> of_nat (BSIZ - 1)" "length b3 = length buf"
      by (rule kread_total [OF assms(1) after_mount_ok [OF a], of "of_nat (BSIZ - 1)" buf])
        (use a1(3) bb in auto)
    have m3: "after m 2 m3" using after_trans [OF a r(2)] by simp
    have l3: "unat l3 \<le> 127" using r(3) by (simp add: word_le_nat_alt)
    have lb: "length b3 = 128" "length buf2 = 128" using r(4) a1(3) a2(3) bb by simp_all
    obtain b4 where b4: "wrn b3 (unat l3) [0] = Some b4" using l3 lb by (simp add: wrn_def)
    have b4l: "b4 ! unat l3 = 0" "length b4 = 128"
      using nth_wrn [OF b4] length_wrn [OF b4] lb by simp_all
    show ?thesis
    proof (cases "e3 = 0")
      case False
      then have "authp9any_9p k call so afid uname akey m = Some (e3, m3)"
        using a1(1) a2(1) bb r(1) by (simp add: authp9any_9p_def)
      with that [OF _ m3] False show ?thesis by simp
    next
      case e3: True
      show ?thesis
      proof (cases "p9any_offer b4")
        case (Inl e)
        then have "authp9any_9p k call so afid uname akey m = Some (e, free_9p p2 (free_9p p1 m3))"
          using a1(1) a2(1) bb r(1) e3 b4 by (simp add: authp9any_9p_def)
        with that [OF _ after_drop2 [OF m3, of buf2 buf]] bb show ?thesis by simp
      next
        case (Inr vc)
        then obtain v2 choice where vc: "p9any_offer b4 = Inr (v2, choice)" by (cases vc) auto
        let ?n = "length choice"
        have n: "?n \<le> 127"
          using p9any_offer_bound [OF b4l(1) _ vc] l3 b4l(2) by simp
        obtain b5 where b5: "wrn buf2 0 (take (BSIZ - 1) choice @ [0]) = Some b5" "length b5 = 128"
          using n lb(2) by (auto simp: wrn_def)
        have un: "unat (of_nat (?n + 1) :: u32) = ?n + 1" using n by (intro unat_of_nat_small) simp
        obtain e6 l6 m6 where w: "kwrite k afid b5 (of_nat (?n + 1)) (ucast l3) m3 = Some (e6, l6, b5, m6)"
            "after m3 0 m6"
          by (rule kwrite_total [OF assms(1) after_mount_ok [OF m3], of "of_nat (?n + 1)" b5])
            (use un n b5(2) in auto)
        have m6: "after m 2 m6" using after_trans [OF m3 w(2)] by simp
        obtain e7 o7 m7 where c: "p9any_confirm k afid v2 b4 (ucast l3 + ucast l6) m6 = Some (e7, o7, m7)"
            "after m6 0 m7"
          by (rule confirm_total [OF assms(1) after_mount_ok [OF m6] b4l(2)])
        have m7: "after m 2 m7" using after_trans [OF m6 c(2)] by simp
        obtain e8 j8 m8 where s: "p9sk1 k call so afid uname akey o7 m7 = Some (e8, m8)" "after m7 j8 m8"
            "j8 = 0 \<or> j8 = 1 \<and> e8 = ENOMEM"
          by (rule p9sk1_total [where call = call, OF assms(1) after_mount_ok [OF m7] assms(3-5)])
        have m8: "after m (2 + j8) m8" by (rule after_trans [OF m7 s(2)])
        have "authp9any_9p k call so afid uname akey m = Some
          (if e6 \<noteq> 0 \<or> l6 \<noteq> of_nat (?n + 1) then (if e6 = 0 then EIO else e6, free_9p p2 (free_9p p1 m6))
           else if e7 \<noteq> 0 then (e7, free_9p p2 (free_9p p1 m7))
           else (e8, free_9p p2 (free_9p p1 m8)))"
          using a1(1) a2(1) bb r(1) e3 b4 vc b5(1) w(1) s(1) c(1)
          by (cases "e6 \<noteq> 0 \<or> l6 \<noteq> of_nat (?n + 1)"; cases "e7 = 0") (simp_all add: authp9any_9p_def)
        then show ?thesis
          using that after_drop2 [OF m6, of buf2 buf] after_drop2 [OF m7, of buf2 buf]
            after_drop2 [OF m8, of buf2 buf] bb s(3) by (auto split: if_splits)
      qed
    qed
  qed
qed

end
