(* ===== verification/AuthProps.thy ===== *)
theory AuthProps
  imports AuthProofs ProtoProps
begin

text \<open>
  The properties of the authentication of \<^verbatim>\<open>kext/auth.c\<close>: what the two sides pack is what they
  unpack, whose last message is accepted, that the protocol ends whatever the servers send, and the
  case in which it succeeds without having authenticated anybody.
\<close>

section \<open>A kernel for the examples\<close>

definition slow_kern :: "streams kern" where
  "slow_kern = \<lparr>k_env = slow_env, k_tx = (\<lambda>w. zero_fcall []), k_rx = (\<lambda>w. zero_fcall None),
     k_u32 = (\<lambda>w. 0), k_random = (\<lambda>w n. (replicate n 0, w)), k_sizeof_Dir = 120\<rparr>"

lemma slow_kern_ok: "kern_ok slow_kern"
  by (simp add: kern_ok_def slow_kern_def slow_recv_ok stack_ok_def zero_fcall_def)

definition fresh_mount :: "byte list \<Rightarrow> streams mount" where
  "fresh_mount reply = (slow_mount reply)\<lparr>mt_rpcbuf := replicate MAXMSG 0\<rparr>"

lemma fresh_mount_ok: "mount_ok (fresh_mount reply)"
  by (simp add: mount_ok_def fresh_mount_def slow_mount_def ISSET_def)

lemma fresh_mount_live: "mt_live (fresh_mount reply) = 0"
  by (simp add: fresh_mount_def slow_mount_def)

section \<open>Tickets and authenticators\<close>

text \<open>
  C26. A ticket packed by \<open>convT2M\<close> under a key, at any place of a buffer, is unpacked by \<open>convM2T\<close>
  under the same key to the same ticket; only the ticket's bytes of the buffer change.
\<close>

theorem ticket_round_trip:
  assumes "ticket_ok t" "DESKEYLEN \<le> length key" "ap + TICKETLEN \<le> length buf"
  shows "\<exists>buf' b. convT2M t buf ap (Some key) = Some (TICKETLEN, buf') \<and> take ap buf' = take ap buf
    \<and> drop (ap + TICKETLEN) buf' = drop (ap + TICKETLEN) buf
    \<and> convM2T buf' ap (Some key) = Some (t, b)"
proof -
  have len: "ticket_len t" using assms(1) by (simp add: ticket_ok_def)
  note l = length_ticket_bytes [OF len]
  have "ap + length (ticket_bytes t) \<le> length buf" "8 \<le> length (ticket_bytes t)"
    using l assms(3) by simp_all
  from pack_key [OF prints_ticket [OF len] this(1) assms(2) this(2)] l obtain buf' where
    b: "convT2M t buf ap (Some key) = Some (TICKETLEN, buf')" "take ap buf' = take ap buf"
      "drop (ap + TICKETLEN) buf' = drop (ap + TICKETLEN) buf"
      "unlock_buf (Some key) buf' ap TICKETLEN
        = Some (take ap buf @ ticket_bytes t @ drop (ap + TICKETLEN) buf)"
    unfolding convT2M_def by auto
  have "length (take ap buf) = ap" using assms(3) by simp
  from unpack_ticket [OF assms(1) this b(4)] b(1-3) show ?thesis by blast
qed

definition small_ticket :: Ticket where
  "small_ticket = \<lparr>t_num = AuthTc, t_chal = replicate 8 1, t_cuid = replicate 28 0,
     t_suid = replicate 28 0, t_key = replicate 7 3\<rparr>"

theorem ticket_round_trip_witness:
  "\<exists>buf' b. convT2M small_ticket (replicate 150 9) 72 (Some (replicate 7 5)) = Some (72, buf')
    \<and> take 72 buf' = replicate 72 9 \<and> convM2T buf' 72 (Some (replicate 7 5)) = Some (small_ticket, b)"
proof -
  have "ticket_ok small_ticket" by (simp add: small_ticket_def ticket_ok_def ticket_len_def)
  from ticket_round_trip [OF this, of "replicate 7 5" 72 "replicate 150 9"] show ?thesis by auto
qed

text \<open>
  C27. The server's last message is accepted exactly when it is, under the ticket's key, the
  authenticator that \<open>convA2M\<close> makes of \<^verbatim>\<open>AuthAs\<close>, our own challenge and the id 0: whoever does not
  know the key cannot answer the challenge.
\<close>

theorem authenticator_accepted_iff:
  assumes "length cchal = CHALLEN" "DESKEYLEN \<le> length ky" "AUTHENTLEN \<le> length tbuf"
  shows "check_authenticator cchal ky tbuf = Some 0 \<longleftrightarrow>
    (\<exists>b. length b = length tbuf
       \<and> convA2M \<lparr>a_num = AuthAs, a_chal = cchal, a_id = 0\<rparr> b 0 (Some ky) = Some (AUTHENTLEN, tbuf))"
  using assms by (rule check_authenticator_iff)

theorem authenticator_accepted_iff_witness:
  "\<exists>tbuf. convA2M \<lparr>a_num = AuthAs, a_chal = replicate 8 2, a_id = 0\<rparr> (replicate 13 0) 0 (Some (replicate 7 5))
      = Some (13, tbuf) \<and> check_authenticator (replicate 8 2) (replicate 7 5) tbuf = Some 0"
proof -
  obtain tbuf where t: "convA2M \<lparr>a_num = AuthAs, a_chal = replicate 8 2, a_id = 0\<rparr> (replicate 13 0) 0
      (Some (replicate 7 5)) = Some (AUTHENTLEN, tbuf)" "length tbuf = length (replicate 13 (0 :: byte))"
    by (rule convA2M_total [of "\<lparr>a_num = AuthAs, a_chal = replicate 8 2, a_id = 0\<rparr>" "replicate 7 5" 0
          "replicate 13 0"]) auto
  then have "length (replicate 13 (0 :: byte)) = length tbuf" by simp
  with authenticator_accepted_iff [of "replicate 8 2" "replicate 7 5" tbuf] t show ?thesis by auto
qed

section \<open>The protocol\<close>

text \<open>
  C25. Whatever the file server and the authentication server send, \<open>authp9any_9p\<close> ends without
  leaving its buffers (the choice it prints fits), with the send lock free; if it succeeds it has
  freed everything it allocated.
\<close>

theorem authp9any_ends:
  assumes "kern_ok k" "mount_ok m" "NAMELEN \<le> length uname" "DESKEYLEN \<le> length akey"
    "call SockSocket = 0"
  shows "\<exists>e m'. authp9any_9p k call so afid uname akey m = Some (e, m') \<and> mount_ok m'
    \<and> (e = 0 \<longrightarrow> mt_live m' = mt_live m)"
proof -
  obtain e j m' where "authp9any_9p k call so afid uname akey m = Some (e, m')" "after m j m'"
    "j = 0 \<or> e \<noteq> 0" by (rule authp9any_total [where call = call, OF assms])
  then show ?thesis by (auto simp: after_def)
qed

theorem authp9any_ends_witness:
  "\<exists>e m'. authp9any_9p slow_kern (\<lambda>_. 0) 7 2 (replicate 256 0) (replicate 7 1) (fresh_mount [1, 2])
      = Some (e, m') \<and> mount_ok m'"
proof -
  have "\<exists>e m'. authp9any_9p slow_kern (\<lambda>_. 0) 7 2 (replicate 256 0) (replicate 7 1) (fresh_mount [1, 2])
      = Some (e, m') \<and> mount_ok m' \<and> (e = 0 \<longrightarrow> mt_live m' = mt_live (fresh_mount [1, 2]))"
    by (rule authp9any_ends [OF slow_kern_ok fresh_mount_ok]) simp_all
  then show ?thesis by blast
qed

text \<open>
  C39. When the server answers the challenge with a ticket request of another type than
  \<^verbatim>\<open>AuthTreq\<close>, \<open>p9sk1\<close> stops with error 0, which is success: no ticket was fetched, and nothing of the
  server was checked.
\<close>

theorem p9sk1_accepts_any_other_request:
  assumes "malloc_9p (k_env k) (2 * TICKETLEN + AUTHENTLEN) m = (Some tbuf, m1)"
    and "malloc_9p (k_env k) TICKREQLEN m1 = (Some trbuf, m2)"
    and "read_random k CHALLEN m2 = (cchal, m3)"
    and "kwrite k afid cchal (of_nat CHALLEN) off m3 = Some (0, of_nat CHALLEN, cchal, m4)"
    and "kread k afid trbuf (of_nat TICKREQLEN) (off + of_nat CHALLEN) m4
          = Some (0, of_nat TICKREQLEN, treq, m5)"
    and "length treq = TICKREQLEN" "treq ! 0 \<noteq> AuthTreq"
  shows "p9sk1 k call so afid uname akey off m = Some (0, free_9p (Some trbuf) (free_9p (Some tbuf) m5))"
proof -
  obtain tr where "convM2TR treq 0 = Some tr" "tr_type tr = treq ! 0"
    by (rule convM2TR_total [of treq]) (use assms(6) in auto)
  then show ?thesis using assms by (simp add: p9sk1_def)
qed

definition rwrite :: "u32 \<Rightarrow> tx_call" where
  "rwrite n = (zero_fcall [])\<lparr>fc_type := Rwrite, fc_tag := 3, fc_count := n\<rparr>"

lemma rwrite_ok: "printable (rwrite n)" "strings_fit dotu (rwrite n)" "wire_size dotu (rwrite n) = 11"
  "fc_type (rwrite n) = Rwrite" "fc_count (rwrite n) = n"
  by (simp_all add: rwrite_def printable_def strings_fit_def wire_strings_def wire_size_def
      wire_payload_def msg_types_def zero_fcall_def)

text \<open>In the example the server's ticket request has type 9.\<close>

theorem p9sk1_accepts_any_other_request_witness:
  "\<exists>m'. p9sk1 slow_kern (\<lambda>_. 0) 7 2 (replicate 256 0) (replicate 7 1) 0
     ((fresh_mount (wire False (rwrite 8) @ wire False (rread (replicate 141 9))))\<lparr>mt_msize := 8192\<rparr>)
     = Some (0, m')"
proof -
  let ?w = "wire False (rwrite 8) @ wire False (rread (replicate 141 9))"
  let ?m = "(fresh_mount ?w)\<lparr>mt_msize := 8192\<rparr>"
  let ?ok = "\<lambda>m. mount_ok m \<and> mt_msize m = 8192 \<and> ISSET (mt_flags m) F_DOTU = False"
  have m0: "?ok ?m" "fst (mt_world ?m) = ?w"
    by (simp_all add: fresh_mount_def slow_mount_def mount_ok_def ISSET_def)
  have mal: "\<exists>m'. malloc_9p slow_env n m = (Some (replicate n 0), m') \<and> ?ok m'
      \<and> fst (mt_world m') = fst (mt_world m)" if "?ok m" for n m
    using slow_malloc [of "mt_world m" n] that by (auto simp: malloc_9p_def mount_ok_def)
  obtain m1 where m1: "malloc_9p slow_env 157 ?m = (Some (replicate 157 0), m1)" "?ok m1"
      "fst (mt_world m1) = ?w" using mal [OF m0(1), of 157] m0(2) by auto
  obtain m2 where m2: "malloc_9p slow_env 141 m1 = (Some (replicate 141 0), m2)" "?ok m2"
      "fst (mt_world m2) = ?w" using mal [OF m1(2), of 141] m1(3) by auto
  have k: "k_env slow_kern = slow_env" "k_tx slow_kern w = zero_fcall []" for w by (simp_all add: slow_kern_def)
  have wa: "answered slow_env fst m2 tx (rwrite 8) (wire False (rread (replicate 141 9)))" for tx
    using m2(2,3) by (intro slow_answered) (simp_all add: rwrite_ok)
  obtain m4 where m4: "kwrite slow_kern 2 (replicate 8 0) 8 0 m2 = Some (0, 8, replicate 8 0, m4)"
      "after m2 0 m4" "mt_msize m4 = mt_msize m2"
      "fst (mt_world m4) = wire False (rread (replicate 141 9)) @ []"
    using write_answered [OF wa _ zero_stack_ok, where count = 8 and buf = "replicate 8 0"] m2(2)
    by (simp add: kwrite_def k rwrite_ok) blast
  note r = rread_ok [of "replicate 141 9", simplified]
  have ok4: "?ok m4" using m4(2,3) m2(2) by (simp add: after_def)
  have ra: "answered slow_env fst m4 tx (rread (replicate 141 9)) []" for tx
    using ok4 m4(4) by (intro slow_answered) (simp_all add: r)
  obtain m5 where m5: "kread slow_kern 2 (replicate 141 0) 141 8 m4 = Some (0, 141, replicate 141 9, m5)"
    using read_answered [OF ra _ zero_stack_ok, where count = 141 and buf = "replicate 141 0"] ok4
    by (simp add: kread_def k r rread_def) blast
  have "p9sk1 slow_kern (\<lambda>_. 0) 7 2 (replicate 256 0) (replicate 7 1) 0 ?m
      = Some (0, free_9p (Some (replicate 141 0)) (free_9p (Some (replicate 157 0)) m5))"
    by (rule p9sk1_accepts_any_other_request [where cchal = "replicate 8 0" and treq = "replicate 141 9"])
      (use m1(1) m2(1) m4(1) m5 in \<open>simp_all add: k read_random_def slow_kern_def\<close>)
  then show ?thesis by blast
qed

end
