(* ===== verification/Vnode.thy ===== *)
theory Vnode
  imports Kernel
begin

text \<open>
  The nodes of \<^verbatim>\<open>kext/9p.h\<close> and the part of \<^verbatim>\<open>kext/vnops.c\<close> that keeps them: the locks
  \<open>nlock_9p\<close> and \<open>nunlock_9p\<close>, the cached directory entry (\<open>ngetdir_9p\<close>, \<open>dirvtype_9p\<close>), and the
  hash table of nodes (\<open>nget_9p\<close>, \<open>ndel_9p\<close>).

  A handler is a function of the state that runs alone, except where the code sleeps; a wait that
  only the thread itself could end (a lock it holds already) is \<^term>\<open>None\<close>, like an access to freed
  memory. Blocks have addresses of type \<^typ>\<open>nat\<close> that are not used twice.
\<close>

section \<open>Nodes\<close>

abbreviation NODE_INIT :: u32 where "NODE_INIT \<equiv> 0x1"
abbreviation NODE_WAITINIT :: u32 where "NODE_WAITINIT \<equiv> 0x2"
abbreviation NODE_RECL :: u32 where "NODE_RECL \<equiv> 0x4"
abbreviation NODE_WAITRECL :: u32 where "NODE_WAITRECL \<equiv> 0x8"
abbreviation NODE_MMAPPED :: u32 where "NODE_MMAPPED \<equiv> 0x10"

datatype lcktype_9p = NODE_LCK_NONE | NODE_LCK_SHARED | NODE_LCK_EXCLUSIVE

text \<open>The kernel's read-write lock \<^verbatim>\<open>np->lck\<close>.\<close>

datatype rwlock = Unlocked | SharedBy nat | Exclusive

record openfid_9p =
  of_fid :: u32
  of_ref :: u32

text \<open>
  \<open>np_vp\<close> is \<^term>\<open>None\<close> for \<^verbatim>\<open>NULL\<close>. The entries of \<^verbatim>\<open>direntries\<close> come with the string area they
  point into. The strings of \<^verbatim>\<open>np->dir\<close> are never valid: \<open>ngetdir_9p\<close> frees their block.
\<close>

record node_9p =
  np_vp :: "nat option"
  np_lck :: rwlock
  np_lcktype :: lcktype_9p
  np_flags :: u32
  np_iounit :: u32
  np_fid :: u32
  np_dir :: "strp Dir"
  np_dirtimer :: int
  np_openfid :: "openfid_9p list"
  np_direntries :: "(strp Dir list \<times> memory) option"
  np_ndirentries :: u32

text \<open>
  The client's state: the mount of the protocol code, the hash table with \<^verbatim>\<open>nodelen\<close> (a mask) and
  whether \<^verbatim>\<open>nodelck\<close> is held, the nodes by address, and \<^verbatim>\<open>vnode_fsnode\<close>, which the kernel keeps.
  \<open>vf_next\<close> and \<open>vf_nextvp\<close> are the next unused addresses of a node and of a vnode.
\<close>

record 'w vfs =
  vf_mt :: "'w mount"
  vf_nodelen :: u64
  vf_hash :: "nat \<Rightarrow> nat list"
  vf_nodelck :: bool
  vf_node :: "nat \<Rightarrow> node_9p option"
  vf_next :: nat
  vf_fsnode :: "nat \<Rightarrow> nat option"
  vf_nextvp :: nat
  vf_uid :: u32
  vf_gid :: u32

section \<open>The kernel's interface\<close>

text \<open>More of the error numbers of \<^verbatim>\<open>sys/errno.h\<close>.\<close>

definition ENOTSUP :: int where [simp]: "ENOTSUP = 45"
definition EJUSTRETURN :: int where [simp]: "EJUSTRETURN = -2"

datatype vtype = VNON | VREG | VDIR | VBLK | VCHR | VLNK | VSOCK | VFIFO | VBAD | VSTR | VCPLX

datatype vquery = IsVroot | IsRdonly | IsNocache | IsInuse bool

text \<open>The calls that only change the kernel's own state and return an error or nothing.\<close>

datatype kcall =
    LckAlloc
  | HashInit
  | BufMap
  | UioCreate
  | Wakeup nat
  | VnodeGetwithvid nat
  | VnodeGet nat
  | VnodeRef nat
  | VnodePut nat
  | VnodeRele nat
  | VnodeSettag nat
  | VnodeSetnocache nat
  | VnodeSetnoreadahead nat
  | VnodeRecycle nat
  | VnodeRemovefsref nat
  | CacheEnter nat "nat option"
  | CachePurge nat
  | CachePurgeNegatives nat
  | UbcMsync nat int int bool \<comment> \<open>push dirty pages, or invalidate\<close>
  | UbcSetsize nat int
  | ClusterPush nat

text \<open>
  The calls that may call the client back: paging a range of a file in or out, writing a buffer,
  revoking a vnode, and flushing the vnodes of a mount but one, with or without force.
\<close>

datatype vfscall =
    ClusterPagein nat int
  | ClusterPageout nat int
  | BufBwrite nat
  | VnRevoke nat
  | Vflush "nat option" bool

record vnode_fsparam =
  vnfs_dvp :: "nat option"
  vnfs_fsnode :: nat
  vnfs_markroot :: bool
  vnfs_filesize :: u64
  vnfs_vtype :: vtype
  vnfs_rdev :: u32
  vnfs_flags :: u32

abbreviation VNFS_NOCACHE :: u32 where "VNFS_NOCACHE \<equiv> 0x1"
abbreviation VNFS_ADDFSREF :: u32 where "VNFS_ADDFSREF \<equiv> 0x4"

record componentname =
  cn_name :: memory
  cn_namelen :: int
  cn_flags :: u32
  cn_nameiop :: nat

abbreviation ISDOTDOT :: u32 where "ISDOTDOT \<equiv> 0x2000"
abbreviation MAKEENTRY :: u32 where "MAKEENTRY \<equiv> 0x4000"
abbreviation ISLASTCN :: u32 where "ISLASTCN \<equiv> 0x8000"

text \<open>
  A \<^verbatim>\<open>uio\<close>: what is left to move, the file offset, and the user's bytes. When reading they are the
  bytes delivered so far; when writing, the bytes from the current position of the user's buffer on,
  which \<^verbatim>\<open>uio_setresid\<close> and \<^verbatim>\<open>uio_setoffset\<close> do not move.
\<close>

record uio =
  uio_resid :: int
  uio_offset :: int
  uio_data :: "byte list"

text \<open>The arguments of \<^verbatim>\<open>cluster_write\<close>: the old and the new size, and the ranges to zero.\<close>

record cluster_args =
  ca_oldeof :: int
  ca_neweof :: int
  ca_zh :: int
  ca_zt :: int
  ca_flags :: u32

text \<open>
  The kernel as a parameter. \<open>kp_sleep np\<close> is what the other threads do to the state while this one
  sleeps on the node \<open>np\<close>; \<open>kp_uiomove\<close> gives the error of a copy to or from the user, and how many
  bytes it moved when it failed. \<^verbatim>\<open>cluster_read\<close> and \<^verbatim>\<open>cluster_write\<close> move the data through the page
  cache, and may call the client back for pages. \<open>kp_bsize\<close> is the block size of the vnode's mount, unless it has none;
  \<open>kp_pagesize\<close> is \<^verbatim>\<open>PAGE_SIZE\<close>.
\<close>

record 'w kpi =
  kp_kern :: "'w kern"
  kp_sizeof_node :: nat
  kp_sizeof_mount :: nat
  kp_qid :: "'w \<Rightarrow> Qid"
  kp_time :: "'w \<Rightarrow> int"
  kp_vtype :: "nat \<Rightarrow> 'w \<Rightarrow> vtype"
  kp_is :: "vquery \<Rightarrow> nat \<Rightarrow> 'w \<Rightarrow> bool"
  kp_ubcsize :: "nat \<Rightarrow> 'w \<Rightarrow> int"
  kp_call :: "kcall \<Rightarrow> 'w \<Rightarrow> int \<times> 'w"
  kp_create :: "vnode_fsparam \<Rightarrow> 'w \<Rightarrow> int \<times> 'w"
  kp_cache_lookup :: "nat \<Rightarrow> byte list \<Rightarrow> 'w \<Rightarrow> int \<times> nat option \<times> 'w"
  kp_getparent :: "nat \<Rightarrow> 'w \<Rightarrow> nat option \<times> 'w"
  kp_uiomove :: "'w \<Rightarrow> nat \<Rightarrow> int \<times> nat \<times> 'w"
  kp_sleep :: "nat \<Rightarrow> 'w vfs \<Rightarrow> 'w vfs"
  kp_cluster_read :: "nat \<Rightarrow> uio \<Rightarrow> int \<Rightarrow> u32 \<Rightarrow> 'w vfs \<Rightarrow> int \<times> uio \<times> 'w vfs"
  kp_cluster_write :: "nat \<Rightarrow> uio \<Rightarrow> cluster_args \<Rightarrow> 'w vfs \<Rightarrow> int \<times> uio \<times> 'w vfs"
  kp_vfscall :: "vfscall \<Rightarrow> 'w vfs \<Rightarrow> int \<times> 'w vfs"
  kp_hashmask :: u64
  kp_fsid :: u32
  kp_bsize :: "nat \<Rightarrow> 'w \<Rightarrow> nat option"
  kp_pagesize :: u64

abbreviation vworld :: "'w vfs \<Rightarrow> 'w" where
  "vworld s \<equiv> mt_world (vf_mt s)"

abbreviation set_world :: "'w \<Rightarrow> 'w vfs \<Rightarrow> 'w vfs" where
  "set_world w s \<equiv> s\<lparr>vf_mt := (vf_mt s)\<lparr>mt_world := w\<rparr>\<rparr>"

definition kcall :: "'w kpi \<Rightarrow> kcall \<Rightarrow> 'w vfs \<Rightarrow> int \<times> 'w vfs" where
  "kcall K c s = (case kp_call K c (vworld s) of (e, w) \<Rightarrow> (e, set_world w s))"

text \<open>A call whose result is not looked at.\<close>

definition kdo :: "'w kpi \<Rightarrow> kcall \<Rightarrow> 'w vfs \<Rightarrow> 'w vfs" where
  "kdo K c s = snd (kcall K c s)"

abbreviation vis :: "'w kpi \<Rightarrow> vquery \<Rightarrow> nat \<Rightarrow> 'w vfs \<Rightarrow> bool" where
  "vis K q vp s \<equiv> kp_is K q vp (vworld s)"

abbreviation vnode_vtype :: "'w kpi \<Rightarrow> nat \<Rightarrow> 'w vfs \<Rightarrow> vtype" where
  "vnode_vtype K vp s \<equiv> kp_vtype K vp (vworld s)"

abbreviation dotu_of :: "'w vfs \<Rightarrow> bool" where
  "dotu_of s \<equiv> ISSET (mt_flags (vf_mt s)) F_DOTU"

section \<open>The 9P operations on the state\<close>

definition vmalloc :: "'w kpi \<Rightarrow> nat \<Rightarrow> 'w vfs \<Rightarrow> memory option \<times> 'w vfs" where
  "vmalloc K n s = (case malloc_9p (k_env (kp_kern K)) n (vf_mt s) of (p, m) \<Rightarrow> (p, s\<lparr>vf_mt := m\<rparr>))"

definition vfree :: "bool \<Rightarrow> 'w vfs \<Rightarrow> 'w vfs" where
  "vfree has s = (if has then s\<lparr>vf_mt := free_9p (Some []) (vf_mt s)\<rparr> else s)"

abbreviation ktx :: "'w kpi \<Rightarrow> 'w vfs \<Rightarrow> tx_call" where "ktx K s \<equiv> k_tx (kp_kern K) (vworld s)"
abbreviation krx :: "'w kpi \<Rightarrow> 'w vfs \<Rightarrow> rx_call" where "krx K s \<equiv> k_rx (kp_kern K) (vworld s)"

definition vwalk :: "'w kpi \<Rightarrow> u32 \<Rightarrow> memory option \<Rightarrow> int \<Rightarrow> u32 \<Rightarrow> Qid \<Rightarrow> 'w vfs
    \<Rightarrow> (int \<times> u32 \<times> Qid \<times> 'w vfs) option" where
  "vwalk K fid name nname fid0 qid0 s = do {
     (e, f, q, m) \<leftarrow> walk_9p (k_env (kp_kern K)) (ktx K s) (krx K s) fid name nname fid0 qid0 (vf_mt s);
     Some (e, f, q, s\<lparr>vf_mt := m\<rparr>) }"

definition vopen :: "'w kpi \<Rightarrow> u32 \<Rightarrow> byte \<Rightarrow> 'w vfs \<Rightarrow> (int \<times> u32 \<times> 'w vfs) option" where
  "vopen K fid mode s = do {
     (e, q, iounit, m) \<leftarrow> open_9p (k_env (kp_kern K)) (ktx K s) (krx K s) fid mode
        (kp_qid K (vworld s)) (k_u32 (kp_kern K) (vworld s)) (vf_mt s);
     Some (e, iounit, s\<lparr>vf_mt := m\<rparr>) }"

definition vcreate :: "'w kpi \<Rightarrow> u32 \<Rightarrow> memory \<Rightarrow> int \<Rightarrow> byte \<Rightarrow> u32 \<Rightarrow> byte list \<Rightarrow> 'w vfs
    \<Rightarrow> (int \<times> u32 \<times> 'w vfs) option" where
  "vcreate K fid name nname mode perm ext s = do {
     (e, q, iounit, m) \<leftarrow> create_9p (k_env (kp_kern K)) (ktx K s) (krx K s) fid (Some name) nname mode
        perm ext (kp_qid K (vworld s)) (k_u32 (kp_kern K) (vworld s)) (vf_mt s);
     Some (e, iounit, s\<lparr>vf_mt := m\<rparr>) }"

definition vread :: "'w kpi \<Rightarrow> u32 \<Rightarrow> memory \<Rightarrow> u32 \<Rightarrow> u64 \<Rightarrow> 'w vfs
    \<Rightarrow> (int \<times> u32 \<times> memory \<times> 'w vfs) option" where
  "vread K fid p n off s = do {
     (e, l, p, m) \<leftarrow> kread (kp_kern K) fid p n off (vf_mt s);
     Some (e, l, p, s\<lparr>vf_mt := m\<rparr>) }"

definition vwrite :: "'w kpi \<Rightarrow> u32 \<Rightarrow> memory \<Rightarrow> u32 \<Rightarrow> u64 \<Rightarrow> 'w vfs
    \<Rightarrow> (int \<times> u32 \<times> memory \<times> 'w vfs) option" where
  "vwrite K fid p n off s = do {
     (e, l, p, m) \<leftarrow> kwrite (kp_kern K) fid p n off (vf_mt s);
     Some (e, l, p, s\<lparr>vf_mt := m\<rparr>) }"

definition vclunk :: "'w kpi \<Rightarrow> u32 \<Rightarrow> 'w vfs \<Rightarrow> (int \<times> 'w vfs) option" where
  "vclunk K fid s = do {
     (e, m) \<leftarrow> clunk_9p (k_env (kp_kern K)) (ktx K s) (krx K s) fid (vf_mt s);
     Some (e, s\<lparr>vf_mt := m\<rparr>) }"

definition vremove :: "'w kpi \<Rightarrow> u32 \<Rightarrow> 'w vfs \<Rightarrow> (int \<times> 'w vfs) option" where
  "vremove K fid s = do {
     (e, m) \<leftarrow> remove_9p (k_env (kp_kern K)) (ktx K s) (krx K s) fid (vf_mt s);
     Some (e, s\<lparr>vf_mt := m\<rparr>) }"

definition vstat :: "'w kpi \<Rightarrow> u32 \<Rightarrow> 'w vfs \<Rightarrow> (int \<times> (strp Dir \<times> memory) option \<times> 'w vfs) option" where
  "vstat K fid s = do {
     (e, dp, m) \<leftarrow> stat_9p (k_env (kp_kern K)) (ktx K s) (krx K s) (k_sizeof_Dir (kp_kern K)) fid (vf_mt s);
     Some (e, dp, s\<lparr>vf_mt := m\<rparr>) }"

definition vwstat :: "'w kpi \<Rightarrow> u32 \<Rightarrow> byte list Dir \<Rightarrow> 'w vfs \<Rightarrow> (int \<times> 'w vfs) option" where
  "vwstat K fid d s = do {
     (e, m) \<leftarrow> wstat_9p (k_env (kp_kern K)) (ktx K s) (krx K s) fid d (vf_mt s);
     Some (e, s\<lparr>vf_mt := m\<rparr>) }"

section \<open>Locks\<close>

definition upd_node :: "nat \<Rightarrow> (node_9p \<Rightarrow> node_9p) \<Rightarrow> 'w vfs \<Rightarrow> 'w vfs" where
  "upd_node np f s = s\<lparr>vf_node := (vf_node s)(np := map_option f (vf_node s np))\<rparr>"

definition nlock_9p :: "nat \<Rightarrow> lcktype_9p \<Rightarrow> 'w vfs \<Rightarrow> 'w vfs option" where
  "nlock_9p np type s = do {
     n \<leftarrow> vf_node s np;
     l \<leftarrow> (if type = NODE_LCK_SHARED
           then (case np_lck n of Unlocked \<Rightarrow> Some (SharedBy 1) | SharedBy k \<Rightarrow> Some (SharedBy (k + 1))
                 | Exclusive \<Rightarrow> None)
           else (case np_lck n of Unlocked \<Rightarrow> Some Exclusive | _ \<Rightarrow> None));
     Some (upd_node np (\<lambda>n. n\<lparr>np_lck := l, np_lcktype := type\<rparr>) s)
   }"

definition nunlock_9p :: "nat \<Rightarrow> 'w vfs \<Rightarrow> 'w vfs option" where
  "nunlock_9p np s = do {
     n \<leftarrow> vf_node s np;
     case np_lcktype n of
       NODE_LCK_SHARED \<Rightarrow>
         (case np_lck n of
            SharedBy k \<Rightarrow> Some (upd_node np (\<lambda>n. n\<lparr>np_lck := if k \<le> 1 then Unlocked else SharedBy (k - 1)\<rparr>) s)
          | _ \<Rightarrow> None)
     | NODE_LCK_EXCLUSIVE \<Rightarrow>
         (case np_lck n of
            Exclusive \<Rightarrow> Some (upd_node np (\<lambda>n. n\<lparr>np_lcktype := NODE_LCK_NONE, np_lck := Unlocked\<rparr>) s)
          | _ \<Rightarrow> None)
     | NODE_LCK_NONE \<Rightarrow> Some s
   }"

definition nodelck_lock :: "'w vfs \<Rightarrow> 'w vfs option" where
  "nodelck_lock s = (if vf_nodelck s then None else Some (s\<lparr>vf_nodelck := True\<rparr>))"

definition nodelck_unlock :: "'w vfs \<Rightarrow> 'w vfs" where
  "nodelck_unlock s = s\<lparr>vf_nodelck := False\<rparr>"

section \<open>The cached directory entry\<close>

abbreviation DIRTIMEOUT :: int where "DIRTIMEOUT \<equiv> 5"

text \<open>On an error of \<open>stat_9p\<close> its block \<^verbatim>\<open>dp\<close>, if there is one, is not freed.\<close>

definition ngetdir_9p :: "'w kpi \<Rightarrow> nat \<Rightarrow> 'w vfs \<Rightarrow> (int \<times> 'w vfs) option" where
  "ngetdir_9p K np s = do {
     n \<leftarrow> vf_node s np;
     let tv = kp_time K (vworld s);
     if np_dirtimer n \<noteq> 0 \<and> tv - np_dirtimer n < DIRTIMEOUT then Some (0, s)
     else do {
       (e, dp, s) \<leftarrow> vstat K (np_fid n) s;
       if e \<noteq> 0 then Some (e, s)
       else do {
         (d, _) \<leftarrow> dp;
         let s = upd_node np (\<lambda>n. n\<lparr>np_dir := d\<lparr>d_name := NilP, d_uid := NilP, d_gid := NilP, d_muid := NilP\<rparr>\<rparr>) s;
         Some (0, vfree True s)
       }
     }
   }"

abbreviation QTDIR :: byte where "QTDIR \<equiv> 0x80"
abbreviation DMDIR :: u32 where "DMDIR \<equiv> 0x80000000"
abbreviation DMSYMLINK :: u32 where "DMSYMLINK \<equiv> 0x02000000"
abbreviation DMDEVICE :: u32 where "DMDEVICE \<equiv> 0x00800000"
abbreviation DMNAMEDPIPE :: u32 where "DMNAMEDPIPE \<equiv> 0x00200000"
abbreviation DMSOCKET :: u32 where "DMSOCKET \<equiv> 0x00100000"

text \<open>
  The kernel's \<^verbatim>\<open>sscanf\<close> with the format \<^verbatim>\<open>%c %u %u\<close>, on the string it is given: white space is
  skipped before a number, a number is an optional sign and at least one digit.
\<close>

definition is_white :: "byte \<Rightarrow> bool" where
  "is_white b \<longleftrightarrow> b = 32 \<or> 9 \<le> b \<and> b \<le> 13"

definition is_digit :: "byte \<Rightarrow> bool" where
  "is_digit b \<longleftrightarrow> 48 \<le> b \<and> b \<le> 57"

definition scan_u :: "byte list \<Rightarrow> (u32 \<times> byte list) option" where
  "scan_u s =
     (let s = dropWhile is_white s;
          neg = (take 1 s = [45]);
          s = (if take 1 s = [45] \<or> take 1 s = [43] then drop 1 s else s);
          ds = takeWhile is_digit s;
          v = of_nat (foldl (\<lambda>n b. 10 * n + unat (b - 48)) 0 ds) in
      if ds = [] then None else Some (if neg then - v else v, drop (length ds) s))"

definition sscanf_cuu :: "byte list \<Rightarrow> (byte \<times> u32 \<times> u32) option" where
  "sscanf_cuu s = (case s of [] \<Rightarrow> None | c # s \<Rightarrow> do {
     (major, s) \<leftarrow> scan_u s;
     (minor, s) \<leftarrow> scan_u s;
     Some (c, major, minor) })"

text \<open>
  \<open>strs\<close> is the memory the entry's strings point into, \<^term>\<open>None\<close> when it has been freed.
\<close>

definition dirvtype_9p :: "strp Dir \<Rightarrow> memory option \<Rightarrow> bool \<Rightarrow> (vtype \<times> u32) option" where
  "dirvtype_9p dp strs dotu =
     (let t = (if q_type (d_qid dp) AND QTDIR \<noteq> 0 then VDIR else VREG) in
      if \<not> dotu then Some (t, 0)
      else if ISSET (d_mode dp) DMSYMLINK then Some (VLNK, 0)
      else if ISSET (d_mode dp) DMNAMEDPIPE then Some (VFIFO, 0)
      else if ISSET (d_mode dp) DMDEVICE \<and> d_ext dp \<noteq> NilP then do {
        ext \<leftarrow> (case d_ext dp of StrAt q \<Rightarrow> do { sm \<leftarrow> strs; Some (cstr_at sm q) } | _ \<Rightarrow> Some []);
        case sscanf_cuu ext of
          None \<Rightarrow> Some (t, 0)
        | Some (c, major, minor) \<Rightarrow>
            Some (if c = of_char (CHR ''b'') then VBLK else if c = of_char (CHR ''c'') then VCHR else t,
                  push_bit 20 major OR minor)
      }
      else Some (t, 0))"

section \<open>The hash table\<close>

definition HASH9P :: "'w vfs \<Rightarrow> u64 \<Rightarrow> nat" where
  "HASH9P s k = unat (k AND vf_nodelen s)"

text \<open>The scan of a chain for a qid path; a freed node in the chain is \<^term>\<open>None\<close>.\<close>

fun nscan :: "(nat \<Rightarrow> node_9p option) \<Rightarrow> u64 \<Rightarrow> nat list \<Rightarrow> nat option option" where
  "nscan nodes path [] = Some None"
| "nscan nodes path (np # nps) =
     (case nodes np of
        None \<Rightarrow> None
      | Some n \<Rightarrow> if q_path (d_qid (np_dir n)) = path then Some (Some np) else nscan nodes path nps)"

definition list_remove :: "nat \<Rightarrow> 'w vfs \<Rightarrow> 'w vfs" where
  "list_remove np s = s\<lparr>vf_hash := (\<lambda>h. removeAll np (vf_hash s h))\<rparr>"

definition new_node :: "u32 \<Rightarrow> Qid \<Rightarrow> node_9p" where
  "new_node fid qid = \<lparr>np_vp = None, np_lck = Unlocked, np_lcktype = NODE_LCK_NONE,
     np_flags = NODE_INIT, np_iounit = 0, np_fid = fid, np_dir = zero_dir\<lparr>d_qid := qid\<rparr>,
     np_dirtimer = 0, np_openfid = replicate 3 \<lparr>of_fid = NOFID, of_ref = 0\<rparr>,
     np_direntries = None, np_ndirentries = 0\<rparr>"

text \<open>The end of a node's creation: \<^verbatim>\<open>NODE_INIT\<close> is cleared and the waiting threads are woken.\<close>

definition init_done :: "'w kpi \<Rightarrow> nat \<Rightarrow> 'w vfs \<Rightarrow> 'w vfs option" where
  "init_done K np s = do {
     n \<leftarrow> vf_node s np;
     let s = upd_node np (\<lambda>n. n\<lparr>np_flags := np_flags n AND NOT NODE_INIT\<rparr>) s;
     Some (if ISSET (np_flags n AND NOT NODE_INIT) NODE_WAITINIT
           then kdo K (Wakeup np) (upd_node np (\<lambda>n. n\<lparr>np_flags := np_flags n AND NOT NODE_WAITINIT\<rparr>) s)
           else s)
   }"

text \<open>The exit \<^verbatim>\<open>err1\<close>.\<close>

definition nget_err1 :: "'w kpi \<Rightarrow> nat \<Rightarrow> int \<Rightarrow> nat option \<Rightarrow> 'w vfs \<Rightarrow> (int \<times> nat option \<times> 'w vfs) option" where
  "nget_err1 K np e vpp s = do {
     s \<leftarrow> nunlock_9p np s;
     s \<leftarrow> nodelck_lock s;
     let s = list_remove np s;
     s \<leftarrow> init_done K np s;
     let s = nodelck_unlock s;
     Some (e, vpp, vfree True (s\<lparr>vf_node := (vf_node s)(np := None)\<rparr>))
   }"

text \<open>
  A new node, in the table and locked, is filled in: its directory entry is fetched and its vnode
  is made.
\<close>

definition nget_init :: "'w kpi \<Rightarrow> nat \<Rightarrow> Qid \<Rightarrow> nat option \<Rightarrow> nat option \<Rightarrow> componentname option
    \<Rightarrow> 'w vfs \<Rightarrow> (int \<times> nat option \<times> 'w vfs) option" where
  "nget_init K np qid dvp vpp cnp s = do {
     (e, s) \<leftarrow> ngetdir_9p K np s;
     if e \<noteq> 0 then nget_err1 K np e vpp s
     else do {
       n \<leftarrow> vf_node s np;
       (t, rdev) \<leftarrow> dirvtype_9p (np_dir n) None (dotu_of s);
       let nocache = (dvp = None \<or> (case cnp of None \<Rightarrow> True
                                    | Some c \<Rightarrow> \<not> ISSET (cn_flags c) MAKEENTRY) \<or> q_vers qid = 0);
       let fsp = \<lparr>vnfs_dvp = dvp, vnfs_fsnode = np, vnfs_markroot = (dvp = None),
                  vnfs_filesize = d_length (np_dir n), vnfs_vtype = t, vnfs_rdev = rdev,
                  vnfs_flags = VNFS_ADDFSREF OR (if nocache then VNFS_NOCACHE else 0)\<rparr>;
       (case kp_create K fsp (vworld s) of (e, w) \<Rightarrow>
          let s = set_world w s in
          if e \<noteq> 0 then nget_err1 K np e vpp s
          else do {
            let vp = vf_nextvp s;
            let s = upd_node np (\<lambda>n. n\<lparr>np_vp := Some vp\<rparr>)
                      (s\<lparr>vf_nextvp := vp + 1, vf_fsnode := (vf_fsnode s)(vp \<mapsto> np)\<rparr>);
            let s = kdo K (VnodeSettag vp) s;
            s \<leftarrow> nodelck_lock s;
            s \<leftarrow> init_done K np s;
            Some (0, Some vp, nodelck_unlock s)
          })
     }
   }"

text \<open>\<^verbatim>\<open>LIST_INSERT_HEAD\<close> of the node \<open>n\<close> at the new address \<open>np\<close> into the chain \<open>h\<close>.\<close>

definition list_insert :: "nat \<Rightarrow> nat \<Rightarrow> node_9p \<Rightarrow> 'w vfs \<Rightarrow> 'w vfs" where
  "list_insert np h n s = s\<lparr>vf_next := np + 1, vf_node := (vf_node s)(np \<mapsto> n),
     vf_hash := (vf_hash s)(h := np # vf_hash s h)\<rparr>"

text \<open>No node has the qid: a new one is made. \<^verbatim>\<open>nodelck\<close> is held on entry; \<open>vpp\<close> is \<^verbatim>\<open>*vpp\<close>.\<close>

definition nget_new :: "'w kpi \<Rightarrow> u32 \<Rightarrow> Qid \<Rightarrow> nat option \<Rightarrow> nat option \<Rightarrow> componentname option
    \<Rightarrow> 'w vfs \<Rightarrow> (int \<times> nat option \<times> 'w vfs) option" where
  "nget_new K fid qid dvp vpp cnp s =
     (case vmalloc K (kp_sizeof_node K) s of
        (None, s) \<Rightarrow> Some (ENOMEM, vpp, nodelck_unlock s)
      | (Some _, s) \<Rightarrow>
         (case kcall K LckAlloc s of (le, s) \<Rightarrow>
            if le \<noteq> 0 then Some (ENOMEM, vpp, nodelck_unlock (vfree True s))
            else do {
              let np = vf_next s;
              let s = list_insert np (HASH9P s (q_path qid)) (new_node fid qid) s;
              s \<leftarrow> nlock_9p np NODE_LCK_EXCLUSIVE s;
              nget_init K np qid dvp vpp cnp (nodelck_unlock s)
            }))"

text \<open>
  \<open>nget_9p\<close> runs on fuel: each time the thread has slept, or the vnode it found has gone, it looks
  again. Without a fid it returns with \<^verbatim>\<open>nodelck\<close> held.
\<close>

fun nget_9p :: "nat \<Rightarrow> 'w kpi \<Rightarrow> u32 \<Rightarrow> Qid \<Rightarrow> nat option \<Rightarrow> nat option \<Rightarrow> componentname option
    \<Rightarrow> 'w vfs \<Rightarrow> (int \<times> nat option \<times> 'w vfs) option" where
  "nget_9p 0 K fid qid dvp vpp cnp s = None"
| "nget_9p (Suc fuel) K fid qid dvp vpp cnp s = do {
     s \<leftarrow> nodelck_lock s;
     found \<leftarrow> nscan (vf_node s) (q_path qid) (vf_hash s (HASH9P s (q_path qid)));
     case found of
       None \<Rightarrow> if fid = NOFID then Some (EFAULT, vpp, s) else nget_new K fid qid dvp vpp cnp s
     | Some np \<Rightarrow> do {
         n \<leftarrow> vf_node s np;
         if ISSET (np_flags n) NODE_INIT
         then nget_9p fuel K fid qid dvp vpp cnp (kp_sleep K np
                (nodelck_unlock (upd_node np (\<lambda>n. n\<lparr>np_flags := np_flags n OR NODE_WAITINIT\<rparr>) s)))
         else if ISSET (np_flags n) NODE_RECL
         then nget_9p fuel K fid qid dvp vpp cnp (kp_sleep K np
                (nodelck_unlock (upd_node np (\<lambda>n. n\<lparr>np_flags := np_flags n OR NODE_WAITRECL\<rparr>) s)))
         else do {
           vp \<leftarrow> np_vp n;
           let s = nodelck_unlock s;
           (case kcall K (VnodeGetwithvid vp) s of (e, s) \<Rightarrow>
              if e \<noteq> 0 then nget_9p fuel K fid qid dvp vpp cnp (kp_sleep K np s)
              else do {
                s \<leftarrow> nlock_9p np NODE_LCK_EXCLUSIVE s;
                let s = (case (dvp, cnp) of
                           (Some d, Some c) \<Rightarrow>
                             if ISSET (cn_flags c) MAKEENTRY \<and> q_vers (d_qid (np_dir n)) \<noteq> 0
                             then kdo K (CacheEnter d (Some vp)) s else s
                         | _ \<Rightarrow> s);
                Some (0, Some vp, s)
              })
         }
       }
   }"

declare nget_9p.simps [simp del]

definition ndel_9p :: "nat \<Rightarrow> 'w vfs \<Rightarrow> 'w vfs option" where
  "ndel_9p np s = do {
     s \<leftarrow> nodelck_lock s;
     Some (nodelck_unlock (list_remove np s)) }"

end
