(* ===== verification/VnopsFile.thy ===== *)
theory VnopsFile
  imports Vnode
begin

text \<open>
  The vnode operations of \<^verbatim>\<open>kext/vnops.c\<close> on one file: open and close, attributes, reading and
  writing, and the small ones. Each takes the arguments of its \<^verbatim>\<open>vnop_..._args\<close> that it uses, and
  returns its error and the state; \<^verbatim>\<open>NTO9P\<close> of a vnode without a node is \<^term>\<open>None\<close>.
\<close>

section \<open>Open files\<close>

abbreviation OREAD :: nat where "OREAD \<equiv> 0"
abbreviation OWRITE :: nat where "OWRITE \<equiv> 1"
abbreviation ORDWR :: nat where "ORDWR \<equiv> 2"
abbreviation OTRUNC :: u32 where "OTRUNC \<equiv> 16"
abbreviation OCEXEC :: u32 where "OCEXEC \<equiv> 32"
abbreviation OEXCL :: u32 where "OEXCL \<equiv> 0x1000"

abbreviation FREAD :: u32 where "FREAD \<equiv> 1"
abbreviation FWRITE :: u32 where "FWRITE \<equiv> 2"

text \<open>The index into \<^verbatim>\<open>np->openfid\<close>.\<close>

definition ofidget :: "u32 \<Rightarrow> nat" where
  "ofidget fflag =
     (let f = fflag AND (FREAD OR FWRITE) in
      if f = FREAD OR FWRITE then ORDWR else if f = FWRITE then OWRITE else OREAD)"

definition upd_openfid :: "nat \<Rightarrow> nat \<Rightarrow> (openfid_9p \<Rightarrow> openfid_9p) \<Rightarrow> 'w vfs \<Rightarrow> 'w vfs" where
  "upd_openfid np i f s =
     upd_node np (\<lambda>n. n\<lparr>np_openfid := (np_openfid n)[i := f (np_openfid n ! i)]\<rparr>) s"

abbreviation O_ACCMODE :: u32 where "O_ACCMODE \<equiv> 0x3"
abbreviation O_NONBLOCK :: u32 where "O_NONBLOCK \<equiv> 0x4"
abbreviation O_APPEND :: u32 where "O_APPEND \<equiv> 0x8"
abbreviation O_SHLOCK :: u32 where "O_SHLOCK \<equiv> 0x10"
abbreviation O_EXLOCK :: u32 where "O_EXLOCK \<equiv> 0x20"
abbreviation O_NOFOLLOW :: u32 where "O_NOFOLLOW \<equiv> 0x100"
abbreviation O_CREAT :: u32 where "O_CREAT \<equiv> 0x200"
abbreviation O_TRUNC :: u32 where "O_TRUNC \<equiv> 0x400"
abbreviation O_EXCL :: u32 where "O_EXCL \<equiv> 0x800"
abbreviation O_EVTONLY :: u32 where "O_EVTONLY \<equiv> 0x8000"
abbreviation O_NOCTTY :: u32 where "O_NOCTTY \<equiv> 0x20000"
abbreviation FNOCACHE :: u32 where "FNOCACHE \<equiv> 0x40000"
abbreviation FNORDAHEAD :: u32 where "FNORDAHEAD \<equiv> 0x80000"
abbreviation O_DIRECTORY :: u32 where "O_DIRECTORY \<equiv> 0x100000"
abbreviation O_CLOEXEC :: u32 where "O_CLOEXEC \<equiv> 0x1000000"

text \<open>
  The mode of the \<^verbatim>\<open>Topen\<close> for the flags \<^verbatim>\<open>ap->a_mode\<close>, and the flags that are left over.
  \<^verbatim>\<open>OFLAGS\<close> subtracts one.
\<close>

definition open_mode :: "u32 \<Rightarrow> u32 \<times> u32" where
  "open_mode a_mode =
     (let flags = (if a_mode \<noteq> 0 then a_mode - 1 else 0);
          mode = flags AND O_ACCMODE;
          flags = flags AND NOT O_ACCMODE;
          flags = flags AND NOT (O_DIRECTORY OR O_NONBLOCK OR O_EXCL OR O_NOFOLLOW OR O_NOCTTY);
          flags = flags AND NOT O_APPEND;
          flags = flags AND NOT (O_EXLOCK OR O_SHLOCK);
          (mode, flags) = (if ISSET flags O_TRUNC then (mode OR OTRUNC, flags AND NOT O_TRUNC) else (mode, flags));
          (mode, flags) = (if ISSET flags O_CLOEXEC then (mode OR OCEXEC, flags AND NOT O_CLOEXEC) else (mode, flags));
          flags = flags AND NOT O_CREAT;
          flags = flags AND NOT O_EVTONLY;
          flags = flags AND NOT FNOCACHE;
          flags = flags AND NOT FNORDAHEAD
      in (mode, flags))"

text \<open>
  The first open of a kind: the node's fid is cloned and the clone is opened. The result has the
  local \<^verbatim>\<open>fid\<close>, which keeps its initial contents when the walk fails.
\<close>

definition open_fid :: "'w kpi \<Rightarrow> nat \<Rightarrow> nat \<Rightarrow> byte \<Rightarrow> 'w vfs \<Rightarrow> (int \<times> u32 \<times> 'w vfs) option" where
  "open_fid K np i mode s = do {
     n \<leftarrow> vf_node s np;
     (e, fid, q, s) \<leftarrow> vwalk K (np_fid n) None 0 (k_u32 (kp_kern K) (vworld s)) (kp_qid K (vworld s)) s;
     if e \<noteq> 0 then Some (e, fid, s)
     else do {
       (e, iounit, s) \<leftarrow> vopen K fid mode s;
       if e \<noteq> 0 then Some (e, fid, s)
       else Some (0, fid, upd_openfid np i (\<lambda>x. x\<lparr>of_fid := fid\<rparr>)
                            (upd_node np (\<lambda>n. n\<lparr>np_iounit := iounit\<rparr>) s))
     }
   }"

definition vnop_open_9p :: "'w kpi \<Rightarrow> nat \<Rightarrow> u32 \<Rightarrow> 'w vfs \<Rightarrow> (int \<times> 'w vfs) option" where
  "vnop_open_9p K vp a_mode s =
     (case open_mode a_mode of (mode, flags) \<Rightarrow>
        if flags \<noteq> 0 then Some (ENOTSUP, s)
        else do {
          np \<leftarrow> vf_fsnode s vp;
          s \<leftarrow> nlock_9p np NODE_LCK_EXCLUSIVE s;
          n \<leftarrow> vf_node s np;
          let i = ofidget a_mode;
          (e, fid, s) \<leftarrow> (if of_fid (np_openfid n ! i) = NOFID then open_fid K np i (ucast mode) s
                         else Some (0, 0, s));
          if e \<noteq> 0 then do {
            (_, s) \<leftarrow> vclunk K fid s;
            s \<leftarrow> nunlock_9p np s;
            Some (e, s)
          }
          else do {
            n \<leftarrow> vf_node s np;
            nvp \<leftarrow> np_vp n;
            let s = (if vnode_vtype K nvp s \<noteq> VREG \<or> q_vers (d_qid (np_dir n)) = 0
                     then kdo K (VnodeSetnoreadahead nvp) (kdo K (VnodeSetnocache nvp) s) else s);
            let s = upd_openfid np i (\<lambda>x. x\<lparr>of_ref := of_ref x + 1\<rparr>) s;
            s \<leftarrow> nunlock_9p np s;
            Some (0, s)
          }
        })"

text \<open>Dirty data is written back: through the page cache when the file is mapped.\<close>

definition push_dirty :: "'w kpi \<Rightarrow> nat \<Rightarrow> 'w vfs \<Rightarrow> 'w vfs option" where
  "push_dirty K np s = do {
     n \<leftarrow> vf_node s np;
     nvp \<leftarrow> np_vp n;
     Some (if ISSET (np_flags n) NODE_MMAPPED
           then kdo K (UbcMsync nvp 0 (kp_ubcsize K nvp (vworld s)) True) s
           else kdo K (ClusterPush nvp) s)
   }"

definition vnop_close_9p :: "'w kpi \<Rightarrow> nat \<Rightarrow> u32 \<Rightarrow> 'w vfs \<Rightarrow> (int \<times> 'w vfs) option" where
  "vnop_close_9p K vp fflag s = do {
     np \<leftarrow> vf_fsnode s vp;
     s \<leftarrow> nlock_9p np NODE_LCK_EXCLUSIVE s;
     n \<leftarrow> vf_node s np;
     let i = ofidget fflag;
     let op = np_openfid n ! i;
     if of_fid op = NOFID then do { s \<leftarrow> nunlock_9p np s; Some (EBADF, s) }
     else do {
       let s = upd_openfid np i (\<lambda>x. x\<lparr>of_ref := of_ref x - 1\<rparr>) s;
       if of_ref op \<noteq> 1 then do { s \<leftarrow> nunlock_9p np s; Some (0, s) }
       else do {
         s \<leftarrow> push_dirty K np s;
         (e, s) \<leftarrow> (if \<not> ISSET (mt_flags (vf_mt s)) F_UNMOUNTING then vclunk K (of_fid op) s else Some (0, s));
         let s = upd_openfid np i (\<lambda>x. x\<lparr>of_fid := NOFID\<rparr>) s;
         s \<leftarrow> nunlock_9p np s;
         Some (e, s)
       }
     }
   }"

section \<open>Attributes\<close>

text \<open>\<^verbatim>\<open>QTOI\<close>, the inode number of a qid, and \<^verbatim>\<open>ITOP\<close> and \<^verbatim>\<open>ITOT\<close>.\<close>

definition QTOI :: "Qid \<Rightarrow> u64" where
  "QTOI q = q_path q OR push_bit 56 (ucast (q_type q))"

definition ITOP :: "u64 \<Rightarrow> u64" where
  "ITOP i = i AND 0xFF0000000000"

definition ITOT :: "u64 \<Rightarrow> u64" where
  "ITOT i = drop_bit 56 i"

record vnode_attr =
  va_rdev :: u32
  va_nlink :: u64
  va_data_size :: u64
  va_iosize :: u32
  va_uid :: u32
  va_gid :: u32
  va_mode :: u32
  va_flags :: u32
  va_access_time :: u32
  va_modify_time :: u32
  va_fileid :: u64
  va_linkid :: u64
  va_fsid :: u32
  va_filerev :: u32
  va_gen :: u32
  va_encoding :: u32
  va_type :: vtype

text \<open>Every attribute is returned; \<^verbatim>\<open>va_rdev\<close> is set twice, the second time to the device.\<close>

definition node_attr :: "'w kpi \<Rightarrow> 'w vfs \<Rightarrow> node_9p \<Rightarrow> vtype \<Rightarrow> u32 \<Rightarrow> vnode_attr" where
  "node_attr K s n t rdev =
     (let d = np_dir n; dotu = dotu_of s in
      \<lparr>va_rdev = rdev, va_nlink = 1, va_data_size = d_length d, va_iosize = np_iounit n,
       va_uid = (if dotu then d_uidnum d else vf_uid s),
       va_gid = (if dotu then d_gidnum d else vf_gid s),
       va_mode = d_mode d AND 0x1FF, va_flags = 0,
       va_access_time = d_atime d, va_modify_time = d_mtime d,
       va_fileid = QTOI (d_qid d), va_linkid = QTOI (d_qid d), va_fsid = kp_fsid K,
       va_filerev = q_vers (d_qid d), va_gen = 0, va_encoding = 0x7E, va_type = t\<rparr>)"

definition vnop_getattr_9p :: "'w kpi \<Rightarrow> nat \<Rightarrow> 'w vfs \<Rightarrow> (int \<times> vnode_attr option \<times> 'w vfs) option" where
  "vnop_getattr_9p K vp s = do {
     np \<leftarrow> vf_fsnode s vp;
     s \<leftarrow> nlock_9p np NODE_LCK_EXCLUSIVE s;
     (e, s) \<leftarrow> ngetdir_9p K np s;
     if e \<noteq> 0 then do { s \<leftarrow> nunlock_9p np s; Some (e, None, s) }
     else do {
       n \<leftarrow> vf_node s np;
       (t, rdev) \<leftarrow> dirvtype_9p (np_dir n) None (dotu_of s);
       let va = node_attr K s n t rdev;
       s \<leftarrow> nunlock_9p np s;
       Some (0, Some va, s)
     }
   }"

text \<open>\<^verbatim>\<open>memset(dp, ~0, ...)\<close>: in a \<^verbatim>\<open>Twstat\<close> a field of all ones is left as it is.\<close>

definition nulldir :: "byte list Dir" where
  "nulldir = \<lparr>d_type = -1, d_dev = -1, d_qid = \<lparr>q_path = -1, q_vers = -1, q_type = -1\<rparr>, d_mode = -1,
     d_atime = -1, d_mtime = -1, d_length = -1, d_name = [], d_uid = [], d_gid = [], d_muid = [],
     d_ext = [], d_uidnum = -1, d_gidnum = -1, d_muidnum = -1\<rparr>"

text \<open>The attributes to set, each one active or not.\<close>

record vattr_set =
  vs_data_size :: "u64 option"
  vs_access_time :: "int option"
  vs_modify_time :: "int option"
  vs_mode :: "u32 option"

text \<open>\<^verbatim>\<open>O777\<close> is the mask of the permission bits.\<close>

definition setattr_mode :: "u32 \<Rightarrow> vtype \<Rightarrow> bool \<Rightarrow> u32" where
  "setattr_mode m t dotu =
     (let m = m AND 0x1FF;
          m = (if t = VDIR then m OR DMDIR else m) in
      if \<not> dotu then m
      else case t of
        VBLK \<Rightarrow> m OR DMDEVICE | VCHR \<Rightarrow> m OR DMDEVICE | VLNK \<Rightarrow> m OR DMSYMLINK
      | VSOCK \<Rightarrow> m OR DMSOCKET | VFIFO \<Rightarrow> m OR DMNAMEDPIPE | _ \<Rightarrow> m)"

definition setattr_dir :: "vattr_set \<Rightarrow> vtype \<Rightarrow> bool \<Rightarrow> byte list Dir" where
  "setattr_dir va t dotu =
     (let d = nulldir;
          d = (case vs_data_size va of None \<Rightarrow> d | Some l \<Rightarrow> d\<lparr>d_length := l\<rparr>);
          d = (case vs_access_time va of None \<Rightarrow> d | Some t \<Rightarrow> d\<lparr>d_atime := of_int t\<rparr>);
          d = (case vs_modify_time va of None \<Rightarrow> d | Some t \<Rightarrow> d\<lparr>d_mtime := of_int t\<rparr>) in
      case vs_mode va of None \<Rightarrow> d | Some m \<Rightarrow> d\<lparr>d_mode := setattr_mode m t dotu\<rparr>)"

definition vnop_setattr_9p :: "'w kpi \<Rightarrow> nat \<Rightarrow> vattr_set \<Rightarrow> 'w vfs \<Rightarrow> (int \<times> 'w vfs) option" where
  "vnop_setattr_9p K vp va s =
     (if vis K IsRdonly vp s then Some (EROFS, s)
      else if vis K IsVroot vp s then Some (EACCES, s)
      else if vs_data_size va \<noteq> None \<and> vnode_vtype K vp s = VDIR then Some (EISDIR, s)
      else do {
        np \<leftarrow> vf_fsnode s vp;
        let d = setattr_dir va (vnode_vtype K vp s) (dotu_of s);
        s \<leftarrow> nlock_9p np NODE_LCK_EXCLUSIVE s;
        n \<leftarrow> vf_node s np;
        (e, s) \<leftarrow> vwstat K (np_fid n) d s;
        let s = upd_node np (\<lambda>n. n\<lparr>np_dirtimer := 0\<rparr>) s;
        let s = (if e = 0 \<and> d_length d \<noteq> -1 then kdo K (UbcSetsize vp (sint (d_length d))) s else s);
        s \<leftarrow> nunlock_9p np s;
        Some (e, s)
      })"

definition vnop_fsync_9p :: "'w kpi \<Rightarrow> nat \<Rightarrow> 'w vfs \<Rightarrow> (int \<times> 'w vfs) option" where
  "vnop_fsync_9p K vp s =
     (if vnode_vtype K vp s \<noteq> VREG then Some (0, s)
      else do {
        np \<leftarrow> vf_fsnode s vp;
        s \<leftarrow> nlock_9p np NODE_LCK_EXCLUSIVE s;
        s \<leftarrow> (if kp_ubcsize K vp (vworld s) > 0 \<and> \<not> vis K IsNocache vp s then push_dirty K np s else Some s);
        n \<leftarrow> vf_node s np;
        (e, s) \<leftarrow> (if of_fid (np_openfid n ! OWRITE) \<noteq> NOFID \<or> of_fid (np_openfid n ! ORDWR) \<noteq> NOFID
                  then vwstat K (np_fid n) nulldir s else Some (0, s));
        s \<leftarrow> nunlock_9p np s;
        Some (e, s)
      })"

section \<open>Reading\<close>

text \<open>
  \<^verbatim>\<open>uiomove\<close> of \<open>d\<close> to the user, at most what is left to move, and of \<open>n\<close> bytes from the user;
  past the end of the user's buffer is \<^term>\<open>None\<close>.
\<close>

definition uio_advance :: "nat \<Rightarrow> uio \<Rightarrow> uio" where
  "uio_advance k u = u\<lparr>uio_resid := uio_resid u - int k, uio_offset := uio_offset u + int k\<rparr>"

definition uiomove_out :: "'w kpi \<Rightarrow> byte list \<Rightarrow> uio \<Rightarrow> 'w vfs \<Rightarrow> int \<times> uio \<times> 'w vfs" where
  "uiomove_out K d u s =
     (case kp_uiomove K (vworld s) (length d) of (e, moved, w) \<Rightarrow>
        let k = min (if e = 0 then length d else moved) (min (length d) (nat (uio_resid u))) in
        (e, (uio_advance k u)\<lparr>uio_data := uio_data u @ take k d\<rparr>, set_world w s))"

definition uiomove_in :: "'w kpi \<Rightarrow> nat \<Rightarrow> uio \<Rightarrow> 'w vfs \<Rightarrow> (int \<times> byte list \<times> uio \<times> 'w vfs) option" where
  "uiomove_in K n u s =
     (case kp_uiomove K (vworld s) n of (e, moved, w) \<Rightarrow>
        let k = min (if e = 0 then n else moved) (min n (nat (uio_resid u))) in
        if k > length (uio_data u) then None
        else Some (e, take k (uio_data u), (uio_advance k u)\<lparr>uio_data := drop k (uio_data u)\<rparr>, set_world w s))"

text \<open>
  The loop of \<open>nread_9p\<close> with the fid and the buffer \<open>p\<close> of \<open>sz\<close> bytes. Each round moves at least
  one byte or stops.
\<close>

function nread_loop :: "'w kpi \<Rightarrow> u32 \<Rightarrow> u32 \<Rightarrow> memory \<Rightarrow> uio \<Rightarrow> 'w vfs \<Rightarrow> (int \<times> uio \<times> 'w vfs) option" where
  "nread_loop K fid sz p u s =
     (if uio_resid u > 0 then
        (case vread K fid p (of_int (min (uio_resid u) (uint sz))) (of_int (uio_offset u)) s of
           None \<Rightarrow> None
         | Some (e, l, p, s) \<Rightarrow>
             if e \<noteq> 0 \<or> l = 0 then Some (e, u, s)
             else if unat l > length p then None
             else (case uiomove_out K (take (unat l) p) u s of (e, u', s) \<Rightarrow>
                     if e \<noteq> 0 then Some (e, u', s) else nread_loop K fid sz p u' s))
      else Some (0, u, s))"
  by pat_completeness auto
termination
  by (relation "measure (\<lambda>(K, fid, sz, p, u, s). nat (uio_resid u))")
    (auto simp: uiomove_out_def uio_advance_def Let_def unat_gt_0 split: prod.splits)

declare nread_loop.simps [simp del]

text \<open>The fid for reading: the read-only one, or the one for reading and writing.\<close>

definition rw_fid :: "node_9p \<Rightarrow> nat \<Rightarrow> u32" where
  "rw_fid n i = (if of_fid (np_openfid n ! i) = NOFID then of_fid (np_openfid n ! ORDWR)
                 else of_fid (np_openfid n ! i))"

definition io_size :: "'w vfs \<Rightarrow> node_9p \<Rightarrow> u32" where
  "io_size s n = (if np_iounit n = 0 then mt_msize (vf_mt s) - IOHDRSZ else np_iounit n)"

definition nread_9p :: "'w kpi \<Rightarrow> nat \<Rightarrow> uio \<Rightarrow> 'w vfs \<Rightarrow> (int \<times> uio \<times> 'w vfs) option" where
  "nread_9p K np u s = do {
     n \<leftarrow> vf_node s np;
     let sz = io_size s n;
     if rw_fid n OREAD = NOFID then Some (EBADF, u, s)
     else (case vmalloc K (unat sz) s of
         (None, s) \<Rightarrow> Some (ENOMEM, u, s)
       | (Some p, s) \<Rightarrow> do {
           (e, u, s) \<leftarrow> nread_loop K (rw_fid n OREAD) sz p u s;
           Some (e, u, vfree True s)
         })
   }"

abbreviation IO_APPEND :: u32 where "IO_APPEND \<equiv> 0x2"
abbreviation IO_TAILZEROFILL :: u32 where "IO_TAILZEROFILL \<equiv> 0x40"
abbreviation IO_HEADZEROFILL :: u32 where "IO_HEADZEROFILL \<equiv> 0x80"
abbreviation IO_NOCACHE :: u32 where "IO_NOCACHE \<equiv> 0x800"

definition vnop_read_9p :: "'w kpi \<Rightarrow> nat \<Rightarrow> uio \<Rightarrow> u32 \<Rightarrow> 'w vfs \<Rightarrow> (int \<times> uio \<times> 'w vfs) option" where
  "vnop_read_9p K vp u ioflag s =
     (if vnode_vtype K vp s = VDIR then Some (EISDIR, u, s)
      else if uio_offset u < 0 then Some (EINVAL, u, s)
      else if uio_resid u = 0 then Some (0, u, s)
      else do {
        np \<leftarrow> vf_fsnode s vp;
        s \<leftarrow> nlock_9p np NODE_LCK_SHARED s;
        n \<leftarrow> vf_node s np;
        (e, u, s) \<leftarrow> (if vis K IsNocache vp s \<or> ISSET ioflag IO_NOCACHE
           then do {
             let s = (if ISSET (np_flags n) NODE_MMAPPED
                      then kdo K (UbcMsync vp 0 (kp_ubcsize K vp (vworld s)) True) s
                      else kdo K (ClusterPush vp) s);
             let s = kdo K (UbcMsync vp (uio_offset u) (uio_offset u + uio_resid u) False) s;
             nread_9p K np u s
           }
           else Some (kp_cluster_read K vp u (sint (d_length (np_dir n))) ioflag s));
        s \<leftarrow> nunlock_9p np s;
        Some (e, u, s)
      })"

end
