(* ===== verification/VnopsData.thy ===== *)
theory VnopsData
  imports VnopsFile "HOL-Library.Signed_Division"
begin

text \<open>
  The vnode operations of \<^verbatim>\<open>kext/vnops.c\<close> that move data besides plain reads: writing, the page
  cache's entry points, symbolic links, and the operations that only report constants.
\<close>

section \<open>Writing\<close>

text \<open>
  The loop of \<open>nwrite_9p\<close>: the position and the rest are computed from what the server says it
  wrote, the user's bytes from what was copied. Nothing makes a server write anything, so the loop
  runs on fuel. \<^verbatim>\<open>n\<close> is an \<^verbatim>\<open>int\<close>.
\<close>

fun nwrite_loop :: "nat \<Rightarrow> 'w kpi \<Rightarrow> u32 \<Rightarrow> u32 \<Rightarrow> memory \<Rightarrow> uio \<Rightarrow> 'w vfs
    \<Rightarrow> (int \<times> uio \<times> 'w vfs) option" where
  "nwrite_loop 0 K fid sz p u s = None"
| "nwrite_loop (Suc fuel) K fid sz p u s =
     (if uio_resid u > 0 then do {
        let off = uio_offset u;
        let resid = uio_resid u;
        let n = sint (of_int (min resid (uint sz)) :: u32);
        (e, d, u, s) \<leftarrow> uiomove_in K (nat n) u s;
        p \<leftarrow> wrn p 0 d;
        if e \<noteq> 0 then Some (e, u, s)
        else do {
          (e, l, p, s) \<leftarrow> vwrite K fid p (of_int n) (of_int off) s;
          if e \<noteq> 0 then Some (e, u, s)
          else nwrite_loop fuel K fid sz p
                 (u\<lparr>uio_offset := off + int (unat l), uio_resid := resid - int (unat l)\<rparr>) s
        }
      } else Some (0, u, s))"

declare nwrite_loop.simps [simp del]

definition nwrite_9p :: "nat \<Rightarrow> 'w kpi \<Rightarrow> nat \<Rightarrow> uio \<Rightarrow> 'w vfs \<Rightarrow> (int \<times> uio \<times> 'w vfs) option" where
  "nwrite_9p fuel K np u s = do {
     n \<leftarrow> vf_node s np;
     let sz = io_size s n;
     if rw_fid n OWRITE = NOFID then Some (EBADF, u, s)
     else (case vmalloc K (unat sz) s of
         (None, s) \<Rightarrow> Some (ENOMEM, u, s)
       | (Some p, s) \<Rightarrow> do {
           (e, u, s) \<leftarrow> nwrite_loop fuel K (rw_fid n OWRITE) sz p u s;
           Some (e, u, vfree True s)
         })
   }"

text \<open>
  The ranges that a write through the page cache zeroes: before \<open>off\<close>, and up to the page's end. The
  length of the file is unsigned, and so are the sums and comparisons with it; \<^verbatim>\<open>zt > eof\<close> is signed.
\<close>

definition cluster_ranges :: "u64 \<Rightarrow> u64 \<Rightarrow> int \<Rightarrow> int \<Rightarrow> u32 \<Rightarrow> cluster_args" where
  "cluster_ranges page len off resid flag =
     (let eof = max len (of_int (resid + off));
          ca = \<lparr>ca_oldeof = sint len, ca_neweof = sint eof, ca_zh = 0, ca_zt = 0, ca_flags = flag\<rparr> in
      if eof > len then
        (let ca = (if of_int off > len then ca\<lparr>ca_zh := sint len, ca_flags := ca_flags ca OR IO_HEADZEROFILL\<rparr> else ca);
             zt = sint ((eof + (page - 1)) AND NOT (page - 1)) in
         if zt > sint eof then ca\<lparr>ca_zt := sint eof, ca_flags := ca_flags ca OR IO_TAILZEROFILL\<rparr> else ca\<lparr>ca_zt := zt\<rparr>)
      else ca)"

definition vnop_write_9p :: "nat \<Rightarrow> 'w kpi \<Rightarrow> nat \<Rightarrow> uio \<Rightarrow> u32 \<Rightarrow> 'w vfs \<Rightarrow> (int \<times> uio \<times> 'w vfs) option" where
  "vnop_write_9p fuel K vp u ioflag s =
     (if vnode_vtype K vp s = VDIR then Some (EISDIR, u, s)
      else if uio_offset u < 0 then Some (EINVAL, u, s)
      else if uio_resid u = 0 then Some (0, u, s)
      else do {
        np \<leftarrow> vf_fsnode s vp;
        n \<leftarrow> vf_node s np;
        let resid = uio_resid u;
        let off = (if ISSET ioflag IO_APPEND then sint (d_length (np_dir n)) else uio_offset u);
        let u = u\<lparr>uio_offset := off\<rparr>;
        s \<leftarrow> nlock_9p np NODE_LCK_EXCLUSIVE s;
        (e, u, s) \<leftarrow> (if vis K IsNocache vp s \<or> ISSET ioflag IO_NOCACHE
           then do {
             let s = kdo K (UbcMsync vp (uio_offset u) (uio_offset u + uio_resid u) True) s;
             let s = kdo K (UbcMsync vp (uio_offset u) (uio_offset u + uio_resid u) False) s;
             nwrite_9p fuel K np u s
           }
           else (let ca = cluster_ranges (kp_pagesize K) (d_length (np_dir n)) off resid ioflag in
             case kp_cluster_write K vp u ca s of (e, u, s) \<Rightarrow> do {
               n \<leftarrow> vf_node s np;
               if e = 0 \<and> of_int (ca_neweof ca) > d_length (np_dir n)
               then Some (e, u, kdo K (UbcSetsize vp (ca_neweof ca))
                 (upd_node np (\<lambda>n. n\<lparr>np_dirtimer := 0,
                    np_dir := (np_dir n)\<lparr>d_length := of_int (ca_neweof ca)\<rparr>\<rparr>) s))
               else Some (e, u, s) }));
        s \<leftarrow> nunlock_9p np s;
        Some (e, u, s)
      })"

section \<open>Mapped files and the page cache\<close>

definition vnop_mmap_9p :: "nat \<Rightarrow> 'w vfs \<Rightarrow> (int \<times> 'w vfs) option" where
  "vnop_mmap_9p vp s = do {
     np \<leftarrow> vf_fsnode s vp;
     s \<leftarrow> nlock_9p np NODE_LCK_EXCLUSIVE s;
     s \<leftarrow> nunlock_9p np (upd_node np (\<lambda>n. n\<lparr>np_flags := np_flags n OR NODE_MMAPPED\<rparr>) s);
     Some (0, s) }"

definition vnop_mnomap_9p :: "nat \<Rightarrow> 'w vfs \<Rightarrow> (int \<times> 'w vfs) option" where
  "vnop_mnomap_9p vp s = do {
     np \<leftarrow> vf_fsnode s vp;
     s \<leftarrow> nlock_9p np NODE_LCK_EXCLUSIVE s;
     s \<leftarrow> nunlock_9p np (upd_node np (\<lambda>n. n\<lparr>np_flags := np_flags n AND NOT NODE_MMAPPED\<rparr>) s);
     Some (0, s) }"

text \<open>Pages are moved by the kernel, up to the length of the file; the node is locked already.\<close>

definition vnop_pagein_9p :: "'w kpi \<Rightarrow> nat \<Rightarrow> 'w vfs \<Rightarrow> (int \<times> 'w vfs) option" where
  "vnop_pagein_9p K vp s = do {
     np \<leftarrow> vf_fsnode s vp;
     n \<leftarrow> vf_node s np;
     Some (kp_vfscall K (ClusterPagein vp (sint (d_length (np_dir n)))) s) }"

definition vnop_pageout_9p :: "'w kpi \<Rightarrow> nat \<Rightarrow> 'w vfs \<Rightarrow> (int \<times> 'w vfs) option" where
  "vnop_pageout_9p K vp s =
     (if vis K IsRdonly vp s then Some (EROFS, s)
      else do {
        np \<leftarrow> vf_fsnode s vp;
        n \<leftarrow> vf_node s np;
        Some (kp_vfscall K (ClusterPageout vp (sint (d_length (np_dir n)))) s) })"

definition vnop_bwrite_9p :: "'w kpi \<Rightarrow> nat \<Rightarrow> 'w vfs \<Rightarrow> (int \<times> 'w vfs) option" where
  "vnop_bwrite_9p K vp s = Some (kp_vfscall K (BufBwrite vp) s)"

definition vnop_revoke_9p :: "'w kpi \<Rightarrow> nat \<Rightarrow> 'w vfs \<Rightarrow> (int \<times> 'w vfs) option" where
  "vnop_revoke_9p K vp s = Some (kp_vfscall K (VnRevoke vp) s)"

text \<open>A file is always ready.\<close>

definition vnop_select_9p :: "'w vfs \<Rightarrow> (int \<times> 'w vfs) option" where
  "vnop_select_9p s = Some (1, s)"

text \<open>
  A buffer of the page cache: its direction, block number and \<open>b_data\<close>. What the operation sets
  starts as \<^term>\<open>None\<close>.
\<close>

record buf =
  b_vp :: nat
  b_read :: bool
  b_blkno :: int
  b_data :: memory
  b_resid :: "int option"
  b_error :: "int option"
  b_done :: bool

definition buf_finish :: "int \<Rightarrow> buf \<Rightarrow> buf" where
  "buf_finish e b = b\<lparr>b_error := Some e, b_done := True\<rparr>"

text \<open>The transfer, once the buffer is mapped and the \<^verbatim>\<open>uio\<close> made.\<close>

definition strategy_io :: "nat \<Rightarrow> 'w kpi \<Rightarrow> nat \<Rightarrow> int \<Rightarrow> buf \<Rightarrow> 'w vfs \<Rightarrow> (int \<times> buf \<times> 'w vfs) option" where
  "strategy_io fuel K np off b s =
     (let u = \<lparr>uio_resid = int (length (b_data b)), uio_offset = off,
               uio_data = (if b_read b then [] else b_data b)\<rparr> in
      if b_read b then do {
        (e, u, s) \<leftarrow> nread_9p K np u s;
        let d = uio_data u @ drop (length (uio_data u)) (b_data b);
        if e \<noteq> 0 then Some (e, b\<lparr>b_data := d\<rparr>, s)
        else if uio_resid u > 0
        then Some (0, b\<lparr>b_data := uio_data u @ replicate (nat (uio_resid u)) 0, b_resid := Some 0\<rparr>, s)
        else Some (0, b\<lparr>b_data := d, b_resid := Some (uio_resid u)\<rparr>, s)
      }
      else do {
        (e, u, s) \<leftarrow> nwrite_9p fuel K np u s;
        Some (e, if e \<noteq> 0 then b else b\<lparr>b_resid := Some (uio_resid u)\<rparr>, s)
      })"

definition vnop_strategy_9p :: "nat \<Rightarrow> 'w kpi \<Rightarrow> buf \<Rightarrow> 'w vfs \<Rightarrow> (int \<times> buf \<times> 'w vfs) option" where
  "vnop_strategy_9p fuel K b s =
     (case kp_bsize K (b_vp b) (vworld s) of
        None \<Rightarrow> Some (ENXIO, b, s)
      | Some bsize \<Rightarrow>
         (case kcall K BufMap s of (e, s) \<Rightarrow>
            if e \<noteq> 0 then Some (e, buf_finish e b, s)
            else (case kcall K UioCreate s of (e, s) \<Rightarrow>
              if e \<noteq> 0 then Some (ENOMEM, buf_finish ENOMEM b, s)
              else do {
                np \<leftarrow> vf_fsnode s (b_vp b);
                (e, b, s) \<leftarrow> strategy_io fuel K np (b_blkno b * int bsize) b s;
                Some (e, buf_finish e b, s)
              })))"

text \<open>File offsets and block numbers.\<close>

definition vnop_blktooff_9p :: "nat option \<Rightarrow> int \<Rightarrow> int \<times> int option" where
  "vnop_blktooff_9p bsize lblkno =
     (case bsize of None \<Rightarrow> (ENXIO, None) | Some bs \<Rightarrow> (0, Some (lblkno * int bs)))"

definition vnop_offtoblk_9p :: "nat option \<Rightarrow> int \<Rightarrow> int \<times> int option" where
  "vnop_offtoblk_9p bsize off =
     (case bsize of None \<Rightarrow> (ENXIO, None) | Some bs \<Rightarrow> (0, Some (off sdiv int bs)))"

text \<open>The error, \<^verbatim>\<open>*a_run\<close>, \<^verbatim>\<open>*a_bpn\<close> and \<^verbatim>\<open>*a_poff\<close>.\<close>

definition vnop_blockmap_9p :: "nat option \<Rightarrow> int \<Rightarrow> int \<Rightarrow> int \<times> (int \<times> int \<times> int) option" where
  "vnop_blockmap_9p bsize foffset size_a =
     (case bsize of None \<Rightarrow> (ENXIO, None) | Some bs \<Rightarrow> (0, Some (size_a, foffset sdiv int bs, 0)))"

section \<open>Symbolic links\<close>

text \<open>
  \<^verbatim>\<open>np->dir.ext\<close> points into the block that \<open>ngetdir_9p\<close> has freed, or to the static empty string.
\<close>

definition vnop_readlink_9p :: "'w kpi \<Rightarrow> nat \<Rightarrow> uio \<Rightarrow> 'w vfs \<Rightarrow> (int \<times> uio \<times> 'w vfs) option" where
  "vnop_readlink_9p K vp u s = do {
     np \<leftarrow> vf_fsnode s vp;
     if \<not> dotu_of s then Some (ENOTSUP, u, s)
     else do {
       s \<leftarrow> nlock_9p np NODE_LCK_EXCLUSIVE s;
       (e, s) \<leftarrow> ngetdir_9p K np s;
       (e, u, s) \<leftarrow> (if e \<noteq> 0 then Some (e, u, s)
          else do {
            n \<leftarrow> vf_node s np;
            if d_ext (np_dir n) = Nullstring then Some (uiomove_out K [] u s) else None
          });
       s \<leftarrow> nunlock_9p np s;
       Some (e, u, s)
     }
   }"

section \<open>Constants\<close>

abbreviation NAME_MAX :: int where "NAME_MAX \<equiv> 255"
abbreviation PATH_MAX :: int where "PATH_MAX \<equiv> 1024"

datatype pathconf_name = PC_LINK_MAX | PC_NAME_MAX | PC_PATH_MAX | PC_PIPE_BUF | PC_CHOWN_RESTRICTED
  | PC_NO_TRUNC | PC_NAME_CHARS_MAX | PC_CASE_SENSITIVE | PC_CASE_PRESERVING | PC_OTHER

definition vnop_pathconf_9p :: "nat \<Rightarrow> pathconf_name \<Rightarrow> 'w vfs \<Rightarrow> (int \<times> int \<times> 'w vfs) option" where
  "vnop_pathconf_9p vp name s = do {
     np \<leftarrow> vf_fsnode s vp;
     case name of
       PC_LINK_MAX \<Rightarrow> Some (0, 1, s)
     | PC_NAME_MAX \<Rightarrow> Some (0, NAME_MAX, s)
     | PC_PATH_MAX \<Rightarrow> Some (0, PATH_MAX, s)
     | PC_PIPE_BUF \<Rightarrow> do {
         s \<leftarrow> nlock_9p np NODE_LCK_SHARED s;
         n \<leftarrow> vf_node s np;
         s \<leftarrow> nunlock_9p np s;
         Some (0, sint (np_iounit n), s) }
     | PC_CHOWN_RESTRICTED \<Rightarrow> Some (0, 0, s)
     | PC_NO_TRUNC \<Rightarrow> Some (0, 0, s)
     | PC_NAME_CHARS_MAX \<Rightarrow> Some (0, NAME_MAX, s)
     | PC_CASE_SENSITIVE \<Rightarrow> Some (0, 1, s)
     | PC_CASE_PRESERVING \<Rightarrow> Some (0, 1, s)
     | PC_OTHER \<Rightarrow> Some (EINVAL, -1, s)
   }"

end
