(* ===== verification/VnopsDir.thy ===== *)
theory VnopsDir
  imports VnopsData
begin

text \<open>
  The vnode operations of \<^verbatim>\<open>kext/vnops.c\<close> on directories: lookup, creation, removal, renaming and
  reading, and the end of a vnode. \<open>vpp\<close> is what \<^verbatim>\<open>*a_vpp\<close> holds before the call.
\<close>

section \<open>Lookup\<close>

abbreviation LOOKUP :: nat where "LOOKUP \<equiv> 0"
abbreviation CREATE :: nat where "CREATE \<equiv> 1"
abbreviation DELETE :: nat where "DELETE \<equiv> 2"
abbreviation RENAME :: nat where "RENAME \<equiv> 3"

definition isdot :: "componentname \<Rightarrow> bool" where
  "isdot cnp \<longleftrightarrow> cn_namelen cnp = 1 \<and> take 1 (cn_name cnp) = bytes_of ''.''"

abbreviation isdotdot :: "componentname \<Rightarrow> bool" where
  "isdotdot cnp \<equiv> ISSET (cn_flags cnp) ISDOTDOT"

abbreviation islastcn :: "componentname \<Rightarrow> bool" where
  "islastcn cnp \<equiv> ISSET (cn_flags cnp) ISLASTCN"

text \<open>The node is not in the name cache: the server is asked.\<close>

definition lookup_walk :: "nat \<Rightarrow> 'w kpi \<Rightarrow> nat \<Rightarrow> nat \<Rightarrow> nat option \<Rightarrow> componentname \<Rightarrow> 'w vfs
    \<Rightarrow> (int \<times> nat option \<times> 'w vfs) option" where
  "lookup_walk fuel K dvp dnp vpp cnp s = do {
     s \<leftarrow> nlock_9p dnp NODE_LCK_EXCLUSIVE s;
     d \<leftarrow> vf_node s dnp;
     (e, fid, qid, s) \<leftarrow> vwalk K (np_fid d) (Some (cn_name cnp)) (cn_namelen cnp)
        (k_u32 (kp_kern K) (vworld s)) (kp_qid K (vworld s)) s;
     if e \<noteq> 0 then do {
       let (e, s) = (if islastcn cnp then
                       if cn_nameiop cnp = CREATE \<or> cn_nameiop cnp = RENAME then (EJUSTRETURN, s)
                       else if ISSET (cn_flags cnp) MAKEENTRY \<and> q_vers (d_qid (np_dir d)) \<noteq> 0
                       then (e, kdo K (CacheEnter dvp None) s) else (e, s)
                     else (e, s));
       s \<leftarrow> nunlock_9p dnp s;
       Some (e, vpp, s)
     }
     else do {
       (e, vpp, s) \<leftarrow> nget_9p fuel K fid qid (Some dvp) vpp (Some cnp) s;
       clunk \<leftarrow> (if e \<noteq> 0 then Some True
                 else case vpp of
                   None \<Rightarrow> Some True
                 | Some vp \<Rightarrow> do { np \<leftarrow> vf_fsnode s vp; n \<leftarrow> vf_node s np; Some (np_fid n \<noteq> fid) });
       s \<leftarrow> (if clunk then do { (_, s) \<leftarrow> vclunk K fid s; Some s } else Some s);
       s \<leftarrow> (case vpp of
              None \<Rightarrow> Some s
            | Some vp \<Rightarrow> do { np \<leftarrow> vf_fsnode s vp; nunlock_9p np s });
       s \<leftarrow> nunlock_9p dnp s;
       Some (e, vpp, s)
     }
   }"

definition vnop_lookup_9p :: "nat \<Rightarrow> 'w kpi \<Rightarrow> nat \<Rightarrow> nat option \<Rightarrow> componentname \<Rightarrow> 'w vfs
    \<Rightarrow> (int \<times> nat option \<times> 'w vfs) option" where
  "vnop_lookup_9p fuel K dvp vpp cnp s =
     (if vnode_vtype K dvp s \<noteq> VDIR then Some (ENOTDIR, vpp, s)
      else if isdotdot cnp \<and> vis K IsVroot dvp s then Some (EIO, vpp, s)
      else if islastcn cnp \<and> cn_nameiop cnp \<noteq> LOOKUP \<and> vis K IsRdonly dvp s then Some (EROFS, vpp, s)
      else if isdot cnp then
        (if islastcn cnp \<and> cn_nameiop cnp = RENAME then Some (EISDIR, vpp, s)
         else (case kcall K (VnodeGet dvp) s of (e, s) \<Rightarrow>
                 if e \<noteq> 0 then Some (e, vpp, s) else Some (0, Some dvp, s)))
      else if isdotdot cnp then
        (case kp_getparent K dvp (vworld s) of (p, w) \<Rightarrow>
           let s = set_world w s in
           if p = None then Some (ENOENT, None, s) else Some (0, p, s))
      else (case kp_cache_lookup K dvp (cn_name cnp) (vworld s) of (e, found, w) \<Rightarrow>
        let s = set_world w s; vpp = (if found = None then vpp else found) in
        if e = -1 then Some (0, vpp, s)
        else if e \<noteq> 0 then Some (e, vpp, s)
        else do {
          dnp \<leftarrow> vf_fsnode s dvp;
          lookup_walk fuel K dvp dnp vpp cnp s
        }))"

section \<open>Creation\<close>

abbreviation FLAG_DSSTORE :: u32 where "FLAG_DSSTORE \<equiv> 0x2"
abbreviation VA_EXCLUSIVE :: u32 where "VA_EXCLUSIVE \<equiv> 0x2"

text \<open>\<^verbatim>\<open>strncmp\<close> finds no difference.\<close>

definition strncmp_eq :: "memory \<Rightarrow> memory \<Rightarrow> nat \<Rightarrow> bool" where
  "strncmp_eq a b n \<longleftrightarrow> cstr (take n a) = cstr (take n b)"

text \<open>The decimal digits of \<^verbatim>\<open>%d\<close>.\<close>

fun dec_nat :: "nat \<Rightarrow> byte list" where
  "dec_nat n = (if n < 10 then [48 + of_nat n] else dec_nat (n div 10) @ [48 + of_nat (n mod 10)])"

declare dec_nat.simps [simp del]

definition dec_int :: "int \<Rightarrow> byte list" where
  "dec_int i = (if i < 0 then 45 # dec_nat (nat (- i)) else dec_nat (nat i))"

text \<open>The extension string of a device: its kind, major and minor number.\<close>

definition device_ext :: "vtype \<Rightarrow> 32 word \<Rightarrow> byte list" where
  "device_ext t rdev =
     [if t = VBLK then of_char (CHR ''b'') else of_char (CHR ''c'')] @ [32]
       @ dec_int (sint rdev div 2 ^ 20) @ [32] @ dec_int (sint rdev mod 2 ^ 20)"

record vattr_create =
  vc_type :: vtype
  vc_mode :: u32
  vc_rdev :: "32 word"
  vc_vaflags :: u32

text \<open>
  The mode, permissions and extension of the \<^verbatim>\<open>Tcreate\<close>, or \<^term>\<open>None\<close> for the types that cannot be
  made. The mode is a byte, which has no bit for \<^verbatim>\<open>OEXCL\<close>.
\<close>

definition create_args :: "vattr_create \<Rightarrow> byte list \<Rightarrow> (byte \<times> u32 \<times> byte list) option" where
  "create_args vap target = do {
     let perm = vc_mode vap AND 0x1FF;
     (mode, perm, ext) \<leftarrow> (case vc_type vap of
         VREG \<Rightarrow> Some (2, perm, [])
       | VDIR \<Rightarrow> Some (0, perm OR DMDIR, [])
       | VBLK \<Rightarrow> Some (2, perm OR DMDEVICE, device_ext VBLK (vc_rdev vap))
       | VCHR \<Rightarrow> Some (2, perm OR DMDEVICE, device_ext VCHR (vc_rdev vap))
       | VFIFO \<Rightarrow> Some (2, perm OR DMNAMEDPIPE, [])
       | VSOCK \<Rightarrow> Some (2, perm OR DMSOCKET, [])
       | VLNK \<Rightarrow> Some (2, perm OR DMSYMLINK, target)
       | _ \<Rightarrow> None);
     Some (if ISSET (vc_vaflags vap) VA_EXCLUSIVE then ucast (ucast (mode :: byte) OR OEXCL) else mode,
           perm, ext)
   }"

text \<open>
  The four calls of \<open>ncreate_9p\<close>. Besides the error it returns \<^verbatim>\<open>openfid\<close>, \<^verbatim>\<open>fid\<close>, \<^verbatim>\<open>iounit\<close> and
  \<^verbatim>\<open>*vpp\<close>.
\<close>

definition ncreate_calls :: "nat \<Rightarrow> 'w kpi \<Rightarrow> nat \<Rightarrow> nat \<Rightarrow> componentname \<Rightarrow> byte \<Rightarrow> u32 \<Rightarrow> byte list
    \<Rightarrow> 'w vfs \<Rightarrow> (int \<times> u32 \<times> u32 \<times> u32 \<times> nat option \<times> 'w vfs) option" where
  "ncreate_calls fuel K dvp dnp cnp mode perm ext s = do {
     d \<leftarrow> vf_node s dnp;
     (e, openfid, qid, s) \<leftarrow> vwalk K (np_fid d) None 0 NOFID (kp_qid K (vworld s)) s;
     if e \<noteq> 0 then Some (e, openfid, NOFID, 0, None, s)
     else do {
       (e, iounit, s) \<leftarrow> vcreate K openfid (cn_name cnp) (cn_namelen cnp) mode perm ext s;
       if e \<noteq> 0 then Some (e, openfid, NOFID, iounit, None, s)
       else do {
         (e, fid, qid, s) \<leftarrow> vwalk K (np_fid d) (Some (cn_name cnp)) (cn_namelen cnp) NOFID qid s;
         if e \<noteq> 0 then Some (e, openfid, fid, iounit, None, s)
         else do {
           (e, vpp, s) \<leftarrow> nget_9p fuel K fid qid (Some dvp) None (Some cnp) s;
           Some (e, openfid, fid, iounit, vpp, s)
         }
       }
     }
   }"

definition ncreate_9p :: "nat \<Rightarrow> 'w kpi \<Rightarrow> nat \<Rightarrow> componentname \<Rightarrow> vattr_create \<Rightarrow> byte list \<Rightarrow> 'w vfs
    \<Rightarrow> (int \<times> nat option \<times> 'w vfs) option" where
  "ncreate_9p fuel K dvp cnp vap target s = do {
     dnp \<leftarrow> vf_fsnode s dvp;
     if vis K IsRdonly dvp s then Some (EROFS, None, s)
     else if \<not> dotu_of s \<and> vc_type vap \<noteq> VREG \<and> vc_type vap \<noteq> VDIR then Some (ENOTSUP, None, s)
     else if \<not> ISSET (mt_flags (vf_mt s)) FLAG_DSSTORE
         \<and> strncmp_eq (bytes_of ''.DS_Store'') (cn_name cnp) (nat (cn_namelen cnp))
     then Some (EINVAL, None, s)
     else (case create_args vap target of
         None \<Rightarrow> Some (EINVAL, None, s)
       | Some (mode, perm, ext) \<Rightarrow> do {
           s \<leftarrow> nlock_9p dnp NODE_LCK_EXCLUSIVE s;
           (e, openfid, fid, iounit, vpp, s) \<leftarrow> ncreate_calls fuel K dvp dnp cnp mode perm ext s;
           if e \<noteq> 0 then do {
             (_, s) \<leftarrow> vclunk K openfid s;
             (_, s) \<leftarrow> vclunk K fid s;
             s \<leftarrow> nunlock_9p dnp s;
             Some (e, vpp, s)
           }
           else do {
             let s = kdo K (CachePurgeNegatives dvp) s;
             vp \<leftarrow> vpp;
             np \<leftarrow> vf_fsnode s vp;
             _ \<leftarrow> vf_node s np;
             let i = (if vc_type vap = VDIR then OREAD else ORDWR);
             let s = upd_node np (\<lambda>n. n\<lparr>np_iounit := iounit\<rparr>) s;
             let s = upd_openfid np i (\<lambda>x. x\<lparr>of_fid := openfid, of_ref := of_ref x + 1\<rparr>) s;
             s \<leftarrow> nunlock_9p np s;
             s \<leftarrow> nunlock_9p dnp s;
             Some (0, vpp, s)
           }
         })
   }"

definition vnop_create_9p :: "nat \<Rightarrow> 'w kpi \<Rightarrow> nat \<Rightarrow> componentname \<Rightarrow> vattr_create \<Rightarrow> 'w vfs
    \<Rightarrow> (int \<times> nat option \<times> 'w vfs) option" where
  "vnop_create_9p fuel K dvp cnp vap s = ncreate_9p fuel K dvp cnp vap [] s"

definition vnop_mknod_9p :: "nat \<Rightarrow> 'w kpi \<Rightarrow> nat \<Rightarrow> componentname \<Rightarrow> vattr_create \<Rightarrow> 'w vfs
    \<Rightarrow> (int \<times> nat option \<times> 'w vfs) option" where
  "vnop_mknod_9p fuel K dvp cnp vap s = ncreate_9p fuel K dvp cnp vap [] s"

definition vnop_mkdir_9p :: "nat \<Rightarrow> 'w kpi \<Rightarrow> nat \<Rightarrow> componentname \<Rightarrow> vattr_create \<Rightarrow> 'w vfs
    \<Rightarrow> (int \<times> nat option \<times> 'w vfs) option" where
  "vnop_mkdir_9p fuel K dvp cnp vap s = ncreate_9p fuel K dvp cnp vap [] s"

definition vnop_symlink_9p :: "nat \<Rightarrow> 'w kpi \<Rightarrow> nat \<Rightarrow> componentname \<Rightarrow> vattr_create \<Rightarrow> byte list \<Rightarrow> 'w vfs
    \<Rightarrow> (int \<times> nat option \<times> 'w vfs) option" where
  "vnop_symlink_9p fuel K dvp cnp vap target s = ncreate_9p fuel K dvp cnp vap target s"

section \<open>Removal and renaming\<close>

text \<open>\<open>nodeletebusy\<close> is the flag \<^verbatim>\<open>VNODE_REMOVE_NODELETEBUSY\<close>; \<^term>\<open>None\<close> is also the \<^verbatim>\<open>panic\<close>.\<close>

definition vnop_remove_9p :: "'w kpi \<Rightarrow> nat \<Rightarrow> nat \<Rightarrow> bool \<Rightarrow> 'w vfs \<Rightarrow> (int \<times> 'w vfs) option" where
  "vnop_remove_9p K dvp vp nodeletebusy s =
     (if dvp = vp then None
      else if nodeletebusy \<and> vis K (IsInuse False) vp s then Some (EBUSY, s)
      else do {
        dnp \<leftarrow> vf_fsnode s dvp;
        np \<leftarrow> vf_fsnode s vp;
        s \<leftarrow> nlock_9p dnp NODE_LCK_EXCLUSIVE s;
        s \<leftarrow> nlock_9p np NODE_LCK_EXCLUSIVE s;
        n \<leftarrow> vf_node s np;
        (e, s) \<leftarrow> vremove K (np_fid n) s;
        let s = (if e = 0 then kdo K (VnodeRecycle vp) (kdo K (CachePurge vp) s) else s);
        s \<leftarrow> nunlock_9p np s;
        s \<leftarrow> nunlock_9p dnp s;
        Some (e, s)
      })"

definition vnop_rmdir_9p :: "'w kpi \<Rightarrow> nat \<Rightarrow> nat \<Rightarrow> 'w vfs \<Rightarrow> (int \<times> 'w vfs) option" where
  "vnop_rmdir_9p K dvp vp s = vnop_remove_9p K dvp vp False s"

definition vnop_rename_9p :: "'w kpi \<Rightarrow> nat \<Rightarrow> nat \<Rightarrow> nat \<Rightarrow> componentname \<Rightarrow> 'w vfs
    \<Rightarrow> (int \<times> 'w vfs) option" where
  "vnop_rename_9p K fdvp tdvp fvp tcnp s =
     (if fdvp \<noteq> tdvp \<or> vf_fsnode s fdvp \<noteq> vf_fsnode s tdvp then Some (ENOTSUP, s)
      else do {
        fdnp \<leftarrow> vf_fsnode s fdvp;
        fnp \<leftarrow> vf_fsnode s fvp;
        s \<leftarrow> nlock_9p fdnp NODE_LCK_EXCLUSIVE s;
        s \<leftarrow> nlock_9p fnp NODE_LCK_EXCLUSIVE s;
        n \<leftarrow> vf_node s fnp;
        (e, s) \<leftarrow> (case vmalloc K (nat (cn_namelen tcnp + 1)) s of
            (None, s) \<Rightarrow> Some (ENOMEM, s)
          | (Some _, s) \<Rightarrow> do {
              name \<leftarrow> rdn (cn_name tcnp) 0 (nat (cn_namelen tcnp));
              (e, s) \<leftarrow> vwstat K (np_fid n) (nulldir\<lparr>d_name := cstr name\<rparr>) s;
              let s = vfree True s;
              Some (e, if e = 0 then kdo K (CachePurge fdvp) (kdo K (CachePurge fvp) s) else s)
            });
        s \<leftarrow> nunlock_9p fnp s;
        s \<leftarrow> nunlock_9p fdnp s;
        Some (e, s)
      })"

section \<open>Reading a directory\<close>

text \<open>The kernel's \<^verbatim>\<open>struct direntry\<close> and \<^verbatim>\<open>struct dirent\<close>: where the name starts and its space.\<close>

abbreviation D_NAME64 :: nat where "D_NAME64 \<equiv> 21"
abbreviation D_NAME64SZ :: nat where "D_NAME64SZ \<equiv> 1024"
abbreviation D_NAME32 :: nat where "D_NAME32 \<equiv> 8"
abbreviation D_NAME32SZ :: nat where "D_NAME32SZ \<equiv> 256"

definition DIRENT32_LEN :: "nat \<Rightarrow> nat" where
  "DIRENT32_LEN namlen = (D_NAME32 + namlen + 1 + 3) div 4 * 4"

definition DIRENT64_LEN :: "nat \<Rightarrow> nat" where
  "DIRENT64_LEN namlen = (D_NAME64 + namlen + 1 + 7) div 8 * 8"

definition dir_type :: "u32 \<Rightarrow> byte" where
  "dir_type mode = (if mode AND DMDIR \<noteq> 0 then 4 else 8)"

text \<open>The bytes of one entry, of either layout, padded with zeros to its \<^verbatim>\<open>d_reclen\<close>.\<close>

definition dirent_bytes :: "bool \<Rightarrow> Qid \<Rightarrow> u32 \<Rightarrow> byte list \<Rightarrow> byte list" where
  "dirent_bytes extended q mode name =
     (if extended then
        (let k = min (length name) (D_NAME64SZ - 1); r = DIRENT64_LEN k;
             b = PBIT64 (QTOI q) @ PBIT64 0 @ PBIT16 (of_nat r) @ PBIT16 (of_nat k) @ [dir_type mode]
                   @ take k name in
         b @ replicate (r - length b) 0)
      else
        (let k = min (length name) (D_NAME32SZ - 1); r = DIRENT32_LEN k;
             b = PBIT32 (ucast (QTOI q)) @ PBIT16 (of_nat r) @ [dir_type mode] @ [of_nat k] @ take k name in
         b @ replicate (r - length b) 0))"

text \<open>The name of a parsed entry, in the string area \<open>sm\<close>.\<close>

definition dir_name :: "memory \<Rightarrow> strp Dir \<Rightarrow> byte list option" where
  "dir_name sm d = (case d_name d of NilP \<Rightarrow> None | Nullstring \<Rightarrow> Some [] | StrAt q \<Rightarrow> Some (cstr_at sm q))"

text \<open>The loop over the entries from the \<open>i\<close>-th on, until the buffer is full.\<close>

fun readdir_loop :: "'w kpi \<Rightarrow> bool \<Rightarrow> memory \<Rightarrow> strp Dir list \<Rightarrow> nat \<Rightarrow> uio \<Rightarrow> 'w vfs
    \<Rightarrow> (int \<times> nat \<times> uio \<times> 'w vfs) option" where
  "readdir_loop K ext sm [] i u s = Some (0, i, u, s)"
| "readdir_loop K ext sm (d # ds) i u s = do {
     name \<leftarrow> dir_name sm d;
     let p = dirent_bytes ext (d_qid d) (d_mode d) name;
     if uio_resid u < int (length p) then Some (0, i, u, s)
     else (case uiomove_out K p u s of (e, u, s) \<Rightarrow>
             if e \<noteq> 0 then Some (e, i, u, s) else readdir_loop K ext sm ds (i + 1) u s)
   }"

definition vreaddirs :: "nat \<Rightarrow> 'w kpi \<Rightarrow> u32 \<Rightarrow> 'w vfs
    \<Rightarrow> (int \<times> (strp Dir list \<times> memory) option \<times> 'w vfs) option" where
  "vreaddirs fuel K fid s = do {
     (e, d, m) \<leftarrow> readdirs_9p fuel (k_env (kp_kern K)) (ktx K s) (krx K s) (k_sizeof_Dir (kp_kern K)) fid (vf_mt s);
     Some (e, d, s\<lparr>vf_mt := m\<rparr>) }"

text \<open>
  \<^verbatim>\<open>ap->a_eofflag = 0\<close> clears the pointer, not what it points to. The result has the number of
  entries delivered (\<^verbatim>\<open>*a_numdirent\<close>), when it is set, and whether \<^verbatim>\<open>*a_eofflag\<close> is. \<^verbatim>\<open>i\<close> is a
  \<^verbatim>\<open>uint32_t\<close>; the old entries are not freed when they are read again.
\<close>

definition vnop_readdir_9p :: "nat \<Rightarrow> 'w kpi \<Rightarrow> nat \<Rightarrow> bool \<Rightarrow> bool \<Rightarrow> bool \<Rightarrow> uio \<Rightarrow> 'w vfs
    \<Rightarrow> (int \<times> int option \<times> bool \<times> uio \<times> 'w vfs) option" where
  "vnop_readdir_9p fuel K vp reqseekoff extended eofflag u s =
     (if vnode_vtype K vp s \<noteq> VDIR then Some (ENOTDIR, None, False, u, s)
      else if reqseekoff \<or> uio_offset u < 0 then Some (EINVAL, None, False, u, s)
      else if uio_resid u = 0 then Some (0, None, False, u, s)
      else do {
        np \<leftarrow> vf_fsnode s vp;
        let off = uio_offset u;
        s \<leftarrow> nlock_9p np NODE_LCK_EXCLUSIVE s;
        n \<leftarrow> vf_node s np;
        let fid = of_fid (np_openfid n ! OREAD);
        if fid = NOFID then do { s \<leftarrow> nunlock_9p np s; Some (EBADF, None, False, u, s) }
        else do {
          let eofflag = (if eofflag then False else eofflag);
          (e, s) \<leftarrow> (if off = 0 \<or> np_direntries n = None then do {
               (e, d, s) \<leftarrow> vreaddirs fuel K fid s;
               Some (e, upd_node np (\<lambda>n. n\<lparr>np_direntries := d,
                      np_ndirentries := of_nat (case d of None \<Rightarrow> 0 | Some (ds, _) \<Rightarrow> length ds)\<rparr>) s)
             } else Some (0, s));
          if e \<noteq> 0 then do { s \<leftarrow> nunlock_9p np s; Some (e, None, False, u, s) }
          else do {
            n \<leftarrow> vf_node s np;
            let nd = unat (np_ndirentries n);
            let i0 = unat (of_int off :: u32);
            let (ds, sm) = (case np_direntries n of None \<Rightarrow> ([], []) | Some x \<Rightarrow> x);
            (e, i, u, s) \<leftarrow> readdir_loop K extended sm (drop i0 (take nd ds)) i0 u s;
            if e \<noteq> 0 then do { s \<leftarrow> nunlock_9p np s; Some (e, None, False, u, s) }
            else do {
              let u = u\<lparr>uio_offset := int i\<rparr>;
              let s = (if i = nd \<and> eofflag
                       then vfree (np_direntries n \<noteq> None)
                              (upd_node np (\<lambda>n. n\<lparr>np_direntries := None, np_ndirentries := 0\<rparr>) s)
                       else s);
              s \<leftarrow> nunlock_9p np s;
              Some (0, Some (int i - off), i = nd \<and> eofflag, u, s)
            }
          }
        }
      })"

section \<open>Reclaiming a vnode\<close>

definition vnop_reclaim_9p :: "'w kpi \<Rightarrow> nat \<Rightarrow> 'w vfs \<Rightarrow> (int \<times> 'w vfs) option" where
  "vnop_reclaim_9p K vp s = do {
     np \<leftarrow> vf_fsnode s vp;
     s \<leftarrow> nlock_9p np NODE_LCK_EXCLUSIVE s;
     let s = upd_node np (\<lambda>n. n\<lparr>np_flags := np_flags n OR NODE_RECL\<rparr>) s;
     s \<leftarrow> ndel_9p np s;
     let s = kdo K (VnodeRemovefsref vp) s;
     let s = s\<lparr>vf_fsnode := (vf_fsnode s)(vp := None)\<rparr>;
     let s = kdo K (CachePurge vp) s;
     s \<leftarrow> nunlock_9p np s;
     n \<leftarrow> vf_node s np;
     s \<leftarrow> (if \<not> ISSET (mt_flags (vf_mt s)) F_UNMOUNTING
           then do { (_, s) \<leftarrow> vclunk K (np_fid n) s; Some s } else Some s);
     n \<leftarrow> vf_node s np;
     let s = (if ISSET (np_flags n) NODE_WAITRECL then kdo K (Wakeup np) s else s);
     let s = vfree True (vfree (np_direntries n \<noteq> None) (s\<lparr>vf_node := (vf_node s)(np := None)\<rparr>));
     Some (0, s)
   }"

end
