(* ===== verification/Vnops.thy ===== *)
theory Vnops
  imports VnopsDir
begin

text \<open>
  The table of vnode operations, \<^verbatim>\<open>vnode_entry_desc_9p\<close> of \<^verbatim>\<open>kext/vnops.c\<close>: a call of the kernel is
  a value, with the arguments its handler uses, and \<open>vnode_op_9p\<close> is the dispatch. What a handler returns
  besides its error and the state is left out here.
\<close>

datatype vnop =
    Lookup nat "nat option" componentname
  | Create nat componentname vattr_create
  | Mknod nat componentname vattr_create
  | Mkdir nat componentname vattr_create
  | Symlink nat componentname vattr_create "byte list"
  | Open nat u32
  | Close nat u32
  | Getattr nat
  | Setattr nat vattr_set
  | Read nat uio u32
  | Write nat uio u32
  | Select nat
  | Revoke nat
  | Mmap nat
  | Mnomap nat
  | Fsync nat
  | Remove nat nat bool
  | Rename nat nat nat componentname
  | Rmdir nat nat
  | Readdir nat bool bool bool uio
  | Readlink nat uio
  | Reclaim nat
  | Pathconf nat pathconf_name
  | Pagein nat
  | Pageout nat
  | Strategy buf
  | Bwrite nat

definition drop1 :: "('a \<times> 'b \<times> 's) option \<Rightarrow> ('a \<times> 's) option" where
  "drop1 = map_option (\<lambda>(e, _, s). (e, s))"

fun vnode_op_9p :: "nat \<Rightarrow> 'w kpi \<Rightarrow> vnop \<Rightarrow> 'w vfs \<Rightarrow> (int \<times> 'w vfs) option" where
  "vnode_op_9p fuel K (Lookup dvp vpp cnp) s = drop1 (vnop_lookup_9p fuel K dvp vpp cnp s)"
| "vnode_op_9p fuel K (Create dvp cnp vap) s = drop1 (vnop_create_9p fuel K dvp cnp vap s)"
| "vnode_op_9p fuel K (Mknod dvp cnp vap) s = drop1 (vnop_mknod_9p fuel K dvp cnp vap s)"
| "vnode_op_9p fuel K (Mkdir dvp cnp vap) s = drop1 (vnop_mkdir_9p fuel K dvp cnp vap s)"
| "vnode_op_9p fuel K (Symlink dvp cnp vap target) s = drop1 (vnop_symlink_9p fuel K dvp cnp vap target s)"
| "vnode_op_9p fuel K (Open vp mode) s = vnop_open_9p K vp mode s"
| "vnode_op_9p fuel K (Close vp fflag) s = vnop_close_9p K vp fflag s"
| "vnode_op_9p fuel K (Getattr vp) s = drop1 (vnop_getattr_9p K vp s)"
| "vnode_op_9p fuel K (Setattr vp va) s = vnop_setattr_9p K vp va s"
| "vnode_op_9p fuel K (Read vp u ioflag) s = drop1 (vnop_read_9p K vp u ioflag s)"
| "vnode_op_9p fuel K (Write vp u ioflag) s = drop1 (vnop_write_9p fuel K vp u ioflag s)"
| "vnode_op_9p fuel K (Select vp) s = vnop_select_9p s"
| "vnode_op_9p fuel K (Revoke vp) s = vnop_revoke_9p K vp s"
| "vnode_op_9p fuel K (Mmap vp) s = vnop_mmap_9p vp s"
| "vnode_op_9p fuel K (Mnomap vp) s = vnop_mnomap_9p vp s"
| "vnode_op_9p fuel K (Fsync vp) s = vnop_fsync_9p K vp s"
| "vnode_op_9p fuel K (Remove dvp vp busy) s = vnop_remove_9p K dvp vp busy s"
| "vnode_op_9p fuel K (Rename fdvp tdvp fvp tcnp) s = vnop_rename_9p K fdvp tdvp fvp tcnp s"
| "vnode_op_9p fuel K (Rmdir dvp vp) s = vnop_rmdir_9p K dvp vp s"
| "vnode_op_9p fuel K (Readdir vp seekoff ext eof u) s =
     map_option (\<lambda>(e, _, _, _, s). (e, s)) (vnop_readdir_9p fuel K vp seekoff ext eof u s)"
| "vnode_op_9p fuel K (Readlink vp u) s = drop1 (vnop_readlink_9p K vp u s)"
| "vnode_op_9p fuel K (Reclaim vp) s = vnop_reclaim_9p K vp s"
| "vnode_op_9p fuel K (Pathconf vp name) s = drop1 (vnop_pathconf_9p vp name s)"
| "vnode_op_9p fuel K (Pagein vp) s = vnop_pagein_9p K vp s"
| "vnode_op_9p fuel K (Pageout vp) s = vnop_pageout_9p K vp s"
| "vnode_op_9p fuel K (Strategy b) s = drop1 (vnop_strategy_9p fuel K b s)"
| "vnode_op_9p fuel K (Bwrite vp) s = vnop_bwrite_9p K vp s"

text \<open>A sequence of calls, each on the state the one before it left; the errors are collected.\<close>

fun run_calls :: "('op \<Rightarrow> 's \<Rightarrow> (int \<times> 's) option) \<Rightarrow> 'op list \<Rightarrow> 's \<Rightarrow> (int list \<times> 's) option" where
  "run_calls call [] s = Some ([], s)"
| "run_calls call (c # cs) s = do {
     (e, s) \<leftarrow> call c s;
     (es, s) \<leftarrow> run_calls call cs s;
     Some (e # es, s) }"

end
