(* ===== verification/StatProofs.thy ===== *)
theory StatProofs
  imports ProtoRuns
begin

text \<open>
  The attribute operations of \<^verbatim>\<open>kext/proto.c\<close>: \<open>wstat_9p\<close> ends whatever the server does; \<open>stat_9p\<close>
  leaves a block exactly when it returns an entry.
\<close>

lemma dir_strings_fit_sz: "dir_strings_fit d dotu \<Longrightarrow> unat (sizeD2M d dotu) = stat_size d dotu
    \<and> stat_size d dotu < 2 ^ 31"
  using stat_size_less [of d dotu] unat_sizeD2M [of d dotu] by simp

lemma wstat_total:
  assumes "recv_ok env" "mount_ok m" "stack_ok tx0" "dir_strings_fit d (ISSET (mt_flags m) F_DOTU)"
  shows "\<exists>e m'. wstat_9p env tx0 rx0 fid d m = Some (e, m') \<and> after m 0 m'"
proof -
  let ?d = "ISSET (mt_flags m) F_DOTU"
  let ?n = "stat_size d ?d"
  have sz: "unat (sizeD2M d ?d) = ?n" "?n < 2 ^ 31" using dir_strings_fit_sz [OF assms(4)] by simp_all
  obtain p m1 where a: "malloc_9p env ?n m = (p, m1)" by fastforce
  note al = after_malloc [OF assms(2) a]
  show ?thesis
  proof (cases p)
    case None
    then show ?thesis using a al sz by (simp add: wstat_9p_def Let_def)
  next
    case (Some b)
    then have b: "b = replicate ?n 0" using al by simp
    let ?p = "stat_wire d ?d @ drop ?n b"
    have c: "convD2M d b (sizeD2M d ?d) ?d = Some (?n, ?p)"
      using convD2M_fits [OF assms(4), of "sizeD2M d ?d" b] sz b by simp
    let ?tx = "tx0\<lparr>fc_type := Twstat, fc_fid := fid, fc_stat := ?p, fc_nstat := ucast (sizeD2M d ?d)\<rparr>"
    have len: "length ?p = ?n" using b by (simp add: length_stat_wire)
    have "unat (ucast (sizeD2M d ?d) :: u16) \<le> ?n"
      unfolding sz(1) [symmetric] by (simp add: unsigned_ucast_eq take_bit_nat_less_eq_self)
    then have pr: "printable ?tx" using assms(3) len by (simp add: printable_def stack_ok_def msg_types_def)
    have wsz: "wire_size dd ?tx < 2 ^ 32" for dd
      using unat_u16_less [of "ucast (sizeD2M d ?d)"] by (simp add: wire_size_def wire_payload_def)
    have mo: "mount_ok m1" using al by (simp add: after_def)
    have on: "of_nat ?n = sizeD2M d ?d" by (simp add: sizeD2M_stat_size)
    show ?thesis
    proof (rule rpc_call [OF assms(1) mo pr wsz, where rxi = rx0 and keep = False])
      fix e rx q m2
      assume r: "rpc_9p env ?tx rx0 False m1 = Some (e, rx, q, m2)" "after m1 (held q) m2"
        "q = None \<longleftrightarrow> e \<noteq> 0 \<or> \<not> False"
      have "after m 0 (free_9p p m2)"
        using after_free [OF after_trans [OF conjunct1 [OF al] r(2)], of p] r(3) Some by simp
      then show ?thesis
        using r(1) a Some c sz on
        by (intro exI [of _ e] exI [of _ "free_9p p m2"])
          (simp add: wstat_9p_def Let_def free_9p_def)
    qed
  qed
qed

lemma stat_within:
  assumes "recv_ok env" "mount_ok m" "stack_ok tx0"
    "stat_9p env tx0 rx0 sizeof_Dir fid m = Some (e, dp, m')"
  shows "after m (if dp = None then 0 else 1) m'" "e = 0 \<Longrightarrow> dp \<noteq> None"
proof -
  let ?tx = "tx0\<lparr>fc_type := Tstat, fc_fid := fid\<rparr>"
  have pr: "printable ?tx" using assms(3) by (intro small_printable) (simp_all add: stack_ok_def)
  have sz: "wire_size d ?tx < 2 ^ 32" for d by (simp add: wire_size_fixed)
  have "after m (if dp = None then 0 else 1) m' \<and> (e = 0 \<longrightarrow> dp \<noteq> None)"
  proof (rule rpc_call [OF assms(1,2) pr sz, where rxi = rx0 and keep = True])
    fix e1 rx p m1
    assume r: "rpc_9p env ?tx rx0 True m = Some (e1, rx, p, m1)" "after m (held p) m1"
      "p = None \<longleftrightarrow> e1 \<noteq> 0 \<or> \<not> True"
    show ?thesis
    proof (cases "e1 = 0")
      case False
      then show ?thesis using assms(4) r by (auto simp: stat_9p_def)
    next
      case True
      then obtain buf where p: "p = Some buf" using r(3) by auto
      obtain b where b: "rdn buf 0 BIT16SZ = Some b"
        using assms(4) r(1) True p by (cases "rdn buf 0 BIT16SZ") (simp_all add: stat_9p_def del: rdn_None_iff)
      obtain q m2 where a: "malloc_9p env (sizeof_Dir + BIT16SZ + unat (GBIT16 b)) m1 = (q, m2)" by fastforce
      have mo: "mount_ok m1" using r(2) by (simp add: after_def)
      have af: "after m (held p + held q) m2"
        using after_trans [OF r(2) conjunct1 [OF after_malloc [OF mo a]]] .
      have f: "after m (held q) (free_9p p m2)" using after_free [OF af, of p] by simp
      show ?thesis
        using assms(4) r(1) True p b a f
        by (cases q) (auto simp: stat_9p_def Let_def split: bind_splits prod.splits)
    qed
  qed
  then show "after m (if dp = None then 0 else 1) m'" "e = 0 \<Longrightarrow> dp \<noteq> None" by auto
qed

end
