(* ===== verification/VfsInv.thy ===== *)
theory VfsInv
  imports VnopsDir StatProofs
begin

text \<open>
  The invariant of the client's state, relative to the locks a handler holds, and the effect of each
  primitive operation on it. A handler's proof threads it from the locking to the unlocking.
\<close>

section \<open>The invariant\<close>

text \<open>
  \<open>L\<close> says which nodes are locked, and how. A node in the table has three open files, a vnode, and is
  neither being made nor reclaimed; the hash chains hold existing nodes; a vnode and its node point
  to each other.
\<close>

definition lock_is :: "lcktype_9p \<Rightarrow> node_9p \<Rightarrow> bool" where
  "lock_is t n \<longleftrightarrow> (case t of
      NODE_LCK_NONE \<Rightarrow> np_lck n = Unlocked
    | NODE_LCK_SHARED \<Rightarrow> np_lck n = SharedBy 1 \<and> np_lcktype n = NODE_LCK_SHARED
    | NODE_LCK_EXCLUSIVE \<Rightarrow> np_lck n = Exclusive \<and> np_lcktype n = NODE_LCK_EXCLUSIVE)"

definition node_ok :: "node_9p \<Rightarrow> bool" where
  "node_ok n \<longleftrightarrow> length (np_openfid n) = 3 \<and> np_vp n \<noteq> None
     \<and> \<not> ISSET (np_flags n) NODE_INIT \<and> \<not> ISSET (np_flags n) NODE_RECL"

definition vfs_inv :: "(nat \<Rightarrow> lcktype_9p) \<Rightarrow> 'w vfs \<Rightarrow> bool" where
  "vfs_inv L s \<longleftrightarrow> mount_ok (vf_mt s) \<and> \<not> vf_nodelck s
     \<and> (\<forall>np n. vf_node s np = Some n \<longrightarrow> node_ok n \<and> lock_is (L np) n \<and> np < vf_next s)
     \<and> (\<forall>h. \<forall>np \<in> set (vf_hash s h). vf_node s np \<noteq> None)
     \<and> (\<forall>vp np. vf_fsnode s vp = Some np \<longrightarrow> vp < vf_nextvp s \<and> (\<exists>n. vf_node s np = Some n \<and> np_vp n = Some vp))
     \<and> (\<forall>np n vp. vf_node s np = Some n \<longrightarrow> np_vp n = Some vp \<longrightarrow> vf_fsnode s vp = Some np)"

abbreviation unlocked :: "nat \<Rightarrow> lcktype_9p" where
  "unlocked \<equiv> (\<lambda>_. NODE_LCK_NONE)"

text \<open>
  \<open>goes L k s s'\<close>: the invariant holds in \<open>s'\<close> with the locks \<open>L\<close>, \<open>k\<close> more blocks are in use, and the
  nodes and vnodes are the same ones.
\<close>

definition goes :: "(nat \<Rightarrow> lcktype_9p) \<Rightarrow> int \<Rightarrow> 'w vfs \<Rightarrow> 'w vfs \<Rightarrow> bool" where
  "goes L k s s' \<longleftrightarrow> vfs_inv L s' \<and> mt_live (vf_mt s') = mt_live (vf_mt s) + k
     \<and> dom (vf_node s') = dom (vf_node s) \<and> vf_fsnode s' = vf_fsnode s
     \<and> dotu_of s' = dotu_of s"

lemma goes_refl: "vfs_inv L s \<Longrightarrow> goes L 0 s s"
  by (simp add: goes_def)

lemma goes_inv: "goes L k s s' \<Longrightarrow> vfs_inv L s'"
  by (simp add: goes_def)

lemma goes_trans: "goes L' j s s1 \<Longrightarrow> goes L k s1 s2 \<Longrightarrow> goes L (j + k) s s2"
  by (simp add: goes_def)

lemma goes_trans0: "goes L' 0 s s1 \<Longrightarrow> goes L k s1 s2 \<Longrightarrow> goes L k s s2"
  by (simp add: goes_def)

lemma goes_node: "goes L k s s' \<Longrightarrow> vf_node s np \<noteq> None \<Longrightarrow> vf_node s' np \<noteq> None"
  by (auto simp: goes_def dom_def)

lemma goes_fsnode: "goes L k s s' \<Longrightarrow> vf_fsnode s' = vf_fsnode s"
  by (simp add: goes_def)

lemma inv_mount: "vfs_inv L s \<Longrightarrow> mount_ok (vf_mt s)"
  by (simp add: vfs_inv_def)

lemma inv_node:
  assumes "vfs_inv L s" "vf_node s np = Some n"
  shows "node_ok n" "lock_is (L np) n" "length (np_openfid n) = 3" "\<exists>vp. np_vp n = Some vp"
  using assms by (auto simp: vfs_inv_def node_ok_def)

lemma inv_fsnode:
  assumes "vfs_inv L s" "vf_fsnode s vp = Some np"
  obtains n where "vf_node s np = Some n" "np_vp n = Some vp"
  using assms unfolding vfs_inv_def by blast

section \<open>Calls of the kernel and of the server\<close>

text \<open>A call that only touches the mount of the protocol code.\<close>

lemma goes_mount:
  assumes "vfs_inv L s" "after (vf_mt s) k m'"
  shows "goes L k s (s\<lparr>vf_mt := m'\<rparr>)"
  using assms by (auto simp: goes_def vfs_inv_def after_def)

lemma after_mt_world: "mount_ok m \<Longrightarrow> after m 0 (m\<lparr>mt_world := w\<rparr>)"
  by (simp add: after_def mount_ok_def)

lemma goes_world: "vfs_inv L s \<Longrightarrow> goes L 0 s (set_world w s)"
  by (rule goes_mount) (auto intro: after_mt_world inv_mount)

lemma goes_kcall: "vfs_inv L s \<Longrightarrow> kcall K c s = (e, s') \<Longrightarrow> goes L 0 s s'"
  by (auto simp: kcall_def split: prod.splits intro: goes_world)

lemma goes_kdo: "vfs_inv L s \<Longrightarrow> goes L 0 s (kdo K c s)"
  by (auto simp: kdo_def kcall_def split: prod.splits intro: goes_world)

lemma goes_vmalloc:
  assumes "vfs_inv L s" "vmalloc K n s = (p, s')"
  shows "goes L (held p) s s'" "\<And>b. p = Some b \<Longrightarrow> b = replicate n 0"
proof -
  obtain m' where m': "malloc_9p (k_env (kp_kern K)) n (vf_mt s) = (p, m')" "s' = s\<lparr>vf_mt := m'\<rparr>"
    using assms(2) by (auto simp: vmalloc_def split: prod.splits)
  note a = after_malloc [OF inv_mount [OF assms(1)] m'(1)]
  show "goes L (held p) s s'" using a goes_mount [OF assms(1)] m'(2) by blast
  show "b = replicate n 0" if "p = Some b" for b using a that by simp
qed

lemma goes_vfree: "vfs_inv L s \<Longrightarrow> goes L (if b then -1 else 0) s (vfree b s)"
  using goes_mount [of L s "-1"] after_free [OF after_refl, of "vf_mt s" "Some []"] inv_mount [of L s]
  by (auto simp: vfree_def intro: goes_refl)

lemma kern_recv: "kern_ok (kp_kern K) \<Longrightarrow> recv_ok (k_env (kp_kern K))"
  by (simp add: kern_ok_def)

lemma kern_stack: "kern_ok (kp_kern K) \<Longrightarrow> stack_ok (k_tx (kp_kern K) w)"
  by (simp add: kern_ok_def)

lemma goes_vclunk:
  assumes kern: "kern_ok (kp_kern K)" and "vfs_inv L s"
  shows "\<exists>e s'. vclunk K fid s = Some (e, s') \<and> goes L 0 s s'"
  using clunk_total [OF kern_recv [OF kern] inv_mount [OF assms(2)] kern_stack [OF kern, of "vworld s"], of "krx K s" fid] goes_mount [OF assms(2)]
  by (auto simp: vclunk_def)

lemma goes_vremove:
  assumes kern: "kern_ok (kp_kern K)" and "vfs_inv L s"
  shows "\<exists>e s'. vremove K fid s = Some (e, s') \<and> goes L 0 s s'"
  using remove_total [OF kern_recv [OF kern] inv_mount [OF assms(2)] kern_stack [OF kern, of "vworld s"], of "krx K s" fid] goes_mount [OF assms(2)]
  by (auto simp: vremove_def)

lemma goes_vopen:
  assumes kern: "kern_ok (kp_kern K)" and "vfs_inv L s"
  shows "\<exists>e io s'. vopen K fid mode s = Some (e, io, s') \<and> goes L 0 s s'"
  using open_total [OF kern_recv [OF kern] inv_mount [OF assms(2)] kern_stack [OF kern, of "vworld s"], of "krx K s" fid mode
      "kp_qid K (vworld s)" "k_u32 (kp_kern K) (vworld s)"] goes_mount [OF assms(2)]
  by (auto simp: vopen_def)

lemma goes_vwalk:
  assumes kern: "kern_ok (kp_kern K)" and "vfs_inv L s" "\<And>b. name = Some b \<Longrightarrow> nname \<le> int (length b)" "nname < 2 ^ 31"
  shows "\<exists>e f q s'. vwalk K fid name nname fid0 qid0 s = Some (e, f, q, s') \<and> goes L 0 s s'
    \<and> (e \<noteq> 0 \<longrightarrow> f = fid0 \<and> q = qid0) \<and> (e = 0 \<longrightarrow> f = mt_nfid (vf_mt s))"
proof -
  have "\<exists>e f q m'. walk_9p (k_env (kp_kern K)) (ktx K s) (krx K s) fid name nname fid0 qid0 (vf_mt s)
      = Some (e, f, q, m') \<and> after (vf_mt s) 0 m' \<and> (e \<noteq> 0 \<longrightarrow> f = fid0 \<and> q = qid0)
      \<and> (e = 0 \<longrightarrow> f = mt_nfid (vf_mt s))"
    using assms(3,4) by (rule walk_total [OF kern_recv [OF kern] inv_mount [OF assms(2)] kern_stack [OF kern]])
  then show ?thesis using goes_mount [OF assms(2)] by (auto simp: vwalk_def)
qed

lemma goes_vcreate:
  assumes kern: "kern_ok (kp_kern K)" and "vfs_inv L s" "nname \<le> int (length name)" "nat nname + length ext < 2 ^ 31"
  shows "\<exists>e io s'. vcreate K fid name nname mode perm ext s = Some (e, io, s') \<and> goes L 0 s s'"
proof -
  have "\<exists>e q io m'. create_9p (k_env (kp_kern K)) (ktx K s) (krx K s) fid (Some name) nname mode perm ext
        (kp_qid K (vworld s)) (k_u32 (kp_kern K) (vworld s)) (vf_mt s) = Some (e, q, io, m')
      \<and> after (vf_mt s) 0 m' \<and> (e \<noteq> 0 \<longrightarrow> q = kp_qid K (vworld s) \<and> io = k_u32 (kp_kern K) (vworld s))"
    by (rule create_total [OF kern_recv [OF kern] inv_mount [OF assms(2)] kern_stack [OF kern]]) (use assms(2-) in auto)
  then show ?thesis using goes_mount [OF assms(2)] by (auto simp: vcreate_def)
qed

lemma goes_vread:
  assumes kern: "kern_ok (kp_kern K)" and "vfs_inv L s" "unat n \<le> length p"
  shows "\<exists>e l p' s'. vread K fid p n off s = Some (e, l, p', s') \<and> goes L 0 s s'
    \<and> l \<le> n \<and> length p' = length p \<and> (e \<noteq> 0 \<longrightarrow> l = 0)"
  using read_total [OF kern_recv [OF kern] inv_mount [OF assms(2)] kern_stack [OF kern, of "vworld s"] assms(3), of "krx K s" fid off]
    goes_mount [OF assms(2)]
  by (auto simp: vread_def kread_def)

lemma goes_vwrite:
  assumes kern: "kern_ok (kp_kern K)" and "vfs_inv L s" "unat n \<le> length p" "unat n < 2 ^ 31"
  shows "\<exists>e l s'. vwrite K fid p n off s = Some (e, l, p, s') \<and> goes L 0 s s'"
  using write_total [OF kern_recv [OF kern] inv_mount [OF assms(2)] kern_stack [OF kern, of "vworld s"] assms(3,4), of "krx K s" fid off]
    goes_mount [OF assms(2)]
  by (auto simp: vwrite_def kwrite_def)

lemma goes_vwstat:
  assumes kern: "kern_ok (kp_kern K)" and "vfs_inv L s" "dir_strings_fit d (dotu_of s)"
  shows "\<exists>e s'. vwstat K fid d s = Some (e, s') \<and> goes L 0 s s'"
  using wstat_total [OF kern_recv [OF kern] inv_mount [OF assms(2)] kern_stack [OF kern, of "vworld s"] assms(3), of "krx K s" fid]
    goes_mount [OF assms(2)]
  by (auto simp: vwstat_def)

lemma goes_vstat:
  assumes kern: "kern_ok (kp_kern K)" and "vfs_inv L s" "vstat K fid s = Some (e, dp, s')"
  shows "goes L (if dp = None then 0 else 1) s s'" "e = 0 \<Longrightarrow> dp \<noteq> None"
proof -
  obtain m' where m': "s' = s\<lparr>vf_mt := m'\<rparr>" "stat_9p (k_env (kp_kern K)) (ktx K s) (krx K s)
      (k_sizeof_Dir (kp_kern K)) fid (vf_mt s) = Some (e, dp, m')"
    using assms(3) by (auto simp: vstat_def split: bind_splits)
  note w = stat_within [OF kern_recv [OF kern] inv_mount [OF assms(2)] kern_stack [OF kern] m'(2)]
  show "goes L (if dp = None then 0 else 1) s s'" using goes_mount [OF assms(2) w(1)] m'(1) by simp
  show "e = 0 \<Longrightarrow> dp \<noteq> None" using w(2) .
qed

section \<open>Nodes\<close>

lemma upd_node_simps [simp]:
  "vf_mt (upd_node np f s) = vf_mt s" "vf_fsnode (upd_node np f s) = vf_fsnode s"
  "vf_hash (upd_node np f s) = vf_hash s" "vf_next (upd_node np f s) = vf_next s"
  "vf_nodelck (upd_node np f s) = vf_nodelck s" "vf_nodelen (upd_node np f s) = vf_nodelen s"
  "vf_nextvp (upd_node np f s) = vf_nextvp s" "vf_uid (upd_node np f s) = vf_uid s" "vf_gid (upd_node np f s) = vf_gid s"
  "dom (vf_node (upd_node np f s)) = dom (vf_node s)"
  by (auto simp: upd_node_def dom_def)

lemma upd_node_at: "vf_node s np = Some n \<Longrightarrow> vf_node (upd_node np f s) np = Some (f n)"
  by (simp add: upd_node_def)

lemma upd_node_other: "np \<noteq> np' \<Longrightarrow> vf_node (upd_node np f s) np' = vf_node s np'"
  by (simp add: upd_node_def)

lemma goes_upd:
  assumes "vfs_inv L s"
    and "\<And>n. vf_node s np = Some n \<Longrightarrow> node_ok (f n) \<and> lock_is (L' np) (f n) \<and> np_vp (f n) = np_vp n"
    and "\<And>np'. np' \<noteq> np \<Longrightarrow> L' np' = L np'"
  shows "goes L' 0 s (upd_node np f s)"
proof -
  have "node_ok n \<and> lock_is (L' np') n \<and> np' < vf_next s" if "vf_node (upd_node np f s) np' = Some n" for np' n
    using assms that by (cases "np' = np") (auto simp: vfs_inv_def upd_node_def)
  moreover have "\<exists>n. vf_node (upd_node np f s) np' = Some n \<and> np_vp n = Some vp"
    if fsn: "vf_fsnode s vp = Some np'" for vp np'
  proof -
    obtain n where n: "vf_node s np' = Some n" "np_vp n = Some vp" by (rule inv_fsnode [OF assms(1) fsn])
    then show ?thesis using assms(2) by (cases "np' = np") (auto simp: upd_node_def)
  qed
  moreover have "vf_node (upd_node np f s) np' \<noteq> None" if "np' \<in> set (vf_hash s h)" for np' h
    using assms(1) that by (auto simp: vfs_inv_def upd_node_def)
  moreover have "vf_fsnode s vp = Some np'" if "vf_node (upd_node np f s) np' = Some n" "np_vp n = Some vp" for np' n vp
    using assms(1,2) that by (cases "np' = np") (auto simp: vfs_inv_def upd_node_def)
  ultimately show ?thesis using assms(1) by (auto simp: goes_def vfs_inv_def)
qed

text \<open>An update that leaves the lock, the vnode, the flags and the number of open files alone.\<close>

lemma goes_upd_data:
  assumes "vfs_inv L s"
    and "\<And>n. np_lck (f n) = np_lck n \<and> np_lcktype (f n) = np_lcktype n \<and> np_vp (f n) = np_vp n
           \<and> length (np_openfid (f n)) = length (np_openfid n)
           \<and> ISSET (np_flags (f n)) NODE_INIT = ISSET (np_flags n) NODE_INIT
           \<and> ISSET (np_flags (f n)) NODE_RECL = ISSET (np_flags n) NODE_RECL"
  shows "goes L 0 s (upd_node np f s)"
proof (rule goes_upd [OF assms(1)])
  fix n assume "vf_node s np = Some n"
  then show "node_ok (f n) \<and> lock_is (L np) (f n) \<and> np_vp (f n) = np_vp n"
    using assms by (auto simp: vfs_inv_def node_ok_def lock_is_def split: lcktype_9p.splits)
qed simp

lemma goes_upd_openfid: "vfs_inv L s \<Longrightarrow> goes L 0 s (upd_openfid np i f s)"
  unfolding upd_openfid_def by (rule goes_upd_data) simp_all

lemma goes_nlock:
  assumes "vfs_inv L s" "vf_node s np \<noteq> None" "L np = NODE_LCK_NONE" "t \<noteq> NODE_LCK_NONE"
  obtains s' where "nlock_9p np t s = Some s'" "goes (L(np := t)) 0 s s'" "vf_mt s' = vf_mt s"
proof -
  obtain n where n: "vf_node s np = Some n" using assms(2) by auto
  have "np_lck n = Unlocked" using inv_node(2) [OF assms(1) n] assms(3) by (simp add: lock_is_def)
  then obtain l where l: "nlock_9p np t s = Some (upd_node np (\<lambda>n. n\<lparr>np_lck := l, np_lcktype := t\<rparr>) s)"
      "l = (if t = NODE_LCK_SHARED then SharedBy 1 else Exclusive)"
    using n by (simp add: nlock_9p_def)
  show ?thesis
  proof (rule that [OF l(1)])
    show "goes (L(np := t)) 0 s (upd_node np (\<lambda>n. n\<lparr>np_lck := l, np_lcktype := t\<rparr>) s)"
      using l(2) assms(4) inv_node(1) [OF assms(1)]
      by (intro goes_upd [OF assms(1)]) (auto simp: node_ok_def lock_is_def split: lcktype_9p.splits)
  qed simp
qed

lemma goes_nunlock:
  assumes "vfs_inv L s" "vf_node s np \<noteq> None" "L np \<noteq> NODE_LCK_NONE"
  obtains s' where "nunlock_9p np s = Some s'" "goes (L(np := NODE_LCK_NONE)) 0 s s'" "vf_mt s' = vf_mt s"
proof -
  obtain n where n: "vf_node s np = Some n" using assms(2) by auto
  have l: "lock_is (L np) n" using inv_node(2) [OF assms(1) n] .
  have g: "goes (L(np := NODE_LCK_NONE)) 0 s (upd_node np f s)"
    if "\<And>n. np_lck (f n) = Unlocked \<and> np_vp (f n) = np_vp n \<and> np_openfid (f n) = np_openfid n
        \<and> np_flags (f n) = np_flags n" for f
    using that inv_node(1) [OF assms(1)]
    by (intro goes_upd [OF assms(1)]) (auto simp: node_ok_def lock_is_def)
  show ?thesis
  proof (cases "L np")
    case NODE_LCK_SHARED
    with l n have u: "nunlock_9p np s
        = Some (upd_node np (\<lambda>n. n\<lparr>np_lck := if (1::nat) \<le> 1 then Unlocked else SharedBy (1 - 1)\<rparr>) s)"
      by (simp add: lock_is_def nunlock_9p_def)
    show ?thesis by (rule that [OF u]) (rule g, simp_all)
  next
    case NODE_LCK_EXCLUSIVE
    with l n have u: "nunlock_9p np s
        = Some (upd_node np (\<lambda>n. n\<lparr>np_lcktype := NODE_LCK_NONE, np_lck := Unlocked\<rparr>) s)"
      by (simp add: lock_is_def nunlock_9p_def)
    show ?thesis by (rule that [OF u]) (rule g, simp_all)
  qed (use assms(3) in simp)
qed

end
