(* ===== verification/VnopsProofs.thy ===== *)
theory VnopsProofs
  imports VfsInv
begin

text \<open>
  The vnode operations on files keep the invariant: each one ends, whatever the server answers, with
  every lock it took released and no block kept.
\<close>

section \<open>Laws of the kernel\<close>

text \<open>
  Reading and writing through the page cache may call the client back; it leaves the locks and the
  table as they are. Of what happens while a thread sleeps on a node (\<open>kp_sleep\<close>) nothing is assumed.
\<close>

definition keeps_table :: "vfscall \<Rightarrow> bool" where
  "keeps_table c \<longleftrightarrow> (case c of VnRevoke vp \<Rightarrow> False | Vflush vp force \<Rightarrow> False | _ \<Rightarrow> True)"

definition kpi_ok :: "'w kpi \<Rightarrow> bool" where
  "kpi_ok K \<longleftrightarrow> kern_ok (kp_kern K)
     \<and> (\<forall>L vp u len fl s. vfs_inv L s \<longrightarrow> goes L 0 s (snd (snd (kp_cluster_read K vp u len fl s))))
     \<and> (\<forall>L vp u ca s. vfs_inv L s \<longrightarrow> goes L 0 s (snd (snd (kp_cluster_write K vp u ca s))))
     \<and> (\<forall>L c s. vfs_inv L s \<longrightarrow> keeps_table c \<longrightarrow> goes L 0 s (snd (kp_vfscall K c s)))"

lemma kpi_kern: "kpi_ok K \<Longrightarrow> kern_ok (kp_kern K)"
  by (simp add: kpi_ok_def)

text \<open>The start and the end of a handler on one node.\<close>

abbreviation only :: "nat \<Rightarrow> lcktype_9p \<Rightarrow> nat \<Rightarrow> lcktype_9p" where
  "only np t \<equiv> unlocked(np := t)"

lemma lock_vnode:
  assumes "vfs_inv unlocked s" "vf_fsnode s vp = Some np" "t \<noteq> NODE_LCK_NONE"
  obtains s1 where "nlock_9p np t s = Some s1" "goes (only np t) 0 s s1" "vf_node s1 np \<noteq> None"
    "vf_mt s1 = vf_mt s"
proof -
  have n: "vf_node s np \<noteq> None" using inv_fsnode [OF assms(1,2)] by blast
  show ?thesis
    by (rule goes_nlock [OF assms(1) n _ assms(3)])
      (use that goes_node n in \<open>blast+\<close>)
qed

lemma unlock_vnode:
  assumes "goes (only np t) k s s1" "vf_node s1 np \<noteq> None" "t \<noteq> NODE_LCK_NONE"
  obtains s2 where "nunlock_9p np s1 = Some s2" "goes unlocked k s s2" "vf_mt s2 = vf_mt s1"
proof -
  have "only np t np \<noteq> NODE_LCK_NONE" using assms(3) by simp
  then show ?thesis
  proof (rule goes_nunlock [OF goes_inv [OF assms(1)] assms(2)])
    fix s' assume u: "nunlock_9p np s1 = Some s'"
      "goes ((only np t)(np := NODE_LCK_NONE)) 0 s1 s'" "vf_mt s' = vf_mt s1"
    have "(only np t)(np := NODE_LCK_NONE) = unlocked" by auto
    then have "goes unlocked k s s'" using goes_trans [OF assms(1) u(2)] by simp
    then show thesis using that u(1,3) by blast
  qed
qed

text \<open>
  The shape of most handlers: lock, a body that keeps the invariant under the lock, unlock.
\<close>

lemma bracket:
  assumes "vfs_inv unlocked s" "vf_fsnode s vp = Some np" "t \<noteq> NODE_LCK_NONE"
    and "\<And>s1. goes (only np t) 0 s s1 \<Longrightarrow> vf_node s1 np \<noteq> None
      \<Longrightarrow> \<exists>r s2. body s1 = Some (r, s2) \<and> goes (only np t) k s1 s2"
  shows "\<exists>r s'. do { s \<leftarrow> nlock_9p np t s; (r, s) \<leftarrow> body s; s \<leftarrow> nunlock_9p np s; Some (r, s) }
      = Some (r, s') \<and> goes unlocked k s s'"
proof -
  obtain s1 where s1: "nlock_9p np t s = Some s1" "goes (only np t) 0 s s1" "vf_node s1 np \<noteq> None"
    by (rule lock_vnode [OF assms(1-3)])
  obtain r s2 where s2: "body s1 = Some (r, s2)" "goes (only np t) k s1 s2" using assms(4) [OF s1(2,3)] by blast
  obtain s3 where "nunlock_9p np s2 = Some s3" "goes unlocked k s s3"
    by (rule unlock_vnode [OF goes_trans0 [OF s1(2) s2(2)] goes_node [OF s2(2) s1(3)] assms(3)])
  then show ?thesis using s1(1) s2(1) by simp
qed

lemma goes_kdo2: "vfs_inv L s \<Longrightarrow> goes L 0 s (kdo K c2 (kdo K c1 s))"
  by (rule goes_trans0 [OF goes_kdo goes_kdo [OF goes_inv [OF goes_kdo]]])

lemma inv_fsnode_node: "vfs_inv L s \<Longrightarrow> vf_fsnode s vp = Some np \<Longrightarrow> vf_node s np \<noteq> None"
  by (erule (1) inv_fsnode) simp

section \<open>Open and close\<close>

lemma open_fid_total:
  assumes "kern_ok (kp_kern K)" "vfs_inv L s" "vf_node s np \<noteq> None"
  shows "\<exists>e fid s'. open_fid K np i mode s = Some (e, fid, s') \<and> goes L 0 s s'"
proof -
  obtain n where n: "vf_node s np = Some n" using assms(3) by auto
  have "\<exists>e f q s'. vwalk K (np_fid n) None 0 (k_u32 (kp_kern K) (vworld s)) (kp_qid K (vworld s)) s
      = Some (e, f, q, s') \<and> goes L 0 s s' \<and> (e \<noteq> 0 \<longrightarrow> f = k_u32 (kp_kern K) (vworld s) \<and> q = kp_qid K (vworld s))
      \<and> (e = 0 \<longrightarrow> f = mt_nfid (vf_mt s))"
    by (rule goes_vwalk [OF assms(1,2)]) simp_all
  then obtain e f q s1 where w: "vwalk K (np_fid n) None 0 (k_u32 (kp_kern K) (vworld s)) (kp_qid K (vworld s)) s
      = Some (e, f, q, s1)" "goes L 0 s s1" by blast
  obtain e2 io s2 where o: "vopen K f mode s1 = Some (e2, io, s2)" "goes L 0 s1 s2"
    using goes_vopen [OF assms(1) goes_inv [OF w(2)]] by blast
  have g2: "goes L 0 s s2" by (rule goes_trans0 [OF w(2) o(2)])
  have "goes L 0 s2 (upd_node np (\<lambda>n. n\<lparr>np_iounit := io\<rparr>) s2)"
    by (rule goes_upd_data [OF goes_inv [OF g2]]) simp
  from goes_trans0 [OF this goes_upd_openfid [OF goes_inv [OF this]]]
  have "goes L 0 s (upd_openfid np i f' (upd_node np (\<lambda>n. n\<lparr>np_iounit := io\<rparr>) s2))" for f'
    by (rule goes_trans0 [OF g2])
  then show ?thesis using n w o g2 by (cases "e = 0"; cases "e2 = 0") (simp_all add: open_fid_def)
qed

lemma vnop_open_total:
  assumes "kpi_ok K" "vfs_inv unlocked s" "vf_fsnode s vp = Some np"
  shows "\<exists>e s'. vnop_open_9p K vp a_mode s = Some (e, s') \<and> goes unlocked 0 s s'"
proof (cases "snd (open_mode a_mode) = 0")
  case False
  then show ?thesis using assms(2) by (auto simp: vnop_open_9p_def goes_refl split: prod.splits)
next
  case True
  then obtain mode where m: "open_mode a_mode = (mode, 0)" by (cases "open_mode a_mode") simp
  let ?L = "only np NODE_LCK_EXCLUSIVE" and ?i = "ofidget a_mode"
  note kern = kpi_kern [OF assms(1)]
  obtain s1 where s1: "nlock_9p np NODE_LCK_EXCLUSIVE s = Some s1" "goes ?L 0 s s1" "vf_node s1 np \<noteq> None"
    by (rule lock_vnode [OF assms(2,3), of NODE_LCK_EXCLUSIVE]) auto
  then obtain n1 where n1: "vf_node s1 np = Some n1" by auto
  have "\<exists>e fid s'. (if of_fid (np_openfid n1 ! ?i) = NOFID then open_fid K np ?i (ucast mode) s1
      else Some (0, 0, s1)) = Some (e, fid, s') \<and> goes ?L 0 s1 s'"
    using open_fid_total [OF kern goes_inv [OF s1(2)] s1(3)] goes_refl [OF goes_inv [OF s1(2)]] by simp
  then obtain e fid s2 where s2: "(if of_fid (np_openfid n1 ! ?i) = NOFID then open_fid K np ?i (ucast mode) s1
      else Some (0, 0, s1)) = Some (e, fid, s2)" "goes ?L 0 s1 s2" by blast
  have g2: "goes ?L 0 s s2" by (rule goes_trans0 [OF s1(2) s2(2)])
  have x2: "vf_node s2 np \<noteq> None" by (rule goes_node [OF s2(2) s1(3)])
  show ?thesis
  proof (cases "e = 0")
    case False
    obtain e3 s3 where s3: "vclunk K fid s2 = Some (e3, s3)" "goes ?L 0 s2 s3"
      using goes_vclunk [OF kern goes_inv [OF g2]] by blast
    obtain s4 where "nunlock_9p np s3 = Some s4" "goes unlocked 0 s s4"
      by (rule unlock_vnode [OF goes_trans0 [OF g2 s3(2)] goes_node [OF s3(2) x2]]) auto
    then show ?thesis using m assms(3) s1(1) n1 s2(1) s3(1) False by (simp add: vnop_open_9p_def Let_def)
  next
    case True
    obtain n2 nvp where n2: "vf_node s2 np = Some n2" "np_vp n2 = Some nvp"
      using x2 inv_node(4) [OF goes_inv [OF g2]] by blast
    let ?s3 = "if vnode_vtype K nvp s2 \<noteq> VREG \<or> q_vers (d_qid (np_dir n2)) = 0
                     then kdo K (VnodeSetnoreadahead nvp) (kdo K (VnodeSetnocache nvp) s2) else s2"
    have "goes ?L 0 s2 ?s3"
      using goes_refl [OF goes_inv [OF g2]] goes_kdo2 [OF goes_inv [OF g2]] by simp
    then have g3: "goes ?L 0 s ?s3" by (rule goes_trans0 [OF g2])
    let ?s4 = "upd_openfid np ?i (\<lambda>x. x\<lparr>of_ref := of_ref x + 1\<rparr>) ?s3"
    have g4: "goes ?L 0 s ?s4" by (rule goes_trans0 [OF g3 goes_upd_openfid [OF goes_inv [OF g3]]])
    have x4: "vf_node ?s4 np \<noteq> None" using goes_node [OF g4] inv_fsnode [OF assms(2,3)] by blast
    obtain s5 where "nunlock_9p np ?s4 = Some s5" "goes unlocked 0 s s5"
      by (rule unlock_vnode [OF g4 x4]) auto
    then show ?thesis using m assms(3) s1(1) n1 s2(1) n2 True
      by (simp add: vnop_open_9p_def Let_def cong: if_cong)
  qed
qed

lemma push_dirty_total:
  assumes "vfs_inv L s" "vf_node s np \<noteq> None"
  shows "\<exists>s'. push_dirty K np s = Some s' \<and> goes L 0 s s'"
proof -
  obtain n vp where "vf_node s np = Some n" "np_vp n = Some vp"
    using assms(2) inv_node(4) [OF assms(1)] by blast
  then show ?thesis using goes_kdo [OF assms(1)] by (simp add: push_dirty_def)
qed

lemma vnop_close_total:
  assumes "kpi_ok K" "vfs_inv unlocked s" "vf_fsnode s vp = Some np"
  shows "\<exists>e s'. vnop_close_9p K vp fflag s = Some (e, s') \<and> goes unlocked 0 s s'"
proof -
  let ?L = "only np NODE_LCK_EXCLUSIVE" and ?i = "ofidget fflag"
  note kern = kpi_kern [OF assms(1)]
  obtain s1 where s1: "nlock_9p np NODE_LCK_EXCLUSIVE s = Some s1" "goes ?L 0 s s1" "vf_node s1 np \<noteq> None"
    by (rule lock_vnode [OF assms(2,3), of NODE_LCK_EXCLUSIVE]) auto
  then obtain n where n: "vf_node s1 np = Some n" by auto
  let ?op = "np_openfid n ! ?i"
  let ?s2 = "upd_openfid np ?i (\<lambda>x. x\<lparr>of_ref := of_ref x - 1\<rparr>) s1"
  have g2: "goes ?L 0 s ?s2" by (rule goes_trans0 [OF s1(2) goes_upd_openfid [OF goes_inv [OF s1(2)]]])
  have x: "vf_node s' np \<noteq> None" if "goes ?L 0 s s'" for s'
    using goes_node [OF that] inv_fsnode [OF assms(2,3)] by blast
  have fin: "\<exists>s''. nunlock_9p np s' = Some s'' \<and> goes unlocked 0 s s''" if "goes ?L 0 s s'" for s'
    by (rule unlock_vnode [OF that x [OF that]]) auto
  show ?thesis
  proof (cases "of_fid ?op = NOFID \<or> of_ref ?op \<noteq> 1")
    case True
    then show ?thesis using fin [OF s1(2)] fin [OF g2] s1(1) n assms(3)
      by (auto simp: vnop_close_9p_def Let_def)
  next
    case False
    obtain s3 where s3: "push_dirty K np ?s2 = Some s3" "goes ?L 0 ?s2 s3"
      using push_dirty_total [OF goes_inv [OF g2] x [OF g2]] by blast
    have g3: "goes ?L 0 s s3" by (rule goes_trans0 [OF g2 s3(2)])
    obtain e s4 where s4: "(if \<not> ISSET (mt_flags (vf_mt s3)) F_UNMOUNTING then vclunk K (of_fid ?op) s3
        else Some (0, s3)) = Some (e, s4)" "goes ?L 0 s3 s4"
      using goes_vclunk [OF kern goes_inv [OF g3], of "of_fid ?op"] goes_refl [OF goes_inv [OF g3]]
      by (cases "ISSET (mt_flags (vf_mt s3)) F_UNMOUNTING") auto
    have g4: "goes ?L 0 s s4" by (rule goes_trans0 [OF g3 s4(2)])
    obtain s5 where "nunlock_9p np (upd_openfid np ?i (\<lambda>x. x\<lparr>of_fid := NOFID\<rparr>) s4) = Some s5"
        "goes unlocked 0 s s5"
      using fin [OF goes_trans0 [OF g4 goes_upd_openfid [OF goes_inv [OF g4]]]] by blast
    then show ?thesis
      using False s1(1) n assms(3) s3(1) s4(1) by (auto simp: vnop_close_9p_def Let_def cong: if_cong)
  qed
qed

section \<open>Attributes\<close>

lemma nulldir_fits: "dir_strings_fit nulldir dotu" "dir_strings_fit (setattr_dir va t dotu') dotu"
  "length nm < 65536 \<Longrightarrow> dir_strings_fit (nulldir\<lparr>d_name := nm\<rparr>) dotu"
proof -
  have d: "dir_sv (setattr_dir va t dotu') = replicate 5 []"
    by (simp add: setattr_dir_def Let_def nulldir_def dir_sv_def numeral_eq_Suc split: option.split)
  show "dir_strings_fit nulldir dotu" "length nm < 65536 \<Longrightarrow> dir_strings_fit (nulldir\<lparr>d_name := nm\<rparr>) dotu"
    by (cases dotu; simp add: nulldir_def dir_strings_fit_def dir_strings_simps)+
  show "dir_strings_fit (setattr_dir va t dotu') dotu"
    by (auto simp: dir_strings_fit_def dir_strings_def d dest: in_set_takeD)
qed

lemma vnop_setattr_total:
  assumes "kpi_ok K" "vfs_inv unlocked s" "vf_fsnode s vp = Some np"
  shows "\<exists>e s'. vnop_setattr_9p K vp va s = Some (e, s') \<and> goes unlocked 0 s s'"
proof (cases "vis K IsRdonly vp s \<or> vis K IsVroot vp s
    \<or> vs_data_size va \<noteq> None \<and> vnode_vtype K vp s = VDIR")
  case True
  then show ?thesis using goes_refl [OF assms(2)] by (auto simp: vnop_setattr_9p_def)
next
  case False
  let ?L = "only np NODE_LCK_EXCLUSIVE" and ?d = "setattr_dir va (vnode_vtype K vp s) (dotu_of s)"
  obtain s1 n where s1: "nlock_9p np NODE_LCK_EXCLUSIVE s = Some s1" "goes ?L 0 s s1" "vf_node s1 np = Some n"
    by (rule lock_vnode [OF assms(2,3), of NODE_LCK_EXCLUSIVE]) auto
  obtain e s2 where s2: "vwstat K (np_fid n) ?d s1 = Some (e, s2)" "goes ?L 0 s1 s2"
    using goes_vwstat [OF kpi_kern [OF assms(1)] goes_inv [OF s1(2)] nulldir_fits(2)] by blast
  have g2: "goes ?L 0 s s2" by (rule goes_trans0 [OF s1(2) s2(2)])
  let ?s3 = "upd_node np (\<lambda>n. n\<lparr>np_dirtimer := 0\<rparr>) s2"
  have "goes ?L 0 s2 ?s3" by (rule goes_upd_data [OF goes_inv [OF g2]]) simp
  then have g3: "goes ?L 0 s ?s3" by (rule goes_trans0 [OF g2])
  let ?s4 = "if e = 0 \<and> d_length ?d \<noteq> -1 then kdo K (UbcSetsize vp (sint (d_length ?d))) ?s3 else ?s3"
  have g4: "goes ?L 0 s ?s4" using goes_trans0 [OF g3 goes_kdo [OF goes_inv [OF g3]]] g3 by simp
  obtain s5 where "nunlock_9p np ?s4 = Some s5" "goes unlocked 0 s s5"
    by (rule unlock_vnode [OF g4 goes_node [OF g4]]) (use inv_fsnode [OF assms(2,3)] in auto)
  then show ?thesis using False assms(3) s1 s2(1) by (auto simp: vnop_setattr_9p_def Let_def)
qed

lemma vnop_fsync_total:
  assumes "kpi_ok K" "vfs_inv unlocked s" "vf_fsnode s vp = Some np"
  shows "\<exists>e s'. vnop_fsync_9p K vp s = Some (e, s') \<and> goes unlocked 0 s s'"
proof (cases "vnode_vtype K vp s = VREG")
  case False
  then show ?thesis using goes_refl [OF assms(2)] by (simp add: vnop_fsync_9p_def)
next
  case True
  let ?L = "only np NODE_LCK_EXCLUSIVE"
  obtain s1 where s1: "nlock_9p np NODE_LCK_EXCLUSIVE s = Some s1" "goes ?L 0 s s1" "vf_node s1 np \<noteq> None"
    by (rule lock_vnode [OF assms(2,3), of NODE_LCK_EXCLUSIVE]) auto
  let ?push = "kp_ubcsize K vp (vworld s1) > 0 \<and> \<not> vis K IsNocache vp s1"
  obtain s2 where s2: "(if ?push then push_dirty K np s1 else Some s1) = Some s2" "goes ?L 0 s1 s2"
    using push_dirty_total [OF goes_inv [OF s1(2)] s1(3), of K] goes_refl [OF goes_inv [OF s1(2)]]
    by (cases ?push) auto
  have g2: "goes ?L 0 s s2" by (rule goes_trans0 [OF s1(2) s2(2)])
  obtain n where n: "vf_node s2 np = Some n" using goes_node [OF s2(2) s1(3)] by auto
  let ?w = "of_fid (np_openfid n ! OWRITE) \<noteq> NOFID \<or> of_fid (np_openfid n ! ORDWR) \<noteq> NOFID"
  obtain e s3 where s3: "(if ?w then vwstat K (np_fid n) nulldir s2 else Some (0, s2)) = Some (e, s3)"
      "goes ?L 0 s2 s3"
    using goes_vwstat [OF kpi_kern [OF assms(1)] goes_inv [OF g2] nulldir_fits(1), of "np_fid n"]
      goes_refl [OF goes_inv [OF g2]] by (cases ?w) auto
  have g3: "goes ?L 0 s s3" by (rule goes_trans0 [OF g2 s3(2)])
  obtain s4 where "nunlock_9p np s3 = Some s4" "goes unlocked 0 s s4"
    by (rule unlock_vnode [OF g3 goes_node [OF g3]]) (use inv_fsnode [OF assms(2,3)] in auto)
  then show ?thesis using True assms(3) s1(1) s2(1) n s3(1)
    by (simp add: vnop_fsync_9p_def Let_def cong: if_cong)
qed

section \<open>Mapping\<close>

lemma mmap_flags:
  "ISSET (f OR NODE_MMAPPED) NODE_INIT = ISSET f NODE_INIT"
  "ISSET (f OR NODE_MMAPPED) NODE_RECL = ISSET f NODE_RECL"
  "ISSET (f AND NOT NODE_MMAPPED) NODE_INIT = ISSET f NODE_INIT"
  "ISSET (f AND NOT NODE_MMAPPED) NODE_RECL = ISSET f NODE_RECL"
  by (simp_all add: ISSET_def and.assoc bit.conj_disj_distrib2)

lemma lock_set_flags:
  assumes "vfs_inv unlocked s" "vf_fsnode s vp = Some np"
    and "\<And>n. ISSET (h n) NODE_INIT = ISSET n NODE_INIT \<and> ISSET (h n) NODE_RECL = ISSET n NODE_RECL"
  shows "\<exists>s1 s'. nlock_9p np NODE_LCK_EXCLUSIVE s = Some s1
    \<and> nunlock_9p np (upd_node np (\<lambda>n. n\<lparr>np_flags := h (np_flags n)\<rparr>) s1) = Some s' \<and> goes unlocked 0 s s'"
proof -
  let ?L = "only np NODE_LCK_EXCLUSIVE" and ?f = "\<lambda>n. n\<lparr>np_flags := h (np_flags n)\<rparr>"
  obtain s1 where s1: "nlock_9p np NODE_LCK_EXCLUSIVE s = Some s1" "goes ?L 0 s s1" "vf_node s1 np \<noteq> None"
    by (rule lock_vnode [OF assms(1,2), of NODE_LCK_EXCLUSIVE]) auto
  have "goes ?L 0 s1 (upd_node np ?f s1)"
    by (rule goes_upd_data [OF goes_inv [OF s1(2)]]) (use assms(3) in simp)
  then have g: "goes ?L 0 s (upd_node np ?f s1)" by (rule goes_trans0 [OF s1(2)])
  show ?thesis
    by (rule unlock_vnode [OF g goes_node [OF g]]) (use inv_fsnode [OF assms(1,2)] s1(1) in auto)
qed

lemma vnop_mmap_total:
  assumes "vfs_inv unlocked s" "vf_fsnode s vp = Some np"
  shows "\<exists>e s'. vnop_mmap_9p vp s = Some (e, s') \<and> goes unlocked 0 s s'"
    "\<exists>e s'. vnop_mnomap_9p vp s = Some (e, s') \<and> goes unlocked 0 s s'"
  using lock_set_flags [OF assms conjI [OF mmap_flags(1,2)]]
    lock_set_flags [OF assms conjI [OF mmap_flags(3,4)]] assms(2)
  by (auto simp: vnop_mmap_9p_def vnop_mnomap_9p_def)

lemma vnop_pathconf_total:
  assumes "vfs_inv unlocked s" "vf_fsnode s vp = Some np"
  shows "\<exists>e v s'. vnop_pathconf_9p vp name s = Some (e, v, s') \<and> goes unlocked 0 s s'"
proof -
  obtain s1 n where s1: "nlock_9p np NODE_LCK_SHARED s = Some s1" "goes (only np NODE_LCK_SHARED) 0 s s1"
      "vf_node s1 np = Some n"
    by (rule lock_vnode [OF assms, of NODE_LCK_SHARED]) auto
  obtain s2 where "nunlock_9p np s1 = Some s2" "goes unlocked 0 s s2"
    by (rule unlock_vnode [OF s1(2)]) (use s1(3) in auto)
  then show ?thesis using s1 assms(2) goes_refl [OF assms(1)]
    by (cases name) (auto simp: vnop_pathconf_9p_def)
qed

section \<open>Paging\<close>

lemma kpi_vfscall:
  assumes "kpi_ok K" "vfs_inv L s" "keeps_table c"
  shows "\<exists>e s'. kp_vfscall K c s = (e, s') \<and> goes L 0 s s'"
  using assms unfolding kpi_ok_def by (cases "kp_vfscall K c s") (metis snd_conv)

lemma vnop_paging_total:
  assumes "kpi_ok K" "vfs_inv unlocked s" "vf_fsnode s vp = Some np"
  shows "\<exists>e s'. vnop_pagein_9p K vp s = Some (e, s') \<and> goes unlocked 0 s s'"
    "\<exists>e s'. vnop_pageout_9p K vp s = Some (e, s') \<and> goes unlocked 0 s s'"
proof -
  obtain n where "vf_node s np = Some n" using inv_fsnode [OF assms(2,3)] by blast
  then show "\<exists>e s'. vnop_pagein_9p K vp s = Some (e, s') \<and> goes unlocked 0 s s'"
    "\<exists>e s'. vnop_pageout_9p K vp s = Some (e, s') \<and> goes unlocked 0 s s'"
    using kpi_vfscall [OF assms(1,2)] goes_refl [OF assms(2)] assms(3)
    by (simp_all add: vnop_pagein_9p_def vnop_pageout_9p_def keeps_table_def)
qed

section \<open>Reading\<close>

text \<open>What a transfer does to the \<^verbatim>\<open>uio\<close>: it moves some bytes, and accounts for them.\<close>

definition uio_moves :: "uio \<Rightarrow> uio \<Rightarrow> bool" where
  "uio_moves u u' \<longleftrightarrow> uio_resid u' \<le> uio_resid u \<and> (0 \<le> uio_resid u \<longrightarrow> 0 \<le> uio_resid u')
     \<and> uio_offset u' = uio_offset u + (uio_resid u - uio_resid u')
     \<and> (\<exists>d. uio_data u' = uio_data u @ d \<and> int (length d) = uio_resid u - uio_resid u')"

lemma uio_moves_refl: "uio_moves u u"
  by (simp add: uio_moves_def)

lemma uio_moves_trans: "uio_moves u u1 \<Longrightarrow> uio_moves u1 u2 \<Longrightarrow> uio_moves u u2"
  by (auto simp: uio_moves_def)

lemma uiomove_out_moves:
  assumes "uiomove_out K d u s = (e, u', s')"
  shows "uio_moves u u'" "vfs_inv L s \<Longrightarrow> goes L 0 s s'"
proof -
  show "uio_moves u u'"
    using assms by (auto simp: uiomove_out_def uio_moves_def uio_advance_def Let_def split: prod.splits)
  show "vfs_inv L s \<Longrightarrow> goes L 0 s s'"
    using assms by (auto simp: uiomove_out_def Let_def intro: goes_world split: prod.splits)
qed

lemma unat_min_u32:
  assumes "0 \<le> r"
  shows "unat (of_int (min r (uint sz)) :: u32) \<le> unat (sz :: u32)"
    "int (unat (of_int (min r (uint sz)) :: u32)) = min r (uint sz)"
proof -
  let ?x = "min r (uint sz)"
  have lt: "uint sz < 2 ^ 32" using uint_lt2p [of sz] by simp
  have x: "0 \<le> ?x" "?x \<le> uint sz" using assms by simp_all
  then have "uint (of_int ?x :: u32) = ?x" using lt by (simp add: uint_word_of_int)
  then show i: "int (unat (of_int ?x :: u32)) = ?x" by simp
  show "unat (of_int ?x :: u32) \<le> unat sz"
    using i x(2) by (simp flip: zle_int)
qed

lemma nread_loop_total:
  assumes "kern_ok (kp_kern K)"
  shows "vfs_inv L s \<Longrightarrow> unat sz \<le> length p
    \<Longrightarrow> \<exists>e u' s'. nread_loop K fid sz p u s = Some (e, u', s') \<and> goes L 0 s s' \<and> uio_moves u u'"
  using assms
proof (induction K fid sz p u s rule: nread_loop.induct)
  case (1 K fid sz p u s)
  note unf = nread_loop.simps [of K fid sz p u s]
  show ?case
  proof (cases "uio_resid u > 0")
    case False
    then show ?thesis using goes_refl [OF "1.prems"(1)] by (simp add: unf uio_moves_refl)
  next
    case True
    let ?n = "of_int (min (uio_resid u) (uint sz)) :: u32"
    have n: "unat ?n \<le> length p" using unat_min_u32(1) [of "uio_resid u" sz] True "1.prems"(2) by simp
    obtain e l p' s1 where r: "vread K fid p ?n (of_int (uio_offset u)) s = Some (e, l, p', s1)"
        "goes L 0 s s1" "l \<le> ?n" "length p' = length p" "e \<noteq> 0 \<longrightarrow> l = 0"
      using goes_vread [OF "1.prems"(3,1) n] by blast
    have l: "\<not> length p' < unat l" using r(3,4) n by (simp add: word_le_nat_alt)
    show ?thesis
    proof (cases "e \<noteq> 0 \<or> l = 0")
      case stop: True
      then show ?thesis using True r(1,2) by (auto simp: unf uio_moves_refl)
    next
      case go: False
      obtain e2 u' s2 where m: "uiomove_out K (take (unat l) p') u s1 = (e2, u', s2)" by (metis prod_cases3)
      have g2: "goes L 0 s s2" "uio_moves u u'"
        using goes_trans0 [OF r(2) uiomove_out_moves(2) [OF m goes_inv [OF r(2)]]] uiomove_out_moves(1) [OF m] .
      show ?thesis
      proof (cases "e2 = 0")
        case False
        then show ?thesis using True r(1) go l m g2 by (simp add: unf)
      next
        case more: True
        have "unat sz \<le> length p'" using "1.prems"(2) r(4) by simp
        from "1.IH" [OF True r(1) refl refl refl go l m [symmetric] refl]
        have "\<exists>e u'' s'. nread_loop K fid sz p' u' s2 = Some (e, u'', s') \<and> goes L 0 s2 s' \<and> uio_moves u' u''"
          using more goes_inv [OF g2(1)] \<open>unat sz \<le> length p'\<close> "1.prems"(3) by blast
        then show ?thesis
          using True r(1) go l m more goes_trans0 [OF g2(1)] uio_moves_trans [OF g2(2)] by (auto simp: unf)
      qed
    qed
  qed
qed

lemma nread_total:
  assumes "kern_ok (kp_kern K)" "vfs_inv L s" "vf_node s np \<noteq> None"
  shows "\<exists>e u' s'. nread_9p K np u s = Some (e, u', s') \<and> goes L 0 s s' \<and> uio_moves u u'"
proof -
  obtain n where n: "vf_node s np = Some n" using assms(3) by auto
  show ?thesis
  proof (cases "rw_fid n OREAD = NOFID")
    case True
    then show ?thesis using n goes_refl [OF assms(2)] by (simp add: nread_9p_def Let_def uio_moves_refl)
  next
    case False
    obtain q s1 where m: "vmalloc K (unat (io_size s n)) s = (q, s1)" by fastforce
    note g1 = goes_vmalloc [OF assms(2) m]
    show ?thesis
    proof (cases q)
      case None
      then show ?thesis using n False m g1(1) by (simp add: nread_9p_def Let_def uio_moves_refl)
    next
      case (Some b)
      have "unat (io_size s n) \<le> length b" using g1(2) Some by simp
      from nread_loop_total [OF assms(1) goes_inv [OF g1(1)] this]
      obtain e u' s2 where r: "nread_loop K (rw_fid n OREAD) (io_size s n) b u s1 = Some (e, u', s2)"
          "goes L 0 s1 s2" "uio_moves u u'" by blast
      have "goes L 1 s s2" using goes_trans [OF g1(1) r(2)] Some by simp
      from goes_trans [OF this goes_vfree [OF goes_inv [OF this], of True]]
      have "goes L 0 s (vfree True s2)" by simp
      then show ?thesis using n False m Some r by (simp add: nread_9p_def Let_def)
    qed
  qed
qed

lemma vnop_read_total:
  assumes "kpi_ok K" "vfs_inv unlocked s" "vf_fsnode s vp = Some np"
  shows "\<exists>e u' s'. vnop_read_9p K vp u ioflag s = Some (e, u', s') \<and> goes unlocked 0 s s'"
proof (cases "vnode_vtype K vp s = VDIR \<or> uio_offset u < 0 \<or> uio_resid u = 0")
  case True
  then show ?thesis using goes_refl [OF assms(2)] by (auto simp: vnop_read_9p_def)
next
  case False
  let ?L = "only np NODE_LCK_SHARED"
  obtain s1 n where s1: "nlock_9p np NODE_LCK_SHARED s = Some s1" "goes ?L 0 s s1" "vf_node s1 np = Some n"
    by (rule lock_vnode [OF assms(2,3), of NODE_LCK_SHARED]) auto
  note i1 = goes_inv [OF s1(2)]
  let ?s2 = "if ISSET (np_flags n) NODE_MMAPPED
             then kdo K (UbcMsync vp 0 (kp_ubcsize K vp (vworld s1)) True) s1 else kdo K (ClusterPush vp) s1"
  let ?s3 = "kdo K (UbcMsync vp (uio_offset u) (uio_offset u + uio_resid u) False) ?s2"
  have g3: "goes ?L 0 s1 ?s3" using goes_kdo2 [OF i1] by simp
  obtain e u' s4 where r: "nread_9p K np u ?s3 = Some (e, u', s4)" "goes ?L 0 ?s3 s4"
    using nread_total [OF kpi_kern [OF assms(1)] goes_inv [OF g3] goes_node [OF g3]] s1(3) by blast
  let ?nc = "vis K IsNocache vp s1 \<or> ISSET ioflag IO_NOCACHE"
  obtain e2 u2 s5 where c: "kp_cluster_read K vp u (sint (d_length (np_dir n))) ioflag s1 = (e2, u2, s5)"
    by (metis prod_cases3)
  have "goes ?L 0 s1 s5" using assms(1) i1 c unfolding kpi_ok_def by (metis snd_conv)
  then obtain e6 u6 s6 where b: "(if ?nc then nread_9p K np u ?s3
       else Some (kp_cluster_read K vp u (sint (d_length (np_dir n))) ioflag s1)) = Some (e6, u6, s6)"
      "goes ?L 0 s1 s6"
    using r(1) goes_trans0 [OF g3 r(2)] c by (cases ?nc) auto
  obtain s7 where "nunlock_9p np s6 = Some s7" "goes unlocked 0 s s7"
    by (rule unlock_vnode [OF goes_trans0 [OF s1(2) b(2)] goes_node [OF b(2)]]) (use s1(3) in auto)
  then show ?thesis using False assms(3) s1(1,3) b(1) by (simp add: vnop_read_9p_def Let_def cong: if_cong)
qed

section \<open>Removing and renaming\<close>

lemma inv_fsnode_inj:
  assumes "vfs_inv L s" "vf_fsnode s vp = Some np" "vf_fsnode s vp' = Some np'" "vp \<noteq> vp'"
  shows "np \<noteq> np'"
proof
  assume eq: "np = np'"
  obtain n where n: "vf_node s np = Some n" "np_vp n = Some vp" by (rule inv_fsnode [OF assms(1,2)])
  obtain n' where "vf_node s np' = Some n'" "np_vp n' = Some vp'" by (rule inv_fsnode [OF assms(1,3)])
  with n eq assms(4) show False by simp
qed

text \<open>Two nodes are locked, the directory first, and unlocked in the other order.\<close>

lemma lock_two:
  assumes "vfs_inv unlocked s" "vf_fsnode s dvp = Some dnp" "vf_fsnode s vp = Some np" "dnp \<noteq> np"
  obtains s1 s2 where "nlock_9p dnp NODE_LCK_EXCLUSIVE s = Some s1" "nlock_9p np NODE_LCK_EXCLUSIVE s1 = Some s2"
    "goes ((only dnp NODE_LCK_EXCLUSIVE)(np := NODE_LCK_EXCLUSIVE)) 0 s s2" "vf_node s2 np \<noteq> None"
proof -
  obtain s1 where s1: "nlock_9p dnp NODE_LCK_EXCLUSIVE s = Some s1"
      "goes (only dnp NODE_LCK_EXCLUSIVE) 0 s s1" "vf_node s1 dnp \<noteq> None"
    by (rule lock_vnode [OF assms(1,2), of NODE_LCK_EXCLUSIVE]) auto
  have n: "vf_node s1 np \<noteq> None" using goes_node [OF s1(2)] inv_fsnode [OF assms(1,3)] by blast
  have free: "only dnp NODE_LCK_EXCLUSIVE np = NODE_LCK_NONE" using assms(4) by simp
  show ?thesis
  proof (rule goes_nlock [OF goes_inv [OF s1(2)] n free, of NODE_LCK_EXCLUSIVE])
    fix s2 assume s2: "nlock_9p np NODE_LCK_EXCLUSIVE s1 = Some s2"
      "goes ((only dnp NODE_LCK_EXCLUSIVE)(np := NODE_LCK_EXCLUSIVE)) 0 s1 s2"
    show thesis by (rule that [OF s1(1) s2(1) goes_trans0 [OF s1(2) s2(2)] goes_node [OF s2(2) n]])
  qed simp
qed

lemma unlock_two:
  assumes "goes ((only dnp NODE_LCK_EXCLUSIVE)(np := NODE_LCK_EXCLUSIVE)) k s s1" "dnp \<noteq> np"
    "vf_node s1 np \<noteq> None" "vf_node s1 dnp \<noteq> None"
  obtains s2 s3 where "nunlock_9p np s1 = Some s2" "nunlock_9p dnp s2 = Some s3" "goes unlocked k s s3"
proof -
  let ?L = "(only dnp NODE_LCK_EXCLUSIVE)(np := NODE_LCK_EXCLUSIVE)"
  obtain s2 where s2: "nunlock_9p np s1 = Some s2" "goes (?L(np := NODE_LCK_NONE)) 0 s1 s2"
    by (rule goes_nunlock [OF goes_inv [OF assms(1)] assms(3)]) auto
  have "?L(np := NODE_LCK_NONE) = only dnp NODE_LCK_EXCLUSIVE" using assms(2) by auto
  then have g: "goes (only dnp NODE_LCK_EXCLUSIVE) k s s2" using goes_trans [OF assms(1) s2(2)] by simp
  show ?thesis
    by (rule unlock_vnode [OF g goes_node [OF s2(2) assms(4)]]) (use that s2(1) in auto)
qed

lemma vnop_remove_total:
  assumes "kpi_ok K" "vfs_inv unlocked s" "vf_fsnode s dvp = Some dnp" "vf_fsnode s vp = Some np" "dvp \<noteq> vp"
  shows "\<exists>e s'. vnop_remove_9p K dvp vp busy s = Some (e, s') \<and> goes unlocked 0 s s'"
proof (cases "busy \<and> vis K (IsInuse False) vp s")
  case True
  then show ?thesis using goes_refl [OF assms(2)] assms(5) by (simp add: vnop_remove_9p_def)
next
  case False
  have ne: "dnp \<noteq> np" by (rule inv_fsnode_inj [OF assms(2-5)])
  let ?L = "(only dnp NODE_LCK_EXCLUSIVE)(np := NODE_LCK_EXCLUSIVE)"
  obtain s1 s2 n where s2: "nlock_9p dnp NODE_LCK_EXCLUSIVE s = Some s1" "nlock_9p np NODE_LCK_EXCLUSIVE s1 = Some s2"
      "goes ?L 0 s s2" "vf_node s2 np = Some n" by (rule lock_two [OF assms(2-4) ne]) auto
  obtain e s3 where s3: "vremove K (np_fid n) s2 = Some (e, s3)" "goes ?L 0 s2 s3"
    using goes_vremove [OF kpi_kern [OF assms(1)] goes_inv [OF s2(3)]] by blast
  let ?s4 = "if e = 0 then kdo K (VnodeRecycle vp) (kdo K (CachePurge vp) s3) else s3"
  have "goes ?L 0 s3 ?s4" using goes_kdo2 [OF goes_inv [OF s3(2)]] goes_refl [OF goes_inv [OF s3(2)]] by simp
  then have g4: "goes ?L 0 s ?s4" by (rule goes_trans0 [OF goes_trans0 [OF s2(3) s3(2)]])
  obtain s5 s6 where "nunlock_9p np ?s4 = Some s5" "nunlock_9p dnp s5 = Some s6" "goes unlocked 0 s s6"
    by (rule unlock_two [OF g4 ne goes_node [OF g4] goes_node [OF g4]])
      (use inv_fsnode_node [OF assms(2,3)] inv_fsnode_node [OF assms(2,4)] in auto)
  then show ?thesis using False assms(3-5) s2 s3(1)
    by (auto simp: vnop_remove_9p_def Let_def cong: if_cong)
qed

lemma vnop_rename_total:
  assumes "kpi_ok K" "vfs_inv unlocked s" "vf_fsnode s fdvp = Some fdnp" "vf_fsnode s fvp = Some fnp"
    and "fdvp \<noteq> fvp" "cn_namelen tcnp < 65536" "cn_namelen tcnp \<le> int (length (cn_name tcnp))"
  shows "\<exists>e s'. vnop_rename_9p K fdvp tdvp fvp tcnp s = Some (e, s') \<and> goes unlocked 0 s s'"
proof (cases "fdvp \<noteq> tdvp \<or> vf_fsnode s fdvp \<noteq> vf_fsnode s tdvp")
  case True
  then show ?thesis using goes_refl [OF assms(2)] by (simp add: vnop_rename_9p_def)
next
  case False
  have ne: "fdnp \<noteq> fnp" by (rule inv_fsnode_inj [OF assms(2-5)])
  let ?L = "(only fdnp NODE_LCK_EXCLUSIVE)(fnp := NODE_LCK_EXCLUSIVE)"
  obtain s1 s2 n where s2: "nlock_9p fdnp NODE_LCK_EXCLUSIVE s = Some s1" "nlock_9p fnp NODE_LCK_EXCLUSIVE s1 = Some s2"
      "goes ?L 0 s s2" "vf_node s2 fnp = Some n" by (rule lock_two [OF assms(2-4) ne]) auto
  obtain q s3 where m: "vmalloc K (nat (cn_namelen tcnp + 1)) s2 = (q, s3)" by fastforce
  note g3 = goes_vmalloc(1) [OF goes_inv [OF s2(3)] m]
  obtain nm where nm: "rdn (cn_name tcnp) 0 (nat (cn_namelen tcnp)) = Some nm" "length nm < 65536"
  proof -
    have "0 + nat (cn_namelen tcnp) \<le> length (cn_name tcnp)" using assms(7) by simp
    from rdn_Some [OF this] assms(6) show ?thesis by (intro that) auto
  qed
  then have "length (cstr nm) < 65536" using length_cstr_le [of nm] by simp
  note fits = nulldir_fits(3) [OF this]
  obtain e s4 where s4: "vwstat K (np_fid n) (nulldir\<lparr>d_name := cstr nm\<rparr>) s3 = Some (e, s4)" "goes ?L 0 s3 s4"
    using goes_vwstat [OF kpi_kern [OF assms(1)] goes_inv [OF g3] fits] by blast
  let ?s5 = "vfree True s4"
  let ?s6 = "if e = 0 then kdo K (CachePurge fdvp) (kdo K (CachePurge fvp) ?s5) else ?s5"
  have "\<exists>e' s'. (case q of None \<Rightarrow> Some (ENOMEM, s3) | Some _ \<Rightarrow> Some (e, ?s6)) = Some (e', s') \<and> goes ?L 0 s s'"
  proof (cases q)
    case None
    then show ?thesis using goes_trans0 [OF s2(3)] g3 by simp
  next
    case (Some b)
    have g4: "goes ?L 1 s s4" using goes_trans [OF goes_trans [OF s2(3) g3] s4(2)] Some by simp
    have g5: "goes ?L 0 s ?s5" using goes_trans [OF g4 goes_vfree [OF goes_inv [OF g4], of True]] by simp
    have "goes ?L 0 s ?s6" using goes_trans0 [OF g5 goes_kdo2 [OF goes_inv [OF g5]]] g5 by simp
    then show ?thesis using Some by simp
  qed
  then obtain e7 s7 where s7: "(case q of None \<Rightarrow> Some (ENOMEM, s3) | Some _ \<Rightarrow> Some (e, ?s6)) = Some (e7, s7)"
      "goes ?L 0 s s7" by blast
  obtain s8 s9 where "nunlock_9p fnp s7 = Some s8" "nunlock_9p fdnp s8 = Some s9" "goes unlocked 0 s s9"
    by (rule unlock_two [OF s7(2) ne goes_node [OF s7(2)] goes_node [OF s7(2)]])
      (use inv_fsnode_node [OF assms(2,3)] inv_fsnode_node [OF assms(2,4)] in auto)
  moreover have t: "tdvp = fdvp" using False by simp
  ultimately show ?thesis using assms(3,4) s2 m nm s4(1) s7(1) unfolding t
    by (cases q) (auto simp: vnop_rename_9p_def Let_def cong: if_cong)
qed

end
