(* ===== verification/NodeProofs.thy ===== *)
theory NodeProofs
  imports VnopsProofs
begin

text \<open>
  The table of nodes: what \<open>nget_9p\<close> returns and what it leaves behind. While a node is being made it
  does not satisfy the invariant; the states in between are written out, as the old state with one
  node more.
\<close>

section \<open>Steps that only change the protocol's mount\<close>

definition mt_goes :: "int \<Rightarrow> 'w vfs \<Rightarrow> 'w vfs \<Rightarrow> bool" where
  "mt_goes k s s' \<longleftrightarrow> (\<exists>m'. s' = s\<lparr>vf_mt := m'\<rparr> \<and> after (vf_mt s) k m')"

lemma mt_goes_trans: "mt_goes j s s1 \<Longrightarrow> mt_goes k s1 s2 \<Longrightarrow> mt_goes (j + k) s s2"
  unfolding mt_goes_def by (elim exE conjE) (rule exI, rule conjI [OF _ after_trans], auto)

lemma mt_goes_refl: "mount_ok (vf_mt s) \<Longrightarrow> mt_goes 0 s s"
  by (auto simp: mt_goes_def intro!: exI [of _ "vf_mt s"] after_refl)

lemma mt_goes_ok: "mt_goes k s s' \<Longrightarrow> mount_ok (vf_mt s')"
  by (auto simp: mt_goes_def after_def)

lemma mt_goes_inv: "mt_goes k s s' \<Longrightarrow> vfs_inv L s \<Longrightarrow> goes L k s s'"
  by (auto simp: mt_goes_def intro: goes_mount)

lemma mt_world: "mount_ok (vf_mt s) \<Longrightarrow> mt_goes 0 s (set_world w s)"
  by (auto simp: mt_goes_def intro: after_mt_world)

lemma mt_kcall: "mount_ok (vf_mt s) \<Longrightarrow> kcall K c s = (e, s') \<Longrightarrow> mt_goes 0 s s'"
  by (auto simp: kcall_def split: prod.splits intro: mt_world)

lemma mt_kdo: "mount_ok (vf_mt s) \<Longrightarrow> mt_goes 0 s (kdo K c s)"
  by (auto simp: kdo_def kcall_def split: prod.splits intro: mt_world)

lemma mt_vmalloc: "mount_ok (vf_mt s) \<Longrightarrow> vmalloc K n s = (p, s') \<Longrightarrow> mt_goes (held p) s s'"
  using after_malloc [of "vf_mt s"] by (fastforce simp: vmalloc_def mt_goes_def split: prod.splits)

lemma mt_vfree: "mount_ok (vf_mt s) \<Longrightarrow> mt_goes (if b then -1 else 0) s (vfree b s)"
  using after_free [OF after_refl, of "vf_mt s" "Some []"] mt_goes_refl [of s]
  by (auto simp: vfree_def mt_goes_def)

lemma mt_vstat:
  assumes "kern_ok (kp_kern K)" "mount_ok (vf_mt s)" "vstat K fid s = Some (e, dp, s')"
  shows "mt_goes (if dp = None then 0 else 1) s s'" "e = 0 \<Longrightarrow> dp \<noteq> None"
proof -
  obtain m' where m': "s' = s\<lparr>vf_mt := m'\<rparr>" "stat_9p (k_env (kp_kern K)) (ktx K s) (krx K s)
      (k_sizeof_Dir (kp_kern K)) fid (vf_mt s) = Some (e, dp, m')"
    using assms(3) by (auto simp: vstat_def split: bind_splits)
  note w = stat_within [OF kern_recv [OF assms(1)] assms(2) kern_stack [OF assms(1)] m'(2)]
  show "mt_goes (if dp = None then 0 else 1) s s'" using w(1) m'(1) by (auto simp: mt_goes_def)
  show "e = 0 \<Longrightarrow> dp \<noteq> None" using w(2) .
qed

section \<open>One node more\<close>

lemma ins_simps [simp]:
  "vf_node (list_insert np h n s) np = Some n" "vf_mt (list_insert np h n s) = vf_mt s"
  "vf_nodelck (list_insert np h n s) = vf_nodelck s" "vf_fsnode (list_insert np h n s) = vf_fsnode s"
  "vf_nextvp (list_insert np h n s) = vf_nextvp s"
  "upd_node np f (list_insert np h n s) = list_insert np h (f n) s"
  "nodelck_unlock (list_insert np h n s) = list_insert np h n (nodelck_unlock s)"
  "list_insert np h n s\<lparr>vf_mt := m\<rparr> = list_insert np h n (s\<lparr>vf_mt := m\<rparr>)"
  "list_insert np h n s\<lparr>vf_nodelck := b\<rparr> = list_insert np h n (s\<lparr>vf_nodelck := b\<rparr>)"
  by (simp_all add: list_insert_def upd_node_def nodelck_unlock_def)

lemma mt_goes_ins: "mt_goes k (list_insert np h n s) s' \<longleftrightarrow> (\<exists>t. s' = list_insert np h n t \<and> mt_goes k s t)"
  by (auto simp: mt_goes_def)

lemma kdo_ins: "\<exists>t. kdo K c (list_insert np h n s) = list_insert np h n t \<and> (mount_ok (vf_mt s) \<longrightarrow> mt_goes 0 s t)"
  using mt_world [of s] by (auto simp: kdo_def kcall_def split: prod.splits)

lemma nlock_ins: "np_lck n = Unlocked \<Longrightarrow> nlock_9p np NODE_LCK_EXCLUSIVE (list_insert np h n s)
    = Some (list_insert np h (n\<lparr>np_lck := Exclusive, np_lcktype := NODE_LCK_EXCLUSIVE\<rparr>) s)"
  by (simp add: nlock_9p_def)

lemma nunlock_ins: "np_lck n = Exclusive \<Longrightarrow> np_lcktype n = NODE_LCK_EXCLUSIVE
    \<Longrightarrow> nunlock_9p np (list_insert np h n s) = Some (list_insert np h (n\<lparr>np_lcktype := NODE_LCK_NONE, np_lck := Unlocked\<rparr>) s)"
  by (simp add: nunlock_9p_def)

lemma ngetdir_ins:
  assumes "kern_ok (kp_kern K)" "mount_ok (vf_mt s)" "ngetdir_9p K np (list_insert np h n s) = Some (e, s')"
  obtains d t k where "s' = list_insert np h (n\<lparr>np_dir := d\<rparr>) t" "mt_goes k s t" "e = 0 \<Longrightarrow> k = 0"
proof (cases "np_dirtimer n \<noteq> 0 \<and> kp_time K (vworld s) - np_dirtimer n < DIRTIMEOUT")
  case True
  then show ?thesis using assms(3) mt_goes_refl [OF assms(2)]
    by (intro that [of "np_dir n" s 0]) (auto simp: ngetdir_9p_def Let_def)
next
  case False
  then obtain e1 dp s1 where v: "vstat K (np_fid n) (list_insert np h n s) = Some (e1, dp, s1)"
    using assms(3) by (auto simp: ngetdir_9p_def Let_def split: bind_splits)
  have "mount_ok (vf_mt (list_insert np h n s))" using assms(2) by simp
  note w = mt_vstat [OF assms(1) this v]
  obtain t where t: "s1 = list_insert np h n t" "mt_goes (if dp = None then 0 else 1) s t"
    using w(1) by (auto simp: mt_goes_ins)
  show ?thesis
  proof (cases "e1 = 0")
    case err: False
    then show ?thesis using assms(3) False v t
      by (intro that [of "np_dir n" t "if dp = None then 0 else 1"]) (auto simp: ngetdir_9p_def Let_def)
  next
    case ok: True
    then obtain d sm where dp: "dp = Some (d, sm)" using w(2) by auto
    have f: "mt_goes 0 s (vfree True t)"
      using mt_goes_trans [OF t(2) mt_vfree [OF mt_goes_ok [OF t(2)], of True]] dp by simp
    have "vfree True (list_insert np h n' t) = list_insert np h n' (vfree True t)" for n' by (simp add: vfree_def)
    then show ?thesis using assms(3) False v t ok dp f
      by (intro that [of "d\<lparr>d_name := NilP, d_uid := NilP, d_gid := NilP, d_muid := NilP\<rparr>" "vfree True t" 0])
        (auto simp: ngetdir_9p_def Let_def)
  qed
qed

text \<open>Taking the node out again gives the old table, with one address used up.\<close>

lemma list_remove_ins:
  assumes "\<And>h. np \<notin> set (vf_hash s h)"
  shows "list_remove np (list_insert np h n s) = s\<lparr>vf_next := np + 1, vf_node := (vf_node s)(np \<mapsto> n)\<rparr>"
proof -
  have "removeAll np (vf_hash s h') = vf_hash s h'" for h' using assms by simp
  then show ?thesis by (auto simp: list_remove_def list_insert_def fun_eq_iff)
qed

lemma nget_err1_ins:
  assumes "mount_ok (vf_mt s)" "\<not> vf_nodelck s" "\<And>h. np \<notin> set (vf_hash s h)" "vf_node s np = None"
    and "np_lck n = Exclusive" "np_lcktype n = NODE_LCK_EXCLUSIVE" "np_flags n = NODE_INIT"
  obtains t where "nget_err1 K np e vpp (list_insert np h n s) = Some (e, vpp, t\<lparr>vf_next := np + 1\<rparr>)" "mt_goes (-1) s t"
proof -
  have un: "nodelck_unlock (s\<lparr>vf_nodelck := True\<rparr>) = s" using assms(2) by (cases s) (simp add: nodelck_unlock_def)
  have fl: "NODE_INIT AND NOT NODE_INIT = 0" "\<not> ISSET 0 NODE_WAITINIT" by (simp_all add: ISSET_def)
  have gone: "(vf_node s)(np := None) = vf_node s" using assms(4) by auto
  have nh: "np \<notin> set (vf_hash (s\<lparr>vf_nodelck := True\<rparr>) h')" for h' using assms(3) by simp
  have "nget_err1 K np e vpp (list_insert np h n s) = Some (e, vpp, (vfree True s)\<lparr>vf_next := np + 1\<rparr>)"
    using assms(2,5-7) un fl gone
    by (simp add: nget_err1_def nunlock_ins nodelck_lock_def list_remove_ins [OF nh] init_done_def
        upd_node_def nodelck_unlock_def vfree_def Let_def)
  then show ?thesis using that mt_vfree [OF assms(1), of True] by simp
qed

section \<open>Making a node\<close>

text \<open>The state after a failure: an address used up, perhaps, and calls made.\<close>

definition nothing_new :: "'w vfs \<Rightarrow> 'w vfs \<Rightarrow> bool" where
  "nothing_new s s' \<longleftrightarrow> (\<exists>m n k. s' = s\<lparr>vf_mt := m, vf_next := n\<rparr> \<and> after (vf_mt s) k m \<and> vf_next s \<le> n)"

text \<open>The state after a success: the new node, locked, and its vnode.\<close>

definition made_node :: "u32 \<Rightarrow> nat \<Rightarrow> node_9p \<Rightarrow> 'w vfs \<Rightarrow> 'w vfs \<Rightarrow> bool" where
  "made_node fid h n s s' \<longleftrightarrow> (\<exists>t. mt_goes 1 s t
     \<and> s' = list_insert (vf_next s) h n (t\<lparr>vf_nextvp := vf_nextvp s + 1,
                                  vf_fsnode := (vf_fsnode s)(vf_nextvp s \<mapsto> vf_next s)\<rparr>)
     \<and> np_vp n = Some (vf_nextvp s) \<and> np_fid n = fid \<and> node_ok n \<and> lock_is NODE_LCK_EXCLUSIVE n)"

lemma unlock_locked: "\<not> vf_nodelck s \<Longrightarrow> nodelck_unlock (s\<lparr>vf_nodelck := True, vf_mt := m\<rparr>) = s\<lparr>vf_mt := m\<rparr>"
  by (cases s) (simp add: nodelck_unlock_def)

lemma nothing_new_mt:
  assumes "mt_goes k s t" "vf_next s \<le> n"
  shows "nothing_new s (t\<lparr>vf_next := n\<rparr>)"
  using assms unfolding mt_goes_def nothing_new_def by auto

lemma nothing_new_mt0: "mt_goes k s t \<Longrightarrow> nothing_new s t"
  using nothing_new_mt [of k s t "vf_next s"] by (auto simp: mt_goes_def)

lemma mt_goes_lock: "mt_goes k (s\<lparr>vf_nodelck := True\<rparr>) s1 \<Longrightarrow> \<not> vf_nodelck s
    \<Longrightarrow> mt_goes k s (nodelck_unlock s1) \<and> \<not> vf_nodelck (nodelck_unlock s1)"
  by (auto simp: mt_goes_def unlock_locked intro!: exI [of _ "vf_mt s1"])

lemma fresh_inv:
  assumes "vfs_inv L s"
  shows "vf_node s (vf_next s) = None" "vf_next s \<notin> set (vf_hash s h)" "vf_fsnode s (vf_nextvp s) = None"
proof -
  show "vf_node s (vf_next s) = None" using assms by (cases "vf_node s (vf_next s)") (auto simp: vfs_inv_def)
  then show "vf_next s \<notin> set (vf_hash s h)" using assms unfolding vfs_inv_def by blast
  show "vf_fsnode s (vf_nextvp s) = None" using assms by (cases "vf_fsnode s (vf_nextvp s)") (auto simp: vfs_inv_def)
qed

lemma nget_init_spec:
  assumes "kern_ok (kp_kern K)" "vfs_inv L s" "mt_goes 1 s t" "np = vf_next s"
    and "np_lck n = Exclusive" "np_lcktype n = NODE_LCK_EXCLUSIVE" "np_flags n = NODE_INIT"
      "length (np_openfid n) = 3"
    and "nget_init K np qid dvp vpp cnp (list_insert np h n t) = Some (e, vpp', s')"
  shows "if e = 0 then vpp' = Some (vf_nextvp s) \<and> (\<exists>n'. made_node (np_fid n) h n' s s')
    else vpp' = vpp \<and> nothing_new s s'"
proof -
  have m: "mount_ok (vf_mt t)" by (rule mt_goes_ok [OF assms(3)])
  obtain e1 s1 where d: "ngetdir_9p K np (list_insert np h n t) = Some (e1, s1)"
    using assms(9) by (auto simp: nget_init_def split: bind_splits)
  obtain dir t1 k where t1: "s1 = list_insert np h (n\<lparr>np_dir := dir\<rparr>) t1" "mt_goes k t t1" "e1 = 0 \<Longrightarrow> k = 0"
    by (rule ngetdir_ins [OF assms(1) m d]) blast
  let ?n = "n\<lparr>np_dir := dir\<rparr>"
  have g1: "mt_goes (1 + k) s t1" by (rule mt_goes_trans [OF assms(3) t1(2)])
  have err: "e = e' \<and> vpp' = vpp \<and> nothing_new s s'"
    if a: "nget_err1 K np e' vpp (list_insert np h ?n t2) = Some (e, vpp', s')" "mt_goes j s t2" "e' \<noteq> 0" for e' t2 j
  proof -
    have f: "\<not> vf_nodelck t2" "vf_hash t2 = vf_hash s" "vf_node t2 = vf_node s" "vf_next t2 = vf_next s"
      using a(2) assms(2) by (auto simp: mt_goes_def vfs_inv_def)
    obtain t3 where "nget_err1 K np e' vpp (list_insert np h ?n t2) = Some (e', vpp, t3\<lparr>vf_next := np + 1\<rparr>)"
        "mt_goes (-1) t2 t3"
    proof -
      have "np \<notin> set (vf_hash t2 h')" "vf_node t2 np = None" for h'
        using f fresh_inv [OF assms(2)] assms(4) by simp_all
      then show ?thesis
        by (rule nget_err1_ins [OF mt_goes_ok [OF a(2)] f(1), of np ?n])
          (use assms(5-7) that in auto)
    qed
    then show ?thesis using a nothing_new_mt [OF mt_goes_trans [OF a(2)], of "-1" t3 "np + 1"] assms(4) by auto
  qed
  show ?thesis
  proof (cases "e1 = 0")
    case False
    then have "nget_err1 K np e1 vpp (list_insert np h ?n t1) = Some (e, vpp', s')"
      using assms(9) d t1(1) by (simp add: nget_init_def)
    from err [OF this g1 False] False show ?thesis by simp
  next
    case True
    then have g1: "mt_goes 1 s t1" using g1 t1(3) by simp
    obtain ty rdev where ty: "dirvtype_9p dir None (dotu_of t1) = Some (ty, rdev)"
      using assms(9) d t1(1) True by (auto simp: nget_init_def split: bind_splits)
    let ?nc = "dvp = None \<or> (case cnp of None \<Rightarrow> True | Some c \<Rightarrow> \<not> ISSET (cn_flags c) MAKEENTRY) \<or> q_vers qid = 0"
    let ?fsp = "\<lparr>vnfs_dvp = dvp, vnfs_fsnode = np, vnfs_markroot = (dvp = None), vnfs_filesize = d_length dir,
      vnfs_vtype = ty, vnfs_rdev = rdev, vnfs_flags = VNFS_ADDFSREF OR (if ?nc then VNFS_NOCACHE else 0)\<rparr>"
    obtain e2 w where c: "kp_create K ?fsp (vworld t1) = (e2, w)" by fastforce
    let ?t2 = "set_world w t1"
    have g2: "mt_goes 1 s ?t2" using mt_goes_trans [OF g1 mt_world [OF mt_goes_ok [OF g1]]] by simp
    show ?thesis
    proof (cases "e2 = 0")
      case False
      then have "nget_err1 K np e2 vpp (list_insert np h ?n ?t2) = Some (e, vpp', s')"
        using assms(9) d t1(1) True ty c by (simp add: nget_init_def Let_def)
      from err [OF this g2 False] False show ?thesis by simp
    next
      case made: True
      let ?vp = "vf_nextvp t1"
      let ?n1 = "?n\<lparr>np_vp := Some ?vp\<rparr>"
      let ?t3 = "?t2\<lparr>vf_nextvp := ?vp + 1, vf_fsnode := (vf_fsnode t1)(?vp \<mapsto> np)\<rparr>"
      have up: "upd_node np (\<lambda>n. n\<lparr>np_vp := Some ?vp\<rparr>) ((list_insert np h ?n ?t2)
          \<lparr>vf_nextvp := ?vp + 1, vf_fsnode := (vf_fsnode t1)(?vp \<mapsto> np)\<rparr>) = list_insert np h ?n1 ?t3"
        by (simp add: list_insert_def upd_node_def)
      have t3: "mount_ok (vf_mt ?t3)" using mt_goes_ok [OF g2] by simp
      obtain t4 where t4: "kdo K (VnodeSettag ?vp) (list_insert np h ?n1 ?t3) = list_insert np h ?n1 t4"
          "mt_goes 0 ?t3 t4" using kdo_ins [of K "VnodeSettag ?vp" np h ?n1 ?t3] t3 by blast
      have vp: "?vp = vf_nextvp s" "vf_fsnode t1 = vf_fsnode s" using g1 by (auto simp: mt_goes_def)
      obtain m4 where m4: "after (vf_mt s) 1 m4" "t4 = (s\<lparr>vf_mt := m4\<rparr>)\<lparr>vf_nextvp := vf_nextvp s + 1,
          vf_fsnode := (vf_fsnode s)(vf_nextvp s \<mapsto> np)\<rparr>"
      proof -
        obtain m1 where m1: "?t2 = s\<lparr>vf_mt := m1\<rparr>" "after (vf_mt s) 1 m1" using g2 by (auto simp: mt_goes_def)
        obtain m2 where m2: "t4 = ?t3\<lparr>vf_mt := m2\<rparr>" "after m1 0 m2"
          using t4(2) m1(1) by (auto simp: mt_goes_def)
        show thesis using that [of m2] after_trans [OF m1(2) m2(2)] m2(1) vp m1(1) by simp
      qed
      have unl: "\<not> vf_nodelck t4" using assms(2) m4(2) by (simp add: vfs_inv_def)
      then have back4: "nodelck_unlock (t4\<lparr>vf_nodelck := True\<rparr>) = t4" by (cases t4) (simp add: nodelck_unlock_def)
      have fl: "NODE_INIT AND NOT NODE_INIT = 0" "\<not> ISSET 0 NODE_WAITINIT" "\<not> ISSET 0 NODE_INIT"
          "\<not> ISSET 0 NODE_RECL" by (simp_all add: ISSET_def)
      let ?n2 = "?n1\<lparr>np_flags := 0\<rparr>"
      have "e = 0 \<and> vpp' = Some ?vp \<and> s' = list_insert np h ?n2 t4"
        using assms(5-7,9) d t1(1) True ty c made up t4(1) unl fl back4
        by (auto simp: nget_init_def Let_def nodelck_lock_def init_done_def)
      moreover have "made_node (np_fid n) h ?n2 s (list_insert np h ?n2 t4)"
        unfolding made_node_def using m4 assms(4-8) vp fl
        by (intro exI [of _ "s\<lparr>vf_mt := m4\<rparr>"]) (auto simp: mt_goes_def node_ok_def lock_is_def)
      ultimately show ?thesis using vp by auto
    qed
  qed
qed

lemma nget_new_spec:
  assumes "kern_ok (kp_kern K)" "vfs_inv L s"
    and "nget_new K fid qid dvp vpp cnp (s\<lparr>vf_nodelck := True\<rparr>) = Some (e, vpp', s')"
  shows "if e = 0 then vpp' = Some (vf_nextvp s) \<and> (\<exists>n. made_node fid (HASH9P s (q_path qid)) n s s')
    else vpp' = vpp \<and> nothing_new s s'"
proof -
  let ?s = "s\<lparr>vf_nodelck := True\<rparr>"
  have m: "mount_ok (vf_mt ?s)" and unl: "\<not> vf_nodelck s" using assms(2) by (simp_all add: vfs_inv_def)
  obtain p s1 where s1: "vmalloc K (kp_sizeof_node K) ?s = (p, s1)" by fastforce
  have g1: "mt_goes (held p) ?s s1" by (rule mt_vmalloc [OF m s1])
  note u1 = mt_goes_lock [OF g1 unl]
  show ?thesis
  proof (cases p)
    case None
    then have "e = ENOMEM" "vpp' = vpp" "s' = nodelck_unlock s1" using assms(3) s1 by (auto simp: nget_new_def)
    then show ?thesis using nothing_new_mt0 [OF conjunct1 [OF u1]] by simp
  next
    case (Some b)
    obtain le s2 where s2: "kcall K LckAlloc s1 = (le, s2)" by fastforce
    have g2: "mt_goes 1 ?s s2" using mt_goes_trans [OF g1 mt_kcall [OF mt_goes_ok [OF g1] s2]] Some by simp
    show ?thesis
    proof (cases "le = 0")
      case False
      have "mt_goes 0 ?s (vfree True s2)" using mt_goes_trans [OF g2 mt_vfree [OF mt_goes_ok [OF g2], of True]] by simp
      from mt_goes_lock [OF this unl] have "nothing_new s (nodelck_unlock (vfree True s2))"
        using nothing_new_mt0 by blast
      then show ?thesis using assms(3) s1 s2 Some False by (auto simp: nget_new_def)
    next
      case True
      let ?np = "vf_next s2" and ?h = "HASH9P s2 (q_path qid)" and ?t = "nodelck_unlock s2"
      let ?n = "(new_node fid qid)\<lparr>np_lck := Exclusive, np_lcktype := NODE_LCK_EXCLUSIVE\<rparr>"
      have np: "?np = vf_next s" "?h = HASH9P s (q_path qid)" using g2 by (auto simp: mt_goes_def HASH9P_def)
      have "nlock_9p ?np NODE_LCK_EXCLUSIVE (list_insert ?np ?h (new_node fid qid) s2) = Some (list_insert ?np ?h ?n s2)"
        by (rule nlock_ins) (simp add: new_node_def)
      then have i: "nget_init K ?np qid dvp vpp cnp (list_insert ?np ?h ?n ?t) = Some (e, vpp', s')"
        using assms(3) s1 s2 Some True by (simp add: nget_new_def Let_def)
      have "np_fid ?n = fid" by (simp add: new_node_def)
      moreover have "np_lck ?n = Exclusive" "np_lcktype ?n = NODE_LCK_EXCLUSIVE" "np_flags ?n = NODE_INIT"
          "length (np_openfid ?n) = 3" by (simp_all add: new_node_def)
      ultimately show ?thesis
        using nget_init_spec [OF assms(1,2) conjunct1 [OF mt_goes_lock [OF g2 unl]] np(1) _ _ _ _ i] np(2)
        by (cases "e = 0") simp_all
    qed
  qed
qed

end
