(* ===== verification/VnopsProps.thy ===== *)
theory VnopsProps
  imports Vnops NodeProofs AuthProps
begin

text \<open>
  The properties of the vnode operations of \<^verbatim>\<open>kext/vnops.c\<close>.
\<close>

section \<open>Calls that keep the table of nodes\<close>

text \<open>
  The interface of a group of operations: on a state that satisfies \<open>inv\<close>, an operation that \<open>ok\<close>
  allows ends in a related state, in which it allows the same operations.
\<close>

locale calls =
  fixes call :: "'op \<Rightarrow> 's \<Rightarrow> (int \<times> 's) option"
    and inv :: "'s \<Rightarrow> bool"
    and ok :: "'s \<Rightarrow> 'op \<Rightarrow> bool"
    and rel :: "'s \<Rightarrow> 's \<Rightarrow> bool"
  assumes total: "inv s \<Longrightarrow> ok s c \<Longrightarrow> \<exists>e s'. call c s = Some (e, s') \<and> inv s' \<and> rel s s'"
    and ok_stable: "rel s s' \<Longrightarrow> ok s' = ok s"
    and rel_refl: "inv s \<Longrightarrow> rel s s"
    and rel_trans: "rel s s1 \<Longrightarrow> rel s1 s2 \<Longrightarrow> rel s s2"
begin

lemma run_total:
  assumes "inv s" "list_all (ok s) cs"
  shows "\<exists>es s'. run_calls call cs s = Some (es, s') \<and> length es = length cs \<and> inv s' \<and> rel s s'"
  using assms
proof (induction cs arbitrary: s)
  case Nil
  then show ?case using rel_refl by simp
next
  case (Cons c cs)
  obtain e s1 where s1: "call c s = Some (e, s1)" "inv s1" "rel s s1"
    using total [OF Cons.prems(1), of c] Cons.prems(2) by auto
  have "list_all (ok s1) cs" using Cons.prems(2) ok_stable [OF s1(3)] by simp
  from Cons.IH [OF s1(2) this] obtain es s2 where
    "run_calls call cs s1 = Some (es, s2)" "length es = length cs" "inv s2" "rel s1 s2" by blast
  then show ?case using s1 rel_trans by auto
qed

end

text \<open>
  The operations that neither make nor destroy a node, do not write, and do not look at strings the
  server sent. The kernel passes vnodes that have a node, distinct ones where it passes two, and names
  that fit their length.
\<close>

fun steady :: "'w vfs \<Rightarrow> vnop \<Rightarrow> bool" where
  "steady s (Open vp mode) \<longleftrightarrow> vf_fsnode s vp \<noteq> None"
| "steady s (Close vp fflag) \<longleftrightarrow> vf_fsnode s vp \<noteq> None"
| "steady s (Setattr vp va) \<longleftrightarrow> vf_fsnode s vp \<noteq> None"
| "steady s (Read vp u ioflag) \<longleftrightarrow> vf_fsnode s vp \<noteq> None"
| "steady s (Select vp) \<longleftrightarrow> True"
| "steady s (Mmap vp) \<longleftrightarrow> vf_fsnode s vp \<noteq> None"
| "steady s (Mnomap vp) \<longleftrightarrow> vf_fsnode s vp \<noteq> None"
| "steady s (Fsync vp) \<longleftrightarrow> vf_fsnode s vp \<noteq> None"
| "steady s (Remove dvp vp busy) \<longleftrightarrow> vf_fsnode s dvp \<noteq> None \<and> vf_fsnode s vp \<noteq> None \<and> dvp \<noteq> vp"
| "steady s (Rmdir dvp vp) \<longleftrightarrow> vf_fsnode s dvp \<noteq> None \<and> vf_fsnode s vp \<noteq> None \<and> dvp \<noteq> vp"
| "steady s (Rename fdvp tdvp fvp tcnp) \<longleftrightarrow> vf_fsnode s fdvp \<noteq> None \<and> vf_fsnode s fvp \<noteq> None \<and> fdvp \<noteq> fvp
     \<and> cn_namelen tcnp < 65536 \<and> cn_namelen tcnp \<le> int (length (cn_name tcnp))"
| "steady s (Pathconf vp name) \<longleftrightarrow> vf_fsnode s vp \<noteq> None"
| "steady s (Pagein vp) \<longleftrightarrow> vf_fsnode s vp \<noteq> None"
| "steady s (Pageout vp) \<longleftrightarrow> vf_fsnode s vp \<noteq> None"
| "steady s (Bwrite vp) \<longleftrightarrow> True"
| "steady s c \<longleftrightarrow> False"

lemma drop1_Some: "drop1 r = Some (e, s) \<longleftrightarrow> (\<exists>v. r = Some (e, v, s))"
  by (auto simp: drop1_def)

lemma steady_total:
  assumes "kpi_ok K" "vfs_inv unlocked s" "steady s c"
  shows "\<exists>e s'. vnode_op_9p fuel K c s = Some (e, s') \<and> goes unlocked 0 s s'"
proof (cases c)
  case (Read vp u ioflag)
  then obtain np where "vf_fsnode s vp = Some np" using assms(3) by auto
  from vnop_read_total [OF assms(1,2) this, of u ioflag] show ?thesis using Read by (auto simp: drop1_Some)
next
  case (Pathconf vp name)
  then obtain np where "vf_fsnode s vp = Some np" using assms(3) by auto
  from vnop_pathconf_total [OF assms(2) this, of name] show ?thesis using Pathconf by (auto simp: drop1_Some)
next
  case (Bwrite vp)
  then show ?thesis using kpi_vfscall [OF assms(1,2)] by (simp add: vnop_bwrite_9p_def keeps_table_def)
qed (use assms(3) vnop_open_total [OF assms(1,2)] vnop_close_total [OF assms(1,2)]
    vnop_setattr_total [OF assms(1,2)] vnop_mmap_total [OF assms(2)] vnop_fsync_total [OF assms(1,2)]
    vnop_remove_total [OF assms(1,2)] vnop_rename_total [OF assms(1,2)] vnop_paging_total [OF assms(1,2)]
    goes_refl [OF assms(2)] in \<open>auto simp: vnop_rmdir_9p_def vnop_select_9p_def\<close>)

text \<open>The state another call of the group sees: the same vnodes, and no block more or less.\<close>

definition same_table :: "'w vfs \<Rightarrow> 'w vfs \<Rightarrow> bool" where
  "same_table s s' \<longleftrightarrow> dom (vf_node s') = dom (vf_node s) \<and> vf_fsnode s' = vf_fsnode s
     \<and> mt_live (vf_mt s') = mt_live (vf_mt s)"

lemma goes_same_table: "goes L 0 s s' \<Longrightarrow> same_table s s'"
  by (simp add: goes_def same_table_def)

lemma steady_cong: "vf_fsnode s' = vf_fsnode s \<Longrightarrow> steady s' c = steady s c"
  by (cases c) auto

interpretation files: calls "vnode_op_9p fuel K" "\<lambda>s. kpi_ok K \<and> vfs_inv unlocked s" steady same_table
  for fuel :: nat and K :: "'w kpi"
proof
  fix s :: "'w vfs" and c assume i: "kpi_ok K \<and> vfs_inv unlocked s" "steady s c"
  then obtain e s' where "vnode_op_9p fuel K c s = Some (e, s')" "goes unlocked 0 s s'"
    using steady_total by blast
  then show "\<exists>e s'. vnode_op_9p fuel K c s = Some (e, s') \<and> (kpi_ok K \<and> vfs_inv unlocked s') \<and> same_table s s'"
    using i(1) goes_inv goes_same_table by blast
next
  fix s s' :: "'w vfs" assume "same_table s s'"
  then show "steady s' = steady s" unfolding same_table_def by (intro ext steady_cong) simp
qed (simp_all add: same_table_def)

text \<open>
  C9. Opening, closing, reading, changing attributes, synchronising, mapping, removing, renaming and
  the rest of the group, in any order and on any vnodes: every call returns, whatever the server
  answers and however it breaks the connection, and afterwards no node is locked, the send lock is
  free, the table of nodes is intact with every vnode on its node, and no block has been lost or
  freed twice.
\<close>

theorem file_operations_total:
  assumes "kpi_ok K" "vfs_inv unlocked s" "list_all (steady s) cs"
  shows "\<exists>es s'. run_calls (vnode_op_9p fuel K) cs s = Some (es, s') \<and> length es = length cs
    \<and> vfs_inv unlocked s' \<and> vf_fsnode s' = vf_fsnode s \<and> mt_live (vf_mt s') = mt_live (vf_mt s)"
  using files.run_total [OF conjI [OF assms(1,2)] assms(3), of fuel] unfolding same_table_def by blast

section \<open>A client for the examples\<close>

text \<open>A kernel whose calls succeed, on top of the slow socket.\<close>

definition slow_kpi :: "streams kpi" where
  "slow_kpi = \<lparr>kp_kern = slow_kern, kp_sizeof_node = 300, kp_sizeof_mount = 9000, kp_qid = (\<lambda>w. zero_qid), kp_time = (\<lambda>w. 7),
     kp_vtype = (\<lambda>vp w. if vp = 1 then VDIR else VREG), kp_is = (\<lambda>q vp w. q = IsNocache),
     kp_ubcsize = (\<lambda>vp w. 0), kp_call = (\<lambda>c w. (0, w)), kp_create = (\<lambda>p w. (0, w)),
     kp_cache_lookup = (\<lambda>vp n w. (0, None, w)), kp_getparent = (\<lambda>vp w. (None, w)),
     kp_uiomove = (\<lambda>w n. (0, n, w)), kp_sleep = (\<lambda>np s. s), kp_cluster_read = (\<lambda>vp u len fl s. (0, u, s)),
     kp_cluster_write = (\<lambda>vp u ca s. (0, u, s)), kp_vfscall = (\<lambda>c s. (0, s)), kp_hashmask = 1, kp_fsid = 1,
     kp_bsize = (\<lambda>vp w. Some 4096), kp_pagesize = 4096\<rparr>"

lemma slow_kpi_ok: "kpi_ok slow_kpi"
  by (auto simp: kpi_ok_def slow_kpi_def slow_kern_ok intro: goes_refl)

text \<open>A directory (vnode 1, node 10) and a file (vnode 2, node 11).\<close>

definition ex_node :: "nat \<Rightarrow> u32 \<Rightarrow> u64 \<Rightarrow> node_9p" where
  "ex_node vp fid path = (new_node fid \<lparr>q_path = path, q_vers = 1, q_type = 0\<rparr>)\<lparr>np_vp := Some vp, np_flags := 0\<rparr>"

definition ex_vfs :: "byte list \<Rightarrow> streams vfs" where
  "ex_vfs reply = \<lparr>vf_mt = fresh_mount reply, vf_nodelen = 1,
     vf_hash = (\<lambda>_. [])(0 := [10], 1 := [11]), vf_nodelck = False,
     vf_node = [10 \<mapsto> ex_node 1 3 4, 11 \<mapsto> ex_node 2 4 5], vf_next = 12,
     vf_fsnode = [1 \<mapsto> 10, 2 \<mapsto> 11], vf_nextvp = 3, vf_uid = 0, vf_gid = 0\<rparr>"

lemma ex_vfs_inv: "vfs_inv unlocked (ex_vfs reply)"
  by (auto simp: vfs_inv_def ex_vfs_def fresh_mount_ok ex_node_def new_node_def node_ok_def lock_is_def ISSET_def
      split: if_splits)

theorem file_operations_total_witness:
  "\<exists>es s'. run_calls (vnode_op_9p 0 slow_kpi) [Open 2 1, Read 2 \<lparr>uio_resid = 5, uio_offset = 0, uio_data = []\<rparr> 0,
       Close 2 1, Remove 1 2 False] (ex_vfs [7, 0, 0]) = Some (es, s') \<and> length es = 4 \<and> vfs_inv unlocked s'"
proof -
  let ?cs = "[Open 2 1, Read 2 \<lparr>uio_resid = 5, uio_offset = 0, uio_data = []\<rparr> 0, Close 2 1, Remove 1 2 False]"
  have "list_all (steady (ex_vfs [7, 0, 0])) ?cs" by (simp add: ex_vfs_def)
  from file_operations_total [OF slow_kpi_ok ex_vfs_inv this, of 0] show ?thesis by auto
qed

end
