(* ===== verification/VfsOps.thy ===== *)
theory VfsOps
  imports Vnops Auth9p
begin

text \<open>
  \<^verbatim>\<open>kext/vfsops.c\<close>: mounting, which composes connecting, the version, the authentication, the
  attachment and the first node; unmounting; the root, the attributes, and nodes by inode number.
  What the user's address space gives is an argument.
\<close>

section \<open>The mount\<close>

text \<open>The result of a \<^verbatim>\<open>copyin\<close> or \<^verbatim>\<open>copyinstr\<close>: its error, and the bytes copied (with the NUL).\<close>

record ucopy =
  uc_error :: int
  uc_bytes :: memory

text \<open>The arguments; \<^verbatim>\<open>authaddr\<close> and \<^verbatim>\<open>authkey\<close> are \<^term>\<open>None\<close> for a null address.\<close>

record user_args_9p =
  ar_spec :: ucopy
  ar_addr :: ucopy
  ar_addrlen :: nat
  ar_authaddr :: "ucopy option"
  ar_authaddrlen :: nat
  ar_volume :: ucopy
  ar_uname :: ucopy
  ar_aname :: ucopy
  ar_authkey :: "ucopy option"
  ar_flags :: u32

record vfsstatfs =
  f_bsize :: u32
  f_iosize :: u32
  f_files :: u64
  f_ffree :: u64

text \<open>
  The rest of \<^verbatim>\<open>mount_9p\<close>, and the kernel's mount: \<open>mn_private\<close> says that \<^verbatim>\<open>vfs_fsprivate\<close> is set,
  \<open>mn_node\<close> that the hash table has been allocated.
\<close>

record 'w mnt =
  mn_vfs :: "'w vfs"
  mn_private :: bool
  mn_node :: bool
  mn_volume :: "memory option"
  mn_uname :: "memory option"
  mn_aname :: "memory option"
  mn_version :: "byte list option"
  mn_afid :: u32
  mn_root :: "nat option"
  mn_stat :: vfsstatfs

text \<open>The local variables of \<open>vfs_mount_9p\<close>.\<close>

record 'w mlocals =
  ml_mnt :: "'w mnt"
  ml_addr :: "memory option"
  ml_authaddr :: "memory option"
  ml_fid :: u32
  ml_qid :: Qid

abbreviation lvfs :: "'w mlocals \<Rightarrow> 'w vfs" where "lvfs l \<equiv> mn_vfs (ml_mnt l)"
abbreviation lmt :: "'w mlocals \<Rightarrow> 'w mount" where "lmt l \<equiv> vf_mt (lvfs l)"

definition upd_mnt :: "('w mnt \<Rightarrow> 'w mnt) \<Rightarrow> 'w mlocals \<Rightarrow> 'w mlocals" where
  "upd_mnt f l = l\<lparr>ml_mnt := f (ml_mnt l)\<rparr>"

definition set_lvfs :: "'w vfs \<Rightarrow> 'w mlocals \<Rightarrow> 'w mlocals" where
  "set_lvfs s = upd_mnt (\<lambda>m. m\<lparr>mn_vfs := s\<rparr>)"

definition set_lmt :: "'w mount \<Rightarrow> 'w mlocals \<Rightarrow> 'w mlocals" where
  "set_lmt m l = set_lvfs ((lvfs l)\<lparr>vf_mt := m\<rparr>) l"

text \<open>Steps that stop at the first error, \<^verbatim>\<open>if ((e=...)) goto error\<close>.\<close>

fun run_steps :: "('l \<Rightarrow> (int \<times> 'l) option) list \<Rightarrow> 'l \<Rightarrow> (int \<times> 'l) option" where
  "run_steps [] l = Some (0, l)"
| "run_steps (f # fs) l = do {
     (e, l) \<leftarrow> f l;
     if e \<noteq> 0 then Some (e, l) else run_steps fs l }"

section \<open>The pieces of \<open>vfs_mount_9p\<close>\<close>

abbreviation NAMEBUF :: nat where "NAMEBUF \<equiv> 256"

text \<open>\<^verbatim>\<open>*out\<close> keeps its value on an error. A copy holds at most \<^verbatim>\<open>NAME_MAX\<close> bytes.\<close>

definition nameget_9p :: "'w kpi \<Rightarrow> ucopy \<Rightarrow> memory option \<Rightarrow> 'w vfs \<Rightarrow> int \<times> memory option \<times> 'w vfs" where
  "nameget_9p K c out s =
     (case vmalloc K NAMEBUF s of
        (None, s) \<Rightarrow> (ENOMEM, out, s)
      | (Some p, s) \<Rightarrow>
          if uc_error c \<noteq> 0 \<or> uc_bytes c = [] then (uc_error c, out, vfree True s)
          else (0, Some (take NAMEBUF (uc_bytes c @ p)), s))"

definition addrget_9p :: "'w kpi \<Rightarrow> ucopy \<Rightarrow> nat \<Rightarrow> memory option \<Rightarrow> 'w vfs \<Rightarrow> int \<times> memory option \<times> 'w vfs" where
  "addrget_9p K c len out s =
     (case vmalloc K len s of
        (None, s) \<Rightarrow> (ENOMEM, out, s)
      | (Some p, s) \<Rightarrow>
          if uc_error c \<noteq> 0 then (uc_error c, out, vfree True s)
          else (0, Some (take len (uc_bytes c @ p)), s))"

text \<open>The blocks of a mount are given back; the block of the mount itself is always there.\<close>

definition freemount_9p :: "'w mnt \<Rightarrow> 'w vfs" where
  "freemount_9p m = vfree True (vfree (mn_node m) (vfree (mn_aname m \<noteq> None) (vfree (mn_uname m \<noteq> None)
     (vfree (mn_volume m \<noteq> None) (vfree (mn_version m \<noteq> None) (mn_vfs m))))))"

definition mount_alloc :: "'w kpi \<Rightarrow> 'w mlocals \<Rightarrow> (int \<times> 'w mlocals) option" where
  "mount_alloc K l =
     (let (e1, s) = kcall K LckAlloc (lvfs l); (e2, s) = kcall K LckAlloc s; (e3, s) = kcall K LckAlloc s;
          (e4, s) = kcall K HashInit s;
          s = (if e4 = 0 then s\<lparr>vf_mt := (vf_mt s)\<lparr>mt_live := mt_live (vf_mt s) + 1\<rparr>, vf_nodelen := kp_hashmask K\<rparr> else s);
          l = upd_mnt (\<lambda>m. m\<lparr>mn_vfs := s, mn_node := (e4 = 0)\<rparr>) l in
      Some (if e1 \<noteq> 0 \<or> e2 \<noteq> 0 \<or> e3 \<noteq> 0 \<or> e4 \<noteq> 0 then ENOMEM else 0, l))"

definition mount_volume :: "'w kpi \<Rightarrow> user_args_9p \<Rightarrow> 'w mlocals \<Rightarrow> (int \<times> 'w mlocals) option" where
  "mount_volume K args l =
     (case nameget_9p K (ar_volume args) (mn_volume (ml_mnt l)) (lvfs l) of
        (e, p, s) \<Rightarrow> Some (e, upd_mnt (\<lambda>m. m\<lparr>mn_vfs := s, mn_volume := p\<rparr>) l))"

definition mount_uname :: "'w kpi \<Rightarrow> user_args_9p \<Rightarrow> 'w mlocals \<Rightarrow> (int \<times> 'w mlocals) option" where
  "mount_uname K args l =
     (case nameget_9p K (ar_uname args) (mn_uname (ml_mnt l)) (lvfs l) of
        (e, p, s) \<Rightarrow> Some (e, upd_mnt (\<lambda>m. m\<lparr>mn_vfs := s, mn_uname := p\<rparr>) l))"

definition mount_aname :: "'w kpi \<Rightarrow> user_args_9p \<Rightarrow> 'w mlocals \<Rightarrow> (int \<times> 'w mlocals) option" where
  "mount_aname K args l =
     (case nameget_9p K (ar_aname args) (mn_aname (ml_mnt l)) (lvfs l) of
        (e, p, s) \<Rightarrow> Some (e, upd_mnt (\<lambda>m. m\<lparr>mn_vfs := s, mn_aname := p\<rparr>) l))"

abbreviation KAUTH_ID_NONE :: u32 where "KAUTH_ID_NONE \<equiv> - 101"

text \<open>\<open>cred\<close> is the caller's user and group, if its credentials are valid. The flags are the caller's.\<close>

definition mount_cred :: "(u32 \<times> u32) option \<Rightarrow> user_args_9p \<Rightarrow> 'w mlocals \<Rightarrow> (int \<times> 'w mlocals) option" where
  "mount_cred cred args l =
     (let (uid, gid) = (case cred of Some c \<Rightarrow> c | None \<Rightarrow> (KAUTH_ID_NONE, KAUTH_ID_NONE));
          s = (lvfs l)\<lparr>vf_uid := uid, vf_gid := gid, vf_mt := (lmt l)\<lparr>mt_flags := ar_flags args\<rparr>\<rparr> in
      Some (0, upd_mnt (\<lambda>m. m\<lparr>mn_vfs := s, mn_private := True\<rparr>) l))"

text \<open>The socket calls of both connections, and the sockets they give.\<close>

record netcalls =
  nc_call :: "sockcall \<Rightarrow> int"
  nc_so :: nat
  nc_authcall :: "sockcall \<Rightarrow> int"
  nc_authso :: nat

abbreviation AF_INET :: byte where "AF_INET \<equiv> 2"

definition mount_connect :: "'w kpi \<Rightarrow> netcalls \<Rightarrow> user_args_9p \<Rightarrow> 'w mlocals \<Rightarrow> (int \<times> 'w mlocals) option" where
  "mount_connect K net args l =
     (case addrget_9p K (ar_addr args) (ar_addrlen args) (ml_addr l) (lvfs l) of
        (e, p, s) \<Rightarrow>
          let l = (set_lvfs s l)\<lparr>ml_addr := p\<rparr> in
          if e \<noteq> 0 then Some (e, l)
          else do {
            addr \<leftarrow> p;
            family \<leftarrow> rdn addr 1 1;
            (case connect_9p (nc_call net) (nc_so net) (family = [AF_INET]) (lmt l) of
               (e, _, m) \<Rightarrow> Some (e, set_lmt m l))
          })"

abbreviation FLAG_DOTU :: u32 where "FLAG_DOTU \<equiv> 0x4"

definition VERSION9P :: "byte list" where "VERSION9P = bytes_of ''9P2000''"
definition VERSION9PDOTU :: "byte list" where "VERSION9PDOTU = bytes_of ''9P2000.u''"

text \<open>
  The first call to the server. The lock's flag, if the caller passed it among the flags, is one that
  nobody will clear: \<open>rpclock\<close> sleeps for ever.
\<close>

definition mount_version :: "'w kpi \<Rightarrow> 'w mlocals \<Rightarrow> (int \<times> 'w mlocals) option" where
  "mount_version K l =
     (let dotu = ISSET (mt_flags (lmt l)) FLAG_DOTU; vers = (if dotu then VERSION9PDOTU else VERSION9P) in
      if ISSET (mt_flags (lmt l)) F_SENDLOCK then None
      else do {
        (e, v, m) \<leftarrow> version_9p (k_env (kp_kern K)) (ktx K (lvfs l)) (krx K (lvfs l)) vers (lmt l);
        let l = set_lmt m l;
        if e \<noteq> 0 then Some (e, l)
        else do {
          v \<leftarrow> v;
          let l = upd_mnt (\<lambda>n. n\<lparr>mn_version := Some v\<rparr>) l;
          Some (0, if dotu \<and> v = VERSION9PDOTU then set_lmt (m\<lparr>mt_flags := mt_flags m OR F_DOTU\<rparr>) l else l)
        }
      })"

text \<open>\<^verbatim>\<open>nmp->uname\<close> and \<^verbatim>\<open>nmp->aname\<close> are set by now.\<close>

definition mount_auth :: "'w kpi \<Rightarrow> netcalls \<Rightarrow> user_args_9p \<Rightarrow> 'w mlocals \<Rightarrow> (int \<times> 'w mlocals) option" where
  "mount_auth K net args l =
     (let l = upd_mnt (\<lambda>n. n\<lparr>mn_afid := NOFID\<rparr>) l in
      case (ar_authaddr args, ar_authkey args) of
        (Some auth, Some key) \<Rightarrow>
          if ar_authaddrlen args = 0 then Some (0, l)
          else if uc_error key \<noteq> 0 then Some (uc_error key, l)
          else (case addrget_9p K auth (ar_authaddrlen args) (ml_authaddr l) (lvfs l) of
            (e, p, s) \<Rightarrow>
              let l = (set_lvfs s l)\<lparr>ml_authaddr := p\<rparr> in
              if e \<noteq> 0 then Some (e, l)
              else do {
                uname \<leftarrow> mn_uname (ml_mnt l);
                aname \<leftarrow> mn_aname (ml_mnt l);
                (e, afid, qid, m) \<leftarrow> auth_9p (k_env (kp_kern K)) (ktx K (lvfs l)) (krx K (lvfs l))
                   (cstr uname) (cstr aname) (vf_uid (lvfs l)) (ml_qid l) (lmt l);
                let l = upd_mnt (\<lambda>n. n\<lparr>mn_afid := afid\<rparr>) (set_lmt m l\<lparr>ml_qid := qid\<rparr>);
                if e \<noteq> 0 \<or> afid = NOFID then Some (e, l)
                else do {
                  (e, m) \<leftarrow> authp9any_9p (kp_kern K) (nc_authcall net) (nc_authso net) afid uname
                     (take DESKEYLEN (uc_bytes key)) (lmt l);
                  Some (e, set_lmt m l)
                }
              })
      | _ \<Rightarrow> Some (0, l))"

definition mount_attach :: "'w kpi \<Rightarrow> 'w mlocals \<Rightarrow> (int \<times> 'w mlocals) option" where
  "mount_attach K l = do {
     uname \<leftarrow> mn_uname (ml_mnt l);
     aname \<leftarrow> mn_aname (ml_mnt l);
     (e, fid, qid, m) \<leftarrow> attach_9p (k_env (kp_kern K)) (ktx K (lvfs l)) (krx K (lvfs l)) (cstr uname) (cstr aname)
        (mn_afid (ml_mnt l)) (vf_uid (lvfs l)) (ml_fid l) (ml_qid l) (lmt l);
     Some (e, set_lmt m l\<lparr>ml_fid := fid, ml_qid := qid\<rparr>)
   }"

definition mount_root :: "nat \<Rightarrow> 'w kpi \<Rightarrow> 'w mlocals \<Rightarrow> (int \<times> 'w mlocals) option" where
  "mount_root fuel K l = do {
     (e, vpp, s) \<leftarrow> nget_9p fuel K (ml_fid l) (ml_qid l) None (mn_root (ml_mnt l)) None (lvfs l);
     let l = upd_mnt (\<lambda>n. n\<lparr>mn_vfs := s, mn_root := vpp\<rparr>) l;
     if e \<noteq> 0 then Some (e, l)
     else do {
       vp \<leftarrow> vpp;
       np \<leftarrow> vf_fsnode s vp;
       s \<leftarrow> nunlock_9p np s;
       (case kcall K (VnodeRef vp) s of (e, s) \<Rightarrow> Some (e, set_lvfs (kdo K (VnodePut vp) s) l))
     }
   }"

text \<open>The exit \<^verbatim>\<open>error\<close>, with the mount allocated.\<close>

definition mount_error :: "'w kpi \<Rightarrow> int \<Rightarrow> 'w mlocals \<Rightarrow> (int \<times> 'w mnt) option" where
  "mount_error K e l = do {
     let l = set_lvfs (vfree (ml_authaddr l \<noteq> None) (vfree (ml_addr l \<noteq> None) (lvfs l))) l;
     s \<leftarrow> (if mt_so (lmt l) \<noteq> None
           then do {
             (_, s) \<leftarrow> vclunk K (ml_fid l) (lvfs l);
             Some (s\<lparr>vf_mt := snd (disconnect_9p (vf_mt s))\<rparr>)
           } else Some (lvfs l));
     let m = (ml_mnt l)\<lparr>mn_vfs := s\<rparr>;
     Some (e, m\<lparr>mn_vfs := freemount_9p m, mn_private := False\<rparr>)
   }"

definition mount_success :: "'w kpi \<Rightarrow> 'w mlocals \<Rightarrow> 'w mnt" where
  "mount_success K l =
     (ml_mnt l)\<lparr>mn_vfs := vfree (ml_authaddr l \<noteq> None) (vfree (ml_addr l \<noteq> None) (lvfs l)),
       mn_stat := \<lparr>f_bsize = ucast (kp_pagesize K), f_iosize = mt_msize (lmt l) - IOHDRSZ, f_files = 65535, f_ffree = 65533\<rparr>\<rparr>"

text \<open>A new mount: all zeros but for the world and the count of blocks it starts with.\<close>

definition new_mnt :: "'w \<Rightarrow> int \<Rightarrow> 'w mnt" where
  "new_mnt w live = \<lparr>mn_vfs = \<lparr>vf_mt = \<lparr>mt_flags = 0, mt_so = None, mt_msize = 0, mt_nfid = 0, mt_ntag = 0,
       mt_rpcbuf = replicate MAXMSG 0, mt_world = w, mt_live = live\<rparr>, vf_nodelen = 0, vf_hash = (\<lambda>_. []),
       vf_nodelck = False, vf_node = Map.empty, vf_next = 0, vf_fsnode = Map.empty, vf_nextvp = 0, vf_uid = 0,
       vf_gid = 0\<rparr>, mn_private = False, mn_node = False, mn_volume = None, mn_uname = None, mn_aname = None,
     mn_version = None, mn_afid = 0, mn_root = None,
     mn_stat = \<lparr>f_bsize = 0, f_iosize = 0, f_files = 0, f_ffree = 0\<rparr>\<rparr>"

text \<open>
  The steps in order. An error of the very first \<^verbatim>\<open>copyin\<close> goes to \<^verbatim>\<open>error\<close> with \<^verbatim>\<open>nmp\<close> still
  \<^verbatim>\<open>NULL\<close>, where \<^verbatim>\<open>nmp->so\<close> is read: \<^term>\<open>None\<close>. \<open>copied\<close> is its error.
\<close>

definition mount_steps :: "nat \<Rightarrow> 'w kpi \<Rightarrow> netcalls \<Rightarrow> (u32 \<times> u32) option \<Rightarrow> user_args_9p
    \<Rightarrow> ('w mlocals \<Rightarrow> (int \<times> 'w mlocals) option) list" where
  "mount_steps fuel K net cred args =
     [mount_alloc K, mount_volume K args, mount_uname K args, mount_aname K args, mount_cred cred args,
      mount_connect K net args, mount_version K, mount_auth K net args, mount_attach K, mount_root fuel K]"

definition vfs_mount_9p :: "nat \<Rightarrow> 'w kpi \<Rightarrow> netcalls \<Rightarrow> (u32 \<times> u32) option \<Rightarrow> bool \<Rightarrow> int \<Rightarrow> user_args_9p
    \<Rightarrow> 'w mnt \<Rightarrow> (int \<times> 'w mnt) option" where
  "vfs_mount_9p fuel K net cred isupdate copied args m =
     (if isupdate then Some (ENOTSUP, m)
      else if copied \<noteq> 0 then None
      else case vmalloc K (kp_sizeof_mount K) (mn_vfs m) of
          (None, s) \<Rightarrow> Some (ENOMEM, m\<lparr>mn_vfs := s\<rparr>)
        | (Some _, s) \<Rightarrow> do {
          let l = \<lparr>ml_mnt = new_mnt (vworld s) (mt_live (vf_mt s)), ml_addr = None, ml_authaddr = None,
                   ml_fid = NOFID, ml_qid = kp_qid K (vworld s)\<rparr>;
          (e, l) \<leftarrow> run_steps (mount_steps fuel K net cred args) l;
          if e \<noteq> 0 then mount_error K e l else Some (0, mount_success K l)
        })"

section \<open>Unmounting\<close>

text \<open>The root is the only vnode kept by the first \<^verbatim>\<open>vflush\<close>; the second one is forced, and spares none.\<close>

definition vfs_unmount_9p :: "'w kpi \<Rightarrow> bool \<Rightarrow> 'w mnt \<Rightarrow> (int \<times> 'w mnt) option" where
  "vfs_unmount_9p K force m =
     (let s = mn_vfs m;
          s = s\<lparr>vf_mt := (vf_mt s)\<lparr>mt_flags := mt_flags (vf_mt s) OR F_UNMOUNTING\<rparr>\<rparr>;
          failed = (\<lambda>e s. Some (e, m\<lparr>mn_vfs := s\<lparr>vf_mt := (vf_mt s)\<lparr>mt_flags := mt_flags (vf_mt s) AND NOT F_UNMOUNTING\<rparr>\<rparr>\<rparr>)) in
      case kp_vfscall K (Vflush (mn_root m) force) s of (e, s) \<Rightarrow>
        if e \<noteq> 0 then failed e s
        else do {
          vp \<leftarrow> mn_root m;
          if vis K (IsInuse True) vp s \<and> \<not> force then failed EBUSY s
          else do {
            np \<leftarrow> vf_fsnode s vp;
            n \<leftarrow> vf_node s np;
            (_, s) \<leftarrow> vclunk K (np_fid n) s;
            let s = kdo K (VnodeRele vp) s;
            let s = snd (kp_vfscall K (Vflush None True) s);
            let s = s\<lparr>vf_mt := cancelrpcs_9p (snd (disconnect_9p (vf_mt s)))\<rparr>;
            let m = m\<lparr>mn_vfs := s, mn_private := False\<rparr>;
            Some (0, m\<lparr>mn_vfs := freemount_9p m\<rparr>)
          }
        })"

section \<open>Queries\<close>

definition vfs_root_9p :: "'w kpi \<Rightarrow> 'w mnt \<Rightarrow> (int \<times> nat option \<times> 'w mnt) option" where
  "vfs_root_9p K m = do {
     vp \<leftarrow> mn_root m;
     (case kcall K (VnodeGet vp) (mn_vfs m) of (e, s) \<Rightarrow>
        Some (e, if e \<noteq> 0 then None else Some vp, m\<lparr>mn_vfs := s\<rparr>)) }"

text \<open>
  The capabilities of the volume format and of the interfaces, valid bits and set bits, by name.
\<close>

datatype volcap = FMT_PERSISTENTOBJECTIDS | FMT_SYMBOLICLINKS | FMT_HARDLINKS | FMT_JOURNAL
  | FMT_JOURNAL_ACTIVE | FMT_NO_ROOT_TIMES | FMT_SPARSE_FILES | FMT_ZERO_RUNS | FMT_CASE_SENSITIVE
  | FMT_CASE_PRESERVING | FMT_FAST_STATFS | FMT_2TB_FILESIZE | FMT_OPENDENYMODES | FMT_HIDDEN_FILES
  | FMT_PATH_FROM_ID | FMT_NO_VOLUME_SIZES | FMT_DECMPFS_COMPRESSION
  | INT_SEARCHFS | INT_ATTRLIST | INT_NFSEXPORT | INT_READDIRATTR | INT_EXCHANGEDATA | INT_COPYFILE
  | INT_ALLOCATE | INT_VOL_RENAME | INT_ADVLOCK | INT_FLOCK | INT_EXTENDED_SECURITY | INT_USERACCESS
  | INT_MANLOCK | INT_NAMEDSTREAMS | INT_EXTENDED_ATTR

definition volcaps_valid :: "volcap list" where
  "volcaps_valid = [FMT_PERSISTENTOBJECTIDS, FMT_SYMBOLICLINKS, FMT_HARDLINKS, FMT_JOURNAL,
     FMT_JOURNAL_ACTIVE, FMT_NO_ROOT_TIMES, FMT_SPARSE_FILES, FMT_ZERO_RUNS, FMT_CASE_SENSITIVE,
     FMT_CASE_PRESERVING, FMT_FAST_STATFS, FMT_2TB_FILESIZE, FMT_OPENDENYMODES, FMT_HIDDEN_FILES,
     FMT_PATH_FROM_ID, FMT_NO_VOLUME_SIZES, FMT_DECMPFS_COMPRESSION,
     INT_SEARCHFS, INT_ATTRLIST, INT_NFSEXPORT, INT_READDIRATTR, INT_EXCHANGEDATA, INT_COPYFILE,
     INT_ALLOCATE, INT_VOL_RENAME, INT_ADVLOCK, INT_FLOCK, INT_EXTENDED_SECURITY, INT_USERACCESS,
     INT_MANLOCK, INT_NAMEDSTREAMS, INT_EXTENDED_ATTR]"

definition volcaps_set :: "volcap list" where
  "volcaps_set = [FMT_NO_ROOT_TIMES, FMT_CASE_SENSITIVE, FMT_CASE_PRESERVING, FMT_FAST_STATFS,
     FMT_2TB_FILESIZE, FMT_NO_VOLUME_SIZES, INT_ADVLOCK, INT_FLOCK]"

datatype volattr = VOL_IOBLOCKSIZE | VOL_MOUNTFLAGS | VOL_NAME | VOL_MOUNTEDDEVICE | VOL_CAPABILITIES
  | VOL_ATTRIBUTES

definition volattrs :: "volattr list" where
  "volattrs = [VOL_IOBLOCKSIZE, VOL_MOUNTFLAGS, VOL_NAME, VOL_MOUNTFLAGS, VOL_MOUNTEDDEVICE,
     VOL_CAPABILITIES, VOL_ATTRIBUTES]"

record vfs_attr =
  fa_stat :: vfsstatfs
  fa_capabilities :: "(volcap list \<times> volcap list) option"
  fa_attributes :: "volattr list option"
  fa_vol_name :: "byte list option"

text \<open>\<open>caps\<close>, \<open>attrs\<close> and \<open>name\<close> say which of the optional attributes are asked for.\<close>

definition vfs_getattr_9p :: "bool \<Rightarrow> bool \<Rightarrow> bool \<Rightarrow> 'w mnt \<Rightarrow> (int \<times> vfs_attr) option" where
  "vfs_getattr_9p caps attrs name m = do {
     vol \<leftarrow> (if name then map_option (Some \<circ> cstr) (mn_volume m) else Some None);
     Some (0, \<lparr>fa_stat = mn_stat m,
       fa_capabilities = (if caps then Some (volcaps_valid, volcaps_set) else None),
       fa_attributes = (if attrs then Some volattrs else None), fa_vol_name = vol\<rparr>) }"

definition vfs_sync_9p :: "'w mnt \<Rightarrow> int" where
  "vfs_sync_9p m = 0"

text \<open>
  A node by its inode number. The version of the qid is not set. The result has \<^verbatim>\<open>*vpp\<close>.
\<close>

definition vfs_vget_9p :: "nat \<Rightarrow> 'w kpi \<Rightarrow> u64 \<Rightarrow> 'w vfs \<Rightarrow> (int \<times> nat option \<times> 'w vfs) option" where
  "vfs_vget_9p fuel K ino s = do {
     let qid = \<lparr>q_path = ITOP ino, q_vers = k_u32 (kp_kern K) (vworld s), q_type = ucast (ITOT ino)\<rparr>;
     (e, vpp, s) \<leftarrow> nget_9p fuel K NOFID qid None None None s;
     if e \<noteq> 0 then Some (e, None, s)
     else do {
       vp \<leftarrow> vpp;
       np \<leftarrow> vf_fsnode s vp;
       s \<leftarrow> nunlock_9p np s;
       (case kcall K (VnodeGet vp) s of (e, s) \<Rightarrow> Some (e, if e \<noteq> 0 then None else Some vp, s))
     }
   }"

section \<open>The kernel extension\<close>

text \<open>\<open>added\<close> and \<open>removed\<close> are the errors of \<^verbatim>\<open>vfs_fsadd\<close> and \<^verbatim>\<open>vfs_fsremove\<close>; the state says whether
  the file system is registered and the lock group allocated.\<close>

abbreviation KERN_SUCCESS :: int where "KERN_SUCCESS \<equiv> 0"
abbreviation KERN_FAILURE :: int where "KERN_FAILURE \<equiv> 5"

definition kext_start_9p :: "int \<Rightarrow> bool \<times> bool \<Rightarrow> int \<times> bool \<times> bool" where
  "kext_start_9p added st = (if added \<noteq> 0 then (KERN_FAILURE, fst st, True) else (KERN_SUCCESS, True, True))"

definition kext_stop_9p :: "int \<Rightarrow> bool \<times> bool \<Rightarrow> int \<times> bool \<times> bool" where
  "kext_stop_9p removed st = (if removed \<noteq> 0 then (KERN_FAILURE, st) else (KERN_SUCCESS, False, False))"

end
