(* ===== verification/TableProofs.thy ===== *)
theory TableProofs
  imports NodeProofs Vnops
begin

text \<open>
  \<open>nget_9p\<close> as a whole, and the handlers that change the table of nodes: lookup, the end of a vnode,
  and \<open>vfs_vget_9p\<close>.
\<close>

section \<open>What is in the table\<close>

lemma nscan_Some: "nscan nodes path nps = Some (Some np) \<Longrightarrow> np \<in> set nps \<and> (\<exists>n. nodes np = Some n \<and> q_path (d_qid (np_dir n)) = path)"
  by (induction nps) (auto split: option.splits if_splits)

lemma nscan_None: "nscan nodes path nps = Some None \<Longrightarrow> np \<in> set nps \<Longrightarrow> nodes np = Some n \<Longrightarrow> q_path (d_qid (np_dir n)) \<noteq> path"
  by (induction nps) (auto split: option.splits if_splits)

lemma nscan_total: "\<forall>np \<in> set nps. nodes np \<noteq> None \<Longrightarrow> nscan nodes path nps \<noteq> None"
  by (induction nps) (auto split: option.splits)

text \<open>The chain a qid hashes to, searched.\<close>

definition nfind :: "'w vfs \<Rightarrow> u64 \<Rightarrow> nat option" where
  "nfind s path = (case nscan (vf_node s) path (vf_hash s (HASH9P s path)) of Some r \<Rightarrow> r | None \<Rightarrow> None)"

lemma nscan_inv:
  assumes "vfs_inv L s"
  shows "nscan (vf_node s) path (vf_hash s (HASH9P s path)) = Some (nfind s path)"
proof -
  have "\<forall>np \<in> set (vf_hash s (HASH9P s path)). vf_node s np \<noteq> None" using assms by (simp add: vfs_inv_def)
  from nscan_total [OF this, of path] show ?thesis by (auto simp: nfind_def)
qed

lemma nfind_node:
  assumes "vfs_inv L s" "nfind s path = Some np"
  obtains n where "vf_node s np = Some n" "q_path (d_qid (np_dir n)) = path"
  using nscan_Some nscan_inv [OF assms(1), of path] assms(2) by metis

section \<open>The three ends of \<open>nget_9p\<close>\<close>

lemma nothing_new_inv: "vfs_inv L s \<Longrightarrow> nothing_new s s' \<Longrightarrow> vfs_inv L s'"
  by (fastforce simp: nothing_new_def vfs_inv_def after_def)

lemma nothing_new_same: "nothing_new s s' \<Longrightarrow> vf_node s' = vf_node s \<and> vf_fsnode s' = vf_fsnode s \<and> vf_hash s' = vf_hash s"
  by (auto simp: nothing_new_def)

lemma made_node_at: "made_node fid h n s s' \<Longrightarrow> vf_node s' = (vf_node s)(vf_next s \<mapsto> n)
    \<and> vf_fsnode s' = (vf_fsnode s)(vf_nextvp s \<mapsto> vf_next s) \<and> vf_hash s' = (vf_hash s)(h := vf_next s # vf_hash s h)"
  by (auto simp: made_node_def mt_goes_def list_insert_def)

lemma made_node_inv:
  assumes "vfs_inv L s" "made_node fid h n s s'"
  shows "vfs_inv (L(vf_next s := NODE_LCK_EXCLUSIVE)) s'"
proof -
  let ?np = "vf_next s" and ?vp = "vf_nextvp s"
  obtain m where m: "s' = list_insert ?np h n ((s\<lparr>vf_mt := m\<rparr>)\<lparr>vf_nextvp := ?vp + 1, vf_fsnode := (vf_fsnode s)(?vp \<mapsto> ?np)\<rparr>)"
      "mount_ok m" "np_vp n = Some ?vp" "node_ok n" "lock_is NODE_LCK_EXCLUSIVE n"
    using assms(2) by (auto simp: made_node_def mt_goes_def after_def)
  note f = m(1) [unfolded list_insert_def, simplified]
  have old: "np < ?np" if "vf_node s np = Some n'" for np n' using assms(1) that by (simp add: vfs_inv_def)
  have oldvp: "vp < ?vp \<and> (\<exists>n. vf_node s np = Some n \<and> np_vp n = Some vp)" if "vf_fsnode s vp = Some np" for vp np
    using assms(1) that by (auto simp: vfs_inv_def)
  show ?thesis unfolding vfs_inv_def
  proof (intro conjI allI impI ballI)
    show "mount_ok (vf_mt s')" "\<not> vf_nodelck s'" using m(2) assms(1) by (simp_all add: f vfs_inv_def)
  next
    fix np n' assume "vf_node s' np = Some n'"
    then show "node_ok n'" "lock_is ((L(?np := NODE_LCK_EXCLUSIVE)) np) n'" "np < vf_next s'"
      using m(4,5) assms(1) old by (auto simp: f vfs_inv_def split: if_splits intro: less_SucI)
  next
    fix h' np assume "np \<in> set (vf_hash s' h')"
    then show "vf_node s' np \<noteq> None" using assms(1) by (auto simp: f vfs_inv_def split: if_splits)
  next
    fix vp np assume "vf_fsnode s' vp = Some np"
    then show "vp < vf_nextvp s'" "\<exists>n'. vf_node s' np = Some n' \<and> np_vp n' = Some vp"
      using m(3) oldvp old by (fastforce simp: f split: if_splits)+
  next
    fix np n' vp assume "vf_node s' np = Some n'" "np_vp n' = Some vp"
    then show "vf_fsnode s' vp = Some np"
      using m(3) assms(1) oldvp by (fastforce simp: f vfs_inv_def split: if_splits)
  qed
qed

text \<open>The node is known, and its vnode can be had.\<close>

lemma nget_known:
  assumes "vfs_inv L s" "nfind s (q_path qid) = Some np" "vf_node s np = Some n" "np_vp n = Some vp"
    and "L np = NODE_LCK_NONE" "\<And>w. fst (kp_call K (VnodeGetwithvid vp) w) = 0"
  shows "\<exists>s'. nget_9p (Suc fuel) K fid qid dvp vpp cnp s = Some (0, Some vp, s')
    \<and> goes (L(np := NODE_LCK_EXCLUSIVE)) 0 s s'"
proof -
  have unl: "\<not> vf_nodelck s" using assms(1) by (simp add: vfs_inv_def)
  have fl: "\<not> ISSET (np_flags n) NODE_INIT" "\<not> ISSET (np_flags n) NODE_RECL"
    using inv_node(1) [OF assms(1,3)] by (simp_all add: node_ok_def)
  have lck: "nodelck_lock s = Some (s\<lparr>vf_nodelck := True\<rparr>)" using unl by (simp add: nodelck_lock_def)
  have un: "nodelck_unlock (s\<lparr>vf_nodelck := True\<rparr>) = s" using unl by (cases s) (simp add: nodelck_unlock_def)
  have sc: "nscan (vf_node s) (q_path qid) (vf_hash s (HASH9P (s\<lparr>vf_nodelck := True\<rparr>) (q_path qid))) = Some (Some np)"
    using nscan_inv [OF assms(1), of "q_path qid"] assms(2) by (simp add: HASH9P_def)
  obtain s1 where s1: "kcall K (VnodeGetwithvid vp) s = (0, s1)"
    using assms(6) [of "vworld s"] by (cases "kp_call K (VnodeGetwithvid vp) (vworld s)") (simp add: kcall_def)
  have g1: "goes L 0 s s1" by (rule goes_kcall [OF assms(1) s1])
  have "vf_node s1 np \<noteq> None" using goes_node [OF g1] assms(3) by simp
  then obtain s2 where s2: "nlock_9p np NODE_LCK_EXCLUSIVE s1 = Some s2" "goes (L(np := NODE_LCK_EXCLUSIVE)) 0 s1 s2"
    using goes_nlock [OF goes_inv [OF g1] _ assms(5), of NODE_LCK_EXCLUSIVE] by blast
  let ?s3 = "case (dvp, cnp) of (Some d, Some c) \<Rightarrow>
      if ISSET (cn_flags c) MAKEENTRY \<and> q_vers (d_qid (np_dir n)) \<noteq> 0 then kdo K (CacheEnter d (Some vp)) s2 else s2
    | _ \<Rightarrow> s2"
  have "goes (L(np := NODE_LCK_EXCLUSIVE)) 0 s2 ?s3"
    using goes_kdo [OF goes_inv [OF s2(2)]] goes_refl [OF goes_inv [OF s2(2)]] by (auto split: option.split)
  then have "goes (L(np := NODE_LCK_EXCLUSIVE)) 0 s ?s3" by (rule goes_trans0 [OF goes_trans0 [OF g1 s2(2)]])
  moreover have "nget_9p (Suc fuel) K fid qid dvp vpp cnp s = Some (0, Some vp, ?s3)"
    by (simp add: nget_9p.simps lck sc assms(3,4) fl un s1 s2(1) Let_def)
  ultimately show ?thesis by blast
qed

text \<open>The node is not known: a new one, or the return that leaves the table locked.\<close>

lemma nget_unknown:
  assumes "vfs_inv L s" "nfind s (q_path qid) = None"
  shows "nget_9p (Suc fuel) K fid qid dvp vpp cnp s =
    (if fid = NOFID then Some (EFAULT, vpp, s\<lparr>vf_nodelck := True\<rparr>)
     else nget_new K fid qid dvp vpp cnp (s\<lparr>vf_nodelck := True\<rparr>))"
proof -
  have "nodelck_lock s = Some (s\<lparr>vf_nodelck := True\<rparr>)" using assms(1) by (simp add: nodelck_lock_def vfs_inv_def)
  moreover have "nscan (vf_node s) (q_path qid) (vf_hash s (HASH9P (s\<lparr>vf_nodelck := True\<rparr>) (q_path qid))) = Some None"
    using nscan_inv [OF assms(1), of "q_path qid"] assms(2) by (simp add: HASH9P_def)
  ultimately show ?thesis by (simp add: nget_9p.simps)
qed

text \<open>With the table locked by somebody who has gone, nobody gets a node any more.\<close>

lemma nget_locked: "vf_nodelck s \<Longrightarrow> nget_9p fuel K fid qid dvp vpp cnp s = None"
  by (cases fuel) (simp_all add: nget_9p.simps nodelck_lock_def)

section \<open>The end of a vnode\<close>

lemma mt_vclunk:
  assumes "kern_ok (kp_kern K)" "mount_ok (vf_mt s)"
  shows "\<exists>e s'. vclunk K fid s = Some (e, s') \<and> mt_goes 0 s s'"
  using clunk_total [OF kern_recv [OF assms(1)] assms(2) kern_stack [OF assms(1), of "vworld s"], of "krx K s" fid]
  by (auto simp: vclunk_def mt_goes_def)

lemma ndel_unlocked: "\<not> vf_nodelck s \<Longrightarrow> ndel_9p np s = Some (list_remove np s)"
  by (cases s) (simp add: ndel_9p_def nodelck_lock_def nodelck_unlock_def list_remove_def)

text \<open>What \<open>vnop_reclaim_9p\<close> has done when it reaches the unlocking, up to the calls it made.\<close>

definition detached :: "nat \<Rightarrow> nat \<Rightarrow> node_9p \<Rightarrow> 'w mount \<Rightarrow> 'w vfs \<Rightarrow> 'w vfs" where
  "detached vp np n m s = s\<lparr>vf_mt := m, vf_hash := (\<lambda>h. removeAll np (vf_hash s h)),
     vf_fsnode := (vf_fsnode s)(vp := None), vf_node := (vf_node s)(np \<mapsto> n)\<rparr>"

lemma detached_simps [simp]:
  "vf_mt (detached vp np n m s) = m" "vf_node (detached vp np n m s) np = Some n"
  "upd_node np f (detached vp np n m s) = detached vp np (f n) m s"
  "(detached vp np n m s)\<lparr>vf_mt := m'\<rparr> = detached vp np n m' s"
  by (simp_all add: detached_def upd_node_def)

lemma detached_inv:
  assumes "vfs_inv unlocked s" "vf_fsnode s vp = Some np" "mount_ok m"
  shows "vfs_inv unlocked (s\<lparr>vf_mt := m, vf_hash := (\<lambda>h. removeAll np (vf_hash s h)),
       vf_fsnode := (vf_fsnode s)(vp := None), vf_node := (vf_node s)(np := None)\<rparr>)"
proof -
  have vp: "vp' = vp" if "vf_fsnode s vp' = Some np" for vp'
    using inv_fsnode_inj [OF assms(1) that assms(2)] by blast
  have "vf_fsnode s vp' = Some np' \<Longrightarrow> vp' \<noteq> vp \<Longrightarrow> np' \<noteq> np" for vp' np' using vp by blast
  then show ?thesis using assms(1-3)
    by (auto simp: vfs_inv_def)
qed

lemma vnop_reclaim_total:
  assumes "kern_ok (kp_kern K)" "vfs_inv unlocked s" "vf_fsnode s vp = Some np" "vf_node s np = Some n"
  shows "\<exists>m. vnop_reclaim_9p K vp s = Some (0, s\<lparr>vf_mt := m, vf_hash := (\<lambda>h. removeAll np (vf_hash s h)),
       vf_fsnode := (vf_fsnode s)(vp := None), vf_node := (vf_node s)(np := None)\<rparr>)
    \<and> mount_ok m \<and> mt_live m = mt_live (vf_mt s) - (if np_direntries n = None then 1 else 2)"
proof -
  have unl: "np_lck n = Unlocked" using inv_node(2) [OF assms(2,4)] by (simp add: lock_is_def)
  let ?n1 = "n\<lparr>np_lck := Exclusive, np_lcktype := NODE_LCK_EXCLUSIVE, np_flags := np_flags n OR NODE_RECL\<rparr>"
  let ?n2 = "?n1\<lparr>np_lcktype := NODE_LCK_NONE, np_lck := Unlocked\<rparr>"
  have m0: "mount_ok (vf_mt s)" by (rule inv_mount [OF assms(2)])
  have nl: "\<not> vf_nodelck s" using assms(2) by (simp add: vfs_inv_def)
  let ?s0 = "(list_remove np (upd_node np (\<lambda>_. ?n1) s))"
  obtain m1 where m1: "kdo K (VnodeRemovefsref vp) ?s0 = ?s0\<lparr>vf_mt := m1\<rparr>" "after (vf_mt s) 0 m1"
    using mt_kdo [of ?s0 K "VnodeRemovefsref vp"] m0 by (auto simp: mt_goes_def list_remove_def)
  have d0: "(?s0\<lparr>vf_mt := m1\<rparr>)\<lparr>vf_fsnode := (vf_fsnode s)(vp := None)\<rparr> = detached vp np ?n1 m1 s"
    using assms(4) by (simp add: detached_def list_remove_def upd_node_def)
  obtain m2 where m2: "kdo K (CachePurge vp) (detached vp np ?n1 m1 s) = detached vp np ?n1 m2 s" "after m1 0 m2"
    using mt_kdo [of "detached vp np ?n1 m1 s" K "CachePurge vp"] m1(2) by (auto simp: mt_goes_def after_def)
  let ?un = "ISSET (mt_flags m2) F_UNMOUNTING"
  have "\<exists>m3. after m2 0 m3 \<and> (?un \<longrightarrow> m3 = m2) \<and> (\<not> ?un \<longrightarrow> (\<exists>e. vclunk K (np_fid n) (detached vp np ?n2 m2 s)
      = Some (e, detached vp np ?n2 m3 s)))"
    using mt_vclunk [OF assms(1), of "detached vp np ?n2 m2 s" "np_fid n"] after_refl [of m2] m2(2)
    by (cases ?un) (auto simp: mt_goes_def after_def)
  then obtain m3 where m3: "after m2 0 m3" "?un \<Longrightarrow> m3 = m2" "\<not> ?un \<Longrightarrow> \<exists>e. vclunk K (np_fid n)
      (detached vp np ?n2 m2 s) = Some (e, detached vp np ?n2 m3 s)" by blast
  let ?s3 = "detached vp np ?n2 m3 s"
  let ?s4 = "if ISSET (np_flags n OR NODE_RECL) NODE_WAITRECL then kdo K (Wakeup np) ?s3 else ?s3"
  obtain m4 where m4: "?s4 = detached vp np ?n2 m4 s" "after m3 0 m4"
    using mt_kdo [of ?s3 K "Wakeup np"] mt_goes_refl [of ?s3] m3(1)
    by (cases "ISSET (np_flags n OR NODE_RECL) NODE_WAITRECL") (auto simp: mt_goes_def after_def)
  have fin: "vnop_reclaim_9p K vp s = Some (0, vfree True (vfree (np_direntries n \<noteq> None)
      (?s4\<lparr>vf_node := (vf_node ?s4)(np := None)\<rparr>)))"
  proof -
    have "nlock_9p np NODE_LCK_EXCLUSIVE s = Some (upd_node np (\<lambda>n. n\<lparr>np_lck := Exclusive, np_lcktype := NODE_LCK_EXCLUSIVE\<rparr>) s)"
      using assms(4) unl by (simp add: nlock_9p_def)
    moreover have "upd_node np (\<lambda>n. n\<lparr>np_flags := np_flags n OR NODE_RECL\<rparr>)
        (upd_node np (\<lambda>n. n\<lparr>np_lck := Exclusive, np_lcktype := NODE_LCK_EXCLUSIVE\<rparr>) s) = upd_node np (\<lambda>_. ?n1) s"
      using assms(4) by (simp add: upd_node_def)
    moreover have "ndel_9p np (upd_node np (\<lambda>_. ?n1) s) = Some ?s0" using nl by (simp add: ndel_unlocked)
    moreover have "vf_fsnode (?s0\<lparr>vf_mt := m1\<rparr>) = vf_fsnode s" by (simp add: list_remove_def)
    moreover have "nunlock_9p np (detached vp np ?n1 m2 s) = Some (detached vp np ?n2 m2 s)"
      by (simp add: nunlock_9p_def)
    ultimately show ?thesis using assms(3) m1(1) d0 m2(1) m3(2,3)
      by (cases ?un) (auto simp: vnop_reclaim_9p_def Let_def)
  qed
  let ?t = "s\<lparr>vf_mt := m4, vf_hash := (\<lambda>h. removeAll np (vf_hash s h)),
       vf_fsnode := (vf_fsnode s)(vp := None), vf_node := (vf_node s)(np := None)\<rparr>"
  have t: "?s4\<lparr>vf_node := (vf_node ?s4)(np := None)\<rparr> = ?t" unfolding m4(1) by (simp add: detached_def)
  have live: "mount_ok m4" "mt_live m4 = mt_live (vf_mt s)"
    using m1(2) m2(2) m3(1) m4(2) by (simp_all add: after_def)
  have "vfree True (vfree b ?t) = ?t\<lparr>vf_mt := m4\<lparr>mt_live := mt_live m4 - (if b then 2 else 1)\<rparr>\<rparr>" for b
    by (simp add: vfree_def free_9p_def)
  then show ?thesis unfolding fin t using live
    by (intro exI [of _ "m4\<lparr>mt_live := mt_live m4 - (if np_direntries n \<noteq> None then 2 else 1)\<rparr>"])
      (simp add: mount_ok_def)
qed

end
