(* ===== verification/MountProofs.thy ===== *)
theory MountProofs
  imports VfsOps TableProofs AuthProofs
begin

text \<open>
  A mount that succeeds: each step of \<open>vfs_mount_9p\<close>, when it returns 0, has done its part and kept
  count of the blocks; together they give a client whose state satisfies the invariant of the vnode
  operations.
\<close>

section \<open>Steps that only allocate\<close>

definition quiet :: "int \<Rightarrow> 'w vfs \<Rightarrow> 'w vfs \<Rightarrow> bool" where
  "quiet k s s' \<longleftrightarrow> (\<exists>w. s' = s\<lparr>vf_mt := (vf_mt s)\<lparr>mt_world := w, mt_live := mt_live (vf_mt s) + k\<rparr>\<rparr>)"

lemma quiet_trans: "quiet j s s1 \<Longrightarrow> quiet k s1 s2 \<Longrightarrow> quiet (j + k) s s2"
  by (auto simp: quiet_def add.assoc)

lemma quiet_refl: "quiet 0 s s"
  unfolding quiet_def by (rule exI [of _ "vworld s"]) simp

lemma quiet_kcall: "kcall K c s = (e, s') \<Longrightarrow> quiet 0 s s'"
  by (auto simp: kcall_def quiet_def split: prod.splits intro: exI)

lemma quiet_vmalloc:
  assumes "vmalloc K n s = (p, s')"
  shows "quiet (held p) s s'" "\<And>b. p = Some b \<Longrightarrow> length b = n"
  using assms by (auto simp: vmalloc_def malloc_9p_def quiet_def split: prod.splits if_splits intro: exI)

lemma quiet_vfree: "quiet (if b then -1 else 0) s (vfree b s)"
  using quiet_refl [of s] by (auto simp: vfree_def free_9p_def quiet_def intro: exI [of _ "vworld s"])

lemma nameget_ok:
  assumes "nameget_9p K c None s = (0, p, s')"
  shows "quiet (held p) s s'" "\<And>b. p = Some b \<Longrightarrow> length b = NAMEBUF"
proof -
  obtain q s1 where m: "vmalloc K NAMEBUF s = (q, s1)" by fastforce
  note q = quiet_vmalloc [OF m]
  have "quiet (held p) s s' \<and> (\<forall>b. p = Some b \<longrightarrow> length b = NAMEBUF)"
  proof (cases q)
    case None
    then show ?thesis using assms m by (simp add: nameget_9p_def)
  next
    case (Some b)
    have "quiet 0 s (vfree True s1)" using quiet_trans [OF q(1) quiet_vfree [of True]] Some by simp
    then show ?thesis using assms m q Some by (auto simp: nameget_9p_def split: if_splits)
  qed
  then show "quiet (held p) s s'" "\<And>b. p = Some b \<Longrightarrow> length b = NAMEBUF" by auto
qed

lemma addrget_ok:
  assumes "addrget_9p K c n None s = (0, p, s')"
  shows "quiet 1 s s'" "p \<noteq> None"
proof -
  obtain q s1 where m: "vmalloc K n s = (q, s1)" by fastforce
  show "quiet 1 s s'" "p \<noteq> None"
    using assms m quiet_vmalloc [OF m] by (auto simp: addrget_9p_def split: option.splits if_splits)
qed

section \<open>The state between the steps\<close>

text \<open>No node yet; the lock's flag may still be set by the caller.\<close>

definition bare :: "'w vfs \<Rightarrow> bool" where
  "bare s \<longleftrightarrow> \<not> vf_nodelck s \<and> vf_node s = Map.empty \<and> vf_fsnode s = Map.empty \<and> vf_hash s = (\<lambda>_. [])
     \<and> length (mt_rpcbuf (vf_mt s)) = MAXMSG \<and> unat (mt_msize (vf_mt s)) \<le> MAXMSG"

lemma bare_inv: "bare s \<Longrightarrow> \<not> ISSET (mt_flags (vf_mt s)) F_SENDLOCK \<Longrightarrow> vfs_inv L s"
  by (simp add: bare_def vfs_inv_def mount_ok_def)

lemma bare_ok: "bare s \<Longrightarrow> \<not> ISSET (mt_flags (vf_mt s)) F_SENDLOCK \<Longrightarrow> mount_ok (vf_mt s)"
  by (simp add: bare_def mount_ok_def)

lemma bare_after: "bare s \<Longrightarrow> after m k m' \<Longrightarrow> bare (s\<lparr>vf_mt := m'\<rparr>)"
  by (simp add: bare_def after_def mount_ok_def)

lemma bare_quiet: "bare s \<Longrightarrow> quiet k s s' \<Longrightarrow> bare s' \<and> mt_live (vf_mt s') = mt_live (vf_mt s) + k
    \<and> mt_flags (vf_mt s') = mt_flags (vf_mt s) \<and> mt_so (vf_mt s') = mt_so (vf_mt s)"
  by (auto simp: bare_def quiet_def)

text \<open>The blocks the mount and the locals hold, and the state after a prefix of the steps.\<close>

definition blocks :: "'w mlocals \<Rightarrow> int" where
  "blocks l = 1 + of_bool (mn_node (ml_mnt l)) + held (mn_volume (ml_mnt l)) + held (mn_uname (ml_mnt l))
     + held (mn_aname (ml_mnt l)) + held (mn_version (ml_mnt l)) + held (ml_addr l) + held (ml_authaddr l)"

definition counted :: "int \<Rightarrow> 'w mlocals \<Rightarrow> bool" where
  "counted live l \<longleftrightarrow> bare (lvfs l) \<and> mt_live (lmt l) = live + blocks l
     \<and> (\<forall>b. mn_uname (ml_mnt l) = Some b \<longrightarrow> length b = NAMEBUF)
     \<and> (\<forall>b. mn_aname (ml_mnt l) = Some b \<longrightarrow> length b = NAMEBUF)"

text \<open>What has not been done yet.\<close>

definition unset :: "'w mlocals \<Rightarrow> bool \<times> bool \<times> bool \<times> bool \<times> bool \<times> bool" where
  "unset l = (mn_volume (ml_mnt l) = None, mn_uname (ml_mnt l) = None, mn_aname (ml_mnt l) = None,
     mn_version (ml_mnt l) = None, ml_addr l = None, ml_authaddr l = None)"

lemmas mount_state = counted_def blocks_def unset_def upd_mnt_def set_lvfs_def set_lmt_def

lemma run_steps_Cons: "run_steps (f # fs) l = Some (0, l') \<longleftrightarrow> (\<exists>l1. f l = Some (0, l1) \<and> run_steps fs l1 = Some (0, l'))"
  by (auto split: bind_splits if_splits)

lemma mount_alloc_ok:
  assumes "mount_alloc K l = Some (0, l')" "counted live l" "\<not> mn_node (ml_mnt l)"
  shows "counted live l'" "unset l' = unset l" "mn_node (ml_mnt l')"
proof -
  obtain e1 s1 e2 s2 e3 s3 e4 s4 where k: "kcall K LckAlloc (lvfs l) = (e1, s1)" "kcall K LckAlloc s1 = (e2, s2)"
      "kcall K LckAlloc s2 = (e3, s3)" "kcall K HashInit s3 = (e4, s4)" by (metis surj_pair)
  have q: "quiet 0 (lvfs l) s4"
    using quiet_trans [OF quiet_trans [OF quiet_trans [OF quiet_kcall [OF k(1)] quiet_kcall [OF k(2)]]
        quiet_kcall [OF k(3)]] quiet_kcall [OF k(4)]] by simp
  have b: "bare s4" "mt_live (vf_mt s4) = mt_live (lmt l)" using bare_quiet [OF _ q] assms(2) by (simp_all add: counted_def)
  have l': "l' = upd_mnt (\<lambda>m. m\<lparr>mn_vfs := s4\<lparr>vf_mt := (vf_mt s4)\<lparr>mt_live := mt_live (vf_mt s4) + 1\<rparr>,
      vf_nodelen := kp_hashmask K\<rparr>, mn_node := True\<rparr>) l"
    using assms(1) k by (auto simp: mount_alloc_def Let_def split: if_splits)
  show "counted live l'" "unset l' = unset l" "mn_node (ml_mnt l')"
    using b assms(2,3) by (simp_all add: l' mount_state bare_def)
qed

lemma mount_names_ok:
  assumes "mount_volume K args l = Some (0, l1)" "mount_uname K args l1 = Some (0, l2)"
    "mount_aname K args l2 = Some (0, l3)" "counted live l" "unset l = (True, True, True, True, True, True)"
  shows "counted live l3" "mn_version (ml_mnt l3) = None" "ml_addr l3 = None" "ml_authaddr l3 = None"
    "mn_node (ml_mnt l3) = mn_node (ml_mnt l)"
proof -
  obtain p1 s1 where v: "nameget_9p K (ar_volume args) None (lvfs l) = (0, p1, s1)"
      "l1 = upd_mnt (\<lambda>m. m\<lparr>mn_vfs := s1, mn_volume := p1\<rparr>) l"
    using assms(1,5) by (auto simp: mount_volume_def unset_def split: prod.splits)
  note n1 = nameget_ok [OF v(1)]
  have c1: "counted live l1" using bare_quiet [OF _ n1(1)] assms(4,5) by (auto simp: v(2) mount_state)
  obtain p2 s2 where u: "nameget_9p K (ar_uname args) None (lvfs l1) = (0, p2, s2)"
      "l2 = upd_mnt (\<lambda>m. m\<lparr>mn_vfs := s2, mn_uname := p2\<rparr>) l1"
    using assms(2,5) by (auto simp: mount_uname_def v(2) mount_state split: prod.splits)
  note n2 = nameget_ok [OF u(1)]
  have c2: "counted live l2" using bare_quiet [OF _ n2(1)] n2(2) c1 assms(5) by (auto simp: u(2) v(2) mount_state)
  obtain p3 s3 where a: "nameget_9p K (ar_aname args) None (lvfs l2) = (0, p3, s3)"
      "l3 = upd_mnt (\<lambda>m. m\<lparr>mn_vfs := s3, mn_aname := p3\<rparr>) l2"
    using assms(3,5) by (auto simp: mount_aname_def u(2) v(2) mount_state split: prod.splits)
  note n3 = nameget_ok [OF a(1)]
  show "counted live l3" using bare_quiet [OF _ n3(1)] n3(2) c2 assms(5) by (auto simp: a(2) u(2) v(2) mount_state)
  show "mn_version (ml_mnt l3) = None" "ml_addr l3 = None" "ml_authaddr l3 = None"
    "mn_node (ml_mnt l3) = mn_node (ml_mnt l)"
    using assms(5) by (simp_all add: a(2) u(2) v(2) mount_state)
qed

lemma mount_cred_ok:
  assumes "mount_cred cred args l = Some (0, l')" "counted live l"
  shows "counted live l'" "unset l' = unset l" "mn_node (ml_mnt l') = mn_node (ml_mnt l)" "mn_private (ml_mnt l')"
proof -
  obtain u g where "(case cred of Some c \<Rightarrow> c | None \<Rightarrow> (KAUTH_ID_NONE, KAUTH_ID_NONE)) = (u, g)" by fastforce
  then have l': "l' = upd_mnt (\<lambda>m. m\<lparr>mn_vfs := (lvfs l)\<lparr>vf_uid := u, vf_gid := g,
      vf_mt := (lmt l)\<lparr>mt_flags := ar_flags args\<rparr>\<rparr>, mn_private := True\<rparr>) l"
    using assms(1) by (simp add: mount_cred_def)
  show "counted live l'" "unset l' = unset l" "mn_node (ml_mnt l') = mn_node (ml_mnt l)" "mn_private (ml_mnt l')"
    using assms(2) by (simp_all add: l' mount_state bare_def)
qed

lemma connect_so:
  assumes "connect_9p call so inet m = (0, cs, m')"
  shows "m' = m\<lparr>mt_so := Some so\<rparr>"
  using assms by (auto simp: connect_9p_def Let_def split: if_splits)

lemma mount_connect_ok:
  assumes "mount_connect K net args l = Some (0, l')" "counted live l" "ml_addr l = None"
  shows "counted live l'" "ml_mnt l' = (ml_mnt l)\<lparr>mn_vfs := lvfs l'\<rparr>" "ml_authaddr l' = ml_authaddr l"
    "ml_addr l' \<noteq> None" "mt_so (lmt l') = Some (nc_so net)"
proof -
  obtain e p s1 where a: "addrget_9p K (ar_addr args) (ar_addrlen args) None (lvfs l) = (e, p, s1)"
    by (metis prod_cases3)
  then have e: "e = 0" using assms(1,3) by (auto simp: mount_connect_def Let_def split: if_splits)
  note q = addrget_ok [OF a [unfolded e]]
  then obtain addr where p: "p = Some addr" by auto
  obtain f cs m where c: "connect_9p (nc_call net) (nc_so net) f (vf_mt s1) = (0, cs, m)"
      "l' = set_lmt m ((set_lvfs s1 l)\<lparr>ml_addr := p\<rparr>)"
    using assms(1,3) a e p by (auto simp: mount_connect_def Let_def mount_state split: bind_splits prod.splits)
  note m = connect_so [OF c(1)]
  note b = bare_quiet [OF _ q(1)]
  show "counted live l'" "ml_mnt l' = (ml_mnt l)\<lparr>mn_vfs := lvfs l'\<rparr>" "ml_authaddr l' = ml_authaddr l"
    "ml_addr l' \<noteq> None" "mt_so (lmt l') = Some (nc_so net)"
    using b assms(2,3) by (auto simp: c(2) m p mount_state bare_def)
qed

section \<open>Steps that talk to the server\<close>

lemma version_within:
  assumes "recv_ok env" "mount_ok m" "stack_ok tx0" "length vers < 2 ^ 31"
    "version_9p env tx0 rx0 vers m = Some (0, v, m')"
  shows "after m 1 m'" "v \<noteq> None"
proof -
  let ?m = "m\<lparr>mt_msize := of_nat MAXMSG\<rparr>"
  let ?tx = "tx0\<lparr>fc_tag := NOTAG, fc_type := Tversion, fc_version := vers, fc_msize := mt_msize ?m\<rparr>"
  have m0: "mount_ok ?m" "after m 0 ?m" using assms(2) by (simp_all add: mount_ok_def after_def)
  have pr: "printable ?tx" using assms(3) by (intro small_printable) (simp_all add: stack_ok_def)
  have sz: "wire_size d ?tx < 2 ^ 32" for d
    using assms(4) by (simp add: wire_size_def wire_payload_def length_str_bytes)
  have "after m 1 m' \<and> v \<noteq> None"
  proof (rule rpc_call [OF assms(1) m0(1) pr sz, where rxi = rx0 and keep = True])
    fix e1 rx p m1
    assume r: "rpc_9p env ?tx rx0 True ?m = Some (e1, rx, p, m1)" "after ?m (held p) m1"
      "p = None \<longleftrightarrow> e1 \<noteq> 0 \<or> \<not> True"
      "\<And>buf. p = Some buf \<Longrightarrow> length buf \<le> unat (mt_msize ?m) \<and> parsed (ISSET (mt_flags ?m) F_DOTU) buf rx"
    have e1: "e1 = 0" using assms(5) r(1) by (auto simp: version_9p_def split: if_splits)
    then obtain buf where p: "p = Some buf" using r(3) by auto
    let ?m1 = "m1\<lparr>mt_msize := min (fc_msize rx) (of_nat MAXMSG)\<rparr>"
    have "unat (min (fc_msize rx) (of_nat MAXMSG)) \<le> MAXMSG" by (simp add: min_def word_le_nat_alt)
    then have a1: "after m 1 ?m1" using r(2) m0(2) p by (simp add: after_def mount_ok_def)
    obtain q where q: "fc_version rx = Some q" using assms(5) r(1) e1 p
      by (cases "fc_version rx") (simp_all add: version_9p_def)
    have "int (length (cstr_at buf q)) \<le> int (length (drop q buf))"
      using length_cstr_le [of "drop q buf"] by (simp add: cstr_at_def)
    with after_mount_ok [OF a1] obtain e2 v2 m2 where
      s: "strndup env (Some (drop q buf)) (int (length (cstr_at buf q))) ?m1 = Some (e2, v2, m2)"
        "after ?m1 (held v2) m2" "v2 = None \<longleftrightarrow> e2 \<noteq> 0"
      using strndup_total [of ?m1 "Some (drop q buf)" "int (length (cstr_at buf q))" env] by auto
    have "e2 = 0" "v = v2" "m' = free_9p p m2" using assms(5) r(1) e1 p q s(1) by (auto simp: version_9p_def)
    then show ?thesis using after_free [OF after_trans [OF a1 s(2)], of p] p s(3) by auto
  qed
  then show "after m 1 m'" "v \<noteq> None" by auto
qed

lemma mount_version_ok:
  assumes "kern_ok (kp_kern K)" "mount_version K l = Some (0, l')" "counted live l" "mn_version (ml_mnt l) = None"
  shows "counted live l'" "ml_mnt l' = (ml_mnt l)\<lparr>mn_vfs := lvfs l', mn_version := mn_version (ml_mnt l')\<rparr>"
    "ml_addr l' = ml_addr l" "ml_authaddr l' = ml_authaddr l" "mn_version (ml_mnt l') \<noteq> None"
    "mt_so (lmt l') = mt_so (lmt l)" "\<not> ISSET (mt_flags (lmt l')) F_SENDLOCK"
proof -
  let ?dotu = "ISSET (mt_flags (lmt l)) FLAG_DOTU"
  let ?vers = "if ?dotu then VERSION9PDOTU else VERSION9P"
  have nl: "\<not> ISSET (mt_flags (lmt l)) F_SENDLOCK" using assms(2) by (auto simp: mount_version_def Let_def)
  obtain e v m where v: "version_9p (k_env (kp_kern K)) (ktx K (lvfs l)) (krx K (lvfs l)) ?vers (lmt l) = Some (e, v, m)"
    using assms(2) nl by (auto simp: mount_version_def Let_def split: bind_splits)
  have e: "e = 0" using assms(2) nl v by (auto simp: mount_version_def Let_def split: if_splits)
  have ok: "mount_ok (lmt l)" by (rule bare_ok [OF _ nl]) (use assms(3) in \<open>simp add: counted_def\<close>)
  have len: "length ?vers < 2 ^ 31" by (simp add: VERSION9P_def VERSION9PDOTU_def bytes_of_def)
  note w = version_within [OF kern_recv [OF assms(1)] ok kern_stack [OF assms(1)] len v [unfolded e]]
  obtain ver where ver: "v = Some ver" using w(2) by auto
  let ?m = "if ?dotu \<and> ver = VERSION9PDOTU then m\<lparr>mt_flags := mt_flags m OR F_DOTU\<rparr> else m"
  have l': "l' = set_lmt ?m (upd_mnt (\<lambda>n. n\<lparr>mn_version := v\<rparr>) (set_lmt m l))"
    using assms(2) nl v e ver by (auto simp: mount_version_def Let_def mount_state)
  have "\<not> ISSET (mt_flags m OR F_DOTU) F_SENDLOCK" if "\<not> ISSET (mt_flags m) F_SENDLOCK"
    using that by (simp add: ISSET_def bit.conj_disj_distrib2)
  then show "counted live l'" "ml_mnt l' = (ml_mnt l)\<lparr>mn_vfs := lvfs l', mn_version := mn_version (ml_mnt l')\<rparr>"
    "ml_addr l' = ml_addr l" "ml_authaddr l' = ml_authaddr l" "mn_version (ml_mnt l') \<noteq> None"
    "mt_so (lmt l') = mt_so (lmt l)" "\<not> ISSET (mt_flags (lmt l')) F_SENDLOCK"
    using w(1) assms(3,4) ver by (auto simp: l' mount_state bare_def after_def mount_ok_def)
qed

text \<open>From here on the mount of the protocol code is well-formed.\<close>

definition attached :: "int \<Rightarrow> 'w mlocals \<Rightarrow> bool" where
  "attached live l \<longleftrightarrow> counted live l \<and> \<not> ISSET (mt_flags (lmt l)) F_SENDLOCK"

lemma attached_ok: "attached live l \<Longrightarrow> mount_ok (lmt l)"
  by (simp add: attached_def counted_def bare_ok)

lemma attached_after:
  assumes "attached live l" "after (lmt l) k m"
  shows "attached (live + k) (set_lmt m l)"
proof -
  have "bare ((lvfs l)\<lparr>vf_mt := m\<rparr>)" using assms bare_after by (auto simp: attached_def counted_def)
  then show ?thesis using assms
    by (simp add: attached_def counted_def blocks_def set_lmt_def set_lvfs_def upd_mnt_def after_def mount_ok_def)
qed

lemma names_short:
  assumes "counted live l" "mn_uname (ml_mnt l) = Some u" "mn_aname (ml_mnt l) = Some a"
  shows "length (cstr u) + length (cstr a) < 2 ^ 31" "NAMELEN \<le> length u"
  using assms length_cstr_le [of u] length_cstr_le [of a] by (auto simp: counted_def)

text \<open>What the authentication does not touch.\<close>

definition rest_same :: "'w mlocals \<Rightarrow> 'w mlocals \<Rightarrow> bool" where
  "rest_same l l' \<longleftrightarrow> mn_private (ml_mnt l') = mn_private (ml_mnt l) \<and> mn_node (ml_mnt l') = mn_node (ml_mnt l)
     \<and> mn_volume (ml_mnt l') = mn_volume (ml_mnt l) \<and> mn_uname (ml_mnt l') = mn_uname (ml_mnt l)
     \<and> mn_aname (ml_mnt l') = mn_aname (ml_mnt l) \<and> mn_version (ml_mnt l') = mn_version (ml_mnt l)
     \<and> mn_root (ml_mnt l') = mn_root (ml_mnt l) \<and> ml_addr l' = ml_addr l \<and> mt_so (lmt l') = mt_so (lmt l)"

lemma attached_authaddr:
  assumes "attached live l" "quiet 1 (lvfs l) s" "ml_authaddr l = None" "p \<noteq> None"
  defines "l1 \<equiv> (set_lvfs s l)\<lparr>ml_authaddr := p\<rparr>"
  shows "attached live l1" "rest_same l l1"
proof -
  have "bare (lvfs l)" using assms(1) by (simp add: attached_def counted_def)
  note b = bare_quiet [OF this assms(2)]
  show "attached live l1" using b assms(1,3,4)
    by (simp add: l1_def attached_def counted_def blocks_def set_lvfs_def upd_mnt_def)
  show "rest_same l l1" using b by (simp add: l1_def rest_same_def set_lvfs_def upd_mnt_def)
qed

lemma mount_auth_ok:
  assumes "kern_ok (kp_kern K)" "mount_auth K net args l = Some (0, l')" "attached live l" "ml_authaddr l = None"
    and "nc_authcall net SockSocket = 0"
    and "\<And>key. ar_authkey args = Some key \<Longrightarrow> uc_error key = 0 \<Longrightarrow> DESKEYLEN \<le> length (uc_bytes key)"
  shows "attached live l'" "rest_same l l'"
proof -
  let ?l = "upd_mnt (\<lambda>n. n\<lparr>mn_afid := NOFID\<rparr>) l"
  have l0: "attached live ?l" "rest_same l ?l"
    using assms(3) by (auto simp: attached_def mount_state rest_same_def bare_def)
  have "attached live l' \<and> rest_same l l'"
  proof (cases "l' = ?l")
    case True
    then show ?thesis using l0 by simp
  next
    case False
    then obtain auth key where k: "ar_authaddr args = Some auth" "ar_authkey args = Some key" "ar_authaddrlen args \<noteq> 0"
        "uc_error key = 0"
      using assms(2) by (auto simp: mount_auth_def Let_def split: option.splits if_splits)
    obtain e p s1 where a: "addrget_9p K auth (ar_authaddrlen args) (ml_authaddr l) (lvfs ?l) = (e, p, s1)"
      by (metis prod_cases3)
    have au: "ml_authaddr ?l = ml_authaddr l" by (simp add: upd_mnt_def)
    then have e: "e = 0" using assms(2) k a by (auto simp: mount_auth_def Let_def split: if_splits)
    note q = addrget_ok [OF a [unfolded e assms(4)]]
    let ?l1 = "(set_lvfs s1 ?l)\<lparr>ml_authaddr := p\<rparr>"
    have l1: "attached live ?l1" "rest_same l ?l1"
      using attached_authaddr [OF l0(1) q(1) _ q(2)] assms(4) l0(2) by (simp_all add: au rest_same_def)
    obtain u n where un: "mn_uname (ml_mnt ?l1) = Some u" "mn_aname (ml_mnt ?l1) = Some n"
      using assms(2) k a e au by (auto simp: mount_auth_def Let_def split: bind_splits)
    have c1: "counted live ?l1" using l1(1) by (simp add: attached_def)
    note sh = names_short [OF c1 un]
    obtain e2 afid qid m2 where au2: "auth_9p (k_env (kp_kern K)) (ktx K (lvfs ?l1)) (krx K (lvfs ?l1))
        (cstr u) (cstr n) (vf_uid (lvfs ?l1)) (ml_qid ?l1) (lmt ?l1) = Some (e2, afid, qid, m2)" "after (lmt ?l1) 0 m2"
      using auth_total [OF kern_recv [OF assms(1)] attached_ok [OF l1(1)] kern_stack [OF assms(1)] sh(1)] by blast
    let ?l2 = "upd_mnt (\<lambda>n. n\<lparr>mn_afid := afid\<rparr>) (set_lmt m2 ?l1\<lparr>ml_qid := qid\<rparr>)"
    have l2: "attached live ?l2" "rest_same l ?l2"
      using attached_after [OF l1(1) au2(2)] l1(2) au2(2)
      by (auto simp: attached_def mount_state rest_same_def after_def)
    show ?thesis
    proof (cases "e2 \<noteq> 0 \<or> afid = NOFID")
      case True
      then have "l' = ?l2" using assms(2) k a e au un au2(1) by (auto simp: mount_auth_def Let_def)
      then show ?thesis using l2 by simp
    next
      case go: False
      have key: "7 \<le> length (take DESKEYLEN (uc_bytes key))" using assms(6) [OF k(2,4)] by simp
      obtain e3 j m3 where p9: "authp9any_9p (kp_kern K) (nc_authcall net) (nc_authso net) afid u
          (take DESKEYLEN (uc_bytes key)) (lmt ?l2) = Some (e3, m3)" "after (lmt ?l2) j m3" "j = 0 \<or> e3 \<noteq> 0"
        by (rule authp9any_total [where call = "nc_authcall net", OF assms(1) attached_ok [OF l2(1)] sh(2) key assms(5)])
      have "e3 = 0 \<and> l' = set_lmt m3 ?l2" using assms(2) k a e au un au2(1) go p9(1)
        by (auto simp: mount_auth_def Let_def)
      then show ?thesis using attached_after [OF l2(1) p9(2)] l2(2) p9(2,3)
        by (auto simp: rest_same_def mount_state after_def)
    qed
  qed
  then show "attached live l'" "rest_same l l'" by auto
qed

lemma mount_attach_ok:
  assumes "kern_ok (kp_kern K)" "mount_attach K l = Some (0, l')" "attached live l"
  shows "attached live l'" "rest_same l l'" "mn_uname (ml_mnt l) \<noteq> None" "mn_aname (ml_mnt l) \<noteq> None"
    "mn_afid (ml_mnt l') = mn_afid (ml_mnt l)"
proof -
  obtain u n where un: "mn_uname (ml_mnt l) = Some u" "mn_aname (ml_mnt l) = Some n"
    using assms(2) by (auto simp: mount_attach_def split: bind_splits)
  have c: "counted live l" using assms(3) by (simp add: attached_def)
  obtain e fid q m where a: "attach_9p (k_env (kp_kern K)) (ktx K (lvfs l)) (krx K (lvfs l)) (cstr u) (cstr n)
      (mn_afid (ml_mnt l)) (vf_uid (lvfs l)) (ml_fid l) (ml_qid l) (lmt l) = Some (e, fid, q, m)" "after (lmt l) 0 m"
    using attach_total [OF kern_recv [OF assms(1)] attached_ok [OF assms(3)] kern_stack [OF assms(1)]
        names_short(1) [OF c un]] by blast
  have "l' = set_lmt m l\<lparr>ml_fid := fid, ml_qid := q\<rparr>" using assms(2) un a(1) by (simp add: mount_attach_def)
  then show "attached live l'" "rest_same l l'" "mn_uname (ml_mnt l) \<noteq> None" "mn_aname (ml_mnt l) \<noteq> None"
    "mn_afid (ml_mnt l') = mn_afid (ml_mnt l)"
    using attached_after [OF assms(3) a(2)] a(2) un by (auto simp: attached_def mount_state rest_same_def after_def)
qed

section \<open>The root\<close>

lemma bare_nfind: "bare s \<Longrightarrow> nfind s path = None"
  by (simp add: bare_def nfind_def)

lemma mount_root_ok:
  assumes "kern_ok (kp_kern K)" "mount_root fuel K l = Some (0, l')" "attached live l"
  obtains vp np n s where "l' = upd_mnt (\<lambda>m. m\<lparr>mn_vfs := s, mn_root := Some vp\<rparr>) l"
    "vf_fsnode s = [vp \<mapsto> np]" "vf_node s = [np \<mapsto> n]" "np_fid n = ml_fid l" "vfs_inv unlocked s"
    "mt_live (vf_mt s) = mt_live (lmt l) + 1" "mt_so (vf_mt s) = mt_so (lmt l)"
proof -
  let ?s = "lvfs l" and ?h = "HASH9P (lvfs l) (q_path (ml_qid l))"
  have bare: "bare ?s" and fl: "\<not> ISSET (mt_flags (vf_mt ?s)) F_SENDLOCK"
    using assms(3) by (simp_all add: attached_def counted_def)
  note inv = bare_inv [OF bare fl]
  obtain e vpp s1 where g: "nget_9p fuel K (ml_fid l) (ml_qid l) None (mn_root (ml_mnt l)) None ?s = Some (e, vpp, s1)"
    using assms(2) by (auto simp: mount_root_def split: bind_splits)
  have e: "e = 0" using assms(2) g by (auto simp: mount_root_def Let_def split: if_splits)
  obtain f where f: "fuel = Suc f" using g by (cases fuel) (simp_all add: nget_9p.simps)
  have nn: "nget_new K (ml_fid l) (ml_qid l) None (mn_root (ml_mnt l)) None (?s\<lparr>vf_nodelck := True\<rparr>) = Some (0, vpp, s1)"
    using g nget_unknown [OF inv bare_nfind [OF bare], of f K "ml_fid l" "ml_qid l" None "mn_root (ml_mnt l)" None] e f
    by (auto split: if_splits)
  obtain n where n: "vpp = Some (vf_nextvp ?s)" "made_node (ml_fid l) ?h n ?s s1"
    using nget_new_spec [OF assms(1) inv nn] by auto
  let ?np = "vf_next ?s" and ?vp = "vf_nextvp ?s"
  have at: "vf_node s1 = [?np \<mapsto> n]" "vf_fsnode s1 = [?vp \<mapsto> ?np]" "np_fid n = ml_fid l" "lock_is NODE_LCK_EXCLUSIVE n"
      "mt_live (vf_mt s1) = mt_live (lmt l) + 1" "mt_so (vf_mt s1) = mt_so (lmt l)"
    using made_node_at [OF n(2)] n(2) bare by (auto simp: bare_def made_node_def mt_goes_def after_def)
  have i1: "vfs_inv (unlocked(?np := NODE_LCK_EXCLUSIVE)) s1" by (rule made_node_inv [OF inv n(2)])
  let ?s2 = "upd_node ?np (\<lambda>n. n\<lparr>np_lcktype := NODE_LCK_NONE, np_lck := Unlocked\<rparr>) s1"
  have u: "nunlock_9p ?np s1 = Some ?s2" using at(1,4) by (simp add: nunlock_9p_def lock_is_def)
  have i2: "vfs_inv unlocked ?s2"
  proof (rule goes_nunlock [OF i1, of ?np])
    fix s' assume "nunlock_9p ?np s1 = Some s'"
      "goes ((unlocked(?np := NODE_LCK_EXCLUSIVE))(?np := NODE_LCK_NONE)) 0 s1 s'"
    moreover have "(unlocked(?np := NODE_LCK_EXCLUSIVE))(?np := NODE_LCK_NONE) = unlocked" by auto
    ultimately show "vfs_inv unlocked ?s2" using goes_inv u by fastforce
  qed (simp_all add: at(1))
  obtain e3 s3 where k: "kcall K (VnodeRef ?vp) ?s2 = (e3, s3)" by fastforce
  let ?s4 = "kdo K (VnodePut ?vp) s3"
  have i4: "vfs_inv unlocked ?s4" using goes_inv [OF goes_kdo [OF goes_inv [OF goes_kcall [OF i2 k]]]] .
  have q: "quiet 0 ?s2 ?s4" using quiet_trans [OF quiet_kcall [OF k], of 0 ?s4] quiet_kcall [of K "VnodePut ?vp" s3]
    by (cases "kcall K (VnodePut ?vp) s3") (simp add: kdo_def)
  have l': "l' = upd_mnt (\<lambda>m. m\<lparr>mn_vfs := ?s4, mn_root := Some ?vp\<rparr>) l"
    using assms(2) g e n(1) at(2) u k by (auto simp: mount_root_def Let_def upd_mnt_def set_lvfs_def)
  have np: "vf_node ?s4 = [?np \<mapsto> n\<lparr>np_lcktype := NODE_LCK_NONE, np_lck := Unlocked\<rparr>]" "vf_fsnode ?s4 = [?vp \<mapsto> ?np]"
      "mt_live (vf_mt ?s4) = mt_live (lmt l) + 1" "mt_so (vf_mt ?s4) = mt_so (lmt l)"
    using q at(1,2,5,6) by (auto simp: quiet_def upd_node_def)
  show ?thesis by (rule that [OF l' np(2,1) _ i4 np(3,4)]) (simp add: at(3))
qed

section \<open>The whole mount\<close>

text \<open>What a mounted client is: \<open>live\<close> blocks were in use before.\<close>

definition mounted :: "nat \<Rightarrow> int \<Rightarrow> 'w mnt \<Rightarrow> bool" where
  "mounted so live m \<longleftrightarrow> vfs_inv unlocked (mn_vfs m) \<and> mn_private m \<and> mn_node m
     \<and> mn_uname m \<noteq> None \<and> mn_aname m \<noteq> None \<and> mn_version m \<noteq> None
     \<and> mt_so (vf_mt (mn_vfs m)) = Some so
     \<and> (\<exists>vp np n. mn_root m = Some vp \<and> vf_fsnode (mn_vfs m) = [vp \<mapsto> np] \<and> vf_node (mn_vfs m) = [np \<mapsto> n])
     \<and> mt_live (vf_mt (mn_vfs m)) = live + 6 + held (mn_volume m)"

lemma new_locals:
  "counted (live - 1) \<lparr>ml_mnt = new_mnt w live, ml_addr = None, ml_authaddr = None, ml_fid = f, ml_qid = q\<rparr>"
  "unset \<lparr>ml_mnt = new_mnt w live, ml_addr = None, ml_authaddr = None, ml_fid = f, ml_qid = q\<rparr>
    = (True, True, True, True, True, True)"
  by (simp_all add: counted_def unset_def blocks_def bare_def new_mnt_def)

lemma mount_steps_ok:
  assumes "kern_ok (kp_kern K)" "nc_authcall net SockSocket = 0"
    and "\<And>key. ar_authkey args = Some key \<Longrightarrow> uc_error key = 0 \<Longrightarrow> DESKEYLEN \<le> length (uc_bytes key)"
    and "counted live l" "unset l = (True, True, True, True, True, True)" "\<not> mn_node (ml_mnt l)"
    and "run_steps (mount_steps fuel K net cred args) l = Some (0, l')"
  shows "mounted (nc_so net) live (mount_success K l')"
proof -
  obtain l1 l2 l3 l4 l5 l6 l7 l8 l9 where st: "mount_alloc K l = Some (0, l1)" "mount_volume K args l1 = Some (0, l2)"
      "mount_uname K args l2 = Some (0, l3)" "mount_aname K args l3 = Some (0, l4)"
      "mount_cred cred args l4 = Some (0, l5)" "mount_connect K net args l5 = Some (0, l6)"
      "mount_version K l6 = Some (0, l7)" "mount_auth K net args l7 = Some (0, l8)"
      "mount_attach K l8 = Some (0, l9)" "mount_root fuel K l9 = Some (0, l')"
    using assms(7) unfolding mount_steps_def run_steps_Cons by auto
  note a = mount_alloc_ok [OF st(1) assms(4,6)]
  note n = mount_names_ok [OF st(2-4) a(1)] 
  have n: "counted live l4" "mn_version (ml_mnt l4) = None" "ml_addr l4 = None" "ml_authaddr l4 = None" "mn_node (ml_mnt l4)"
    using n a(2,3) assms(5) by simp_all
  note c = mount_cred_ok [OF st(5) n(1)]
  have c5: "ml_addr l5 = None" "ml_authaddr l5 = None" "mn_version (ml_mnt l5) = None"
    using c(2) n(2-4) by (simp_all add: unset_def)
  note k = mount_connect_ok [OF st(6) c(1) c5(1)]
  have k6: "mn_version (ml_mnt l6) = None" "mn_node (ml_mnt l6)" "mn_private (ml_mnt l6)"
    by (subst k(2), simp add: c(3,4) c5(3) n(5))+
  note v = mount_version_ok [OF assms(1) st(7) k(1) k6(1)]
  have v7: "attached live l7" "ml_authaddr l7 = None" using v(1,4,7) k(3) c5(2) by (simp_all add: attached_def)
  have v72: "mn_node (ml_mnt l7)" "mn_private (ml_mnt l7)" by (subst v(2), simp add: k6)+
  note u = mount_auth_ok [OF assms(1) st(8) v7 assms(2,3)]
  note t = mount_attach_ok [OF assms(1) st(9) u(1)]
  obtain vp np nd s where r: "l' = upd_mnt (\<lambda>m. m\<lparr>mn_vfs := s, mn_root := Some vp\<rparr>) l9"
      "vf_fsnode s = [vp \<mapsto> np]" "vf_node s = [np \<mapsto> nd]" "vfs_inv unlocked s"
      "mt_live (vf_mt s) = mt_live (lmt l9) + 1" "mt_so (vf_mt s) = mt_so (lmt l9)"
    by (rule mount_root_ok [OF assms(1) st(10) t(1)])
  let ?f = "vfree (ml_authaddr l9 \<noteq> None) (vfree (ml_addr l9 \<noteq> None) s)"
  have inv: "vfs_inv unlocked ?f" by (rule goes_inv [OF goes_vfree [OF goes_inv [OF goes_vfree [OF r(4)]]]])
  have f: "vf_fsnode ?f = vf_fsnode s" "vf_node ?f = vf_node s" "mt_so (vf_mt ?f) = mt_so (vf_mt s)"
      "mt_live (vf_mt ?f) = mt_live (vf_mt s) - held (ml_addr l9) - held (ml_authaddr l9)"
    by (auto simp: vfree_def free_9p_def)
  have same: "mn_node (ml_mnt l9)" "mn_private (ml_mnt l9)" "mn_version (ml_mnt l9) \<noteq> None"
      "mn_uname (ml_mnt l9) \<noteq> None" "mn_aname (ml_mnt l9) \<noteq> None" "mt_so (lmt l9) = Some (nc_so net)"
    using u(2) t(2-4) v72 v(5,6) k(5) by (simp_all add: rest_same_def)
  have "mt_live (lmt l9) = live + blocks l9" using t(1) by (simp add: attached_def counted_def)
  then have live: "mt_live (vf_mt ?f) = live + 6 + held (mn_volume (ml_mnt l9))"
    using same f(4) r(5) by (auto simp: blocks_def)
  show ?thesis using inv f(1-3) live same r
    by (simp add: mounted_def mount_success_def upd_mnt_def) (intro exI conjI, rule refl, rule refl)
qed

end
