(* ===== verification/SessionRuns.thy ===== *)
theory SessionRuns
  imports ProtoRuns StatProofs
begin

text \<open>
  The calls of a mount with a server that answers: the version, the attachment, and the directory
  entry of the root.
\<close>

lemma unat_ucast_down_u16: "unat (ucast (w :: u32) :: u16) = unat w mod 65536"
  by (simp add: unsigned_ucast_eq unsigned_take_bit_eq take_bit_eq_mod)

lemma u16_of_u32_bytes:
  "(ucast (push_bit 8 (ucast (x :: byte)) :: u32) :: u16) = push_bit 8 (ucast x)"
  "(ucast (push_bit 16 (ucast (x :: byte)) :: u32) :: u16) = 0" "(ucast (push_bit 24 (ucast (x :: byte)) :: u32) :: u16) = 0"
  "(ucast (ucast (x :: byte) :: u32) :: u16) = ucast x"
  by (rule bit_word_eqI; simp add: bit_simps; linarith?; auto dest: bit_imp_le_length)+

lemma GBIT16_of_GBIT32:
  assumes "rdn m p 4 = Some b"
  shows "\<exists>c. rdn m p 2 = Some c \<and> unat (GBIT16 c) = unat (GBIT32 b) mod 65536"
proof -
  have b: "b = take 4 (drop p m)" "p + 4 \<le> length m" using assms by (auto simp: rdn_eq_Some_iff)
  then obtain b0 b1 b2 b3 where bs: "b = [b0, b1, b2, b3]" using length_4 [of b] by auto
  have "take 2 b = take 2 (drop p m)" using b by (simp add: min_def)
  then have c: "rdn m p 2 = Some [b0, b1]" using b(2) bs by (simp add: rdn_eq_Some_iff numeral_eq_Suc)
  have "(ucast (GBIT32 b) :: u16) = GBIT16 [b0, b1]"
    unfolding bs by (simp add: GBIT32_def GBIT16_def unsigned_or_eq u16_of_u32_bytes)
  then have "unat (GBIT16 [b0, b1]) = unat (GBIT32 b) mod 65536"
    using unat_ucast_down_u16 [of "GBIT32 b"] by simp
  then show ?thesis using c by blast
qed

lemma version_answered:
  fixes tx0 :: tx_call and vers :: "byte list" and m :: "'w mount"
  defines "tx \<equiv> tx0\<lparr>fc_tag := NOTAG, fc_type := Tversion, fc_version := vers, fc_msize := of_nat MAXMSG\<rparr>"
  assumes "answered env pending (m\<lparr>mt_msize := of_nat MAXMSG\<rparr>) tx r rest" "mount_ok m" "stack_ok tx0"
    "length vers < 100" "fc_type r = Rversion" "is_cstr (fc_version r)" "fc_version r \<noteq> []"
  shows "\<exists>m'. version_9p env tx0 rx0 vers m = Some (0, Some (fc_version r), m') \<and> after m 1 m'
    \<and> mt_msize m' = min (fc_msize r) (of_nat MAXMSG) \<and> mt_nfid m' = mt_nfid m \<and> pending (mt_world m') = rest"
proof -
  let ?m = "m\<lparr>mt_msize := of_nat MAXMSG\<rparr>" and ?v = "fc_version r"
  have m0: "mount_ok ?m" "after m 0 ?m" using assms(3) by (simp_all add: mount_ok_def after_def)
  have pr: "printable tx" using assms(4) unfolding tx_def by (intro small_printable) (simp_all add: stack_ok_def)
  have sz: "wire_size d tx \<le> unat (mt_msize ?m)" for d
    using assms(5) by (simp add: tx_def wire_size_def wire_payload_def length_str_bytes)
  show ?thesis
  proof (rule rpc_answered [OF assms(2) m0(1) pr sz, where rxi = rx0 and keep = True])
    fix rx p m1
    assume a: "rpc_9p env tx rx0 True ?m = Some (reply_error tx rx (Some p) (ISSET (mt_flags ?m) F_DOTU), rx,
       if reply_error tx rx (Some p) (ISSET (mt_flags ?m) F_DOTU) = 0 \<and> True then Some p else None, m1)"
      "same_call (ISSET (mt_flags ?m) F_DOTU) r p rx" "pending (mt_world m1) = rest"
      "after ?m (if reply_error tx rx (Some p) (ISSET (mt_flags ?m) F_DOTU) = 0 \<and> True then 1 else 0) m1"
      "mt_nfid m1 = mt_nfid ?m"
    have rx: "fc_type rx = Rversion" "fc_msize rx = fc_msize r" "str_is p (fc_version rx) ?v"
      using a(2) assms(6) by (simp_all add: same_call_def)
    then have e: "reply_error tx rx (Some p) (ISSET (mt_flags ?m) F_DOTU) = 0"
      by (simp add: reply_error_def tx_def)
    obtain q where q: "fc_version rx = Some q" "rdn p q (length (?v @ [0])) = Some (?v @ [0])"
      using rx(3) by (auto simp: data_is_def split: option.splits)
    have cs: "cstr_at p q = ?v" using cstr_at_str_is [of p q ?v] rx(3) q(1) assms(7) by simp
    let ?m1 = "m1\<lparr>mt_msize := min (fc_msize rx) (of_nat MAXMSG)\<rparr>"
    have "unat (min (fc_msize rx) (of_nat MAXMSG)) \<le> MAXMSG" by (simp add: min_def word_le_nat_alt)
    then have a1: "after m 1 ?m1" using a(4) m0(2) e by (simp add: after_def mount_ok_def)
    obtain w where w: "ev_malloc env (mt_world m1) (nat (int (length ?v) + 1)) = (True, w)" "pending w = pending (mt_world m1)"
      using assms(2) by (fastforce simp: answered_def Let_def)
    let ?m2 = "?m1\<lparr>mt_world := w, mt_live := mt_live m1 + 1\<rparr>"
    have mal: "malloc_9p env (nat (int (length ?v) + 1)) ?m1 = (Some (replicate (nat (int (length ?v) + 1)) 0), ?m2)"
      using w(1) by (simp add: malloc_9p_def)
    have a2: "after ?m1 1 ?m2" using a1 by (simp add: after_def mount_ok_def)
    have dr: "rdn (drop q p) 0 (length ?v) = Some ?v"
    proof -
      have "take (length ?v + 1) (drop q p) = ?v @ [0]" "q + length ?v + 1 \<le> length p"
        using q(2) by (auto simp: rdn_eq_Some_iff)
      moreover have "take (length ?v) (drop q p) = take (length ?v) (take (length ?v + 1) (drop q p))"
        by (simp add: min_def)
      ultimately have "take (length ?v) (drop q p) = ?v" "q + length ?v \<le> length p" by simp_all
      then show ?thesis by (simp add: rdn_eq_Some_iff)
    qed
    have sd: "strndup env (Some (drop q p)) (int (length ?v)) ?m1 = Some (0, Some ?v, ?m2)"
      using mal dr assms(7,8) by (simp add: strndup_def)
    have "version_9p env tx0 rx0 vers m = Some (0, Some ?v, free_9p (Some p) ?m2)"
      using a(1) e q(1) cs sd by (simp add: version_9p_def Let_def tx_def)
    moreover have "after m 1 (free_9p (Some p) ?m2)" using after_free [OF after_trans [OF a1 a2], of "Some p"] by simp
    moreover have "mt_msize (free_9p (Some p) ?m2) = min (fc_msize r) (of_nat MAXMSG)"
      "mt_nfid (free_9p (Some p) ?m2) = mt_nfid m" "pending (mt_world (free_9p (Some p) ?m2)) = rest"
      using w(2) a(3,5) rx(2) by (simp_all add: free_9p_def)
    ultimately show ?thesis by blast
  qed
qed

lemma attach_answered:
  fixes tx0 :: tx_call and uname aname :: "byte list" and m :: "'w mount" and afid unamenum :: u32
  defines "tx \<equiv> tx0\<lparr>fc_type := Tattach, fc_afid := afid, fc_tag := 0, fc_fid := mt_nfid m,
      fc_uname := uname, fc_aname := aname, fc_unamenum := unamenum\<rparr>"
  assumes "answered env pending (m\<lparr>mt_nfid := mt_nfid m + 1\<rparr>) tx r rest" "mount_ok m" "stack_ok tx0"
    "length uname + length aname < 1000" "2000 \<le> unat (mt_msize m)" "fc_type r = Rattach"
  shows "\<exists>m'. attach_9p env tx0 rx0 uname aname afid unamenum fid0 qid0 m = Some (0, mt_nfid m, fc_qid r, m')
    \<and> after m 0 m' \<and> mt_msize m' = mt_msize m \<and> mt_nfid m' = mt_nfid m + 1 \<and> pending (mt_world m') = rest"
proof -
  let ?m = "m\<lparr>mt_nfid := mt_nfid m + 1\<rparr>" and ?tx = tx
  have m0: "mount_ok ?m" "after m 0 ?m" using assms(3) by (simp_all add: mount_ok_def after_def)
  have pr: "printable ?tx" using assms(4) unfolding tx_def by (intro small_printable) (simp_all add: stack_ok_def)
  have sz: "wire_size d ?tx \<le> unat (mt_msize ?m)" for d
    using assms(5,6) by (simp add: tx_def wire_size_def wire_payload_def length_str_bytes)
  show ?thesis
  proof (rule rpc_answered [OF assms(2) m0(1) pr sz, where rxi = rx0 and keep = False])
    fix rx p m1
    assume a: "rpc_9p env ?tx rx0 False ?m = Some (reply_error ?tx rx (Some p) (ISSET (mt_flags ?m) F_DOTU), rx,
       if reply_error ?tx rx (Some p) (ISSET (mt_flags ?m) F_DOTU) = 0 \<and> False then Some p else None, m1)"
      "same_call (ISSET (mt_flags ?m) F_DOTU) r p rx" "pending (mt_world m1) = rest"
      "after ?m (if reply_error ?tx rx (Some p) (ISSET (mt_flags ?m) F_DOTU) = 0 \<and> False then 1 else 0) m1"
      "mt_msize m1 = mt_msize ?m" "mt_nfid m1 = mt_nfid ?m"
    have rx: "fc_type rx = Rattach" "fc_qid rx = fc_qid r"
      using a(2) assms(7) by (simp_all add: same_call_def)
    then have e: "reply_error ?tx rx (Some p) (ISSET (mt_flags ?m) F_DOTU) = 0"
      by (simp add: reply_error_def tx_def)
    have "attach_9p env tx0 rx0 uname aname afid unamenum fid0 qid0 m = Some (0, mt_nfid m, fc_qid r, m1)"
      using a(1) e rx(2) by (simp add: attach_9p_def nextfid_def Let_def tx_def [symmetric])
    then show ?thesis using a(3-6) after_trans [OF m0(2) a(4)] by auto
  qed
qed

lemma stat_answered:
  assumes "answered env pending m (tx0\<lparr>fc_type := Tstat, fc_fid := fid\<rparr>) r rest" "mount_ok m" "stack_ok tx0"
    "11 \<le> unat (mt_msize m)" "fc_type r = Rstat" "dir_strings_fit d (ISSET (mt_flags m) F_DOTU)"
    "fc_stat r = stat_wire d (ISSET (mt_flags m) F_DOTU)"
    "unat (fc_nstat r) = stat_size d (ISSET (mt_flags m) F_DOTU)"
  shows "\<exists>dp sm m'. stat_9p env tx0 rx0 sizeof_Dir fid m = Some (0, Some (dp, sm), m') \<and> after m 1 m'
    \<and> same_dir (ISSET (mt_flags m) F_DOTU) d sm dp \<and> pending (mt_world m') = rest"
proof -
  let ?tx = "tx0\<lparr>fc_type := Tstat, fc_fid := fid\<rparr>" and ?d = "ISSET (mt_flags m) F_DOTU"
  have pr: "printable ?tx" using assms(3) by (intro small_printable) (simp_all add: stack_ok_def)
  have sz: "wire_size d ?tx \<le> unat (mt_msize m)" for d using assms(4) by (simp add: wire_size_fixed)
  have sz2: "wire_size d ?tx < 2 ^ 32" for d by (simp add: wire_size_fixed)
  have ro: "recv_ok env" using assms(1) by (simp add: answered_def Let_def)
  show ?thesis
  proof (rule rpc_answered [OF assms(1,2) pr sz, where rxi = rx0 and keep = True])
    fix rx p m1
    assume a: "rpc_9p env ?tx rx0 True m = Some (reply_error ?tx rx (Some p) ?d, rx,
       if reply_error ?tx rx (Some p) ?d = 0 \<and> True then Some p else None, m1)"
      "same_call ?d r p rx" "pending (mt_world m1) = rest"
      "after m (if reply_error ?tx rx (Some p) ?d = 0 \<and> True then 1 else 0) m1"
      "mt_msize m1 = mt_msize m"
    let ?n = "stat_size d ?d"
    have rx: "fc_type rx = Rstat" "unat (fc_nstat rx) = ?n" "data_is p (fc_stat rx) (stat_wire d ?d)"
      using a(2) assms(5,7,8) by (simp_all add: same_call_def length_stat_wire)
    then have e: "reply_error ?tx rx (Some p) ?d = 0" by (simp add: reply_error_def)
    have p: "length p \<le> unat (mt_msize m) \<and> parsed ?d p rx"
    proof (rule rpc_call [OF ro assms(2) pr sz2, where rxi = rx0 and keep = True])
      fix e' rx' p' m'
      assume "rpc_9p env ?tx rx0 True m = Some (e', rx', p', m')"
        "\<And>buf. p' = Some buf \<Longrightarrow> length buf \<le> unat (mt_msize m) \<and> parsed ?d buf rx'"
      then show ?thesis using a(1) e by simp
    qed
    then obtain q b where q: "fc_stat rx = Some q" "9 \<le> q" "q + ?n = length p" "rdn p 0 4 = Some b" "unat (GBIT32 b) = length p"
      using parsed_Rstat [of ?d p rx] rx(1,2) by auto
    obtain c where c: "rdn p 0 2 = Some c" "unat (GBIT16 c) = length p"
      using GBIT16_of_GBIT32 [OF q(4)] q(5) p assms(2) by (auto simp: mount_ok_def)
    obtain w where w: "ev_malloc env (mt_world m1) (sizeof_Dir + BIT16SZ + unat (GBIT16 c)) = (True, w)"
        "pending w = pending (mt_world m1)"
      using assms(1) by (fastforce simp: answered_def Let_def)
    let ?m2 = "m1\<lparr>mt_world := w, mt_live := mt_live m1 + 1\<rparr>"
    have mal: "malloc_9p env (sizeof_Dir + BIT16SZ + unat (GBIT16 c)) m1
        = (Some (replicate (sizeof_Dir + BIT16SZ + unat (GBIT16 c)) 0), ?m2)"
      using w(1) by (simp add: malloc_9p_def)
    have a1: "after m 1 m1" using a(4) e by simp
    have a2: "after m1 1 ?m2" using a1 by (simp add: after_def mount_ok_def)
    have t: "take ?n (drop q p) = stat_wire d ?d"
      using rx(3) q(1) by (simp add: data_is_def rdn_eq_Some_iff length_stat_wire)
    have "0 + ?n \<le> length (replicate (BIT16SZ + unat (GBIT16 c)) (0 :: byte))" using c(2) q(3) by simp
    from convM2D_wire [OF assms(6) t this, of zero_dir] obtain dp sm where
      cv: "convM2D (drop q p) ?n zero_dir (Some (replicate (BIT16SZ + unat (GBIT16 c)) 0, 0)) ?d = Some (?n, dp, Some sm)"
        "same_dir ?d d sm dp" by blast
    have fl: "ISSET (mt_flags m1) F_DOTU = ?d" using a1 by (simp add: after_def)
    have "stat_9p env tx0 rx0 sizeof_Dir fid m = Some (0, Some (dp, sm), free_9p (Some p) ?m2)"
      using a(1) e q(1) c(1) mal cv(1) rx(2) fl by (simp add: stat_9p_def Let_def)
    moreover have "after m 1 (free_9p (Some p) ?m2)" using after_free [OF after_trans [OF a1 a2], of "Some p"] by simp
    moreover have "pending (mt_world (free_9p (Some p) ?m2)) = rest" using w(2) a(3) by (simp add: free_9p_def)
    ultimately show ?thesis using cv(2) by blast
  qed
qed

end
