(* ===== verification/MountRuns.thy ===== *)
theory MountRuns
  imports MountProofs SessionRuns
begin

text \<open>
  A mount whose server answers: every step of \<open>vfs_mount_9p\<close> returns 0. The kernel's calls succeed,
  and the replies are waiting in the socket in the order of the calls.
\<close>

section \<open>The peer\<close>

text \<open>\<open>pending\<close> is what the socket has still to deliver; only reading takes from it.\<close>

definition willing :: "'w kpi \<Rightarrow> nat \<Rightarrow> ('w \<Rightarrow> byte list) \<Rightarrow> bool" where
  "willing K so pending \<longleftrightarrow> kern_ok (kp_kern K)
     \<and> (\<exists>sent. sink_ok (k_env (kp_kern K)) (Some so) sent) \<and> stream_ok (k_env (kp_kern K)) (Some so) pending
     \<and> (\<forall>w d e k w'. ev_send (k_env (kp_kern K)) (Some so) w d = (e, k, w') \<longrightarrow> pending w' = pending w)
     \<and> (\<forall>w n. \<exists>w'. ev_malloc (k_env (kp_kern K)) w n = (True, w') \<and> pending w' = pending w)
     \<and> (\<forall>c w. \<exists>w'. kp_call K c w = (0, w') \<and> pending w' = pending w)
     \<and> (\<forall>p w. \<exists>w'. kp_create K p w = (0, w') \<and> pending w' = pending w)"

lemma willing_answered:
  assumes "willing K so pending" "mt_so m = Some so" "pending (mt_world m) = wire (ISSET (mt_flags m) F_DOTU) r @ rest"
    "printable r" "strings_fit (ISSET (mt_flags m) F_DOTU) r"
    "wire_size (ISSET (mt_flags m) F_DOTU) r \<le> unat (mt_msize m)"
  shows "answered (k_env (kp_kern K)) pending m tx r rest"
proof -
  let ?env = "k_env (kp_kern K)"
  have "pending w' = pending w" if "send_loop ?env (Some so) w buf n t = Some (0, w')" for w w' buf n t
    using assms(1) by (intro send_loop_keeps [OF that]) (auto simp: willing_def)
  then show ?thesis using assms kern_recv [of K] by (auto simp: answered_def Let_def willing_def)
qed

lemma kcall_runs: "willing K so pending \<Longrightarrow> \<exists>w. kcall K c s = (0, set_world w s) \<and> pending w = pending (vworld s)"
  unfolding willing_def kcall_def by (metis case_prod_conv)

lemma vmalloc_runs: "willing K so pending \<Longrightarrow> \<exists>w. vmalloc K n s = (Some (replicate n 0),
    s\<lparr>vf_mt := (vf_mt s)\<lparr>mt_world := w, mt_live := mt_live (vf_mt s) + 1\<rparr>\<rparr>) \<and> pending w = pending (vworld s)"
proof -
  assume "willing K so pending"
  then obtain w where "ev_malloc (k_env (kp_kern K)) (vworld s) n = (True, w)" "pending w = pending (vworld s)"
    unfolding willing_def by blast
  then show ?thesis by (intro exI [of _ w]) (simp add: vmalloc_def malloc_9p_def)
qed

section \<open>The steps before the first message\<close>

text \<open>What a step that does not talk to the server leaves as it is.\<close>

definition idle :: "('w \<Rightarrow> byte list) \<Rightarrow> 'w mlocals \<Rightarrow> 'w mlocals \<Rightarrow> bool" where
  "idle pending l l' \<longleftrightarrow> pending (vworld (lvfs l')) = pending (vworld (lvfs l))
     \<and> mt_nfid (lmt l') = mt_nfid (lmt l) \<and> ml_fid l' = ml_fid l"

definition copied_ok :: "ucopy \<Rightarrow> bool" where
  "copied_ok c \<longleftrightarrow> uc_error c = 0 \<and> uc_bytes c \<noteq> []"

lemma alloc_runs:
  assumes "willing K so pending"
  shows "\<exists>l'. mount_alloc K l = Some (0, l') \<and> idle pending l l'"
proof -
  have call: "\<exists>w'. kp_call K c w = (0, w') \<and> pending w' = pending w" for c w using assms by (simp add: willing_def)
  obtain w1 where 1: "kp_call K LckAlloc (vworld (lvfs l)) = (0, w1)" "pending w1 = pending (vworld (lvfs l))"
    using call by blast
  obtain w2 where 2: "kp_call K LckAlloc w1 = (0, w2)" "pending w2 = pending w1" using call by blast
  obtain w3 where 3: "kp_call K LckAlloc w2 = (0, w3)" "pending w3 = pending w2" using call by blast
  obtain w4 where 4: "kp_call K HashInit w3 = (0, w4)" "pending w4 = pending w3" using call by blast
  show ?thesis using 1 2 3 4 by (simp add: mount_alloc_def idle_def upd_mnt_def kcall_def)
qed

lemma nameget_runs:
  assumes "willing K so pending" "copied_ok c"
  shows "\<exists>p w. nameget_9p K c out s = (0, Some p,
      s\<lparr>vf_mt := (vf_mt s)\<lparr>mt_world := w, mt_live := mt_live (vf_mt s) + 1\<rparr>\<rparr>) \<and> pending w = pending (vworld s)"
  using vmalloc_runs [OF assms(1), of NAMEBUF s] assms(2) by (auto simp: nameget_9p_def copied_ok_def)

lemma names_run:
  assumes "willing K so pending" "copied_ok (ar_volume args)" "copied_ok (ar_uname args)" "copied_ok (ar_aname args)"
  shows "\<exists>l1 l2 l3. mount_volume K args l = Some (0, l1) \<and> mount_uname K args l1 = Some (0, l2)
    \<and> mount_aname K args l2 = Some (0, l3) \<and> idle pending l l3 \<and> mn_uname (ml_mnt l3) \<noteq> None \<and> mn_aname (ml_mnt l3) \<noteq> None"
proof -
  obtain l1 where 1: "mount_volume K args l = Some (0, l1)" "idle pending l l1"
    using nameget_runs [OF assms(1,2), of "mn_volume (ml_mnt l)" "lvfs l"]
    by (force simp: mount_volume_def idle_def upd_mnt_def)
  obtain l2 where 2: "mount_uname K args l1 = Some (0, l2)" "idle pending l1 l2" "mn_uname (ml_mnt l2) \<noteq> None"
    using nameget_runs [OF assms(1,3), of "mn_uname (ml_mnt l1)" "lvfs l1"]
    by (force simp: mount_uname_def idle_def upd_mnt_def)
  obtain l3 where 3: "mount_aname K args l2 = Some (0, l3)" "idle pending l2 l3" "mn_aname (ml_mnt l3) \<noteq> None"
      "mn_uname (ml_mnt l3) = mn_uname (ml_mnt l2)"
    using nameget_runs [OF assms(1,4), of "mn_aname (ml_mnt l2)" "lvfs l2"]
    by (force simp: mount_aname_def idle_def upd_mnt_def)
  have "idle pending l l3" using 1(2) 2(2) 3(2) by (simp add: idle_def)
  then show ?thesis using 1(1) 2(1,3) 3(1,3,4) by auto
qed

lemma cred_runs: "\<exists>l'. mount_cred cred args l = Some (0, l') \<and> idle pending l l'
    \<and> mt_flags (lmt l') = ar_flags args \<and> mn_uname (ml_mnt l') = mn_uname (ml_mnt l) \<and> mn_aname (ml_mnt l') = mn_aname (ml_mnt l)"
  by (cases cred) (auto simp: mount_cred_def idle_def upd_mnt_def)

lemma connect_runs:
  assumes "willing K (nc_so net) pending" "\<And>c. nc_call net c = 0" "uc_error (ar_addr args) = 0" "2 \<le> ar_addrlen args"
  shows "\<exists>l'. mount_connect K net args l = Some (0, l') \<and> idle pending l l' \<and> mt_flags (lmt l') = mt_flags (lmt l)
    \<and> mn_uname (ml_mnt l') = mn_uname (ml_mnt l) \<and> mn_aname (ml_mnt l') = mn_aname (ml_mnt l)"
proof -
  let ?p = "take (ar_addrlen args) (uc_bytes (ar_addr args) @ replicate (ar_addrlen args) 0)"
  obtain w where w: "vmalloc K (ar_addrlen args) (lvfs l) = (Some (replicate (ar_addrlen args) 0),
      (lvfs l)\<lparr>vf_mt := (lmt l)\<lparr>mt_world := w, mt_live := mt_live (lmt l) + 1\<rparr>\<rparr>)" "pending w = pending (vworld (lvfs l))"
    using vmalloc_runs [OF assms(1)] by blast
  obtain f where f: "rdn ?p 1 1 = Some f"
    using assms(4) by (cases "rdn ?p 1 1") auto
  have "setopts os (nc_call net) 0 = 0" for os
    by (induction os) (simp_all add: setopts_def assms(2))
  then show ?thesis using w f assms(2,3)
    by (simp add: mount_connect_def addrget_9p_def connect_9p_def set_lvfs_def set_lmt_def upd_mnt_def idle_def
        Let_def del: append_Cons)
qed

section \<open>The steps that talk to the server\<close>

lemma willing_kern: "willing K so pending \<Longrightarrow> kern_ok (kp_kern K)"
  by (simp add: willing_def)

definition wanted_version :: "user_args_9p \<Rightarrow> byte list" where
  "wanted_version args = (if ISSET (ar_flags args) FLAG_DOTU then VERSION9PDOTU else VERSION9P)"

lemma version_9p_cstr: "is_cstr VERSION9P" "is_cstr VERSION9PDOTU" "VERSION9P \<noteq> []" "VERSION9PDOTU \<noteq> []"
  "length VERSION9P < 100" "length VERSION9PDOTU < 100"
  by (simp_all add: VERSION9P_def VERSION9PDOTU_def bytes_of_def is_cstr_def)

lemma version_runs:
  assumes "willing K so pending" "bare (lvfs l)" "mt_so (lmt l) = Some so"
    and "mt_flags (lmt l) = ar_flags args" "\<not> ISSET (ar_flags args) F_SENDLOCK" "\<not> ISSET (ar_flags args) F_DOTU"
    and "fc_type r = Rversion" "fc_version r = wanted_version args" "printable r" "strings_fit False r"
    and "wire_size False r \<le> MAXMSG" "pending (vworld (lvfs l)) = wire False r @ rest"
  shows "\<exists>l'. mount_version K l = Some (0, l') \<and> pending (vworld (lvfs l')) = rest
    \<and> mt_nfid (lmt l') = mt_nfid (lmt l) \<and> mt_msize (lmt l') = min (fc_msize r) (of_nat MAXMSG)
    \<and> (ISSET (mt_flags (lmt l')) F_DOTU \<longleftrightarrow> ISSET (ar_flags args) FLAG_DOTU)"
proof -
  let ?m = "(lmt l)\<lparr>mt_msize := of_nat MAXMSG\<rparr>" and ?dotu = "ISSET (ar_flags args) FLAG_DOTU"
  let ?tx = "(ktx K (lvfs l))\<lparr>fc_tag := NOTAG, fc_type := Tversion, fc_version := wanted_version args, fc_msize := of_nat MAXMSG\<rparr>"
  have k: "kern_ok (kp_kern K)" using assms(1) by (rule willing_kern)
  have ok: "mount_ok (lmt l)" using bare_ok [OF assms(2)] assms(4,5) by simp
  have v: "is_cstr (wanted_version args)" "wanted_version args \<noteq> []" "length (wanted_version args) < 100"
    using version_9p_cstr by (simp_all add: wanted_version_def)
  have d: "ISSET (mt_flags ?m) F_DOTU = False" using assms(4,6) by simp
  have a: "answered (k_env (kp_kern K)) pending ?m ?tx r rest"
    by (rule willing_answered [OF assms(1)]) (use assms d in simp_all)
  obtain m' where m': "version_9p (k_env (kp_kern K)) (ktx K (lvfs l)) (krx K (lvfs l)) (wanted_version args) (lmt l)
      = Some (0, Some (wanted_version args), m')" "after (lmt l) 1 m'" "mt_msize m' = min (fc_msize r) (of_nat MAXMSG)"
      "mt_nfid m' = mt_nfid (lmt l)" "pending (mt_world m') = rest"
    using version_answered [OF a ok kern_stack [OF k] v(3) assms(7)] v assms(8) by fastforce
  have "\<not> ISSET (mt_flags m') F_DOTU" using m'(2) assms(4,6) by (simp add: after_def)
  moreover have "ISSET (mt_flags m' OR F_DOTU) F_DOTU" by (simp add: ISSET_def bit.conj_disj_distrib2)
  moreover have "wanted_version args = VERSION9PDOTU \<longleftrightarrow> ?dotu"
    by (simp add: wanted_version_def VERSION9P_def VERSION9PDOTU_def bytes_of_def)
  ultimately show ?thesis using m' assms(4,5)
    by (cases ?dotu) (simp_all add: mount_version_def wanted_version_def set_lmt_def set_lvfs_def upd_mnt_def Let_def)
qed

lemma auth_runs:
  assumes "ar_authaddr args = None \<or> ar_authkey args = None \<or> ar_authaddrlen args = 0"
  shows "mount_auth K net args l = Some (0, upd_mnt (\<lambda>n. n\<lparr>mn_afid := NOFID\<rparr>) l)"
  using assms by (cases "ar_authaddr args"; cases "ar_authkey args") (simp_all add: mount_auth_def Let_def)

lemma attach_runs:
  assumes "willing K so pending" "attached live l" "mt_so (lmt l) = Some so" "2000 \<le> unat (mt_msize (lmt l))"
    and "mn_uname (ml_mnt l) \<noteq> None" "mn_aname (ml_mnt l) \<noteq> None"
    and "fc_type r = Rattach" "printable r" "pending (vworld (lvfs l)) = wire (dotu_of (lvfs l)) r @ rest"
  shows "\<exists>l'. mount_attach K l = Some (0, l') \<and> pending (vworld (lvfs l')) = rest
    \<and> ml_fid l' = mt_nfid (lmt l) \<and> ml_qid l' = fc_qid r \<and> mt_msize (lmt l') = mt_msize (lmt l)
    \<and> dotu_of (lvfs l') = dotu_of (lvfs l)"
proof -
  let ?m = "(lmt l)\<lparr>mt_nfid := mt_nfid (lmt l) + 1\<rparr>"
  have k: "kern_ok (kp_kern K)" using assms(1) by (rule willing_kern)
  have ok: "mount_ok (lmt l)" by (rule attached_ok [OF assms(2)])
  obtain u n where un: "mn_uname (ml_mnt l) = Some u" "mn_aname (ml_mnt l) = Some n" using assms(5,6) by auto
  let ?tx = "(ktx K (lvfs l))\<lparr>fc_type := Tattach, fc_afid := mn_afid (ml_mnt l), fc_tag := 0, fc_fid := mt_nfid (lmt l),
      fc_uname := cstr u, fc_aname := cstr n, fc_unamenum := vf_uid (lvfs l)\<rparr>"
  have "length u = NAMEBUF" "length n = NAMEBUF" using assms(2) un by (simp_all add: attached_def counted_def)
  then have len: "length (cstr u) + length (cstr n) < 1000" using length_cstr_le [of u] length_cstr_le [of n] by simp
  have a: "answered (k_env (kp_kern K)) pending ?m ?tx r rest"
    by (rule willing_answered [OF assms(1)])
      (use assms(3,4,7,8,9) in \<open>simp_all add: strings_fit_def wire_strings_def wire_size_def wire_payload_def\<close>)
  obtain m' where m': "attach_9p (k_env (kp_kern K)) (ktx K (lvfs l)) (krx K (lvfs l)) (cstr u) (cstr n)
      (mn_afid (ml_mnt l)) (vf_uid (lvfs l)) (ml_fid l) (ml_qid l) (lmt l) = Some (0, mt_nfid (lmt l), fc_qid r, m')"
      "after (lmt l) 0 m'" "mt_msize m' = mt_msize (lmt l)" "pending (mt_world m') = rest"
    using attach_answered [OF a ok kern_stack [OF k] len assms(4,7)] by blast
  have "mount_attach K l = Some (0, (set_lmt m' l)\<lparr>ml_fid := mt_nfid (lmt l), ml_qid := fc_qid r\<rparr>)"
    using un m'(1) by (simp add: mount_attach_def)
  then show ?thesis using m'(2-4) by (simp add: set_lmt_def set_lvfs_def upd_mnt_def after_def)
qed

section \<open>The root\<close>

lemma dirvtype_runs: "\<not> ISSET (d_mode d) DMDEVICE \<Longrightarrow> \<exists>t rdev. dirvtype_9p d strs dotu = Some (t, rdev)"
  by (simp add: dirvtype_9p_def Let_def)

text \<open>The reply of the stat of \<open>d\<close>.\<close>

definition stat_reply :: "bool \<Rightarrow> byte list Dir \<Rightarrow> tx_call \<Rightarrow> bool" where
  "stat_reply dotu d r \<longleftrightarrow> fc_type r = Rstat \<and> printable r \<and> dir_strings_fit d dotu
     \<and> fc_stat r = stat_wire d dotu \<and> unat (fc_nstat r) = stat_size d dotu \<and> \<not> ISSET (d_mode d) DMDEVICE"

lemma vstat_runs:
  assumes "willing K so pending" "mount_ok (vf_mt s)" "mt_so (vf_mt s) = Some so" "stat_reply (dotu_of s) d r"
    and "wire_size (dotu_of s) r \<le> unat (mt_msize (vf_mt s))" "pending (vworld s) = wire (dotu_of s) r @ rest"
  shows "\<exists>dp sm m. vstat K fid s = Some (0, Some (dp, sm), s\<lparr>vf_mt := m\<rparr>) \<and> after (vf_mt s) 1 m
    \<and> same_dir (dotu_of s) d sm dp \<and> pending (mt_world m) = rest"
proof -
  have st: "fc_type r = Rstat" using assms(4) by (simp add: stat_reply_def)
  have "2 \<le> stat_size d (dotu_of s)" by (simp add: stat_size_def)
  then have "11 \<le> wire_size (dotu_of s) r" using assms(4)
    by (simp add: wire_size_def wire_payload_def st stat_reply_def length_stat_wire)
  then have le: "11 \<le> unat (mt_msize (vf_mt s))" using assms(5) by simp
  have a: "answered (k_env (kp_kern K)) pending (vf_mt s) tx r rest" for tx
    by (rule willing_answered [OF assms(1,3,6) _ _ assms(5)])
      (use assms(4) st in \<open>simp_all add: stat_reply_def strings_fit_def wire_strings_def\<close>)
  have d: "dir_strings_fit d (dotu_of s)" "fc_stat r = stat_wire d (dotu_of s)" "unat (fc_nstat r) = stat_size d (dotu_of s)"
    using assms(4) by (simp_all add: stat_reply_def)
  obtain dp sm m where "stat_9p (k_env (kp_kern K)) (ktx K s) (krx K s) (k_sizeof_Dir (kp_kern K)) fid (vf_mt s)
      = Some (0, Some (dp, sm), m)" "after (vf_mt s) 1 m" "same_dir (dotu_of s) d sm dp" "pending (mt_world m) = rest"
    using stat_answered [OF a assms(2) kern_stack [OF willing_kern [OF assms(1)]] le st d] by blast
  then show ?thesis by (intro exI [of _ dp] exI [of _ sm] exI [of _ m]) (simp add: vstat_def)
qed

lemma nget_new_runs:
  assumes "willing K so pending" "vfs_inv unlocked s" "mt_so (vf_mt s) = Some so" "stat_reply (dotu_of s) d r"
    and "wire_size (dotu_of s) r \<le> unat (mt_msize (vf_mt s))" "pending (vworld s) = wire (dotu_of s) r @ rest"
  shows "\<exists>vp s'. nget_new K fid qid None vpp None (s\<lparr>vf_nodelck := True\<rparr>) = Some (0, Some vp, s')
    \<and> pending (vworld s') = rest"
proof -
  let ?np = "vf_next s" and ?h = "HASH9P s (q_path qid)" and ?vp = "vf_nextvp s"
  let ?n = "(new_node fid qid)\<lparr>np_lck := Exclusive, np_lcktype := NODE_LCK_EXCLUSIVE\<rparr>"
  have unl: "\<not> vf_nodelck s" using assms(2) by (simp add: vfs_inv_def)
  obtain w1 where w1: "vmalloc K (kp_sizeof_node K) (s\<lparr>vf_nodelck := True\<rparr>) = (Some (replicate (kp_sizeof_node K) 0),
      s\<lparr>vf_nodelck := True, vf_mt := (vf_mt s)\<lparr>mt_world := w1, mt_live := mt_live (vf_mt s) + 1\<rparr>\<rparr>)" "pending w1 = pending (vworld s)"
    using vmalloc_runs [OF assms(1), of "kp_sizeof_node K" "s\<lparr>vf_nodelck := True\<rparr>"] by auto
  obtain w2 where w2: "kp_call K LckAlloc w1 = (0, w2)" "pending w2 = pending w1"
    using assms(1) unfolding willing_def by blast
  let ?m2 = "(vf_mt s)\<lparr>mt_live := mt_live (vf_mt s) + 1, mt_world := w2\<rparr>"
  let ?s2 = "s\<lparr>vf_mt := ?m2\<rparr>"
  have un: "nodelck_unlock (s\<lparr>vf_nodelck := True, vf_mt := m\<rparr>) = s\<lparr>vf_mt := m\<rparr>" for m
    using unl by (cases s) (simp add: nodelck_unlock_def)
  have new: "nget_new K fid qid None vpp None (s\<lparr>vf_nodelck := True\<rparr>)
      = nget_init K ?np qid None vpp None (list_insert ?np ?h ?n ?s2)"
    using w1(1) w2(1) by (simp add: nget_new_def kcall_def HASH9P_def nlock_ins un new_node_def Let_def)
  have ok: "mount_ok (vf_mt (list_insert ?np ?h ?n ?s2))" using inv_mount [OF assms(2)] by (simp add: mount_ok_def)
  obtain dp sm m3 where v: "vstat K fid (list_insert ?np ?h ?n ?s2)
      = Some (0, Some (dp, sm), list_insert ?np ?h ?n (?s2\<lparr>vf_mt := m3\<rparr>))" "pending (mt_world m3) = rest"
      "same_dir (dotu_of s) d sm dp" "dotu_of (s\<lparr>vf_mt := m3\<rparr>) = dotu_of s"
    using vstat_runs [OF assms(1) ok, of d r rest fid] assms(3-6) w1(2) w2(2) by (auto simp: after_def)
  let ?d = "dp\<lparr>d_name := NilP, d_uid := NilP, d_gid := NilP, d_muid := NilP\<rparr>"
  let ?m4 = "free_9p (Some []) m3" and ?n4 = "?n\<lparr>np_dir := ?d\<rparr>"
  have g: "ngetdir_9p K ?np (list_insert ?np ?h ?n ?s2) = Some (0, list_insert ?np ?h ?n4 (s\<lparr>vf_mt := ?m4\<rparr>))"
    using v(1) by (simp add: ngetdir_9p_def new_node_def vfree_def Let_def)
  have "\<not> ISSET (d_mode ?d) DMDEVICE" using v(3) assms(4) by (simp add: same_dir_def stat_reply_def)
  then obtain t rdev where dt: "dirvtype_9p ?d None (dotu_of s) = Some (t, rdev)" using dirvtype_runs by blast
  have du: "ISSET (mt_flags ?m4) F_DOTU = dotu_of s" using v(4) by (simp add: free_9p_def)
  let ?f = "\<lparr>vnfs_dvp = None, vnfs_fsnode = ?np, vnfs_markroot = True, vnfs_filesize = d_length ?d, vnfs_vtype = t,
      vnfs_rdev = rdev, vnfs_flags = VNFS_ADDFSREF OR VNFS_NOCACHE\<rparr>"
  obtain w5 where w5: "kp_create K ?f (mt_world ?m4) = (0, w5)" "pending w5 = pending (mt_world ?m4)"
    using assms(1) unfolding willing_def by blast
  obtain w6 where w6: "kp_call K (VnodeSettag ?vp) w5 = (0, w6)" "pending w6 = pending w5"
    using assms(1) unfolding willing_def by blast
  have fl: "\<not> ISSET (np_flags ?n4 AND NOT NODE_INIT) NODE_WAITINIT" by (simp add: new_node_def ISSET_def)
  have "\<exists>s'. nget_init K ?np qid None vpp None (list_insert ?np ?h ?n ?s2) = Some (0, Some ?vp, s')
      \<and> pending (vworld s') = pending w6"
    using g dt du w5(1) w6(1) unl fl
    by (simp add: nget_init_def Let_def kdo_def kcall_def nodelck_lock_def init_done_def upd_node_def
        nodelck_unlock_def)
  moreover have "pending w6 = rest" using w6(2) w5(2) v(2) by (simp add: free_9p_def)
  ultimately show ?thesis unfolding new by blast
qed

lemma root_runs:
  assumes "willing K so pending" "attached live l" "mt_so (lmt l) = Some so" "ml_fid l \<noteq> NOFID"
    and "stat_reply (dotu_of (lvfs l)) d r" "wire_size (dotu_of (lvfs l)) r \<le> unat (mt_msize (lmt l))"
    and "pending (vworld (lvfs l)) = wire (dotu_of (lvfs l)) r @ rest"
  shows "\<exists>l'. mount_root (Suc fuel) K l = Some (0, l') \<and> pending (vworld (lvfs l')) = rest"
proof -
  let ?s = "lvfs l" and ?h = "HASH9P (lvfs l) (q_path (ml_qid l))"
  have bare: "bare ?s" and fl: "\<not> ISSET (mt_flags (vf_mt ?s)) F_SENDLOCK"
    using assms(2) by (simp_all add: attached_def counted_def)
  note inv = bare_inv [OF bare fl]
  obtain vp s1 where nn: "nget_new K (ml_fid l) (ml_qid l) None (mn_root (ml_mnt l)) None (?s\<lparr>vf_nodelck := True\<rparr>)
      = Some (0, Some vp, s1)" "pending (vworld s1) = rest"
    using nget_new_runs [OF assms(1) inv assms(3,5-7)] by blast
  have g: "nget_9p (Suc fuel) K (ml_fid l) (ml_qid l) None (mn_root (ml_mnt l)) None ?s = Some (0, Some vp, s1)"
    using nget_unknown [OF inv bare_nfind [OF bare]] assms(4) nn(1) by simp
  obtain n where n: "vp = vf_nextvp ?s" "made_node (ml_fid l) ?h n ?s s1"
    using nget_new_spec [OF willing_kern [OF assms(1)] inv nn(1)] by auto
  have at: "vf_node s1 (vf_next ?s) = Some n" "vf_fsnode s1 vp = Some (vf_next ?s)" "lock_is NODE_LCK_EXCLUSIVE n"
    using made_node_at [OF n(2)] n by (auto simp: made_node_def)
  let ?s2 = "upd_node (vf_next ?s) (\<lambda>n. n\<lparr>np_lcktype := NODE_LCK_NONE, np_lck := Unlocked\<rparr>) s1"
  have u: "nunlock_9p (vf_next ?s) s1 = Some ?s2" using at(1,3) by (simp add: nunlock_9p_def lock_is_def)
  obtain w where w: "kp_call K (VnodeRef vp) (vworld s1) = (0, w)" "pending w = pending (vworld s1)"
    using assms(1) unfolding willing_def by blast
  obtain w' where w': "kp_call K (VnodePut vp) w = (0, w')" "pending w' = pending w"
    using assms(1) unfolding willing_def by blast
  show ?thesis using g at(2) u w w' nn(2)
    by (simp add: mount_root_def Let_def upd_mnt_def set_lvfs_def kcall_def kdo_def)
qed

section \<open>The whole run\<close>

text \<open>What the caller passes and the kernel grants: no authentication, and no state flags.\<close>

definition mount_args_ok :: "netcalls \<Rightarrow> user_args_9p \<Rightarrow> bool" where
  "mount_args_ok net args \<longleftrightarrow> copied_ok (ar_volume args) \<and> copied_ok (ar_uname args) \<and> copied_ok (ar_aname args)
     \<and> uc_error (ar_addr args) = 0 \<and> 2 \<le> ar_addrlen args
     \<and> (ar_authaddr args = None \<or> ar_authkey args = None \<or> ar_authaddrlen args = 0)
     \<and> \<not> ISSET (ar_flags args) F_SENDLOCK \<and> \<not> ISSET (ar_flags args) F_DOTU
     \<and> (\<forall>c. nc_call net c = 0)"

text \<open>The three replies: the wanted version with a large enough message size, an attachment, a root.\<close>

definition mount_replies_ok :: "user_args_9p \<Rightarrow> tx_call \<Rightarrow> tx_call \<Rightarrow> byte list Dir \<Rightarrow> tx_call \<Rightarrow> bool" where
  "mount_replies_ok args rv ra d rs \<longleftrightarrow> (let dotu = ISSET (ar_flags args) FLAG_DOTU in
     fc_type rv = Rversion \<and> fc_version rv = wanted_version args \<and> printable rv \<and> strings_fit False rv
     \<and> wire_size False rv \<le> MAXMSG \<and> 2000 \<le> unat (fc_msize rv)
     \<and> fc_type ra = Rattach \<and> printable ra
     \<and> stat_reply dotu d rs \<and> wire_size dotu rs \<le> unat (min (fc_msize rv) (of_nat MAXMSG)))"

lemma mount_steps_run:
  fixes args :: user_args_9p
  defines "dotu \<equiv> ISSET (ar_flags args) FLAG_DOTU"
  assumes "willing K (nc_so net) pending" "mount_args_ok net args" "mount_replies_ok args rv ra d rs"
    and "counted live l" "unset l = (True, True, True, True, True, True)" "\<not> mn_node (ml_mnt l)"
    and "mt_nfid (lmt l) \<noteq> NOFID"
    and "pending (vworld (lvfs l)) = wire False rv @ wire dotu ra @ wire dotu rs @ rest"
  shows "\<exists>l'. run_steps (mount_steps (Suc fuel) K net cred args) l = Some (0, l') \<and> pending (vworld (lvfs l')) = rest"
proof -
  note k = willing_kern [OF assms(2)]
  have ar: "copied_ok (ar_volume args)" "copied_ok (ar_uname args)" "copied_ok (ar_aname args)"
      "uc_error (ar_addr args) = 0" "2 \<le> ar_addrlen args" "\<And>c. nc_call net c = 0"
      "ar_authaddr args = None \<or> ar_authkey args = None \<or> ar_authaddrlen args = 0"
      "\<not> ISSET (ar_flags args) F_SENDLOCK" "\<not> ISSET (ar_flags args) F_DOTU"
    using assms(3) by (simp_all add: mount_args_ok_def)
  have rp: "fc_type rv = Rversion" "fc_version rv = wanted_version args" "printable rv" "strings_fit False rv"
      "wire_size False rv \<le> MAXMSG" "2000 \<le> unat (fc_msize rv)" "fc_type ra = Rattach" "printable ra"
      "stat_reply dotu d rs" "wire_size dotu rs \<le> unat (min (fc_msize rv) (of_nat MAXMSG))"
    using assms(4) by (simp_all add: mount_replies_ok_def dotu_def Let_def)
  obtain l1 where l1: "mount_alloc K l = Some (0, l1)" "idle pending l l1" using alloc_runs [OF assms(2)] by blast
  note a = mount_alloc_ok [OF l1(1) assms(5,7)]
  obtain l2 l3 l4 where l4: "mount_volume K args l1 = Some (0, l2)" "mount_uname K args l2 = Some (0, l3)"
      "mount_aname K args l3 = Some (0, l4)" "idle pending l1 l4" "mn_uname (ml_mnt l4) \<noteq> None" "mn_aname (ml_mnt l4) \<noteq> None"
    using names_run [OF assms(2) ar(1-3), of l1] by blast
  have "unset l1 = (True, True, True, True, True, True)" using a(2) assms(6) by simp
  note n = mount_names_ok [OF l4(1-3) a(1) this]
  obtain l5 where l5: "mount_cred cred args l4 = Some (0, l5)" "idle pending l4 l5" "mt_flags (lmt l5) = ar_flags args"
      "mn_uname (ml_mnt l5) = mn_uname (ml_mnt l4)" "mn_aname (ml_mnt l5) = mn_aname (ml_mnt l4)"
    using cred_runs by blast
  note c = mount_cred_ok [OF l5(1) n(1)]
  have u5: "ml_addr l5 = None" "mn_version (ml_mnt l5) = None" using c(2) n(2,3) by (simp_all add: unset_def)
  obtain l6 where l6: "mount_connect K net args l5 = Some (0, l6)" "idle pending l5 l6" "mt_flags (lmt l6) = mt_flags (lmt l5)"
      "mn_uname (ml_mnt l6) = mn_uname (ml_mnt l5)" "mn_aname (ml_mnt l6) = mn_aname (ml_mnt l5)"
    using connect_runs [OF assms(2) ar(6,4,5), of l5] by blast
  note t = mount_connect_ok [OF l6(1) c(1) u5(1)]
  have b6: "bare (lvfs l6)" using t(1) by (simp add: counted_def)
  have p6: "pending (vworld (lvfs l6)) = wire False rv @ wire dotu ra @ wire dotu rs @ rest"
    "mt_nfid (lmt l6) = mt_nfid (lmt l)"
    using l1(2) l4(4) l5(2) l6(2) assms(9) by (simp_all add: idle_def)
  have f6: "mt_flags (lmt l6) = ar_flags args" using l5(3) l6(3) by simp
  obtain l7 where l7: "mount_version K l6 = Some (0, l7)" "pending (vworld (lvfs l7)) = wire dotu ra @ wire dotu rs @ rest"
      "mt_nfid (lmt l7) = mt_nfid (lmt l6)" "mt_msize (lmt l7) = min (fc_msize rv) (of_nat MAXMSG)" "dotu_of (lvfs l7) = dotu"
    using version_runs [OF assms(2) b6 t(5) f6 ar(8,9) rp(1-5) p6(1)] unfolding dotu_def by blast
  have v6: "mn_version (ml_mnt l6) = None" by (subst t(2)) (simp add: u5)
  note v = mount_version_ok [OF k l7(1) t(1) v6]
  have un7: "mn_uname (ml_mnt l7) \<noteq> None" "mn_aname (ml_mnt l7) \<noteq> None"
    by (subst v(2), use l4(5,6) l5(4,5) l6(4,5) in simp)+
  let ?l8 = "upd_mnt (\<lambda>n. n\<lparr>mn_afid := NOFID\<rparr>) l7"
  have a8: "attached live ?l8" using v(1,7) by (simp add: attached_def counted_def blocks_def upd_mnt_def)
  have s8: "lvfs ?l8 = lvfs l7" "mn_uname (ml_mnt ?l8) \<noteq> None" "mn_aname (ml_mnt ?l8) \<noteq> None"
    using un7 by (simp_all add: upd_mnt_def)
  have m8: "2000 \<le> unat (mt_msize (lmt ?l8))" "mt_so (lmt ?l8) = Some (nc_so net)"
    using l7(4) rp(6) v(6) t(5) by (simp_all add: s8(1) min_def)
  have "pending (vworld (lvfs ?l8)) = wire (dotu_of (lvfs ?l8)) ra @ wire dotu rs @ rest" using l7(2,5) by (simp add: s8(1))
  then obtain l9 where l9: "mount_attach K ?l8 = Some (0, l9)" "pending (vworld (lvfs l9)) = wire dotu rs @ rest"
      "ml_fid l9 = mt_nfid (lmt ?l8)" "mt_msize (lmt l9) = mt_msize (lmt ?l8)" "dotu_of (lvfs l9) = dotu_of (lvfs ?l8)"
    using attach_runs [OF assms(2) a8 m8(2,1) s8(2,3) rp(7,8)] by blast
  note h = mount_attach_ok [OF k l9(1) a8]
  have so9: "mt_so (lmt l9) = Some (nc_so net)" using h(2) m8(2) by (simp add: rest_same_def)
  have fid9: "ml_fid l9 \<noteq> NOFID" using l9(3) l7(3) p6(2) assms(8) by (simp add: s8(1))
  have d9: "dotu_of (lvfs l9) = dotu" "mt_msize (lmt l9) = min (fc_msize rv) (of_nat MAXMSG)"
    using l9(4,5) l7(4,5) by (simp_all add: s8(1))
  have r9: "stat_reply (dotu_of (lvfs l9)) d rs" "wire_size (dotu_of (lvfs l9)) rs \<le> unat (mt_msize (lmt l9))"
      "pending (vworld (lvfs l9)) = wire (dotu_of (lvfs l9)) rs @ rest"
    unfolding d9 using rp(9,10) l9(2) by simp_all
  obtain l' where l': "mount_root (Suc fuel) K l9 = Some (0, l')" "pending (vworld (lvfs l')) = rest"
    using root_runs [OF assms(2) h(1) so9 fid9 r9, of fuel] by blast
  have "mount_auth K net args l7 = Some (0, ?l8)" by (rule auth_runs [OF ar(7)])
  then show ?thesis using l1(1) l4(1-3) l5(1) l6(1) l7(1) l9(1) l' by (simp add: mount_steps_def)
qed

end
