(* ===== verification/MountErrors.thy ===== *)
theory MountErrors
  imports MountProofs
begin

text \<open>
  A mount that fails before the first message: what the steps have allocated is given back by the exit
  \<^verbatim>\<open>error\<close>, whichever of them failed.
\<close>

section \<open>Steps that may fail\<close>

text \<open>
  \<open>I i\<close> holds before the \<open>i\<close>th step, which returns, leaves \<open>J\<close> true in any case, and makes \<open>I (Suc i)\<close>
  true when it succeeds.
\<close>

lemma run_steps_stages:
  assumes "\<And>i l. i < length fs \<Longrightarrow> I i l \<Longrightarrow> \<exists>e l'. (fs ! i) l = Some (e, l') \<and> J l' \<and> (e = 0 \<longrightarrow> I (Suc i) l')"
    and "I 0 l" "J l"
  shows "\<exists>e l'. run_steps fs l = Some (e, l') \<and> J l' \<and> (e = 0 \<longrightarrow> I (length fs) l')"
  using assms
proof (induction fs arbitrary: I l)
  case Nil
  then show ?case by simp
next
  case (Cons f fs)
  obtain e l1 where l1: "f l = Some (e, l1)" "J l1" "e = 0 \<longrightarrow> I (Suc 0) l1" using Cons.prems(1) [of 0 l] Cons.prems(2) by auto
  show ?case
  proof (cases "e = 0")
    case False
    then show ?thesis using l1 by simp
  next
    case True
    have "\<exists>e l'. (fs ! i) l = Some (e, l') \<and> J l' \<and> (e = 0 \<longrightarrow> I (Suc (Suc i)) l')"
      if "i < length fs" "I (Suc i) l" for i l using Cons.prems(1) [of "Suc i" l] that by simp
    from Cons.IH [of "\<lambda>i. I (Suc i)", OF this] l1 True show ?thesis by simp
  qed
qed

lemma run_steps_stop: "run_steps fs l = Some (e, l') \<Longrightarrow> e \<noteq> 0 \<Longrightarrow> run_steps (fs @ gs) l = Some (e, l')"
  by (induction fs arbitrary: l) (auto split: bind_splits if_splits)

lemma nameget_any:
  obtains e p s' where "nameget_9p K c None s = (e, p, s')" "quiet (held p) s s'" "\<And>b. p = Some b \<Longrightarrow> length b = NAMEBUF"
proof -
  obtain q s1 where m: "vmalloc K NAMEBUF s = (q, s1)" by fastforce
  note q = quiet_vmalloc [OF m]
  show ?thesis
  proof (cases q)
    case None
    then show ?thesis using m q by (intro that [of ENOMEM None s1]) (simp_all add: nameget_9p_def)
  next
    case (Some b)
    have f: "quiet 0 s (vfree True s1)" using quiet_trans [OF q(1) quiet_vfree [of True]] Some by simp
    show ?thesis
    proof (cases "uc_error c \<noteq> 0 \<or> uc_bytes c = []")
      case True
      then show ?thesis using m Some f
        by (intro that [of "uc_error c" None "vfree True s1"]) (simp_all add: nameget_9p_def)
    next
      case False
      then show ?thesis using m Some q
        by (intro that [of 0 "Some (take NAMEBUF (uc_bytes c @ b))" s1]) (auto simp: nameget_9p_def)
    qed
  qed
qed

lemma addrget_any:
  obtains e p s' where "addrget_9p K c n None s = (e, p, s')" "quiet (held p) s s'" "e = 0 \<Longrightarrow> \<exists>b. p = Some b \<and> length b = n"
    "e \<noteq> 0 \<Longrightarrow> p = None"
proof -
  obtain q s1 where m: "vmalloc K n s = (q, s1)" by fastforce
  note q = quiet_vmalloc [OF m]
  show ?thesis
  proof (cases q)
    case None
    then show ?thesis using m q by (intro that [of ENOMEM None s1]) (simp_all add: addrget_9p_def)
  next
    case (Some b)
    have f: "quiet 0 s (vfree True s1)" using quiet_trans [OF q(1) quiet_vfree [of True]] Some by simp
    show ?thesis
    proof (cases "uc_error c = 0")
      case False
      then show ?thesis using m Some f
        by (intro that [of "uc_error c" None "vfree True s1"]) (simp_all add: addrget_9p_def)
    next
      case True
      then show ?thesis using m Some q
        by (intro that [of 0 "Some (take n (uc_bytes c @ b))" s1]) (auto simp: addrget_9p_def)
    qed
  qed
qed

section \<open>Up to the connection\<close>

text \<open>The blocks are counted, and the exit can clunk; \<open>k\<close> steps have been made.\<close>

definition failing :: "int \<Rightarrow> 'w mlocals \<Rightarrow> bool" where
  "failing live l \<longleftrightarrow> counted live l \<and> \<not> ISSET (mt_flags (lmt l)) F_SENDLOCK"

definition stage :: "int \<Rightarrow> nat \<Rightarrow> 'w mlocals \<Rightarrow> bool" where
  "stage live k l \<longleftrightarrow> failing live l \<and> k \<le> 5 \<and> mt_so (lmt l) = None \<and> ml_addr l = None
     \<and> (k = 0 \<longrightarrow> \<not> mn_node (ml_mnt l)) \<and> (k \<le> 1 \<longrightarrow> mn_volume (ml_mnt l) = None)
     \<and> (k \<le> 2 \<longrightarrow> mn_uname (ml_mnt l) = None) \<and> (k \<le> 3 \<longrightarrow> mn_aname (ml_mnt l) = None)"

lemmas stage_defs = stage_def failing_def mount_state

lemma stage_alloc:
  assumes "stage live 0 l"
  shows "\<exists>e l'. mount_alloc K l = Some (e, l') \<and> failing live l' \<and> (e = 0 \<longrightarrow> stage live 1 l')"
proof -
  obtain e1 s1 e2 s2 e3 s3 e4 s4 where k: "kcall K LckAlloc (lvfs l) = (e1, s1)" "kcall K LckAlloc s1 = (e2, s2)"
      "kcall K LckAlloc s2 = (e3, s3)" "kcall K HashInit s3 = (e4, s4)" by (metis surj_pair)
  have q: "quiet 0 (lvfs l) s4"
    using quiet_trans [OF quiet_trans [OF quiet_trans [OF quiet_kcall [OF k(1)] quiet_kcall [OF k(2)]]
        quiet_kcall [OF k(3)]] quiet_kcall [OF k(4)]] by simp
  note b = bare_quiet [OF _ q]
  show ?thesis using k b assms
    by (cases "e4 = 0") (auto simp: mount_alloc_def Let_def stage_defs bare_def)
qed

lemma stage_volume:
  assumes "stage live 1 l"
  shows "\<exists>e l'. mount_volume K args l = Some (e, l') \<and> failing live l' \<and> (e = 0 \<longrightarrow> stage live 2 l')"
proof (rule nameget_any [of K "ar_volume args" "lvfs l"])
  fix e p s' assume n: "nameget_9p K (ar_volume args) None (lvfs l) = (e, p, s')" "quiet (held p) (lvfs l) s'"
  note b = bare_quiet [OF _ n(2)]
  have v: "mn_volume (ml_mnt l) = None" using assms by (simp add: stage_def)
  show ?thesis using n(1) b assms v by (auto simp: mount_volume_def stage_defs)
qed

lemma stage_uname:
  assumes "stage live 2 l"
  shows "\<exists>e l'. mount_uname K args l = Some (e, l') \<and> failing live l' \<and> (e = 0 \<longrightarrow> stage live 3 l')"
proof (rule nameget_any [of K "ar_uname args" "lvfs l"])
  fix e p s' assume n: "nameget_9p K (ar_uname args) None (lvfs l) = (e, p, s')" "quiet (held p) (lvfs l) s'"
    "\<And>b. p = Some b \<Longrightarrow> length b = NAMEBUF"
  note b = bare_quiet [OF _ n(2)]
  have v: "mn_uname (ml_mnt l) = None" using assms by (simp add: stage_def)
  show ?thesis using n(1,3) b assms v by (auto simp: mount_uname_def stage_defs)
qed

lemma stage_aname:
  assumes "stage live 3 l"
  shows "\<exists>e l'. mount_aname K args l = Some (e, l') \<and> failing live l' \<and> (e = 0 \<longrightarrow> stage live 4 l')"
proof (rule nameget_any [of K "ar_aname args" "lvfs l"])
  fix e p s' assume n: "nameget_9p K (ar_aname args) None (lvfs l) = (e, p, s')" "quiet (held p) (lvfs l) s'"
    "\<And>b. p = Some b \<Longrightarrow> length b = NAMEBUF"
  note b = bare_quiet [OF _ n(2)]
  have v: "mn_aname (ml_mnt l) = None" using assms by (simp add: stage_def)
  show ?thesis using n(1,3) b assms v by (auto simp: mount_aname_def stage_defs)
qed

lemma stage_cred:
  assumes "stage live 4 l" "\<not> ISSET (ar_flags args) F_SENDLOCK"
  shows "\<exists>e l'. mount_cred cred args l = Some (e, l') \<and> failing live l' \<and> (e = 0 \<longrightarrow> stage live 5 l')"
proof -
  obtain u g where "(case cred of Some c \<Rightarrow> c | None \<Rightarrow> (KAUTH_ID_NONE, KAUTH_ID_NONE)) = (u, g)" by fastforce
  then have "mount_cred cred args l = Some (0, upd_mnt (\<lambda>m. m\<lparr>mn_vfs := (lvfs l)\<lparr>vf_uid := u, vf_gid := g,
      vf_mt := (lmt l)\<lparr>mt_flags := ar_flags args\<rparr>\<rparr>, mn_private := True\<rparr>) l)" (is "_ = Some (0, ?l)")
    by (simp add: mount_cred_def)
  moreover have "failing live ?l \<and> stage live 5 ?l" using assms by (simp add: stage_defs bare_def)
  ultimately show ?thesis by blast
qed

text \<open>No connection: there is no socket, or it cannot be connected.\<close>

definition no_connection :: "netcalls \<Rightarrow> bool" where
  "no_connection net \<longleftrightarrow> nc_call net SockSocket \<noteq> 0 \<or> nc_call net SockConnect \<noteq> 0 \<and> nc_call net SockConnect \<noteq> EINPROGRESS"

lemma stage_connect:
  assumes "stage live 5 l" "no_connection net" "2 \<le> ar_addrlen args"
  shows "\<exists>e l'. mount_connect K net args l = Some (e, l') \<and> failing live l' \<and> e \<noteq> 0"
proof (rule addrget_any [of K "ar_addr args" "ar_addrlen args" "lvfs l"])
  fix e p s' assume a: "addrget_9p K (ar_addr args) (ar_addrlen args) None (lvfs l) = (e, p, s')" "quiet (held p) (lvfs l) s'"
    "e = 0 \<Longrightarrow> \<exists>b. p = Some b \<and> length b = ar_addrlen args" "e \<noteq> 0 \<Longrightarrow> p = None"
  note b = bare_quiet [OF _ a(2)]
  have addr: "ml_addr l = None" using assms(1) by (simp add: stage_def)
  show ?thesis
  proof (cases "e = 0")
    case False
    then show ?thesis using a(1,4) b assms(1) addr by (auto simp: mount_connect_def stage_defs)
  next
    case True
    then obtain bs f where bs: "p = Some bs" "rdn bs 1 1 = Some f"
      using a(3) assms(3) by (cases "rdn (the p) 1 1") auto
    then show ?thesis using a(1) b assms(1,2) addr True
      by (auto simp: mount_connect_def connect_9p_def no_connection_def Let_def stage_defs bare_def)
  qed
qed

section \<open>The exit\<close>

lemma mount_error_gives_back:
  assumes "kern_ok (kp_kern K)" "failing live l"
  shows "\<exists>m'. mount_error K e l = Some (e, m') \<and> \<not> mn_private m' \<and> mt_so (vf_mt (mn_vfs m')) = None
    \<and> mt_live (vf_mt (mn_vfs m')) = live"
proof -
  let ?l = "set_lvfs (vfree (ml_authaddr l \<noteq> None) (vfree (ml_addr l \<noteq> None) (lvfs l))) l"
  have ok: "mount_ok (lmt l)" using assms(2) by (simp add: failing_def counted_def bare_ok)
  have l: "mount_ok (lmt ?l)" "mt_so (lmt ?l) = mt_so (lmt l)"
      "mt_live (lmt ?l) = mt_live (lmt l) - held (ml_addr l) - held (ml_authaddr l)"
    using ok by (auto simp: set_lvfs_def upd_mnt_def vfree_def free_9p_def mount_ok_def)
  have "\<exists>s. (if mt_so (lmt ?l) \<noteq> None
           then do { (_, s) \<leftarrow> vclunk K (ml_fid ?l) (lvfs ?l); Some (s\<lparr>vf_mt := snd (disconnect_9p (vf_mt s))\<rparr>) }
           else Some (lvfs ?l)) = Some s \<and> mt_so (vf_mt s) = None \<and> mt_live (vf_mt s) = mt_live (lmt ?l)"
  proof (cases "mt_so (lmt ?l) = None")
    case False
    obtain e' s' where "vclunk K (ml_fid ?l) (lvfs ?l) = Some (e', s')" "mt_goes 0 (lvfs ?l) s'"
      using mt_vclunk [OF assms(1) l(1)] by blast
    then show ?thesis using False by (auto simp: mt_goes_def after_def disconnect_9p_def)
  qed simp
  then obtain s where s: "(if mt_so (lmt ?l) \<noteq> None
           then do { (_, s) \<leftarrow> vclunk K (ml_fid ?l) (lvfs ?l); Some (s\<lparr>vf_mt := snd (disconnect_9p (vf_mt s))\<rparr>) }
           else Some (lvfs ?l)) = Some s" "mt_so (vf_mt s) = None" "mt_live (vf_mt s) = mt_live (lmt ?l)" by blast
  let ?m = "(ml_mnt ?l)\<lparr>mn_vfs := s\<rparr>"
  have e: "mount_error K e l = Some (e, ?m\<lparr>mn_vfs := freemount_9p ?m, mn_private := False\<rparr>)"
    unfolding mount_error_def Let_def s(1) by simp
  have fm: "mt_so (vf_mt (freemount_9p ?m)) = None" "mt_live (vf_mt (freemount_9p ?m)) = mt_live (lmt ?l)
      - (1 + of_bool (mn_node (ml_mnt l)) + held (mn_volume (ml_mnt l)) + held (mn_uname (ml_mnt l))
       + held (mn_aname (ml_mnt l)) + held (mn_version (ml_mnt l)))"
    using s(2,3) by (auto simp: freemount_9p_def vfree_def free_9p_def set_lvfs_def upd_mnt_def)
  have "mt_live (lmt l) = live + blocks l" using assms(2) by (simp add: failing_def counted_def)
  then have "mt_live (vf_mt (freemount_9p ?m)) = live" using fm(2) l(3) by (simp add: blocks_def)
  then show ?thesis using e fm(1) by simp
qed

lemma mount_refused_run:
  assumes "no_connection net" "2 \<le> ar_addrlen args" "\<not> ISSET (ar_flags args) F_SENDLOCK" "stage live 0 l"
  shows "\<exists>e l'. run_steps (mount_steps fuel K net cred args) l = Some (e, l') \<and> e \<noteq> 0 \<and> failing live l'"
proof -
  let ?fs = "[mount_alloc K, mount_volume K args, mount_uname K args, mount_aname K args, mount_cred cred args,
      mount_connect K net args]"
  let ?gs = "[mount_version K, mount_auth K net args, mount_attach K, mount_root fuel K]"
  let ?I = "stage live"
  have st: "\<exists>e l'. (?fs ! i) l = Some (e, l') \<and> failing live l' \<and> (e = 0 \<longrightarrow> ?I (Suc i) l')"
    if i: "i < length ?fs" "?I i l" for i l
  proof -
    consider "i = 0" | "i = 1" | "i = 2" | "i = 3" | "i = 4" | "i = 5" using i(1) by fastforce
    then show ?thesis
    proof cases
      case 1
      then show ?thesis using stage_alloc [of live l] i(2) by simp
    next
      case 2
      then show ?thesis using stage_volume [of live l] i(2) by (simp add: numeral_2_eq_2)
    next
      case 3
      then show ?thesis using stage_uname [of live l] i(2) by (simp add: numeral_3_eq_3)
    next
      case 4
      then show ?thesis using stage_aname [of live l] i(2) by simp
    next
      case 5
      then show ?thesis using stage_cred [of live l] assms(3) i(2) by simp
    next
      case 6
      then show ?thesis using stage_connect [of live l net args K] assms(1,2) i(2) by auto
    qed
  qed
  have "failing live l" using assms(4) by (simp add: stage_def)
  from run_steps_stages [where fs = ?fs and I = ?I, OF st assms(4) this]
  obtain e l' where r: "run_steps ?fs l = Some (e, l')" "failing live l'" "e = 0 \<longrightarrow> stage live (length ?fs) l'" by blast
  then have e: "e \<noteq> 0" by (auto simp: stage_def)
  have "mount_steps fuel K net cred args = ?fs @ ?gs" by (simp add: mount_steps_def)
  then show ?thesis using run_steps_stop [OF r(1) e, of ?gs] r(2) e by metis
qed

end
