(* ===== verification/MountProps.thy ===== *)
theory MountProps
  imports MountRuns MountErrors VnopsProps DirProps
begin

text \<open>
  The properties of \<^verbatim>\<open>kext/vfsops.c\<close>: what a mount that returns 0 has set up, that a server that
  answers is mounted, that a mount without a connection gives everything back, and what
  \<open>vfs_vget_9p\<close> does to the table of nodes.
\<close>

section \<open>An example\<close>

definition ex_net :: "int \<Rightarrow> netcalls" where
  "ex_net e = \<lparr>nc_call = (\<lambda>c. if c = SockConnect then e else 0), nc_so = 7, nc_authcall = (\<lambda>c. 0), nc_authso = 8\<rparr>"

definition ex_copy :: "byte list \<Rightarrow> ucopy" where
  "ex_copy bs = \<lparr>uc_error = 0, uc_bytes = bs\<rparr>"

definition ex_args :: user_args_9p where
  "ex_args = \<lparr>ar_spec = ex_copy [115, 0], ar_addr = ex_copy [16, 2, 2, 52], ar_addrlen = 16, ar_authaddr = None,
     ar_authaddrlen = 0, ar_volume = ex_copy [57, 80, 0], ar_uname = ex_copy [103, 0], ar_aname = ex_copy [0],
     ar_authkey = None, ar_flags = 2\<rparr>"

definition ex_rversion :: tx_call where
  "ex_rversion = (zero_fcall [])\<lparr>fc_type := Rversion, fc_tag := NOTAG, fc_version := VERSION9P, fc_msize := 8192\<rparr>"

definition ex_rattach :: tx_call where
  "ex_rattach = (zero_fcall [])\<lparr>fc_type := Rattach, fc_qid := \<lparr>q_path = 9, q_vers = 1, q_type = 128\<rparr>\<rparr>"

definition ex_rstat :: tx_call where
  "ex_rstat = (zero_fcall [])\<lparr>fc_type := Rstat, fc_nstat := 51, fc_stat := stat_wire small_dir False\<rparr>"

lemma ex_replies_ok: "mount_replies_ok ex_args ex_rversion ex_rattach small_dir ex_rstat"
proof -
  have d: "ISSET (ar_flags ex_args) FLAG_DOTU = False" by (simp add: ex_args_def ISSET_def)
  have "stat_reply False small_dir ex_rstat"
    by (simp add: stat_reply_def ex_rstat_def printable_def msg_types_def small_dir_ok length_stat_wire ISSET_def
        zero_fcall_def) (simp add: small_dir_def)
  then show ?thesis unfolding mount_replies_ok_def d Let_def
    by (simp add: ex_rversion_def ex_rattach_def ex_rstat_def wanted_version_def d printable_def strings_fit_def
        wire_strings_def wire_size_def wire_payload_def msg_types_def zero_fcall_def VERSION9P_def bytes_of_def
        length_str_bytes length_stat_wire small_dir_ok is_cstr_def)
qed

lemma ex_args_ok: "mount_args_ok (ex_net 0) ex_args"
  by (simp add: mount_args_ok_def ex_net_def ex_args_def ex_copy_def copied_ok_def ISSET_def)

lemma slow_willing: "willing slow_kpi so fst"
  using slow_kern_ok slow_malloc
  by (auto simp: willing_def slow_kpi_def slow_kern_def intro!: exI [of _ snd] slow_sink_ok slow_stream_ok)
    (auto simp: slow_env_def)

text \<open>Before the mount, with \<open>replies\<close> waiting.\<close>

definition ex_mnt :: "byte list \<Rightarrow> streams mnt" where
  "ex_mnt replies = new_mnt (replies, []) 3"

section \<open>Mounting\<close>

text \<open>The locals before the first step, when the block of the mount has been allocated.\<close>

lemma vfs_mount_run:
  assumes "vmalloc K (kp_sizeof_mount K) (mn_vfs m) = (Some b, s)"
  shows "vfs_mount_9p fuel K net cred False 0 args m = do {
    (e, l) \<leftarrow> run_steps (mount_steps fuel K net cred args) \<lparr>ml_mnt = new_mnt (vworld s) (mt_live (vf_mt (mn_vfs m)) + 1),
      ml_addr = None, ml_authaddr = None, ml_fid = NOFID, ml_qid = kp_qid K (vworld s)\<rparr>;
    if e \<noteq> 0 then mount_error K e l else Some (0, mount_success K l) }"
  using assms quiet_vmalloc(1) [OF assms] by (auto simp: vfs_mount_9p_def Let_def quiet_def)

lemma new_locals_run:
  assumes "willing K (nc_so net) pending" "mount_args_ok net args" "mount_replies_ok args rv ra d rs"
    and "pending (vworld (mn_vfs m)) = wire False rv @ wire (ISSET (ar_flags args) FLAG_DOTU) ra
       @ wire (ISSET (ar_flags args) FLAG_DOTU) rs @ rest"
  shows "\<exists>b s l'. vmalloc K (kp_sizeof_mount K) (mn_vfs m) = (Some b, s)
    \<and> run_steps (mount_steps (Suc fuel) K net cred args) \<lparr>ml_mnt = new_mnt (vworld s) (mt_live (vf_mt (mn_vfs m)) + 1),
      ml_addr = None, ml_authaddr = None, ml_fid = NOFID, ml_qid = kp_qid K (vworld s)\<rparr> = Some (0, l')
    \<and> pending (vworld (lvfs l')) = rest"
proof -
  obtain w where w: "vmalloc K (kp_sizeof_mount K) (mn_vfs m) = (Some (replicate (kp_sizeof_mount K) 0),
      (mn_vfs m)\<lparr>vf_mt := (vf_mt (mn_vfs m))\<lparr>mt_world := w, mt_live := mt_live (vf_mt (mn_vfs m)) + 1\<rparr>\<rparr>)"
      "pending w = pending (vworld (mn_vfs m))"
    using vmalloc_runs [OF assms(1)] by blast
  let ?l = "\<lparr>ml_mnt = new_mnt w (mt_live (vf_mt (mn_vfs m)) + 1), ml_addr = None, ml_authaddr = None,
      ml_fid = NOFID, ml_qid = kp_qid K w\<rparr>"
  have "\<not> mn_node (ml_mnt ?l)" "mt_nfid (lmt ?l) \<noteq> NOFID" "pending (vworld (lvfs ?l)) = pending w"
    by (simp_all add: new_mnt_def)
  with mount_steps_run [OF assms(1-3) new_locals, where fuel = fuel and cred = cred] assms(4) w(2)
  have "\<exists>l'. run_steps (mount_steps (Suc fuel) K net cred args) ?l = Some (0, l') \<and> pending (vworld (lvfs l')) = rest"
    by simp
  then show ?thesis using w(1) by auto
qed

lemma mount_success_world: "vworld (mn_vfs (mount_success K l)) = vworld (lvfs l)"
  by (simp add: mount_success_def vfree_def free_9p_def)

lemma mount_success_of:
  assumes "kern_ok (kp_kern K)" "nc_authcall net SockSocket = 0"
    and "\<And>key. ar_authkey args = Some key \<Longrightarrow> uc_error key = 0 \<Longrightarrow> DESKEYLEN \<le> length (uc_bytes key)"
    and "run_steps (mount_steps fuel K net cred args) \<lparr>ml_mnt = new_mnt w (live + 1),
      ml_addr = None, ml_authaddr = None, ml_fid = f, ml_qid = q\<rparr> = Some (0, l')"
  shows "mounted (nc_so net) live (mount_success K l')"
  by (rule mount_steps_ok [OF assms(1-3) _ new_locals(2) _ assms(4)])
    (use new_locals(1) [of "live + 1"] in \<open>simp_all add: new_mnt_def\<close>)

text \<open>
  C15. A mount that returns 0, with or without authentication and whatever the server sent, leaves a
  client on which the vnode operations can run: the invariant holds with nothing locked, the socket
  is the one connected, the root is the only node and its vnode's node, the names and the version are
  set, the file system's private data is set, and the blocks in use are the mount, its hash table,
  names and version, and the root.
\<close>

theorem mount_success_is_mounted:
  assumes "kern_ok (kp_kern K)" "nc_authcall net SockSocket = 0"
    and "\<And>key. ar_authkey args = Some key \<Longrightarrow> uc_error key = 0 \<Longrightarrow> DESKEYLEN \<le> length (uc_bytes key)"
    and "vfs_mount_9p fuel K net cred False 0 args m = Some (0, m')"
  shows "mounted (nc_so net) (mt_live (vf_mt (mn_vfs m))) m'"
proof -
  obtain b s where s: "vmalloc K (kp_sizeof_mount K) (mn_vfs m) = (Some b, s)"
    using assms(4) by (cases "vmalloc K (kp_sizeof_mount K) (mn_vfs m)") (auto simp: vfs_mount_9p_def split: option.splits)
  obtain e l where l: "run_steps (mount_steps fuel K net cred args) \<lparr>ml_mnt = new_mnt (vworld s) (mt_live (vf_mt (mn_vfs m)) + 1),
      ml_addr = None, ml_authaddr = None, ml_fid = NOFID, ml_qid = kp_qid K (vworld s)\<rparr> = Some (e, l)"
      "(if e \<noteq> 0 then mount_error K e l else Some (0, mount_success K l)) = Some (0, m')"
    using assms(4) unfolding vfs_mount_run [OF s] by (auto split: bind_splits)
  have e: "e = 0"
  proof (rule ccontr)
    assume "e \<noteq> 0"
    then have "mount_error K e l = Some (0, m')" using l(2) by simp
    then show False using \<open>e \<noteq> 0\<close> by (auto simp: mount_error_def Let_def split: bind_splits if_splits)
  qed
  have "mounted (nc_so net) (mt_live (vf_mt (mn_vfs m))) (mount_success K l)"
    by (rule mount_success_of [OF assms(1,2) _ l(1) [unfolded e]]) (rule assms(3))
  then show ?thesis using l(2) e by simp
qed

theorem mount_success_is_mounted_witness:
  "\<exists>m'. vfs_mount_9p 1 slow_kpi (ex_net 0) None False 0 ex_args
      (ex_mnt (wire False ex_rversion @ wire False ex_rattach @ wire False ex_rstat)) = Some (0, m') \<and> mounted 7 3 m'"
proof -
  let ?m = "ex_mnt (wire False ex_rversion @ wire False ex_rattach @ wire False ex_rstat)"
  have so: "nc_so (ex_net 0) = 7" "nc_authcall (ex_net 0) SockSocket = 0" by (simp_all add: ex_net_def)
  have p: "fst (vworld (mn_vfs ?m)) = wire False ex_rversion @ wire (ISSET (ar_flags ex_args) FLAG_DOTU) ex_rattach
      @ wire (ISSET (ar_flags ex_args) FLAG_DOTU) ex_rstat @ []"
    by (simp add: ex_mnt_def new_mnt_def ex_args_def ISSET_def)
  obtain b s l' where l': "vmalloc slow_kpi (kp_sizeof_mount slow_kpi) (mn_vfs ?m) = (Some b, s)"
      "run_steps (mount_steps (Suc 0) slow_kpi (ex_net 0) None ex_args) \<lparr>ml_mnt = new_mnt (vworld s) (mt_live (vf_mt (mn_vfs ?m)) + 1),
        ml_addr = None, ml_authaddr = None, ml_fid = NOFID, ml_qid = kp_qid slow_kpi (vworld s)\<rparr> = Some (0, l')"
    using new_locals_run [OF slow_willing ex_args_ok ex_replies_ok p, of 0 None] by blast
  have run: "vfs_mount_9p 1 slow_kpi (ex_net 0) None False 0 ex_args ?m = Some (0, mount_success slow_kpi l')"
    using l'(2) by (simp add: vfs_mount_run [OF l'(1)] del: mount_steps_def)
  have "mt_live (vf_mt (mn_vfs ?m)) = 3" by (simp add: ex_mnt_def new_mnt_def)
  then show ?thesis
    using mount_success_is_mounted [OF _ so(2) _ run] run slow_kern_ok so(1)
    by (auto simp: slow_kpi_def ex_args_def)
qed

lemma mount_runs:
  assumes "willing K (nc_so net) pending" "mount_args_ok net args" "mount_replies_ok args rv ra d rs"
    and "nc_authcall net SockSocket = 0"
    and "\<And>key. ar_authkey args = Some key \<Longrightarrow> uc_error key = 0 \<Longrightarrow> DESKEYLEN \<le> length (uc_bytes key)"
    and "pending (vworld (mn_vfs m)) = wire False rv @ wire (ISSET (ar_flags args) FLAG_DOTU) ra
       @ wire (ISSET (ar_flags args) FLAG_DOTU) rs @ rest"
  shows "\<exists>m'. vfs_mount_9p (Suc fuel) K net cred False 0 args m = Some (0, m')
    \<and> mounted (nc_so net) (mt_live (vf_mt (mn_vfs m))) m' \<and> pending (vworld (mn_vfs m')) = rest"
proof -
  obtain b s l' where l': "vmalloc K (kp_sizeof_mount K) (mn_vfs m) = (Some b, s)"
      "run_steps (mount_steps (Suc fuel) K net cred args) \<lparr>ml_mnt = new_mnt (vworld s) (mt_live (vf_mt (mn_vfs m)) + 1),
        ml_addr = None, ml_authaddr = None, ml_fid = NOFID, ml_qid = kp_qid K (vworld s)\<rparr> = Some (0, l')"
      "pending (vworld (lvfs l')) = rest"
    using new_locals_run [OF assms(1-3,6)] by blast
  have "mounted (nc_so net) (mt_live (vf_mt (mn_vfs m))) (mount_success K l')"
    by (rule mount_success_of [OF willing_kern [OF assms(1)] assms(4) _ l'(2)]) (rule assms(5))
  then show ?thesis using l'(2,3) by (simp add: vfs_mount_run [OF l'(1)] mount_success_world)
qed

text \<open>
  C8. A server that takes what is written and answers the three requests (the version that was
  asked for with a message size of at least 2000, an attachment, the root's directory entry) is
  mounted, by either dialect, whatever the caller's names are, after no other message: the mount
  returns 0 and the three replies have been consumed.
\<close>

theorem mount_answered:
  assumes "willing K (nc_so net) pending" "mount_args_ok net args" "mount_replies_ok args rv ra d rs"
    and "nc_authcall net SockSocket = 0"
    and "\<And>key. ar_authkey args = Some key \<Longrightarrow> uc_error key = 0 \<Longrightarrow> DESKEYLEN \<le> length (uc_bytes key)"
    and "pending (vworld (mn_vfs m)) = wire False rv @ wire (ISSET (ar_flags args) FLAG_DOTU) ra
       @ wire (ISSET (ar_flags args) FLAG_DOTU) rs @ rest"
  shows "\<exists>m'. vfs_mount_9p (Suc fuel) K net cred False 0 args m = Some (0, m')
    \<and> mounted (nc_so net) (mt_live (vf_mt (mn_vfs m))) m' \<and> pending (vworld (mn_vfs m')) = rest"
  using assms by (rule mount_runs)

theorem mount_answered_witness:
  "\<exists>m'. vfs_mount_9p 1 slow_kpi (ex_net 0) None False 0 ex_args
      (ex_mnt (wire False ex_rversion @ wire False ex_rattach @ wire False ex_rstat @ [5])) = Some (0, m')
    \<and> mounted 7 3 m' \<and> fst (vworld (mn_vfs m')) = [5]"
proof -
  let ?m = "ex_mnt (wire False ex_rversion @ wire False ex_rattach @ wire False ex_rstat @ [5])"
  have so: "nc_so (ex_net 0) = 7" "nc_authcall (ex_net 0) SockSocket = 0" by (simp_all add: ex_net_def)
  have p: "fst (vworld (mn_vfs ?m)) = wire False ex_rversion @ wire (ISSET (ar_flags ex_args) FLAG_DOTU) ex_rattach
      @ wire (ISSET (ar_flags ex_args) FLAG_DOTU) ex_rstat @ [5]"
    by (simp add: ex_mnt_def new_mnt_def ex_args_def ISSET_def)
  have "mt_live (vf_mt (mn_vfs ?m)) = 3" by (simp add: ex_mnt_def new_mnt_def)
  then show ?thesis
    using mount_answered [OF slow_willing ex_args_ok ex_replies_ok so(2) _ p, of 0 None] so(1)
    by (simp add: ex_args_def)
qed

text \<open>
  C16. When there is no socket, or it cannot be connected, a mount whose arguments have been copied
  in fails, whichever of the steps before the connection may have failed first (the allocator, the
  locks, the copies of the names and of the address): it returns an error, with the socket closed and the
  private data cleared, and every block it allocated has been freed once. When the arguments
  themselves cannot be copied in, the exit \<^verbatim>\<open>error\<close> reads through the null pointer \<^verbatim>\<open>nmp\<close>.
\<close>

theorem mount_refused:
  assumes "kern_ok (kp_kern K)" "no_connection net" "2 \<le> ar_addrlen args" "\<not> ISSET (ar_flags args) F_SENDLOCK"
    and "\<not> mn_private m" "mt_so (vf_mt (mn_vfs m)) = None"
  shows "if copied \<noteq> 0 then vfs_mount_9p fuel K net cred False copied args m = None
    else \<exists>e m'. vfs_mount_9p fuel K net cred False copied args m = Some (e, m') \<and> e \<noteq> 0 \<and> \<not> mn_private m'
      \<and> mt_so (vf_mt (mn_vfs m')) = None \<and> mt_live (vf_mt (mn_vfs m')) = mt_live (vf_mt (mn_vfs m))"
proof (cases "copied = 0")
  case False
  then show ?thesis by (simp add: vfs_mount_9p_def)
next
  case c: True
  obtain p s where s: "vmalloc K (kp_sizeof_mount K) (mn_vfs m) = (p, s)" by fastforce
  show ?thesis
  proof (cases p)
    case None
    then show ?thesis using s quiet_vmalloc(1) [OF s] assms(5,6) c by (auto simp: vfs_mount_9p_def quiet_def)
  next
    case (Some b)
    let ?l = "\<lparr>ml_mnt = new_mnt (vworld s) (mt_live (vf_mt (mn_vfs m)) + 1), ml_addr = None, ml_authaddr = None,
        ml_fid = NOFID, ml_qid = kp_qid K (vworld s)\<rparr>"
    have "stage (mt_live (vf_mt (mn_vfs m))) 0 ?l"
      using new_locals(1) [of "mt_live (vf_mt (mn_vfs m)) + 1"]
      by (simp add: stage_def failing_def new_mnt_def ISSET_def)
    from mount_refused_run [OF assms(2-4) this] obtain e l' where
      l': "run_steps (mount_steps fuel K net cred args) ?l = Some (e, l')" "e \<noteq> 0" "failing (mt_live (vf_mt (mn_vfs m))) l'"
      by blast
    from mount_error_gives_back [OF assms(1) l'(3), of e] l'(1,2) s Some
    show ?thesis using c by (auto simp: vfs_mount_run)
  qed
qed

text \<open>In the example the connection is refused, with error 61.\<close>

theorem mount_refused_witness:
  "vfs_mount_9p 1 slow_kpi (ex_net 61) None False 14 ex_args (ex_mnt []) = None
    \<and> (\<exists>e m'. vfs_mount_9p 1 slow_kpi (ex_net 61) None False 0 ex_args (ex_mnt []) = Some (e, m') \<and> e \<noteq> 0
      \<and> mt_live (vf_mt (mn_vfs m')) = 3)"
proof -
  have k: "kern_ok (kp_kern slow_kpi)" using slow_kern_ok by (simp add: slow_kpi_def)
  have "no_connection (ex_net 61)" "2 \<le> ar_addrlen ex_args" "\<not> ISSET (ar_flags ex_args) F_SENDLOCK"
      "\<not> mn_private (ex_mnt [])" "mt_so (vf_mt (mn_vfs (ex_mnt []))) = None" "mt_live (vf_mt (mn_vfs (ex_mnt []))) = 3"
    by (simp_all add: no_connection_def ex_net_def ex_args_def ex_mnt_def new_mnt_def ISSET_def)
  with mount_refused [OF k, of "ex_net 61" ex_args "ex_mnt []" 14 1 None]
    mount_refused [OF k, of "ex_net 61" ex_args "ex_mnt []" 0 1 None] show ?thesis by auto
qed

section \<open>Nodes by inode number\<close>

text \<open>
  C38. \<open>vfs_vget_9p\<close> of an inode whose number, cut down by \<^verbatim>\<open>ITOP\<close>, belongs to no node of its chain
  fails and returns with the table locked: from then on every call of \<open>nget_9p\<close> waits for ever,
  whatever node it looks for.
\<close>

theorem vget_unknown_locks_table:
  assumes "vfs_inv L s" "nfind s (ITOP ino) = None"
  shows "\<exists>s'. vfs_vget_9p (Suc fuel) K ino s = Some (EFAULT, None, s') \<and> vf_node s' = vf_node s
    \<and> (\<forall>fuel fid qid dvp vpp cnp. nget_9p fuel K fid qid dvp vpp cnp s' = None)"
proof -
  let ?q = "\<lparr>q_path = ITOP ino, q_vers = k_u32 (kp_kern K) (vworld s), q_type = ucast (ITOT ino)\<rparr>"
  have "vfs_vget_9p (Suc fuel) K ino s = Some (EFAULT, None, s\<lparr>vf_nodelck := True\<rparr>)"
    using nget_unknown [OF assms(1), of ?q] assms(2) by (simp add: vfs_vget_9p_def)
  then show ?thesis by (simp add: nget_locked)
qed

text \<open>Inode 5 is the example's file; the mask keeps nothing of it.\<close>

theorem vget_unknown_locks_table_witness:
  "\<exists>s'. vfs_vget_9p 3 slow_kpi 5 (ex_vfs []) = Some (EFAULT, None, s') \<and> nget_9p 9 slow_kpi 1 zero_qid None None None s' = None"
proof -
  have "nfind (ex_vfs []) (ITOP 5) = None" by (simp add: nfind_def HASH9P_def ITOP_def ex_vfs_def ex_node_def new_node_def)
  from vget_unknown_locks_table [OF ex_vfs_inv this, of 2 slow_kpi] show ?thesis by (auto simp: numeral_3_eq_3)
qed

end
