(* ===== verification/LookupRuns.thy ===== *)
theory LookupRuns
  imports MountRuns
begin

text \<open>
  A lookup whose walk is answered with the qid of a node that is in the table.
\<close>

section \<open>The walk\<close>

lemma walk_answered:
  assumes "willing K so pending" "mount_ok m" "mt_so m = Some so" "stack_ok tx0" "2000 \<le> unat (mt_msize m)"
    and "0 < nname" "nname < 1000" "nname \<le> int (length name)"
    and "fc_type r = Rwalk" "fc_nwqid r = 1" "printable r" "pending (mt_world m) = wire (ISSET (mt_flags m) F_DOTU) r @ rest"
  shows "\<exists>m'. walk_9p (k_env (kp_kern K)) tx0 rx0 fid (Some name) nname fid0 qid0 m = Some (0, mt_nfid m, fc_wqid r ! 0, m')
    \<and> after m 0 m' \<and> pending (mt_world m') = rest"
proof -
  let ?env = "k_env (kp_kern K)" and ?d = "ISSET (mt_flags m) F_DOTU"
  obtain w where w: "ev_malloc ?env (mt_world m) (nat (nname + 1)) = (True, w)" "pending w = pending (mt_world m)"
    using assms(1) unfolding willing_def by blast
  let ?m1 = "m\<lparr>mt_nfid := mt_nfid m + 1, mt_world := w, mt_live := mt_live m + 1\<rparr>"
  let ?s = "cstr (take (nat nname) name)"
  have rd: "rdn name 0 (nat nname) = Some (take (nat nname) name)" using assms(6,8) by (simp add: rdn_eq_Some_iff)
  have sd: "strndup ?env (Some name) nname (m\<lparr>mt_nfid := mt_nfid m + 1\<rparr>) = Some (0, Some ?s, ?m1)"
    using w(1) rd assms(6) by (simp add: strndup_def malloc_9p_def)
  let ?tx = "tx0\<lparr>fc_type := Twalk, fc_fid := fid, fc_newfid := mt_nfid m, fc_nwname := 1, fc_wname := (fc_wname tx0)[0 := ?s]\<rparr>"
  have mo: "mount_ok ?m1" "after m 1 ?m1" using assms(2) by (simp_all add: mount_ok_def after_def)
  have pr: "printable ?tx" using assms(4) by (simp add: printable_def stack_ok_def msg_types_def)
  have ls: "length ?s < 1000" using length_cstr_le [of "take (nat nname) name"] assms(6,7) by simp linarith
  have "take 1 ((fc_wname tx0)[0 := ?s]) = [?s]" using assms(4) by (cases "fc_wname tx0") (auto simp: stack_ok_def)
  then have sz: "wire_size d ?tx \<le> unat (mt_msize ?m1)" for d
    using ls assms(5) by (simp add: wire_size_def wire_payload_def length_str_bytes)
  have rsz: "wire_size ?d r \<le> unat (mt_msize ?m1)"
    using assms(5,9,10,11) by (cases "fc_wqid r") (simp_all add: wire_size_def wire_payload_def printable_def length_qid_bytes)
  have a: "answered ?env pending ?m1 tx r rest" for tx
    by (rule willing_answered [OF assms(1)]) (use assms w(2) rsz in \<open>simp_all add: strings_fit_def wire_strings_def\<close>)
  show ?thesis
  proof (rule rpc_answered [OF a mo(1) pr sz, where rxi = rx0 and keep = False])
    fix rx p m2
    assume r: "rpc_9p ?env ?tx rx0 False ?m1 = Some (reply_error ?tx rx (Some p) (ISSET (mt_flags ?m1) F_DOTU), rx,
       if reply_error ?tx rx (Some p) (ISSET (mt_flags ?m1) F_DOTU) = 0 \<and> False then Some p else None, m2)"
      "same_call (ISSET (mt_flags ?m1) F_DOTU) r p rx" "pending (mt_world m2) = rest"
      "after ?m1 (if reply_error ?tx rx (Some p) (ISSET (mt_flags ?m1) F_DOTU) = 0 \<and> False then 1 else 0) m2"
    have rx: "fc_type rx = Rwalk" "fc_nwqid rx = 1" "fc_wqid rx ! 0 = fc_wqid r ! 0"
      using r(2) assms(9,10) by (simp_all add: same_call_def)
    then have e: "reply_error ?tx rx (Some p) (ISSET (mt_flags ?m1) F_DOTU) = 0" by (simp add: reply_error_def)
    have lt: "wire_size d ?tx < 2 ^ 32" for d using sz [of d] unat_u32_less [of "mt_msize ?m1"] by simp
    have ro: "recv_ok ?env" by (rule kern_recv [OF willing_kern [OF assms(1)]])
    have len: "0 < length (fc_wqid rx)"
    proof (rule rpc_call [OF ro mo(1) pr lt, where rxi = rx0 and keep = False])
      fix e' rx' p' m'
      assume x: "rpc_9p ?env ?tx rx0 False ?m1 = Some (e', rx', p', m')"
        and y: "e' = 0 \<Longrightarrow> answers ?tx rx' \<and> length (fc_wname rx') = 16 \<and> length (fc_wqid rx') = 16
           \<and> (\<exists>buf. parsed (ISSET (mt_flags ?m1) F_DOTU) buf rx')"
      have "rx = rx'" "e' = 0" using r(1) e x by auto
      then show ?thesis using y by auto
    qed
    have "walk_9p ?env tx0 rx0 fid (Some name) nname fid0 qid0 m = Some (0, mt_nfid m, fc_wqid r ! 0, free_9p (Some ?s) m2)"
      using sd r(1) e rx len by (simp add: walk_9p_def nextfid_def Let_def)
    moreover have "after m 0 (free_9p (Some ?s) m2)" using after_free [OF after_trans [OF mo(2) r(4)], of "Some ?s"] by simp
    ultimately show ?thesis using r(3) by (auto simp: free_9p_def)
  qed
qed

section \<open>A node that is locked\<close>

text \<open>The thread that looks for a node it has locked itself waits for ever.\<close>

lemma nget_self:
  assumes "vfs_inv L s" "nfind s (q_path qid) = Some np" "vf_node s np = Some n" "np_vp n = Some vp"
    and "L np = NODE_LCK_EXCLUSIVE" "\<And>w. fst (kp_call K (VnodeGetwithvid vp) w) = 0"
  shows "nget_9p (Suc fuel) K fid qid dvp vpp cnp s = None"
proof -
  have unl: "\<not> vf_nodelck s" using assms(1) by (simp add: vfs_inv_def)
  have nd: "\<not> ISSET (np_flags n) NODE_INIT" "\<not> ISSET (np_flags n) NODE_RECL" "np_lck n = Exclusive"
    using inv_node [OF assms(1,3)] assms(5) by (simp_all add: node_ok_def lock_is_def)
  have lck: "nodelck_lock s = Some (s\<lparr>vf_nodelck := True\<rparr>)" using unl by (simp add: nodelck_lock_def)
  have un: "nodelck_unlock (s\<lparr>vf_nodelck := True\<rparr>) = s" using unl by (cases s) (simp add: nodelck_unlock_def)
  have sc: "nscan (vf_node s) (q_path qid) (vf_hash s (HASH9P (s\<lparr>vf_nodelck := True\<rparr>) (q_path qid))) = Some (Some np)"
    using nscan_inv [OF assms(1), of "q_path qid"] assms(2) by (simp add: HASH9P_def)
  obtain w where w: "kcall K (VnodeGetwithvid vp) s = (0, set_world w s)"
    using assms(6) [of "vworld s"] by (cases "kp_call K (VnodeGetwithvid vp) (vworld s)") (simp add: kcall_def)
  have "nlock_9p np NODE_LCK_EXCLUSIVE (set_world w s) = None" using assms(3) nd(3) by (simp add: nlock_9p_def)
  then show ?thesis using assms(3,4) nd(1,2) by (simp add: nget_9p.simps lck sc un w)
qed

section \<open>The lookup\<close>

text \<open>A plain name, which the name cache does not know.\<close>

definition plain_lookup :: "'w kpi \<Rightarrow> ('w \<Rightarrow> byte list) \<Rightarrow> nat \<Rightarrow> componentname \<Rightarrow> 'w vfs \<Rightarrow> bool" where
  "plain_lookup K pending dvp cnp s \<longleftrightarrow> vnode_vtype K dvp s = VDIR \<and> \<not> isdot cnp \<and> \<not> isdotdot cnp
     \<and> \<not> (islastcn cnp \<and> cn_nameiop cnp \<noteq> LOOKUP \<and> vis K IsRdonly dvp s)
     \<and> 0 < cn_namelen cnp \<and> cn_namelen cnp < 1000 \<and> cn_namelen cnp \<le> int (length (cn_name cnp))
     \<and> (\<exists>w. kp_cache_lookup K dvp (cn_name cnp) (vworld s) = (0, None, w) \<and> pending w = pending (vworld s))"

lemma lookup_walks:
  assumes "plain_lookup K pending dvp cnp s" "vf_fsnode s dvp = Some dnp" "vfs_inv unlocked s"
  shows "\<exists>t. vnop_lookup_9p fuel K dvp vpp cnp s = lookup_walk fuel K dvp dnp vpp cnp t \<and> goes unlocked 0 s t
    \<and> pending (vworld t) = pending (vworld s) \<and> vf_node t = vf_node s \<and> nfind t = nfind s
    \<and> mt_so (vf_mt t) = mt_so (vf_mt s) \<and> mt_msize (vf_mt t) = mt_msize (vf_mt s) \<and> mt_nfid (vf_mt t) = mt_nfid (vf_mt s)"
proof -
  obtain w where w: "kp_cache_lookup K dvp (cn_name cnp) (vworld s) = (0, None, w)" "pending w = pending (vworld s)"
    using assms(1) by (auto simp: plain_lookup_def)
  have "nfind (set_world w s) = nfind s" by (simp add: nfind_def HASH9P_def fun_eq_iff)
  then show ?thesis using w assms(1,2) goes_world [OF assms(3), of w]
    by (intro exI [of _ "set_world w s"]) (auto simp: vnop_lookup_9p_def plain_lookup_def)
qed

text \<open>With the directory locked, the walk succeeds and gives the qid of the reply.\<close>

lemma lookup_walked:
  assumes "willing K so pending" "vfs_inv unlocked s" "vf_fsnode s dvp = Some dnp" "mt_so (vf_mt s) = Some so"
    and "2000 \<le> unat (mt_msize (vf_mt s))" "0 < cn_namelen cnp" "cn_namelen cnp < 1000"
    and "cn_namelen cnp \<le> int (length (cn_name cnp))"
    and "fc_type r = Rwalk" "fc_nwqid r = 1" "printable r" "pending (vworld s) = wire (dotu_of s) r @ rest"
  obtains s1 s2 d f0 q0 where "nlock_9p dnp NODE_LCK_EXCLUSIVE s = Some s1" "vf_node s1 dnp = Some d"
    "vwalk K (np_fid d) (Some (cn_name cnp)) (cn_namelen cnp) (k_u32 (kp_kern K) (vworld s1)) (kp_qid K (vworld s1)) s1
      = Some (0, mt_nfid (vf_mt s), fc_wqid r ! 0, s2)" "goes (only dnp NODE_LCK_EXCLUSIVE) 0 s s2"
    "vf_node s2 = vf_node (upd_node dnp (\<lambda>n. n\<lparr>np_lck := Exclusive, np_lcktype := NODE_LCK_EXCLUSIVE\<rparr>) s)"
    "vf_hash s2 = vf_hash s" "vf_nodelen s2 = vf_nodelen s"
proof -
  obtain n where n: "vf_node s dnp = Some n" "np_lck n = Unlocked"
    using inv_fsnode [OF assms(2,3)] inv_node(2) [OF assms(2)] by (metis lock_is_def lcktype_9p.simps(7))
  let ?s1 = "upd_node dnp (\<lambda>n. n\<lparr>np_lck := Exclusive, np_lcktype := NODE_LCK_EXCLUSIVE\<rparr>) s"
  have l: "nlock_9p dnp NODE_LCK_EXCLUSIVE s = Some ?s1" using n by (simp add: nlock_9p_def)
  obtain s1 where "nlock_9p dnp NODE_LCK_EXCLUSIVE s = Some s1" "goes (only dnp NODE_LCK_EXCLUSIVE) 0 s s1"
    by (rule lock_vnode [OF assms(2,3), of NODE_LCK_EXCLUSIVE]) auto
  then have g1: "goes (only dnp NODE_LCK_EXCLUSIVE) 0 s ?s1" using l by simp
  obtain d where d: "vf_node ?s1 dnp = Some d" using n by (simp add: upd_node_def)
  note k = willing_kern [OF assms(1)]
  have mt: "vf_mt ?s1 = vf_mt s" by (simp add: upd_node_def)
  obtain m where m: "walk_9p (k_env (kp_kern K)) (ktx K ?s1) (krx K ?s1) (np_fid d) (Some (cn_name cnp)) (cn_namelen cnp)
      (k_u32 (kp_kern K) (vworld ?s1)) (kp_qid K (vworld ?s1)) (vf_mt ?s1) = Some (0, mt_nfid (vf_mt s), fc_wqid r ! 0, m)"
      "after (vf_mt ?s1) 0 m"
    using walk_answered [OF assms(1) inv_mount [OF assms(2)] assms(4) kern_stack [OF k] assms(5-12)] unfolding mt by blast
  have g2: "goes (only dnp NODE_LCK_EXCLUSIVE) 0 ?s1 (?s1\<lparr>vf_mt := m\<rparr>)" by (rule goes_mount [OF goes_inv [OF g1] m(2)])
  show ?thesis
    by (rule that [OF l d _ goes_trans0 [OF g1 g2]]) (use m(1) in \<open>simp_all add: vwalk_def upd_node_def\<close>)
qed

lemma nscan_upd:
  assumes "\<And>n. np_dir (f n) = np_dir n"
  shows "nscan (vf_node (upd_node np f s)) path nps = nscan (vf_node s) path nps"
  by (induction nps) (auto simp: upd_node_def assms split: option.split)

lemma lookup_walk_known:
  assumes "willing K so pending" "vfs_inv unlocked s" "vf_fsnode s dvp = Some dnp" "mt_so (vf_mt s) = Some so"
    and "2000 \<le> unat (mt_msize (vf_mt s))" "0 < cn_namelen cnp" "cn_namelen cnp < 1000"
    and "cn_namelen cnp \<le> int (length (cn_name cnp))"
    and "fc_type r = Rwalk" "fc_nwqid r = 1" "printable r" "pending (vworld s) = wire (dotu_of s) r @ rest"
    and "nfind s (q_path (fc_wqid r ! 0)) = Some np" "vf_fsnode s vp = Some np"
  shows "if np = dnp then lookup_walk (Suc fuel) K dvp dnp vpp cnp s = None
    else \<exists>s'. lookup_walk (Suc fuel) K dvp dnp vpp cnp s = Some (0, Some vp, s') \<and> goes unlocked 0 s s'"
proof -
  let ?q = "fc_wqid r ! 0" and ?L = "only dnp NODE_LCK_EXCLUSIVE"
  have get: "fst (kp_call K (VnodeGetwithvid vp) w) = 0" for w
    using assms(1) unfolding willing_def by (metis fst_conv)
  obtain s1 s2 d where w: "nlock_9p dnp NODE_LCK_EXCLUSIVE s = Some s1" "vf_node s1 dnp = Some d"
      "vwalk K (np_fid d) (Some (cn_name cnp)) (cn_namelen cnp) (k_u32 (kp_kern K) (vworld s1)) (kp_qid K (vworld s1)) s1
      = Some (0, mt_nfid (vf_mt s), ?q, s2)" "goes ?L 0 s s2"
      "vf_node s2 = vf_node (upd_node dnp (\<lambda>n. n\<lparr>np_lck := Exclusive, np_lcktype := NODE_LCK_EXCLUSIVE\<rparr>) s)"
      "vf_hash s2 = vf_hash s" "vf_nodelen s2 = vf_nodelen s"
    by (rule lookup_walked [OF assms(1-12)])
  have f2: "nfind s2 (q_path ?q) = Some np"
    using assms(13) by (simp add: nfind_def HASH9P_def w(5-7) nscan_upd)
  note i2 = goes_inv [OF w(4)]
  have fs2: "vf_fsnode s2 vp = Some np" using goes_fsnode [OF w(4)] assms(14) by simp
  obtain n where n: "vf_node s2 np = Some n" "np_vp n = Some vp" by (rule inv_fsnode [OF i2 fs2])
  show ?thesis
  proof (cases "np = dnp")
    case True
    have "nget_9p (Suc fuel) K (mt_nfid (vf_mt s)) ?q (Some dvp) vpp (Some cnp) s2 = None"
      by (rule nget_self [OF i2 f2 n _ get]) (simp add: True)
    then show ?thesis using True w(1-3) by (simp add: lookup_walk_def)
  next
    case False
    obtain s3 where g: "nget_9p (Suc fuel) K (mt_nfid (vf_mt s)) ?q (Some dvp) vpp (Some cnp) s2 = Some (0, Some vp, s3)"
        "goes (?L(np := NODE_LCK_EXCLUSIVE)) 0 s2 s3"
      using nget_known [OF i2 f2 n _ get] False by fastforce
    have fs3: "vf_fsnode s3 vp = Some np" using goes_fsnode [OF g(2)] fs2 by simp
    obtain n3 where n3: "vf_node s3 np = Some n3" by (rule inv_fsnode [OF goes_inv [OF g(2)] fs3])
    obtain s4 where c: "(if np_fid n3 \<noteq> mt_nfid (vf_mt s) then do { (_, s) \<leftarrow> vclunk K (mt_nfid (vf_mt s)) s3; Some s }
        else Some s3) = Some s4" "goes (?L(np := NODE_LCK_EXCLUSIVE)) 0 s3 s4"
      using goes_vclunk [OF willing_kern [OF assms(1)] goes_inv [OF g(2)], of "mt_nfid (vf_mt s)"]
        goes_refl [OF goes_inv [OF g(2)]] by (cases "np_fid n3 \<noteq> mt_nfid (vf_mt s)") auto
    have g4: "goes (?L(np := NODE_LCK_EXCLUSIVE)) 0 s s4" by (rule goes_trans0 [OF w(4) goes_trans0 [OF g(2) c(2)]])
    have ex: "vf_node s4 np \<noteq> None" "vf_node s4 dnp \<noteq> None"
      using goes_node [OF g4] inv_fsnode_node [OF assms(2,3)] inv_fsnode_node [OF assms(2,14)] by blast+
    obtain s5 s6 where u: "nunlock_9p np s4 = Some s5" "nunlock_9p dnp s5 = Some s6" "goes unlocked 0 s s6"
      by (rule unlock_two [OF g4 _ ex]) (use False in auto)
    have "vf_fsnode s4 vp = Some np" using goes_fsnode [OF c(2)] fs3 by simp
    then have "lookup_walk (Suc fuel) K dvp dnp vpp cnp s = Some (0, Some vp, s6)"
      using w(1-3) g(1) fs3 n3 c(1) u(1,2) by (simp add: lookup_walk_def)
    then show ?thesis using u(3) False by simp
  qed
qed

end
