(* ===== verification/TableProps.thy ===== *)
theory TableProps
  imports LookupRuns VnopsProps MountProps
begin

text \<open>
  The properties of the operations on the table of nodes: what a lookup finds, and what is left when
  a vnode is reclaimed.
\<close>

section \<open>Lookup\<close>

text \<open>The example's client with messages of 8192 bytes.\<close>

definition ex_client :: "byte list \<Rightarrow> streams vfs" where
  "ex_client reply = (ex_vfs reply)\<lparr>vf_mt := (fresh_mount reply)\<lparr>mt_msize := 8192\<rparr>\<rparr>"

lemma ex_client_inv: "vfs_inv unlocked (ex_client reply)"
proof -
  have "mount_ok ((fresh_mount reply)\<lparr>mt_msize := 8192\<rparr>)" using fresh_mount_ok [of reply] by (simp add: mount_ok_def)
  then show ?thesis using ex_vfs_inv [of reply] by (simp add: ex_client_def vfs_inv_def)
qed

text \<open>
  C18. A lookup of a name that is not in the name cache, answered by the server with the qid of a
  node in the table: the node's vnode is returned, nothing stays locked, and no block is kept, whether
  the fid of the walk is then clunked well or not. Only when the qid is the directory's own does the
  thread wait for the lock it holds itself.
\<close>

theorem lookup_finds_known_node:
  assumes "willing K so pending" "vfs_inv unlocked s" "mt_so (vf_mt s) = Some so" "2000 \<le> unat (mt_msize (vf_mt s))"
    and "plain_lookup K pending dvp cnp s" "vf_fsnode s dvp = Some dnp"
    and "fc_type r = Rwalk" "fc_nwqid r = 1" "printable r" "pending (vworld s) = wire (dotu_of s) r @ rest"
    and "nfind s (q_path (fc_wqid r ! 0)) = Some np" "vf_fsnode s vp = Some np"
  shows "if np = dnp then vnop_lookup_9p (Suc fuel) K dvp vpp cnp s = None
    else \<exists>s'. vnop_lookup_9p (Suc fuel) K dvp vpp cnp s = Some (0, Some vp, s') \<and> vfs_inv unlocked s'
      \<and> vf_fsnode s' = vf_fsnode s \<and> mt_live (vf_mt s') = mt_live (vf_mt s)"
proof -
  obtain t where t: "vnop_lookup_9p (Suc fuel) K dvp vpp cnp s = lookup_walk (Suc fuel) K dvp dnp vpp cnp t"
      "goes unlocked 0 s t" "pending (vworld t) = pending (vworld s)" "nfind t = nfind s" "mt_so (vf_mt t) = mt_so (vf_mt s)"
      "mt_msize (vf_mt t) = mt_msize (vf_mt s)"
    using lookup_walks [OF assms(5,6,2), of "Suc fuel" vpp] by blast
  have c: "0 < cn_namelen cnp" "cn_namelen cnp < 1000" "cn_namelen cnp \<le> int (length (cn_name cnp))"
    using assms(5) by (simp_all add: plain_lookup_def)
  have at: "vf_fsnode t dvp = Some dnp" "vf_fsnode t vp = Some np" "mt_so (vf_mt t) = Some so"
      "2000 \<le> unat (mt_msize (vf_mt t))" "pending (vworld t) = wire (dotu_of t) r @ rest"
      "nfind t (q_path (fc_wqid r ! 0)) = Some np"
    using t(2-6) assms by (simp_all add: goes_def)
  note l = lookup_walk_known [OF assms(1) goes_inv [OF t(2)] at(1,3,4) c assms(7-9) at(5,6,2), of fuel vpp]
  show ?thesis
  proof (cases "np = dnp")
    case True
    then show ?thesis using l t(1) by simp
  next
    case False
    then obtain s' where s': "lookup_walk (Suc fuel) K dvp dnp vpp cnp t = Some (0, Some vp, s')" "goes unlocked 0 t s'"
      using l by auto
    have "goes unlocked 0 s s'" by (rule goes_trans0 [OF t(2) s'(2)])
    then show ?thesis using False t(1) s'(1) by (simp add: goes_def)
  qed
qed

definition ex_rwalk :: "u64 \<Rightarrow> tx_call" where
  "ex_rwalk path = (zero_fcall [])\<lparr>fc_type := Rwalk, fc_nwqid := 1,
     fc_wqid := \<lparr>q_path = path, q_vers = 1, q_type = 0\<rparr> # replicate 15 zero_qid\<rparr>"

definition ex_cnp :: componentname where
  "ex_cnp = \<lparr>cn_name = [97, 0], cn_namelen = 1, cn_flags = ISLASTCN, cn_nameiop = LOOKUP\<rparr>"

text \<open>The name \<open>a\<close> in the example's directory, when the server says that it is the file, or the directory itself.\<close>

theorem lookup_finds_known_node_witness:
  "(\<exists>s'. vnop_lookup_9p 1 slow_kpi 1 None ex_cnp (ex_client (wire False (ex_rwalk 5))) = Some (0, Some 2, s')
      \<and> vfs_inv unlocked s')
    \<and> vnop_lookup_9p 1 slow_kpi 1 None ex_cnp (ex_client (wire False (ex_rwalk 4))) = None"
proof -
  have mt: "mt_so (vf_mt (ex_client b)) = Some 1" "2000 \<le> unat (mt_msize (vf_mt (ex_client b)))"
      "fst (vworld (ex_client b)) = b" "dotu_of (ex_client b) = False" for b
    by (simp_all add: ex_client_def fresh_mount_def slow_mount_def ISSET_def)
  have pl: "plain_lookup slow_kpi fst 1 ex_cnp (ex_client b)" for b
    by (simp add: plain_lookup_def slow_kpi_def ex_cnp_def isdot_def bytes_of_def ISSET_def)
  have r: "fc_type (ex_rwalk p) = Rwalk" "fc_nwqid (ex_rwalk p) = 1" "printable (ex_rwalk p)"
      "q_path (fc_wqid (ex_rwalk p) ! 0) = p" for p
    by (simp_all add: ex_rwalk_def printable_def msg_types_def zero_fcall_def)
  have fs: "vf_fsnode (ex_client b) 1 = Some 10" "vf_fsnode (ex_client b) 2 = Some 11" for b
    by (simp_all add: ex_client_def ex_vfs_def)
  have f: "nfind (ex_client b) 5 = Some 11" "nfind (ex_client b) 4 = Some 10" for b
    by (simp_all add: ex_client_def ex_vfs_def nfind_def HASH9P_def ex_node_def new_node_def)
  have p: "fst (vworld (ex_client (wire False (ex_rwalk q)))) = wire (dotu_of (ex_client (wire False (ex_rwalk q)))) (ex_rwalk q) @ []"
    for q by (simp only: mt append_Nil2)
  have "\<exists>s'. vnop_lookup_9p (Suc 0) slow_kpi 1 None ex_cnp (ex_client (wire False (ex_rwalk 5))) = Some (0, Some 2, s')
      \<and> vfs_inv unlocked s'"
    using lookup_finds_known_node [OF slow_willing ex_client_inv mt(1,2) pl fs(1) r(1-3) p [of 5], where np = 11 and vp = 2 and fuel = 0 and vpp = None] f(1) fs(2) r(4)
    by auto
  moreover have "vnop_lookup_9p (Suc 0) slow_kpi 1 None ex_cnp (ex_client (wire False (ex_rwalk 4))) = None"
    using lookup_finds_known_node [OF slow_willing ex_client_inv mt(1,2) pl fs(1) r(1-3) p [of 4], where np = 10 and vp = 1 and fuel = 0 and vpp = None] f(2) fs(1) r(4)
    by auto
  ultimately show ?thesis by simp
qed

section \<open>Reclaiming\<close>

text \<open>
  C19. Reclaiming a vnode always succeeds, whatever the server answers to the clunk: its node is out
  of the chains and of the table and its vnode has no node any more, every other node and vnode is as
  it was, the invariant holds with nothing locked, and the node's block has been freed, with its
  cached entries if it had any.
\<close>

theorem reclaim_forgets_node:
  assumes "kern_ok (kp_kern K)" "vfs_inv unlocked s" "vf_fsnode s vp = Some np" "vf_node s np = Some n"
  shows "\<exists>s'. vnop_reclaim_9p K vp s = Some (0, s') \<and> vfs_inv unlocked s'
    \<and> vf_fsnode s' = (vf_fsnode s)(vp := None) \<and> vf_node s' = (vf_node s)(np := None)
    \<and> (\<forall>h. vf_hash s' h = removeAll np (vf_hash s h))
    \<and> mt_live (vf_mt s') = mt_live (vf_mt s) - (if np_direntries n = None then 1 else 2)"
  using vnop_reclaim_total [OF assms] detached_inv [OF assms(2,3)] by fastforce

theorem reclaim_forgets_node_witness:
  "\<exists>s'. vnop_reclaim_9p slow_kpi 2 (ex_vfs [1, 2, 3]) = Some (0, s') \<and> vfs_inv unlocked s'
    \<and> vf_fsnode s' = [1 \<mapsto> 10] \<and> vf_hash s' 1 = []"
proof -
  have k: "kern_ok (kp_kern slow_kpi)" using slow_kern_ok by (simp add: slow_kpi_def)
  have "vf_fsnode (ex_vfs b) 2 = Some 11" "vf_node (ex_vfs b) 11 = Some (ex_node 2 4 5)"
      "(vf_fsnode (ex_vfs b))(2 := None) = [1 \<mapsto> 10]" "vf_hash (ex_vfs b) 1 = [11]" for b
    by (auto simp: ex_vfs_def)
  with reclaim_forgets_node [OF k ex_vfs_inv, of "[1, 2, 3]" 2 11 "ex_node 2 4 5"] show ?thesis by auto
qed

end
