(* ===== verification/DirOpProofs.thy ===== *)
theory DirOpProofs
  imports VnopsProofs
begin

text \<open>
  Lemmas for creation and for reading a directory: numbers in the extension string of a device, and
  the loop that delivers the entries.
\<close>

section \<open>Decimal numbers\<close>

lemma dec_nat_digits: "dec_nat n \<noteq> [] \<and> list_all is_digit (dec_nat n)"
proof (induction n rule: dec_nat.induct)
  case (1 n)
  have d: "is_digit (48 + of_nat k)" if "k < 10" for k
  proof -
    have "k \<in> set [0..<10]" using that by simp
    then show ?thesis by (auto simp: is_digit_def upt_rec)
  qed
  show ?case
  proof (cases "n < 10")
    case True
    then show ?thesis using d by (simp add: dec_nat.simps)
  next
    case False
    then show ?thesis using "1.IH" d by (subst (1 2) dec_nat.simps) simp
  qed
qed

lemma digit_value: "k < 10 \<Longrightarrow> unat ((48 + of_nat k :: byte) - 48) = k"
  by (simp add: unat_of_nat)

lemma dec_nat_value: "foldl (\<lambda>n b. 10 * n + unat (b - 48)) 0 (dec_nat n) = n"
proof (induction n rule: dec_nat.induct)
  case (1 n)
  show ?case
  proof (cases "n < 10")
    case True
    then show ?thesis using digit_value [of n] by (simp add: dec_nat.simps)
  next
    case False
    then show ?thesis using "1.IH" digit_value [of "n mod 10"] by (subst dec_nat.simps) simp
  qed
qed

lemma takeWhile_digits:
  assumes "list_all is_digit ds" "rest = [] \<or> \<not> is_digit (hd rest)"
  shows "takeWhile is_digit (ds @ rest) = ds"
  using assms by (induction ds) (auto simp: takeWhile_eq_Nil_iff)

lemma digit_not_white: "is_digit b \<Longrightarrow> \<not> is_white b \<and> b \<noteq> 45 \<and> b \<noteq> 43"
  by (auto simp: is_digit_def is_white_def word_le_nat_alt)

text \<open>\<^verbatim>\<open>%u\<close> reads what \<^verbatim>\<open>%d\<close> has written, modulo \<open>2 ^ 32\<close>.\<close>

lemma scan_dec:
  assumes "rest = [] \<or> \<not> is_digit (hd rest)"
  shows "scan_u (dec_int i @ rest) = Some (of_int i, rest)" "scan_u (32 # dec_int i @ rest) = Some (of_int i, rest)"
proof -
  have nat: "scan_u (dec_nat n @ rest) = Some (of_nat n, rest)" for n
  proof -
    obtain b bs where b: "dec_nat n = b # bs" using dec_nat_digits [of n] by (cases "dec_nat n") auto
    then have w: "\<not> is_white b" "b \<noteq> 45" "b \<noteq> 43" using dec_nat_digits [of n] digit_not_white by auto
    have t: "takeWhile is_digit (dec_nat n @ rest) = dec_nat n"
      using takeWhile_digits [OF _ assms] dec_nat_digits [of n] by blast
    then show ?thesis using w dec_nat_value [of n] b by (simp add: scan_u_def Let_def)
  qed
  have neg: "scan_u (45 # dec_nat n @ rest) = Some (- of_nat n, rest)" for n
  proof -
    have t: "takeWhile is_digit (dec_nat n @ rest) = dec_nat n"
      using takeWhile_digits [OF _ assms] dec_nat_digits [of n] by blast
    have "\<not> is_white 45" by (simp add: is_white_def)
    then show ?thesis using t dec_nat_value [of n] dec_nat_digits [of n] by (simp add: scan_u_def Let_def)
  qed
  have "(- of_nat (nat (- i)) :: u32) = of_int i" if "i < 0"
    using that by (metis minus_minus nat_0_le neg_0_le_iff_le of_int_minus of_int_of_nat_eq order_less_imp_le)
  moreover have "(of_nat (nat i) :: u32) = of_int i" if "\<not> i < 0"
    using that by (metis linorder_not_less of_int_of_nat_eq nat_0_le)
  ultimately show *: "scan_u (dec_int i @ rest) = Some (of_int i, rest)"
    using nat neg by (simp add: dec_int_def)
  have "is_white 32" by (simp add: is_white_def)
  then have "scan_u (32 # s) = scan_u s" for s by (simp add: scan_u_def)
  then show "scan_u (32 # dec_int i @ rest) = Some (of_int i, rest)" using * by simp
qed

text \<open>A device number is its major and minor part.\<close>

lemma rdev_parts:
  "push_bit 20 (of_int (sint rdev div 2 ^ 20)) OR of_int (sint rdev mod 2 ^ 20) = (rdev :: 32 word)"
  unfolding drop_bit_eq_div [symmetric] take_bit_eq_mod [symmetric]
  by (rule bit_word_eqI) (auto simp: bit_simps)

lemma device_ext_read:
  "sscanf_cuu (device_ext t rdev) = Some (if t = VBLK then of_char (CHR ''b'') else of_char (CHR ''c''),
     of_int (sint rdev div 2 ^ 20), of_int (sint rdev mod 2 ^ 20))"
proof -
  have "\<not> is_digit 32" by (simp add: is_digit_def)
  then show ?thesis using scan_dec(2) [of "32 # dec_int (sint rdev mod 2 ^ 20)" "sint rdev div 2 ^ 20"]
      scan_dec(2) [of "[]" "sint rdev mod 2 ^ 20"]
    by (simp add: sscanf_cuu_def device_ext_def)
qed

section \<open>Delivering entries\<close>

definition entry_bytes :: "bool \<Rightarrow> memory \<Rightarrow> strp Dir \<Rightarrow> byte list" where
  "entry_bytes ext sm d = dirent_bytes ext (d_qid d) (d_mode d) (the (dir_name sm d))"

text \<open>
  \<open>k\<close> entries of \<open>ds\<close> have been moved to the user, in order and whole, and there was no room for the
  next one.
\<close>

definition delivered :: "bool \<Rightarrow> memory \<Rightarrow> strp Dir list \<Rightarrow> nat \<Rightarrow> uio \<Rightarrow> uio \<Rightarrow> bool" where
  "delivered ext sm ds k u u' \<longleftrightarrow> k \<le> length ds
     \<and> uio_data u' = uio_data u @ concat (map (entry_bytes ext sm) (take k ds))
     \<and> uio_resid u' = uio_resid u - int (length (concat (map (entry_bytes ext sm) (take k ds))))
     \<and> 0 \<le> uio_resid u' \<and> (k < length ds \<longrightarrow> uio_resid u' < int (length (entry_bytes ext sm (ds ! k))))"

lemma readdir_loop_delivers:
  assumes "\<And>w n. fst (kp_uiomove K w n) = 0" "\<forall>d \<in> set ds. dir_name sm d \<noteq> None" "0 \<le> uio_resid u"
  shows "\<exists>k u' w. readdir_loop K ext sm ds i u s = Some (0, i + k, u', set_world w s) \<and> delivered ext sm ds k u u'"
  using assms(2,3)
proof (induction ds arbitrary: i u s)
  case Nil
  then show ?case by (intro exI [of _ 0] exI [of _ u] exI [of _ "vworld s"]) (simp add: delivered_def)
next
  case (Cons d ds)
  obtain nm where nm: "dir_name sm d = Some nm" using Cons.prems(1) by auto
  let ?p = "dirent_bytes ext (d_qid d) (d_mode d) nm"
  have p: "entry_bytes ext sm d = ?p" by (simp add: entry_bytes_def nm)
  show ?case
  proof (cases "uio_resid u < int (length ?p)")
    case True
    then show ?thesis using nm p Cons.prems(2)
      by (intro exI [of _ 0] exI [of _ u] exI [of _ "vworld s"]) (simp add: delivered_def)
  next
    case False
    obtain k0 w0 where m: "kp_uiomove K (vworld s) (length ?p) = (0, k0, w0)"
      using assms(1) by (metis prod.collapse)
    let ?u = "(uio_advance (length ?p) u)\<lparr>uio_data := uio_data u @ ?p\<rparr>"
    have mv: "uiomove_out K ?p u s = (0, ?u, set_world w0 s)"
      using m False by (simp add: uiomove_out_def Let_def)
    have "0 \<le> uio_resid ?u" using False by (simp add: uio_advance_def)
    from Cons.IH [OF _ this, of "i + 1" "set_world w0 s"] Cons.prems(1)
    obtain k u' w where k: "readdir_loop K ext sm ds (i + 1) ?u (set_world w0 s) = Some (0, i + 1 + k, u', set_world w s)"
        "delivered ext sm ds k ?u u'" by auto
    then show ?thesis using nm p False mv
      by (intro exI [of _ "Suc k"] exI [of _ u'] exI [of _ w]) (auto simp: delivered_def uio_advance_def)
  qed
qed

lemma of_int_unat: "0 \<le> i \<Longrightarrow> i < 2 ^ 32 \<Longrightarrow> unat (of_int i :: u32) = nat i"
proof -
  assume i: "0 \<le> i" "i < 2 ^ 32"
  then have "(of_int i :: u32) = of_nat (nat i)" by (metis of_int_of_nat_eq nat_0_le)
  moreover have "unat (of_nat (nat i) :: u32) = nat i" using i by (simp only: unat_of_nat) (simp add: nat_less_iff)
  ultimately show ?thesis by simp
qed

lemma readdir_cached:
  assumes "vfs_inv unlocked s" "vnode_vtype K vp s = VDIR" "vf_fsnode s vp = Some np" "vf_node s np = Some n"
    and "of_fid (np_openfid n ! OREAD) \<noteq> NOFID" "np_direntries n = Some (ds, sm)" "np_ndirentries n = of_nat (length ds)"
    and "length ds < 2 ^ 32" "\<forall>d \<in> set ds. dir_name sm d \<noteq> None" "\<And>w n. fst (kp_uiomove K w n) = 0"
    and "0 < uio_offset u" "uio_offset u \<le> int (length ds)" "0 < uio_resid u"
  shows "\<exists>k u' s' n'. vnop_readdir_9p fuel K vp False ext eof u s = Some (0, Some (int k), False, u', s')
    \<and> delivered ext sm (drop (nat (uio_offset u)) ds) k u u' \<and> uio_offset u' = uio_offset u + int k
    \<and> goes unlocked 0 s s' \<and> vf_node s' np = Some n' \<and> np_direntries n' = Some (ds, sm) \<and> np_ndirentries n' = np_ndirentries n
    \<and> np_openfid n' = np_openfid n"
proof -
  let ?off = "nat (uio_offset u)" and ?L = "only np NODE_LCK_EXCLUSIVE"
  let ?lk = "\<lambda>n. n\<lparr>np_lck := Exclusive, np_lcktype := NODE_LCK_EXCLUSIVE\<rparr>"
  let ?un = "\<lambda>n. n\<lparr>np_lcktype := NODE_LCK_NONE, np_lck := Unlocked\<rparr>"
  have unl: "np_lck n = Unlocked" using inv_node(2) [OF assms(1,4)] by (simp add: lock_is_def)
  have l: "nlock_9p np NODE_LCK_EXCLUSIVE s = Some (upd_node np ?lk s)" using assms(4) unl by (simp add: nlock_9p_def)
  obtain s1 where "nlock_9p np NODE_LCK_EXCLUSIVE s = Some s1" "goes ?L 0 s s1"
    by (rule lock_vnode [OF assms(1,3), of NODE_LCK_EXCLUSIVE]) auto
  then have g1: "goes ?L 0 s (upd_node np ?lk s)" using l by simp
  have n1: "vf_node (upd_node np ?lk s) np = Some (?lk n)" using assms(4) by (simp add: upd_node_def)
  have i0: "unat (of_int (uio_offset u) :: u32) = ?off" using assms(8,11,12) by (intro of_int_unat) auto
  have nd: "unat (np_ndirentries n) = length ds" using assms(7,8) by (simp add: unat_of_nat)
  have names: "\<forall>d \<in> set (drop ?off ds). dir_name sm d \<noteq> None" using assms(9) by (auto dest: in_set_dropD)
  have "0 \<le> uio_resid u" using assms(13) by simp
  from readdir_loop_delivers [OF assms(10) names this, of ext ?off "upd_node np ?lk s"]
  obtain k u' w where r: "readdir_loop K ext sm (drop ?off ds) ?off u (upd_node np ?lk s)
      = Some (0, ?off + k, u', set_world w (upd_node np ?lk s))" "delivered ext sm (drop ?off ds) k u u'" by blast
  let ?s2 = "set_world w (upd_node np ?lk s)"
  have g2: "goes ?L 0 s ?s2" by (rule goes_trans0 [OF g1 goes_world [OF goes_inv [OF g1]]])
  have n2: "vf_node ?s2 np = Some (?lk n)" using n1 by simp
  have u: "nunlock_9p np ?s2 = Some (upd_node np ?un ?s2)" using n2 by (simp add: nunlock_9p_def)
  obtain s3 where "nunlock_9p np ?s2 = Some s3" "goes unlocked 0 s s3"
    by (rule unlock_vnode [OF g2]) (use n2 in auto)
  then have g3: "goes unlocked 0 s (upd_node np ?un ?s2)" using u by simp
  let ?u = "u'\<lparr>uio_offset := int (?off + k)\<rparr>"
  have "vnop_readdir_9p fuel K vp False ext eof u s = Some (0, Some (int k), False, ?u, upd_node np ?un ?s2)"
    using assms(2,3,5,6,11,13) l n1 i0 nd r(1) n2 u by (simp add: vnop_readdir_9p_def Let_def)
  moreover have "delivered ext sm (drop ?off ds) k u ?u" using r(2) by (auto simp: delivered_def)
  moreover have "vf_node (upd_node np ?un ?s2) np = Some (?un (?lk n))" by (rule upd_node_at [OF n2])
  ultimately show ?thesis using g3 assms(6,11) by auto
qed

end
