(* ===== verification/DirOpProps.thy ===== *)
theory DirOpProps
  imports DirOpProofs VnopsProps
begin

text \<open>
  The properties of creation and of reading directories: the type a file is created with is the type
  it is seen with, and a directory read in pieces is read whole.
\<close>

section \<open>Reading a directory in pieces\<close>

text \<open>
  C20. Reading on in a directory whose entries have been fetched: from the offset of the last call
  the entries are delivered in order and whole, as many as fit the caller's buffer; the new offset
  and the count say how many, so the next call goes on with the first entry that did not fit.
  Nothing is sent to the server, nothing stays locked, and the entries are kept.
\<close>

theorem readdir_resumes:
  assumes "vfs_inv unlocked s" "vnode_vtype K vp s = VDIR" "vf_fsnode s vp = Some np" "vf_node s np = Some n"
    and "of_fid (np_openfid n ! OREAD) \<noteq> NOFID" "np_direntries n = Some (ds, sm)" "np_ndirentries n = of_nat (length ds)"
    and "length ds < 2 ^ 32" "\<forall>d \<in> set ds. dir_name sm d \<noteq> None" "\<And>w n. fst (kp_uiomove K w n) = 0"
    and "0 < uio_offset u" "uio_offset u \<le> int (length ds)" "0 < uio_resid u"
  shows "\<exists>k u' s'. vnop_readdir_9p fuel K vp False ext eof u s = Some (0, Some (int k), False, u', s')
    \<and> delivered ext sm (drop (nat (uio_offset u)) ds) k u u' \<and> uio_offset u' = uio_offset u + int k
    \<and> vfs_inv unlocked s' \<and> vf_fsnode s' = vf_fsnode s \<and> mt_live (vf_mt s') = mt_live (vf_mt s)
    \<and> (\<exists>n'. vf_node s' np = Some n' \<and> np_direntries n' = Some (ds, sm))"
  using readdir_cached [OF assms, of fuel ext eof] by (fastforce simp: goes_def)

definition ex_entries :: "strp Dir list \<times> memory" where
  "ex_entries = ([zero_dir\<lparr>d_name := StrAt 0\<rparr>, zero_dir\<lparr>d_name := StrAt 2\<rparr>], [97, 0, 98, 0])"

definition ex_dir_node :: node_9p where
  "ex_dir_node = (ex_node 1 3 4)\<lparr>np_openfid := \<lparr>of_fid = 8, of_ref = 1\<rparr> # replicate 2 \<lparr>of_fid = NOFID, of_ref = 0\<rparr>,
     np_direntries := Some ex_entries, np_ndirentries := 2\<rparr>"

definition ex_dir_vfs :: "streams vfs" where
  "ex_dir_vfs = (ex_vfs [])\<lparr>vf_node := (vf_node (ex_vfs []))(10 \<mapsto> ex_dir_node)\<rparr>"

lemma ex_dir_inv: "vfs_inv unlocked ex_dir_vfs"
  using fresh_mount_ok
  by (auto simp: vfs_inv_def ex_dir_vfs_def ex_vfs_def ex_dir_node_def ex_node_def new_node_def node_ok_def lock_is_def
      ISSET_def split: if_splits)

text \<open>In the example the second of two entries is read, into a buffer of 100 bytes.\<close>

theorem readdir_resumes_witness:
  "\<exists>u' s'. vnop_readdir_9p 0 slow_kpi 1 False False False \<lparr>uio_resid = 100, uio_offset = 1, uio_data = []\<rparr> ex_dir_vfs
      = Some (0, Some 1, False, u', s') \<and> uio_offset u' = 2 \<and> uio_resid u' = 88"
proof -
  let ?u = "\<lparr>uio_resid = 100, uio_offset = 1, uio_data = []\<rparr>" and ?ds = "fst ex_entries" and ?sm = "snd ex_entries"
  let ?d = "zero_dir\<lparr>d_name := StrAt 2\<rparr>"
  have c: "vnode_vtype slow_kpi 1 ex_dir_vfs = VDIR" "vf_fsnode ex_dir_vfs 1 = Some 10" "vf_node ex_dir_vfs 10 = Some ex_dir_node"
      "of_fid (np_openfid ex_dir_node ! OREAD) \<noteq> NOFID" "np_direntries ex_dir_node = Some (?ds, ?sm)"
      "np_ndirentries ex_dir_node = of_nat (length ?ds)" "length ?ds < 2 ^ 32" "\<forall>d \<in> set ?ds. dir_name ?sm d \<noteq> None"
      "fst (kp_uiomove slow_kpi w n) = 0" for w n
    by (simp_all add: slow_kpi_def ex_dir_vfs_def ex_vfs_def ex_dir_node_def ex_entries_def dir_name_def)
  obtain k u' s' where k: "vnop_readdir_9p 0 slow_kpi 1 False False False ?u ex_dir_vfs = Some (0, Some (int k), False, u', s')"
      "delivered False ?sm (drop (nat (uio_offset ?u)) ?ds) k ?u u'" "uio_offset u' = uio_offset ?u + int k"
    using readdir_resumes [OF ex_dir_inv c, of ?u 0 False False] by (auto simp: ex_entries_def)
  have dr: "drop (nat (uio_offset ?u)) ?ds = [?d]" by (simp add: ex_entries_def)
  have len: "length (entry_bytes False ?sm ?d) = 12"
    by (simp add: entry_bytes_def dirent_bytes_def dir_name_def ex_entries_def cstr_at_def cstr_def DIRENT32_LEN_def Let_def)
  have "k = 1"
  proof (rule ccontr)
    assume "k \<noteq> 1"
    then have "k = 0" using k(2) unfolding dr by (simp add: delivered_def)
    then show False using k(2) len unfolding dr by (auto simp: delivered_def)
  qed
  then show ?thesis using k len unfolding dr by (auto simp: delivered_def)
qed

section \<open>The type of a created file\<close>

text \<open>
  C34. The mode and the extension string that a creation sends describe the type to create: when the
  server's entry has that mode, that extension and a directory's qid just for directories,
  \<open>dirvtype_9p\<close> finds the same type in it, and for devices the same device number. Only a socket is
  seen as a regular file.
\<close>

theorem created_type_round_trip:
  assumes "create_args vap target = Some (mode, perm, ext)"
    and "d_mode d = perm" "q_type (d_qid d) AND QTDIR \<noteq> 0 \<longleftrightarrow> vc_type vap = VDIR"
    and "d_ext d = StrAt q" "cstr_at sm q = ext"
  shows "dirvtype_9p d (Some sm) True = Some (if vc_type vap = VSOCK then VREG else vc_type vap,
     if vc_type vap = VBLK \<or> vc_type vap = VCHR then vc_rdev vap else 0)"
proof -
  let ?p = "vc_mode vap AND 0x1FF"
  have bits: "ISSET (?p OR m) k = ISSET m k" "ISSET ?p k = False" if "k AND 0x1FF = 0" for m k
  proof -
    have "?p AND k = 0" using that by (metis and.assoc and.commute and_zero_eq)
    then show "ISSET (?p OR m) k = ISSET m k" "ISSET ?p k = False"
      by (simp_all add: ISSET_def bit.conj_disj_distrib2)
  qed
  have m: "ISSET (?p OR m) DMSYMLINK = ISSET m DMSYMLINK" "ISSET (?p OR m) DMNAMEDPIPE = ISSET m DMNAMEDPIPE"
      "ISSET (?p OR m) DMDEVICE = ISSET m DMDEVICE" "\<not> ISSET ?p DMSYMLINK" "\<not> ISSET ?p DMNAMEDPIPE" "\<not> ISSET ?p DMDEVICE" for m
    by (simp_all add: bits)
  have k: "ISSET DMSYMLINK DMSYMLINK" "\<not> ISSET DMDIR DMSYMLINK" "\<not> ISSET DMDEVICE DMSYMLINK" "\<not> ISSET DMNAMEDPIPE DMSYMLINK"
      "\<not> ISSET DMSOCKET DMSYMLINK" "ISSET DMNAMEDPIPE DMNAMEDPIPE" "\<not> ISSET DMDIR DMNAMEDPIPE" "\<not> ISSET DMDEVICE DMNAMEDPIPE"
      "\<not> ISSET DMSOCKET DMNAMEDPIPE" "ISSET DMDEVICE DMDEVICE" "\<not> ISSET DMDIR DMDEVICE" "\<not> ISSET DMSOCKET DMDEVICE"
    by (simp_all add: ISSET_def)
  have c: "of_char (CHR ''b'') \<noteq> (of_char (CHR ''c'') :: byte)" by simp
  show ?thesis
  proof (cases "vc_type vap = VBLK \<or> vc_type vap = VCHR")
    case True
    then have e: "ext = device_ext (vc_type vap) (vc_rdev vap)" "perm = ?p OR DMDEVICE"
      using assms(1) by (auto simp: create_args_def Let_def)
    have r: "sscanf_cuu (cstr_at sm q) = Some (if vc_type vap = VBLK then of_char (CHR ''b'') else of_char (CHR ''c''),
        of_int (sint (vc_rdev vap) div 2 ^ 20), of_int (sint (vc_rdev vap) mod 2 ^ 20))"
      unfolding assms(5) e(1) by (rule device_ext_read)
    show ?thesis using True assms(2-4) e(2) c
      by (auto simp: dirvtype_9p_def Let_def m k r rdev_parts simp del: power_numeral)
  next
    case False
    have "d_mode d = (case vc_type vap of VDIR \<Rightarrow> ?p OR DMDIR | VFIFO \<Rightarrow> ?p OR DMNAMEDPIPE | VSOCK \<Rightarrow> ?p OR DMSOCKET
        | VLNK \<Rightarrow> ?p OR DMSYMLINK | _ \<Rightarrow> ?p)" "vc_type vap \<in> {VREG, VDIR, VFIFO, VSOCK, VLNK}"
      using assms(1,2) False by (cases "vc_type vap"; simp add: create_args_def Let_def)+
    then show ?thesis using assms(3) by (cases "vc_type vap") (simp_all add: dirvtype_9p_def Let_def m k)
  qed
qed

text \<open>A character device 4, 7 and a socket.\<close>

theorem created_type_round_trip_witness:
  "dirvtype_9p (zero_dir\<lparr>d_mode := 0x8001A4, d_ext := StrAt 0\<rparr>) (Some (device_ext VCHR 0x400007 @ [0])) True = Some (VCHR, 0x400007)
   \<and> dirvtype_9p (zero_dir\<lparr>d_mode := 0x1001A4, d_ext := StrAt 0\<rparr>) (Some [0]) True = Some (VREG, 0)"
proof -
  let ?v = "\<lambda>t. \<lparr>vc_type = t, vc_mode = 0x1A4, vc_rdev = 0x400007, vc_vaflags = 0\<rparr>"
  have "cstr_at (device_ext VCHR 0x400007 @ [0]) 0 = device_ext VCHR 0x400007" 
    by (simp add: cstr_at_def device_ext_def dec_int_def dec_nat.simps cstr_def)
  then have "dirvtype_9p (zero_dir\<lparr>d_mode := 0x8001A4, d_ext := StrAt 0\<rparr>) (Some (device_ext VCHR 0x400007 @ [0])) True
      = Some (VCHR, 0x400007)"
    using created_type_round_trip [of "?v VCHR" "[]" 2 "0x8001A4" "device_ext VCHR 0x400007"
        "zero_dir\<lparr>d_mode := 0x8001A4, d_ext := StrAt 0\<rparr>" 0 "device_ext VCHR 0x400007 @ [0]"]
    by (simp add: create_args_def ISSET_def zero_dir_def zero_qid_def)
  moreover have "dirvtype_9p (zero_dir\<lparr>d_mode := 0x1001A4, d_ext := StrAt 0\<rparr>) (Some [0]) True = Some (VREG, 0)"
    using created_type_round_trip [of "?v VSOCK" "[]" 2 "0x1001A4" "[]" "zero_dir\<lparr>d_mode := 0x1001A4, d_ext := StrAt 0\<rparr>" 0 "[0]"]
    by (simp add: create_args_def ISSET_def zero_dir_def zero_qid_def cstr_at_def cstr_def)
  ultimately show ?thesis by simp
qed

end
