(* ===== verification/FileServer.thy ===== *)
theory FileServer
  imports VnopsProofs ProtoRuns
begin

text \<open>
  The file that the client is about: an abstract file as a list of bytes, a server that keeps one under
  a fid, and what one call of the client does to it.
\<close>

section \<open>A file\<close>

text \<open>Writing past the end fills the gap with zeros.\<close>

definition put_at :: "byte list \<Rightarrow> nat \<Rightarrow> byte list \<Rightarrow> byte list" where
  "put_at f off d = (if d = [] then f
     else take off (f @ replicate (off - length f) 0) @ d @ drop (off + length d) f)"

definition get_at :: "byte list \<Rightarrow> nat \<Rightarrow> nat \<Rightarrow> byte list" where
  "get_at f off n = take n (drop off f)"

lemma put_at_Nil [simp]: "put_at f off [] = f"
  by (simp add: put_at_def)

lemma put_at_append: "put_at (put_at f off a) (off + length a) b = put_at f off (a @ b)"
proof (cases "a = [] \<or> b = []")
  case False
  have l: "length (take off (f @ replicate (off - length f) 0)) = off" by simp
  have "put_at f off a @ replicate (off + length a - length (put_at f off a)) 0 = put_at f off a"
    using False by (simp add: put_at_def)
  then show ?thesis using False l
    by (simp add: put_at_def add.commute add.left_commute)
qed auto

lemma get_put_at: "get_at (put_at f off d) off (length d) = d"
  by (simp add: get_at_def put_at_def)

lemma get_at_append: "get_at f off a @ get_at f (off + a) b = get_at f off (a + b)"
  by (simp add: get_at_def take_add add.commute)

lemma length_get_at: "length (get_at f off n) = min n (length f - off)"
  by (simp add: get_at_def min.commute)

section \<open>What a call leaves alone\<close>

text \<open>Anything that receiving does not change is after a call what it was after the sending.\<close>

lemma recv_loop_keeps:
  assumes "recv_loop env so w buf b n t = Some (e, buf', w')"
    and "\<And>w n e d w'. ev_receive env so w n = (e, d, w') \<Longrightarrow> kept w' = kept w"
  shows "kept w' = kept w"
  using assms
proof (induction env so w buf b n t rule: recv_loop.induct)
  case (1 env so w buf b n t)
  note u = recv_loop.simps [of env so w buf b n t]
  show ?case
  proof (cases "t < n")
    case False
    then show ?thesis using "1.prems"(1) u by simp
  next
    case True
    obtain e1 d w1 where r: "ev_receive env so w (n - t) = (e1, d, w1)" by (metis prod_cases3)
    note w1 = "1.prems"(2) [OF r]
    obtain b1 where b1: "wrn buf (b + t) d = Some b1"
      using "1.prems"(1) u True r by (cases "wrn buf (b + t) d") auto
    show ?thesis
    proof (cases "e1 \<noteq> 0 \<or> length d = 0")
      case stop: True
      then show ?thesis using "1.prems"(1) u r b1 w1 True by auto
    next
      case False
      then have "recv_loop env so w1 b1 b n (t + length d) = Some (e, buf', w')" using "1.prems"(1) u r b1 True by simp
      then show ?thesis using "1.IH" [OF True r [symmetric] refl b1] False "1.prems"(2) w1 by simp
    qed
  qed
qed

lemma recvmsg_keeps:
  assumes "recvmsg_9p env so msize dotu m = Some (e, rx, p, m')"
    and "\<And>w n e d w'. ev_receive env so w n = (e, d, w') \<Longrightarrow> kept w' = kept w"
    and "\<And>w n ok w'. ev_malloc env w n = (ok, w') \<Longrightarrow> kept w' = kept w"
  shows "kept (mt_world m') = kept (mt_world m)"
proof -
  have n: "recvn_9p env so buf b n m1 = Some (e1, buf', m2) \<Longrightarrow> kept (mt_world m2) = kept (mt_world m1)"
    for buf b n m1 e1 buf' m2
    using recv_loop_keeps [where kept = kept, OF _ assms(2)] by (auto simp: recvn_9p_def split: bind_splits)
  have a: "malloc_9p env n m1 = (q, m2) \<Longrightarrow> kept (mt_world m2) = kept (mt_world m1)" for n m1 q m2
    using assms(3) by (auto simp: malloc_9p_def split: prod.splits if_splits)
  show ?thesis using assms(1)
    by (auto simp: recvmsg_9p_def Let_def free_9p_def dest!: n a split: bind_splits if_splits option.splits prod.splits)
qed

lemma rpc_keeps:
  assumes "rpc_9p env tx rxi keep m = Some (e, rx, p, m')" "printable tx" "dotu = ISSET (mt_flags m) F_DOTU"
    and "wire_size dotu tx \<le> unat (mt_msize m)" "unat (mt_msize m) \<le> length (mt_rpcbuf m)"
    and "sink_ok env (mt_so m) sent"
    and "\<And>w n e d w'. ev_receive env (mt_so m) w n = (e, d, w') \<Longrightarrow> kept w' = kept w"
    and "\<And>w n ok w'. ev_malloc env w n = (ok, w') \<Longrightarrow> kept w' = kept w"
    and "\<And>buf w. take (wire_size dotu tx) buf = wire dotu (tagged m tx)
        \<Longrightarrow> send_loop env (mt_so m) (mt_world m) buf (wire_size dotu tx) 0 = Some (0, w) \<Longrightarrow> kept w = x"
  shows "kept (mt_world m') = x"
proof -
  have lt: "wire_size dotu tx < 2 ^ 32" using assms(4) unat_u32_less [of "mt_msize m"] by simp
  let ?buf = "wire dotu (tagged m tx) @ drop (wire_size dotu tx) (mt_rpcbuf m)"
  let ?m1 = "printed m tx ?buf"
  have m1: "mt_so ?m1 = mt_so m" "mt_msize ?m1 = mt_msize m" "mt_world ?m1 = mt_world m" by (simp_all add: printed_def)
  have lw: "length (wire dotu (tagged m tx)) = wire_size dotu tx" by (simp add: length_wire wire_size_tagged)
  obtain w1 where w1: "send_loop env (mt_so m) (mt_world m) ?buf (wire_size dotu tx) 0 = Some (0, w1)"
    using send_loop_sink [OF assms(6), of 0 "wire_size dotu tx" ?buf "mt_world m"] lw by auto
  have k: "kept w1 = x" by (rule assms(9) [OF _ w1]) (simp add: lw)
  let ?m2 = "?m1\<lparr>mt_world := w1\<rparr>"
  have s: "sendn_9p env (mt_so ?m1) ?buf (wire_size dotu tx) ?m1 = Some (0, ?m2)" using w1 by (simp add: sendn_9p_def m1)
  have "\<not> unat (mt_msize m) < wire_size dotu tx" using assms(4) by simp
  then have "kept (mt_world m') = kept (mt_world ?m2)"
    using assms(1) s unfolding rpc_unfold [OF assms(2) lt assms(5,3)] Let_def
    by (auto simp: rpcunlock_def free_9p_def m1 dest!: recvmsg_keeps [where kept = kept, OF _ assms(7,8)]
        split: bind_splits if_splits)
  then show ?thesis using k by simp
qed

section \<open>A server with a file\<close>

text \<open>The reply \<open>r\<close> to a request on a file with the contents \<open>f\<close>, which has the contents \<open>f'\<close> afterwards.\<close>

definition file_reply :: "tx_call \<Rightarrow> byte list \<Rightarrow> byte list \<Rightarrow> tx_call \<Rightarrow> bool" where
  "file_reply tx f f' r \<longleftrightarrow> printable r
     \<and> (fc_type tx = Twrite \<longrightarrow> f' = put_at f (unat (fc_offset tx)) (take (unat (fc_count tx)) (fc_data tx))
         \<and> fc_type r = Rwrite \<and> fc_count r = fc_count tx)
     \<and> (fc_type tx = Tread \<longrightarrow> f' = f \<and> fc_type r = Rread
         \<and> (let d = get_at f (unat (fc_offset tx)) (unat (fc_count tx)) in fc_count r = of_nat (length d) \<and> fc_data r = d))"

text \<open>
  \<open>file w\<close> is the file that the server on the socket \<open>so\<close> has open as \<open>fid\<close>. Each read and each write of
  it is answered with all that was asked for, and nothing else changes it. The kernel of the client has the
  memory it is asked for, and its other calls have nothing to do with the server.
\<close>

definition apart :: "('w \<Rightarrow> byte list) \<Rightarrow> ('w \<Rightarrow> byte list) \<Rightarrow> 'w \<Rightarrow> 'w \<Rightarrow> bool" where
  "apart pending file w w' \<longleftrightarrow> pending w' = pending w \<and> file w' = file w"

definition serves :: "'w kpi \<Rightarrow> nat option \<Rightarrow> u32 \<Rightarrow> ('w \<Rightarrow> byte list) \<Rightarrow> ('w \<Rightarrow> byte list) \<Rightarrow> bool" where
  "serves K so fid pending file \<longleftrightarrow> (let env = k_env (kp_kern K) in
     kern_ok (kp_kern K) \<and> (\<exists>sent. sink_ok env so sent) \<and> stream_ok env so pending
     \<and> (\<forall>w n. \<exists>w'. ev_malloc env w n = (True, w') \<and> apart pending file w w')
     \<and> (\<forall>w n e d w'. ev_receive env so w n = (e, d, w') \<longrightarrow> file w' = file w)
     \<and> (\<forall>w n. \<exists>k w'. kp_uiomove K w n = (0, k, w') \<and> apart pending file w w')
     \<and> (\<forall>c w. apart pending file w (snd (kp_call K c w)))
     \<and> (\<forall>dotu tx buf w w'. printable tx \<longrightarrow> fc_fid tx = fid \<longrightarrow> fc_type tx \<in> {Tread, Twrite} \<longrightarrow> wire_size dotu tx \<le> MAXMSG
          \<longrightarrow> take (wire_size dotu tx) buf = wire dotu tx \<longrightarrow> pending w = []
          \<longrightarrow> send_loop env so w buf (wire_size dotu tx) 0 = Some (0, w')
          \<longrightarrow> (\<exists>r. file_reply tx (file w) (file w') r \<and> pending w' = wire dotu r)))"

section \<open>One call\<close>

lemma send_loop_cong:
  assumes "take n buf' = take n buf" "n \<le> length buf" "n \<le> length buf'"
  shows "send_loop env so w buf' n t = send_loop env so w buf n t"
  using assms
proof (induction env so w buf n t rule: send_loop.induct)
  case (1 env so w buf n t)
  show ?case
  proof (cases "t < n")
    case True
    have "take (n - t) (drop t buf') = take (n - t) (drop t buf)"
      using "1.prems"(1) True by (metis drop_take)
    then have r: "rdn buf' t (n - t) = rdn buf t (n - t)" "rdn buf t (n - t) = Some (take (n - t) (drop t buf))"
      using "1.prems"(2,3) True by (simp_all add: rdn_def)
    show ?thesis
      using True r "1.IH" [OF True r(2)] "1.prems"
      by (auto simp: send_loop.simps [of env so w _ n t] split: prod.split)
  qed (simp add: send_loop.simps [of env so w _ n t])
qed

text \<open>Between calls nothing is pending.\<close>

definition ready :: "nat option \<Rightarrow> ('w \<Rightarrow> byte list) \<Rightarrow> 'w mount \<Rightarrow> bool" where
  "ready so pending m \<longleftrightarrow> mount_ok m \<and> mt_so m = so \<and> pending (mt_world m) = [] \<and> 24 \<le> unat (mt_msize m)"

lemma served_request:
  assumes "serves K so fid pending file" "ready so pending m" "printable tx" "fc_fid tx = fid" "fc_type tx \<in> {Tread, Twrite}"
    and "wire_size (ISSET (mt_flags m) F_DOTU) tx \<le> unat (mt_msize m)"
    and "fc_type tx = Tread \<Longrightarrow> 24 + unat (fc_count tx) \<le> unat (mt_msize m)"
  obtains r f where "answered (k_env (kp_kern K)) pending m tx r []" "file_reply tx (file (mt_world m)) f r"
    "\<And>buf w. take (wire_size (ISSET (mt_flags m) F_DOTU) tx) buf = wire (ISSET (mt_flags m) F_DOTU) (tagged m tx)
       \<Longrightarrow> send_loop (k_env (kp_kern K)) (mt_so m) (mt_world m) buf (wire_size (ISSET (mt_flags m) F_DOTU) tx) 0 = Some (0, w)
       \<Longrightarrow> file w = f"
proof -
  let ?d = "ISSET (mt_flags m) F_DOTU" and ?env = "k_env (kp_kern K)" and ?t = "tagged m tx"
  note s = assms(1) [unfolded serves_def Let_def]
  have m: "mount_ok m" "mt_so m = so" "pending (mt_world m) = []" "unat (mt_msize m) \<le> MAXMSG"
    using assms(2) by (simp_all add: ready_def mount_ok_def)
  have t: "printable ?t" "fc_fid ?t = fid" "fc_type ?t = fc_type tx" "wire_size ?d ?t = wire_size ?d tx"
      "file_reply ?t = file_reply tx"
    using assms(3,4) printable_tagged [OF assms(3), of m] wire_size_tagged [of ?d m tx]
    by (simp_all add: tagged_def file_reply_def fun_eq_iff)
  obtain sent where sent: "sink_ok ?env so sent" using s by blast
  have lw: "length (wire ?d ?t) = wire_size ?d tx" by (simp add: length_wire wire_size_tagged)
  have served: "\<exists>r. file_reply tx (file (mt_world m)) (file w) r \<and> pending w = wire ?d r"
    if "take (wire_size ?d tx) buf = wire ?d ?t" "send_loop ?env so (mt_world m) buf (wire_size ?d tx) 0 = Some (0, w)" for buf w
  proof -
    have law: "printable tx \<longrightarrow> fc_fid tx = fid \<longrightarrow> fc_type tx \<in> {Tread, Twrite} \<longrightarrow> wire_size dotu tx \<le> MAXMSG
          \<longrightarrow> take (wire_size dotu tx) buf = wire dotu tx \<longrightarrow> pending w = []
          \<longrightarrow> send_loop ?env so w buf (wire_size dotu tx) 0 = Some (0, w')
          \<longrightarrow> (\<exists>r. file_reply tx (file w) (file w') r \<and> pending w' = wire dotu r)" for dotu tx buf w w'
      using s by blast
    show ?thesis using law [of ?t ?d buf "mt_world m" w] t that m(3,4) assms(5,6) by auto
  qed
  obtain w1 where w1: "send_loop ?env so (mt_world m) (wire ?d ?t) (wire_size ?d tx) 0 = Some (0, w1)"
    using send_loop_sink [OF sent, of 0 "wire_size ?d tx" "wire ?d ?t" "mt_world m"] lw by auto
  then obtain r where r: "file_reply tx (file (mt_world m)) (file w1) r" "pending w1 = wire ?d r"
    using served [of "wire ?d ?t" w1] lw by auto
  have same: "file w = file w1 \<and> pending w = wire ?d r"
    if "take (wire_size ?d tx) buf = wire ?d ?t" "send_loop ?env so (mt_world m) buf (wire_size ?d tx) 0 = Some (0, w)" for buf w
  proof -
    have "wire_size ?d tx \<le> length buf" using that(1) lw by (metis length_take min.bounded_iff order_refl)
    then have "send_loop ?env so (mt_world m) buf (wire_size ?d tx) 0
        = send_loop ?env so (mt_world m) (wire ?d ?t) (wire_size ?d tx) 0"
      using that(1) lw by (intro send_loop_cong) simp_all
    then show ?thesis using w1 that(2) r(2) by simp
  qed
  have "wire_strings ?d r = []" "wire_size ?d r \<le> unat (mt_msize m)"
    using r(1) assms(2,5,7) by (auto simp: file_reply_def wire_strings_def wire_size_def wire_payload_def ready_def
        length_get_at Let_def)
  then have "answered ?env pending m tx r []"
    unfolding answered_def Let_def using s m(2) sent r(1) same by (fastforce simp: strings_fit_def apart_def file_reply_def kern_ok_def)
  then show ?thesis using that r(1) same m(2) by simp
qed

lemma serves_kern: "serves K so fid pending file \<Longrightarrow> kern_ok (kp_kern K)"
  by (simp add: serves_def Let_def)

lemma served_keeps:
  assumes "serves K so fid pending file" "ready so pending m" "printable tx"
    and "wire_size (ISSET (mt_flags m) F_DOTU) tx \<le> unat (mt_msize m)"
    and "\<And>buf w. take (wire_size (ISSET (mt_flags m) F_DOTU) tx) buf = wire (ISSET (mt_flags m) F_DOTU) (tagged m tx)
       \<Longrightarrow> send_loop (k_env (kp_kern K)) (mt_so m) (mt_world m) buf (wire_size (ISSET (mt_flags m) F_DOTU) tx) 0 = Some (0, w)
       \<Longrightarrow> file w = f"
    and "rpc_9p (k_env (kp_kern K)) tx rxi keep m = Some (e, rx, p, m')"
  shows "file (mt_world m') = f"
proof -
  note s = assms(1) [unfolded serves_def Let_def]
  have m: "mt_so m = so" "unat (mt_msize m) \<le> length (mt_rpcbuf m)" using assms(2) by (simp_all add: ready_def mount_ok_def)
  obtain sent where sent: "sink_ok (k_env (kp_kern K)) (mt_so m) sent" using s m(1) by blast
  have recv: "ev_receive (k_env (kp_kern K)) (mt_so m) w n = (e, d, w') \<Longrightarrow> file w' = file w" for w n e d w'
    using s m(1) by blast
  have mal: "ev_malloc (k_env (kp_kern K)) w n = (ok, w') \<Longrightarrow> file w' = file w" for w n ok w'
    using s unfolding apart_def by (metis prod.inject)
  show ?thesis
    by (rule rpc_keeps [where kept = "file", OF assms(6,3) refl assms(4) m(2) sent recv mal assms(5)])
qed

text \<open>A write that fits a message changes the file, and is counted in full.\<close>

lemma vwrite_served:
  assumes "serves K so fid pending file" "vfs_inv L s" "ready so pending (vf_mt s)"
    and "unat n \<le> length p" "24 + unat n \<le> unat (mt_msize (vf_mt s))"
  shows "\<exists>m'. vwrite K fid p n off s = Some (0, n, p, s\<lparr>vf_mt := m'\<rparr>) \<and> after (vf_mt s) 0 m' \<and> ready so pending m'
    \<and> mt_msize m' = mt_msize (vf_mt s) \<and> file (mt_world m') = put_at (file (vworld s)) (unat off) (take (unat n) p)"
proof -
  let ?m = "vf_mt s" and ?tx = "(ktx K s)\<lparr>fc_type := Twrite, fc_fid := fid, fc_offset := off, fc_count := n, fc_data := p\<rparr>"
  have st: "stack_ok (ktx K s)" using kern_stack [OF serves_kern [OF assms(1)]] by simp
  have "unat (mt_msize ?m - IOHDRSZ) = unat (mt_msize ?m) - 24" using assms(5) by (simp add: unat_sub word_le_nat_alt)
  then have "unat n \<le> unat (mt_msize ?m - IOHDRSZ)" using assms(5) by linarith
  then have c: "min n (mt_msize ?m - IOHDRSZ) = n" by (simp add: min_def word_le_nat_alt)
  have pr: "printable ?tx" using st assms(4) by (simp add: printable_def stack_ok_def msg_types_def)
  have sz: "wire_size d ?tx \<le> unat (mt_msize ?m)" for d using assms(4,5) by (simp add: wire_size_def wire_payload_def)
  obtain r f where r: "answered (k_env (kp_kern K)) pending ?m ?tx r []" "file_reply ?tx (file (vworld s)) f r"
    "\<And>buf w. take (wire_size (dotu_of s) ?tx) buf = wire (dotu_of s) (tagged ?m ?tx)
       \<Longrightarrow> send_loop (k_env (kp_kern K)) (mt_so ?m) (vworld s) buf (wire_size (dotu_of s) ?tx) 0 = Some (0, w) \<Longrightarrow> file w = f"
    by (rule served_request [OF assms(1,3) pr _ _ sz]) simp_all
  have rr: "fc_type r = Rwrite" "fc_count r = n" "f = put_at (file (vworld s)) (unat off) (take (unat n) p)"
    using r(2) by (simp_all add: file_reply_def)
  have ok: "mount_ok ?m" "24 \<le> unat (mt_msize ?m)" "mt_so ?m = so" using assms(3) by (simp_all add: ready_def)
  have an: "answered (k_env (kp_kern K)) pending ?m ((ktx K s)\<lparr>fc_type := Twrite, fc_fid := fid, fc_offset := off,
      fc_count := min n (mt_msize ?m - IOHDRSZ), fc_data := p\<rparr>) r []" using r(1) by (simp only: c)
  obtain m' where m': "write_9p (k_env (kp_kern K)) (ktx K s) (krx K s) fid p n off ?m = Some (0, n, p, m')"
      "after ?m 0 m'" "mt_msize m' = mt_msize ?m" "pending (mt_world m') = []"
    using write_answered [OF an ok(1) st ok(2) assms(4) rr(1), of "krx K s"] unfolding rr(2) by blast
  obtain e rx q m1 where rpc: "rpc_9p (k_env (kp_kern K)) ?tx (krx K s) True ?m = Some (e, rx, q, m1)" "mt_world m' = mt_world m1"
    using m'(1) c by (auto simp: write_9p_def rdwr_9p_def Let_def free_9p_def split: bind_splits if_splits)
  have "file (mt_world m1) = f" by (rule served_keeps [OF assms(1,3) pr sz r(3) rpc(1)])
  with m' rpc(2) rr(3) ok(2,3) show ?thesis
    by (intro exI [of _ m']) (auto simp: vwrite_def kwrite_def ready_def after_def)
qed

text \<open>A read that fits a message gives what the file has there.\<close>

lemma vread_served:
  fixes off :: u64 and s :: "'w vfs"
  assumes "serves K so fid pending file" "vfs_inv L s" "ready so pending (vf_mt s)"
    and "unat n \<le> length p" "24 + unat n \<le> unat (mt_msize (vf_mt s))"
  defines "d \<equiv> get_at (file (vworld s)) (unat off) (unat n)"
  shows "\<exists>m'. vread K fid p n off s = Some (0, of_nat (length d), d @ drop (length d) p, s\<lparr>vf_mt := m'\<rparr>)
    \<and> after (vf_mt s) 0 m' \<and> ready so pending m' \<and> mt_msize m' = mt_msize (vf_mt s) \<and> file (mt_world m') = file (vworld s)"
proof -
  let ?m = "vf_mt s" and ?tx = "(ktx K s)\<lparr>fc_type := Tread, fc_fid := fid, fc_offset := off, fc_count := n\<rparr>"
  have st: "stack_ok (ktx K s)" using kern_stack [OF serves_kern [OF assms(1)]] by simp
  have "unat (mt_msize ?m - IOHDRSZ) = unat (mt_msize ?m) - 24" using assms(5) by (simp add: unat_sub word_le_nat_alt)
  then have "unat n \<le> unat (mt_msize ?m - IOHDRSZ)" using assms(5) by linarith
  then have c: "min n (mt_msize ?m - IOHDRSZ) = n" by (simp add: min_def word_le_nat_alt)
  have pr: "printable ?tx" using st by (intro small_printable) (simp_all add: stack_ok_def)
  have ok: "mount_ok ?m" "23 \<le> unat (mt_msize ?m)" "mt_so ?m = so" "24 \<le> unat (mt_msize ?m)"
    using assms(3) by (simp_all add: ready_def)
  have sz: "wire_size x ?tx \<le> unat (mt_msize ?m)" for x using ok(2) by (simp add: wire_size_fixed)
  obtain r f where r: "answered (k_env (kp_kern K)) pending ?m ?tx r []" "file_reply ?tx (file (vworld s)) f r"
    "\<And>buf w. take (wire_size (dotu_of s) ?tx) buf = wire (dotu_of s) (tagged ?m ?tx)
       \<Longrightarrow> send_loop (k_env (kp_kern K)) (mt_so ?m) (vworld s) buf (wire_size (dotu_of s) ?tx) 0 = Some (0, w) \<Longrightarrow> file w = f"
    by (rule served_request [OF assms(1,3) pr _ _ sz]) (use assms(5) in simp_all)
  have l: "length d \<le> unat n" by (simp add: d_def length_get_at)
  then have u: "unat (of_nat (length d) :: u32) = length d" using order_le_less_trans [OF l unat_u32_less [of n]] by (intro unat_of_nat_small) simp
  have rr: "fc_type r = Rread" "fc_count r = of_nat (length d)" "fc_data r = d" "f = file (vworld s)"
    using r(2) by (simp_all add: file_reply_def d_def Let_def)
  have le: "fc_count r \<le> min n (mt_msize ?m - IOHDRSZ)" using l u c rr(2) by (simp add: word_le_nat_alt)
  have an: "answered (k_env (kp_kern K)) pending ?m ((ktx K s)\<lparr>fc_type := Tread, fc_fid := fid, fc_offset := off,
      fc_count := min n (mt_msize ?m - IOHDRSZ)\<rparr>) r []" using r(1) by (simp only: c)
  obtain m' where m': "read_9p (k_env (kp_kern K)) (ktx K s) (krx K s) fid p n off ?m = Some (0, of_nat (length d), d @ drop (length d) p, m')"
      "after ?m 0 m'" "mt_msize m' = mt_msize ?m" "pending (mt_world m') = []"
    using read_answered [OF an ok(1) st ok(2) assms(4) rr(1) le, of "krx K s"] unfolding rr(2,3) u by auto
  obtain e rx q m1 where rpc: "rpc_9p (k_env (kp_kern K)) ?tx (krx K s) True ?m = Some (e, rx, q, m1)" "mt_world m' = mt_world m1"
    using m'(1) c by (auto simp: read_9p_def rdwr_9p_def Let_def free_9p_def split: bind_splits if_splits)
  have "file (mt_world m1) = f" by (rule served_keeps [OF assms(1,3) pr sz r(3) rpc(1)])
  with m' rpc(2) rr(4) ok(3,4) show ?thesis
    by (intro exI [of _ m']) (auto simp: vread_def kread_def ready_def after_def)
qed

end
