(* ===== verification/FileRuns.thy ===== *)
theory FileRuns
  imports FileServer
begin

text \<open>
  The loops of \<open>nread_9p\<close> and \<open>nwrite_9p\<close> over a server that keeps a file: piece by piece they
  read and write it as one.
\<close>

section \<open>Pieces\<close>

lemma piece:
  fixes sz :: u32
  assumes "0 < r" "0 < unat sz" "unat sz < 2 ^ 31"
  defines "k \<equiv> min (nat r) (unat sz)"
  shows "sint (of_int (min r (uint sz)) :: u32) = int k" "unat (of_int (int k) :: u32) = k" "0 < k"
    "of_int (min r (uint sz)) = (of_int (int k) :: u32)"
proof -
  have "uint sz = int (unat sz)" by simp
  then have m: "min r (uint sz) = int k" using assms(1) unfolding k_def by linarith
  have lt: "k < 2 ^ 31" using assms(3) by (simp add: k_def)
  show "sint (of_int (min r (uint sz)) :: u32) = int k" unfolding m of_int_of_nat_eq by (rule sint_of_nat_small [OF lt])
  show "unat (of_int (int k) :: u32) = k" unfolding of_int_of_nat_eq using lt by (intro unat_of_nat_small) simp
  show "0 < k" using assms(1,2) by (simp add: k_def)
  show "of_int (min r (uint sz)) = (of_int (int k) :: u32)" by (simp only: m)
qed

lemma unat_offset: "0 \<le> off \<Longrightarrow> off < 2 ^ 63 \<Longrightarrow> unat (of_int off :: u64) = nat off"
  by (simp add: unat_eq_nat_uint uint_word_of_int)

lemma served_uiomove:
  assumes "serves K so fid pending file"
  obtains k w' where "kp_uiomove K w n = (0, k, w')" "apart pending file w w'"
  using assms unfolding serves_def Let_def by blast

lemma ready_world: "ready so pending m \<Longrightarrow> pending w = pending (mt_world m) \<Longrightarrow> ready so pending (m\<lparr>mt_world := w\<rparr>)"
  by (simp add: ready_def mount_ok_def)

section \<open>Writing\<close>

text \<open>What the loops do to the state: the world, and nothing else that the rest of the client looks at.\<close>

definition moved :: "(nat \<Rightarrow> lcktype_9p) \<Rightarrow> nat option \<Rightarrow> ('w \<Rightarrow> byte list) \<Rightarrow> 'w vfs \<Rightarrow> 'w vfs \<Rightarrow> bool" where
  "moved L so pending s s' \<longleftrightarrow> goes L 0 s s' \<and> ready so pending (vf_mt s') \<and> mt_msize (vf_mt s') = mt_msize (vf_mt s)
     \<and> vf_node s' = vf_node s"

lemma moved_trans: "moved L so pending s s1 \<Longrightarrow> moved L so pending s1 s2 \<Longrightarrow> moved L so pending s s2"
  using goes_trans0 by (fastforce simp: moved_def)

lemma moved_refl: "vfs_inv L s \<Longrightarrow> ready so pending (vf_mt s) \<Longrightarrow> moved L so pending s s"
  by (simp add: moved_def goes_refl)

lemma moved_mount:
  "vfs_inv L s \<Longrightarrow> after (vf_mt s) 0 m' \<Longrightarrow> ready so pending m' \<Longrightarrow> mt_msize m' = mt_msize (vf_mt s)
    \<Longrightarrow> moved L so pending s (s\<lparr>vf_mt := m'\<rparr>)"
  by (simp add: moved_def goes_mount)

lemma moved_world:
  assumes "vfs_inv L s" "ready so pending (vf_mt s)" "pending w = pending (vworld s)"
  shows "moved L so pending s (set_world w s)"
  using moved_mount [OF assms(1) after_mt_world [OF inv_mount [OF assms(1)]] ready_world [OF assms(2,3)]] by simp

lemma moved_state: "moved L so pending s s' \<Longrightarrow> vfs_inv L s' \<and> ready so pending (vf_mt s')"
  by (auto simp: moved_def dest: goes_inv)

text \<open>One round of the loop writes the first \<open>k\<close> bytes of the user's data.\<close>

lemma write_round:
  assumes "serves K so fid pending file" "vfs_inv L s" "ready so pending (vf_mt s)"
    and "0 < unat sz" "24 + unat sz \<le> unat (mt_msize (vf_mt s))" "unat sz \<le> length p"
    and "uio_resid u = int (length (uio_data u))" "uio_data u \<noteq> []" "0 \<le> uio_offset u" "uio_offset u < 2 ^ 63"
  defines "k \<equiv> min (length (uio_data u)) (unat sz)"
  defines "u' \<equiv> (uio_advance k u)\<lparr>uio_data := drop k (uio_data u)\<rparr>"
  shows "\<exists>p' s'. nwrite_loop (Suc fuel) K fid sz p u s = nwrite_loop fuel K fid sz p' u' s'
    \<and> length p' = length p \<and> moved L so pending s s'
    \<and> file (vworld s') = put_at (file (vworld s)) (nat (uio_offset u)) (take k (uio_data u))"
proof -
  have sz: "unat sz < 2 ^ 31" using assms(3,5) by (simp add: ready_def mount_ok_def)
  have r: "0 < uio_resid u" "nat (uio_resid u) = length (uio_data u)" using assms(7,8) by simp_all
  note k = piece [OF r(1) assms(4) sz, unfolded r(2), folded k_def]
  obtain j w1 where w1: "kp_uiomove K (vworld s) k = (0, j, w1)" "apart pending file (vworld s) w1"
    by (rule served_uiomove [OF assms(1)])
  let ?d = "take k (uio_data u)" and ?s1 = "set_world w1 s"
  have in1: "uiomove_in K k u s = Some (0, ?d, u', ?s1)"
    using w1(1) r by (simp add: uiomove_in_def u'_def k_def Let_def)
  have ld: "length ?d = k" by (simp add: k_def)
  obtain p' where p': "wrn p 0 ?d = Some p'" "length p' = length p" "take k p' = ?d"
  proof -
    have "0 + length ?d \<le> length p" using assms(6) by (simp add: k_def)
    then obtain p' where "wrn p 0 ?d = Some p'" using wrn_Some by blast
    then show ?thesis using that [of p'] length_wrn [of p 0 ?d p'] take_wrn_end [of p 0 ?d p'] ld by simp
  qed
  have s1: "moved L so pending s ?s1" using w1(2) by (intro moved_world assms(2,3)) (simp add: apart_def)
  have n: "unat (of_int (int k) :: u32) \<le> length p'" "24 + unat (of_int (int k) :: u32) \<le> unat (mt_msize (vf_mt ?s1))"
    using k(2) assms(5,6) p'(2) by (auto simp: k_def)
  obtain m' where m': "vwrite K fid p' (of_int (int k)) (of_int (uio_offset u)) ?s1 = Some (0, of_int (int k), p', ?s1\<lparr>vf_mt := m'\<rparr>)"
      "after (vf_mt ?s1) 0 m'" "ready so pending m'" "mt_msize m' = mt_msize (vf_mt ?s1)"
      "file (mt_world m') = put_at (file w1) (nat (uio_offset u)) ?d"
    using vwrite_served [OF assms(1) conjunct1 [OF moved_state [OF s1]] conjunct2 [OF moved_state [OF s1]] n, of "of_int (uio_offset u)"]
    unfolding k(2) p'(3) unat_offset [OF assms(9,10)] by auto
  let ?s2 = "?s1\<lparr>vf_mt := m'\<rparr>"
  have "moved L so pending ?s1 ?s2" by (rule moved_mount) (use moved_state [OF s1] m' in simp_all)
  then have s2: "moved L so pending s ?s2" by (rule moved_trans [OF s1])
  have u2: "u'\<lparr>uio_offset := uio_offset u + int k, uio_resid := uio_resid u - int k\<rparr> = u'"
    by (simp add: u'_def uio_advance_def)
  have "int (unat (of_int (int k) :: u32)) = int k" using k(2) by simp
  then have un: "uint (word_of_nat k :: u32) = int k" by simp
  have "nwrite_loop (Suc fuel) K fid sz p u s = nwrite_loop fuel K fid sz p' u' ?s2"
    using un r(1) k in1 p'(1) m'(1) u2 by (simp add: nwrite_loop.simps(2) [of fuel K fid sz p u s] Let_def)
  then show ?thesis using p'(2) s2 m'(5) w1(2) by (intro exI [of _ p'] exI [of _ ?s2]) (simp add: apart_def)
qed

lemma nwrite_loop_served:
  assumes "serves K so fid pending file" "0 < unat sz"
  shows "vfs_inv L s \<Longrightarrow> ready so pending (vf_mt s) \<Longrightarrow> 24 + unat sz \<le> unat (mt_msize (vf_mt s)) \<Longrightarrow> unat sz \<le> length p
    \<Longrightarrow> uio_resid u = int (length (uio_data u)) \<Longrightarrow> 0 \<le> uio_offset u
    \<Longrightarrow> uio_offset u + uio_resid u < 2 ^ 63 \<Longrightarrow> length (uio_data u) < fuel
    \<Longrightarrow> \<exists>u' s'. nwrite_loop fuel K fid sz p u s = Some (0, u', s') \<and> moved L so pending s s'
      \<and> uio_resid u' = 0 \<and> uio_offset u' = uio_offset u + uio_resid u
      \<and> file (vworld s') = put_at (file (vworld s)) (nat (uio_offset u)) (uio_data u)"
proof (induction fuel arbitrary: s p u)
  case (Suc fuel)
  show ?case
  proof (cases "uio_data u = []")
    case True
    then show ?thesis using Suc.prems moved_refl [OF Suc.prems(1,2)]
      by (simp add: nwrite_loop.simps(2) [of fuel K fid sz p u s])
  next
    case False
    let ?k = "min (length (uio_data u)) (unat sz)"
    let ?u = "(uio_advance ?k u)\<lparr>uio_data := drop ?k (uio_data u)\<rparr>"
    have "uio_offset u < 2 ^ 63" using Suc.prems(5,7) by simp
    from write_round [OF assms(1) Suc.prems(1,2) assms(2) Suc.prems(3,4,5) False Suc.prems(6) this]
    obtain p1 s1 where 1: "nwrite_loop (Suc fuel) K fid sz p u s = nwrite_loop fuel K fid sz p1 ?u s1"
      "length p1 = length p" "moved L so pending s s1"
      "file (vworld s1) = put_at (file (vworld s)) (nat (uio_offset u)) (take ?k (uio_data u))" by blast
    have k: "0 < ?k" "?k \<le> length (uio_data u)" using False assms(2) by simp_all
    have l: "length (uio_data u) - ?k < fuel" using k Suc.prems(8) by linarith
    have u: "uio_resid ?u = int (length (uio_data ?u))" "uio_offset ?u = uio_offset u + int ?k"
        "uio_offset ?u + uio_resid ?u = uio_offset u + uio_resid u" "length (uio_data ?u) < fuel"
      using Suc.prems(5) k(2) l by (simp_all add: uio_advance_def)
    have m: "mt_msize (vf_mt s1) = mt_msize (vf_mt s)" using 1(3) by (simp add: moved_def)
    from Suc.IH [of s1 p1 ?u] obtain u' s' where 2: "nwrite_loop fuel K fid sz p1 ?u s1 = Some (0, u', s')"
      "moved L so pending s1 s'" "uio_resid u' = 0" "uio_offset u' = uio_offset ?u + uio_resid ?u"
      "file (vworld s') = put_at (file (vworld s1)) (nat (uio_offset ?u)) (uio_data ?u)"
      using moved_state [OF 1(3)] Suc.prems(3,4,6,7) 1(2) m u by (auto simp del: uio.simps)
    have "nat (uio_offset ?u) = nat (uio_offset u) + length (take ?k (uio_data u))" using Suc.prems(6) u(2) by simp
    then have "file (vworld s') = put_at (file (vworld s)) (nat (uio_offset u)) (take ?k (uio_data u) @ uio_data ?u)"
      unfolding 2(5) 1(4) by (simp only: put_at_append)
    then show ?thesis using 1(1) 2(1,3,4) u(3) moved_trans [OF 1(3) 2(2)]
      by (intro exI [of _ u'] exI [of _ s']) simp
  qed
qed simp

section \<open>Reading\<close>

lemma get_at_step:
  assumes "k \<le> n"
  shows "get_at f off k @ get_at f (off + length (get_at f off k)) (n - length (get_at f off k)) = get_at f off n"
proof -
  let ?x = "drop off f" and ?l = "length (take k (drop off f))"
  have "take (?l + (n - ?l)) ?x = take ?l ?x @ take (n - ?l) (drop ?l ?x)" by (rule take_add)
  moreover have "take ?l ?x = take k ?x" by (cases "k \<le> length ?x") simp_all
  moreover have "?l + (n - ?l) = n" using assms by simp
  moreover have "drop ?l ?x = drop (off + ?l) f" by (simp only: drop_drop add.commute)
  ultimately show ?thesis by (simp only: get_at_def)
qed

text \<open>One round reads a piece, or finds the end of the file.\<close>

lemma read_round:
  assumes "serves K so fid pending file" "vfs_inv L s" "ready so pending (vf_mt s)"
    and "0 < unat sz" "24 + unat sz \<le> unat (mt_msize (vf_mt s))" "unat sz \<le> length p"
    and "0 < uio_resid u" "0 \<le> uio_offset u" "uio_offset u < 2 ^ 63"
  defines "d \<equiv> get_at (file (vworld s)) (nat (uio_offset u)) (min (nat (uio_resid u)) (unat sz))"
  defines "u' \<equiv> (uio_advance (length d) u)\<lparr>uio_data := uio_data u @ d\<rparr>"
  shows "\<exists>p' s'. nread_loop K fid sz p u s = (if d = [] then Some (0, u, s') else nread_loop K fid sz p' u' s')
    \<and> length p' = length p \<and> moved L so pending s s' \<and> file (vworld s') = file (vworld s)"
proof -
  let ?k = "min (nat (uio_resid u)) (unat sz)" and ?n = "of_int (min (uio_resid u) (uint sz)) :: u32"
  have sz: "unat sz < 2 ^ 31" using assms(3,5) by (simp add: ready_def mount_ok_def)
  note k = piece [OF assms(7,4) sz]
  have un: "unat ?n = ?k" using k(2,4) by simp
  have n: "unat ?n \<le> length p" "24 + unat ?n \<le> unat (mt_msize (vf_mt s))" using un assms(5,6) by auto
  have ld: "length d \<le> ?k" unfolding d_def length_get_at by (rule min.cobounded1)
  obtain m' where m': "vread K fid p ?n (of_int (uio_offset u)) s
        = Some (0, of_nat (length d), d @ drop (length d) p, s\<lparr>vf_mt := m'\<rparr>)"
      "after (vf_mt s) 0 m'" "ready so pending m'" "mt_msize m' = mt_msize (vf_mt s)" "file (mt_world m') = file (vworld s)"
    using vread_served [OF assms(1-3) n, of "of_int (uio_offset u)"]
    unfolding un unat_offset [OF assms(8,9)] d_def [symmetric] by blast
  let ?p = "d @ drop (length d) p" and ?s1 = "s\<lparr>vf_mt := m'\<rparr>"
  have lp: "length ?p = length p" using ld assms(6) by simp
  have s1: "moved L so pending s ?s1" by (rule moved_mount [OF assms(2) m'(2-4)])
  have "length d < 2 ^ 31" using ld sz by simp
  then have ul: "unat (of_nat (length d) :: u32) = length d" by (intro unat_of_nat_small) simp
  then have l0: "(of_nat (length d) :: u32) = 0 \<longleftrightarrow> d = []" by (metis length_0_conv unat_eq_zero)
  note loop = nread_loop.simps [of K fid sz p u s]
  show ?thesis
  proof (cases "d = []")
    case True
    then show ?thesis using assms(7) m'(1,5) s1 by (intro exI [of _ p] exI [of _ ?s1]) (simp add: loop)
  next
    case False
    obtain j w2 where w2: "kp_uiomove K (mt_world m') (length d) = (0, j, w2)" "apart pending file (mt_world m') w2"
      by (rule served_uiomove [OF assms(1)])
    let ?s2 = "set_world w2 ?s1"
    have "length d \<le> nat (uio_resid u)" using ld by simp
    then have out: "uiomove_out K (take (unat (of_nat (length d) :: u32)) ?p) u ?s1 = (0, u', ?s2)"
      using w2(1) by (simp add: ul uiomove_out_def u'_def Let_def)
    have "moved L so pending ?s1 ?s2" using w2(2) moved_state [OF s1] by (intro moved_world) (simp_all add: apart_def)
    then have s2: "moved L so pending s ?s2" by (rule moved_trans [OF s1])
    have "\<not> length ?p < unat (of_nat (length d) :: u32)" using ul by simp
    then have "nread_loop K fid sz p u s = nread_loop K fid sz ?p u' ?s2"
      using assms(7) m'(1) False l0 out by (simp add: loop)
    then show ?thesis using False lp s2 m'(5) w2(2) by (intro exI [of _ ?p] exI [of _ ?s2]) (simp add: apart_def)
  qed
qed

lemma nread_loop_served:
  assumes "serves K so fid pending file" "0 < unat sz"
  shows "vfs_inv L s \<Longrightarrow> ready so pending (vf_mt s) \<Longrightarrow> 24 + unat sz \<le> unat (mt_msize (vf_mt s)) \<Longrightarrow> unat sz \<le> length p
    \<Longrightarrow> 0 \<le> uio_resid u \<Longrightarrow> 0 \<le> uio_offset u \<Longrightarrow> uio_offset u + uio_resid u < 2 ^ 63
    \<Longrightarrow> \<exists>u' s'. nread_loop K fid sz p u s = Some (0, u', s') \<and> moved L so pending s s' \<and> file (vworld s') = file (vworld s)
      \<and> uio_data u' = uio_data u @ get_at (file (vworld s)) (nat (uio_offset u)) (nat (uio_resid u))"
proof (induction "nat (uio_resid u)" arbitrary: s p u rule: less_induct)
  case less
  let ?f = "file (vworld s)" and ?off = "nat (uio_offset u)" and ?n = "nat (uio_resid u)"
  show ?case
  proof (cases "uio_resid u = 0")
    case True
    then show ?thesis using moved_refl [OF less.prems(1,2)] by (simp add: nread_loop.simps [of K fid sz p u s] get_at_def)
  next
    case False
    define d where "d = get_at ?f ?off (min ?n (unat sz))"
    define u1 where "u1 = (uio_advance (length d) u)\<lparr>uio_data := uio_data u @ d\<rparr>"
    have r: "0 < uio_resid u" "uio_offset u < 2 ^ 63" using False less.prems(5,7) by simp_all
    from read_round [OF assms(1) less.prems(1,2) assms(2) less.prems(3,4) r(1) less.prems(6) r(2), folded d_def, folded u1_def]
    obtain p1 s1 where 1: "nread_loop K fid sz p u s = (if d = [] then Some (0, u, s1) else nread_loop K fid sz p1 u1 s1)"
      "length p1 = length p" "moved L so pending s s1" "file (vworld s1) = ?f" by blast
    have st: "d @ get_at ?f (?off + length d) (?n - length d) = get_at ?f ?off ?n"
      unfolding d_def by (rule get_at_step) simp
    show ?thesis
    proof (cases "d = []")
      case True
      have "min ?n (unat sz) > 0" using r(1) assms(2) by simp
      then have "length ?f \<le> ?off" using True by (auto simp: d_def get_at_def)
      then have "get_at ?f ?off ?n = []" by (simp add: get_at_def)
      then show ?thesis using True 1 by simp
    next
      case False
      have "length d \<le> min ?n (unat sz)" unfolding d_def length_get_at by (rule min.cobounded1)
      then have ld: "length d \<le> ?n" "0 < length d" using False by simp_all
      have u1: "uio_resid u1 = uio_resid u - int (length d)" "uio_offset u1 = uio_offset u + int (length d)"
          "uio_data u1 = uio_data u @ d" by (simp_all add: u1_def uio_advance_def)
      have n1: "nat (uio_resid u1) = ?n - length d" "nat (uio_offset u1) = ?off + length d" "0 \<le> uio_resid u1"
          "nat (uio_resid u1) < ?n"
        using u1 ld less.prems(5,6) r(1) by simp_all
      have m: "mt_msize (vf_mt s1) = mt_msize (vf_mt s)" using 1(3) by (simp add: moved_def)
      obtain u' s' where 2: "nread_loop K fid sz p1 u1 s1 = Some (0, u', s')" "moved L so pending s1 s'"
          "file (vworld s') = file (vworld s1)"
          "uio_data u' = uio_data u1 @ get_at (file (vworld s1)) (nat (uio_offset u1)) (nat (uio_resid u1))"
        using less.hyps [OF n1(4), of s1 p1] moved_state [OF 1(3)] less.prems(3,4,6,7) 1(2) m n1(3) u1(1,2) by auto
      have "uio_data u' = uio_data u @ get_at ?f ?off ?n" unfolding 2(4) 1(4) n1(1,2) u1(3) using st by simp
      then show ?thesis using 1(1,4) False 2(1,3) moved_trans [OF 1(3) 2(2)] by simp
    qed
  qed
qed

end
