(* ===== verification/FileProps.thy ===== *)
theory FileProps
  imports FileRuns VnopsProps
begin

text \<open>
  Reads and writes of a file through the vnode operations are reads and writes of the file that the
  server keeps: the composition of the handlers, the loops, the 9P operations, the messages and the
  socket implements the abstract file.
\<close>

section \<open>The handlers\<close>

lemma served_vmalloc:
  assumes "serves K so fid pending file" "vfs_inv L s" "ready so pending (vf_mt s)"
  obtains s1 where "vmalloc K n s = (Some (replicate n 0), s1)" "goes L 1 s s1" "ready so pending (vf_mt s1)"
    "mt_msize (vf_mt s1) = mt_msize (vf_mt s)" "vf_node s1 = vf_node s" "file (vworld s1) = file (vworld s)"
proof -
  obtain w where w: "ev_malloc (k_env (kp_kern K)) (vworld s) n = (True, w)" "apart pending file (vworld s) w"
    using assms(1) unfolding serves_def Let_def by blast
  let ?s1 = "s\<lparr>vf_mt := (vf_mt s)\<lparr>mt_world := w, mt_live := mt_live (vf_mt s) + 1\<rparr>\<rparr>"
  have m: "vmalloc K n s = (Some (replicate n 0), ?s1)" using w(1) by (simp add: vmalloc_def malloc_9p_def)
  show ?thesis by (rule that [OF m]) (use goes_vmalloc(1) [OF assms(2) m] assms(3) w(2) in
    \<open>auto simp: ready_def mount_ok_def apart_def\<close>)
qed

lemma served_kdo:
  assumes "serves K so fid pending file" "vfs_inv L s" "ready so pending (vf_mt s)"
  shows "moved L so pending s (kdo K c s)" "file (vworld (kdo K c s)) = file (vworld s)"
proof -
  have a: "apart pending file (vworld s) (snd (kp_call K c (vworld s)))"
    using assms(1) unfolding serves_def Let_def by blast
  have k: "kdo K c s = set_world (snd (kp_call K c (vworld s))) s"
    by (simp add: kdo_def kcall_def split: prod.split)
  show "moved L so pending s (kdo K c s)" "file (vworld (kdo K c s)) = file (vworld s)"
    using a moved_world [OF assms(2,3)] by (simp_all add: k apart_def)
qed

lemma moved_vfree:
  assumes "goes L 1 s s1" "ready so pending (vf_mt s1)" "mt_msize (vf_mt s1) = mt_msize (vf_mt s)" "vf_node s1 = vf_node s"
    and "moved L so pending s1 s2"
  shows "moved L so pending s (vfree True s2)"
proof -
  have 2: "goes L 0 s1 s2" "ready so pending (vf_mt s2)" using assms(5) by (simp_all add: moved_def)
  have "goes L 0 s (vfree True s2)"
    using goes_trans [OF goes_trans [OF assms(1) 2(1)] goes_vfree [OF goes_inv [OF 2(1)], of True]] by simp
  then show ?thesis using assms(3,4,5) 2(2)
    by (simp add: moved_def ready_def mount_ok_def vfree_def free_9p_def)
qed

lemma vworld_vfree [simp]: "vworld (vfree b s) = vworld s"
  by (simp add: vfree_def free_9p_def)

lemma nwrite_served:
  assumes "serves K so fid pending file" "vfs_inv L s" "ready so pending (vf_mt s)"
    and "vf_node s np = Some n" "rw_fid n OWRITE = fid" "fid \<noteq> NOFID"
    and "0 < unat (io_size s n)" "24 + unat (io_size s n) \<le> unat (mt_msize (vf_mt s))"
    and "uio_resid u = int (length (uio_data u))" "0 \<le> uio_offset u" "uio_offset u + uio_resid u < 2 ^ 63"
    and "length (uio_data u) < fuel"
  shows "\<exists>u' s'. nwrite_9p fuel K np u s = Some (0, u', s') \<and> moved L so pending s s' \<and> uio_resid u' = 0
    \<and> uio_offset u' = uio_offset u + uio_resid u
    \<and> file (vworld s') = put_at (file (vworld s)) (nat (uio_offset u)) (uio_data u)"
proof -
  let ?sz = "io_size s n"
  obtain s1 where m: "vmalloc K (unat ?sz) s = (Some (replicate (unat ?sz) 0), s1)" "goes L 1 s s1"
      "ready so pending (vf_mt s1)" "mt_msize (vf_mt s1) = mt_msize (vf_mt s)" "vf_node s1 = vf_node s"
      "file (vworld s1) = file (vworld s)"
    by (rule served_vmalloc [OF assms(1-3)])
  obtain u' s2 where w: "nwrite_loop fuel K fid ?sz (replicate (unat ?sz) 0) u s1 = Some (0, u', s2)"
      "moved L so pending s1 s2" "uio_resid u' = 0" "uio_offset u' = uio_offset u + uio_resid u"
      "file (vworld s2) = put_at (file (vworld s1)) (nat (uio_offset u)) (uio_data u)"
    using nwrite_loop_served [OF assms(1,7) goes_inv [OF m(2)] m(3) _ _ assms(9-12), of "replicate (unat ?sz) 0"]
      assms(8) m(4) by auto
  show ?thesis using assms(4-6) m(1,6) w moved_vfree [OF m(2-5) w(2)]
    by (intro exI [of _ u'] exI [of _ "vfree True s2"]) (simp add: nwrite_9p_def Let_def)
qed

lemma nread_served:
  assumes "serves K so fid pending file" "vfs_inv L s" "ready so pending (vf_mt s)"
    and "vf_node s np = Some n" "rw_fid n OREAD = fid" "fid \<noteq> NOFID"
    and "0 < unat (io_size s n)" "24 + unat (io_size s n) \<le> unat (mt_msize (vf_mt s))"
    and "0 \<le> uio_resid u" "0 \<le> uio_offset u" "uio_offset u + uio_resid u < 2 ^ 63"
  shows "\<exists>u' s'. nread_9p K np u s = Some (0, u', s') \<and> moved L so pending s s' \<and> file (vworld s') = file (vworld s)
    \<and> uio_data u' = uio_data u @ get_at (file (vworld s)) (nat (uio_offset u)) (nat (uio_resid u))"
proof -
  let ?sz = "io_size s n"
  obtain s1 where m: "vmalloc K (unat ?sz) s = (Some (replicate (unat ?sz) 0), s1)" "goes L 1 s s1"
      "ready so pending (vf_mt s1)" "mt_msize (vf_mt s1) = mt_msize (vf_mt s)" "vf_node s1 = vf_node s"
      "file (vworld s1) = file (vworld s)"
    by (rule served_vmalloc [OF assms(1-3)])
  obtain u' s2 where r: "nread_loop K fid ?sz (replicate (unat ?sz) 0) u s1 = Some (0, u', s2)"
      "moved L so pending s1 s2" "file (vworld s2) = file (vworld s1)"
      "uio_data u' = uio_data u @ get_at (file (vworld s1)) (nat (uio_offset u)) (nat (uio_resid u))"
    using nread_loop_served [OF assms(1,7) goes_inv [OF m(2)] m(3) _ _ assms(9-11), of "replicate (unat ?sz) 0"]
      assms(8) m(4) by auto
  show ?thesis using assms(4-6) m(1,6) r moved_vfree [OF m(2-5) r(2)]
    by (intro exI [of _ u'] exI [of _ "vfree True s2"]) (simp add: nread_9p_def Let_def)
qed

text \<open>Locking a node changes its lock.\<close>

lemma nlock_node:
  fixes s :: "'w vfs"
  assumes "nlock_9p np t s = Some s1" "vf_node s np = Some n"
  obtains n1 where "vf_node s1 np = Some n1" "np_flags n1 = np_flags n" "\<forall>i. rw_fid n1 i = rw_fid n i"
    "\<forall>s' :: 'w vfs. mt_msize (vf_mt s') = mt_msize (vf_mt s) \<longrightarrow> io_size s' n1 = io_size s n"
  using assms by (auto simp: nlock_9p_def upd_node_def rw_fid_def io_size_def split: bind_splits)

text \<open>Where \<open>vnop_write_9p\<close> writes: an append goes to the length that the node remembers.\<close>

definition write_at :: "node_9p \<Rightarrow> uio \<Rightarrow> u32 \<Rightarrow> int" where
  "write_at n u ioflag = (if ISSET ioflag IO_APPEND then sint (d_length (np_dir n)) else uio_offset u)"

text \<open>
  The vnode \<open>vp\<close> of a file, whose node has \<open>fid\<close> open for the access \<open>i\<close> and transfers pieces that fit a
  message, used without the page cache.
\<close>

definition direct :: "'w kpi \<Rightarrow> nat \<Rightarrow> nat \<Rightarrow> u32 \<Rightarrow> u32 \<Rightarrow> node_9p \<Rightarrow> 'w vfs \<Rightarrow> bool" where
  "direct K vp i fid ioflag n s \<longleftrightarrow> vnode_vtype K vp s \<noteq> VDIR \<and> (vis K IsNocache vp s \<or> ISSET ioflag IO_NOCACHE)
     \<and> (\<exists>np. vf_fsnode s vp = Some np \<and> vf_node s np = Some n) \<and> rw_fid n i = fid \<and> fid \<noteq> NOFID
     \<and> 0 < unat (io_size s n) \<and> 24 + unat (io_size s n) \<le> unat (mt_msize (vf_mt s))"

lemma locked_direct:
  fixes s :: "'w vfs"
  assumes "serves K so fid pending file" "vfs_inv unlocked s" "ready so pending (vf_mt s)" "direct K vp i fid ioflag n s"
    and "t \<noteq> NODE_LCK_NONE"
  obtains np n1 s1 where "vf_fsnode s vp = Some np" "vf_node s np = Some n" "nlock_9p np t s = Some s1" "vf_node s1 np = Some n1"
    "goes (only np t) 0 s s1" "vf_mt s1 = vf_mt s" "np_flags n1 = np_flags n"
    "\<And>c1 c2. moved (only np t) so pending s1 (kdo K c2 (kdo K c1 s1)) \<and> file (vworld (kdo K c2 (kdo K c1 s1))) = file (vworld s)
       \<and> vf_node (kdo K c2 (kdo K c1 s1)) np = Some n1 \<and> rw_fid n1 i = fid
       \<and> 0 < unat (io_size (kdo K c2 (kdo K c1 s1)) n1)
       \<and> 24 + unat (io_size (kdo K c2 (kdo K c1 s1)) n1) \<le> unat (mt_msize (vf_mt (kdo K c2 (kdo K c1 s1))))"
proof -
  note d = assms(4) [unfolded direct_def]
  then obtain np where np: "vf_fsnode s vp = Some np" "vf_node s np = Some n" by blast
  obtain s1 where s1: "nlock_9p np t s = Some s1" "goes (only np t) 0 s s1" "vf_mt s1 = vf_mt s"
    by (rule lock_vnode [OF assms(2) np(1) assms(5)]) blast
  obtain n1 where n1: "vf_node s1 np = Some n1" "np_flags n1 = np_flags n" "\<forall>i. rw_fid n1 i = rw_fid n i"
    "\<forall>s' :: 'w vfs. mt_msize (vf_mt s') = mt_msize (vf_mt s) \<longrightarrow> io_size s' n1 = io_size s n"
    by (rule nlock_node [OF s1(1) np(2)])
  have r1: "ready so pending (vf_mt s1)" using assms(3) s1(3) by simp
  have k: "moved (only np t) so pending s1 (kdo K c2 (kdo K c1 s1)) \<and> file (vworld (kdo K c2 (kdo K c1 s1))) = file (vworld s)" for c1 c2
  proof -
    note k1 = served_kdo [OF assms(1) goes_inv [OF s1(2)] r1, of c1]
    note k2 = served_kdo [OF assms(1) conjunct1 [OF moved_state [OF k1(1)]] conjunct2 [OF moved_state [OF k1(1)]], of c2]
    show ?thesis using moved_trans [OF k1(1) k2(1)] k1(2) k2(2) s1(3) by simp
  qed
  then have "mt_msize (vf_mt (kdo K c2 (kdo K c1 s1))) = mt_msize (vf_mt s)" "vf_node (kdo K c2 (kdo K c1 s1)) np = Some n1" for c1 c2
    using s1(3) n1(1) by (simp_all add: moved_def)
  then show ?thesis using that [OF np s1(1) n1(1) s1(2,3) n1(2)] k n1(3,4) d by simp
qed

section \<open>A server for the examples\<close>

text \<open>
  The world holds what the server has sent, its file and what it was sent. It answers a request when it has
  the whole of it.
\<close>

type_synonym host = "byte list \<times> byte list \<times> byte list"

definition host_reply :: "byte \<Rightarrow> byte list \<Rightarrow> tx_call" where
  "host_reply ty d = (zero_fcall [])\<lparr>fc_type := ty, fc_count := of_nat (length d), fc_data := d\<rparr>"

definition host_serve :: "byte list \<Rightarrow> byte list \<Rightarrow> tx_call \<times> byte list" where
  "host_serve d f = (let off = unat (GBIT64 (drop 11 d)); n = unat (GBIT32 (drop 19 d)) in
     if hd (drop 4 d) = Twrite then (host_reply Rwrite (take n (drop 23 d)), put_at f off (take n (drop 23 d)))
     else (host_reply Rread (get_at f off n), f))"

definition host_env :: "host env" where
  "host_env = \<lparr>ev_receive = (\<lambda>so (i, f, l) n. (0, take n i, (drop n i, f, l))),
     ev_send = (\<lambda>so (i, f, l) d. case host_serve d f of (r, f') \<Rightarrow> (0, length d, (i @ wire False r, f', l @ d))),
     ev_malloc = (\<lambda>w n. (True, w))\<rparr>"

definition host_kpi :: "host kpi" where
  "host_kpi = \<lparr>kp_kern = \<lparr>k_env = host_env, k_tx = (\<lambda>w. zero_fcall []), k_rx = (\<lambda>w. zero_fcall None),
       k_u32 = (\<lambda>w. 0), k_random = (\<lambda>w n. (replicate n 0, w)), k_sizeof_Dir = 120\<rparr>,
     kp_sizeof_node = 300, kp_sizeof_mount = 9000, kp_qid = (\<lambda>w. zero_qid), kp_time = (\<lambda>w. 7),
     kp_vtype = (\<lambda>vp w. if vp = 1 then VDIR else VREG), kp_is = (\<lambda>q vp w. q = IsNocache),
     kp_ubcsize = (\<lambda>vp w. 0), kp_call = (\<lambda>c w. (0, w)), kp_create = (\<lambda>p w. (0, w)),
     kp_cache_lookup = (\<lambda>vp n w. (0, None, w)), kp_getparent = (\<lambda>vp w. (None, w)),
     kp_uiomove = (\<lambda>w n. (0, n, w)), kp_sleep = (\<lambda>np s. s), kp_cluster_read = (\<lambda>vp u len fl s. (0, u, s)),
     kp_cluster_write = (\<lambda>vp u ca s. (0, u, s)), kp_vfscall = (\<lambda>c s. (0, s)), kp_hashmask = 1, kp_fsid = 1,
     kp_bsize = (\<lambda>vp w. Some 4096), kp_pagesize = 4096\<rparr>"

definition host_node :: node_9p where
  "host_node = (ex_node 2 4 5)\<lparr>np_openfid := [\<lparr>of_fid = NOFID, of_ref = 0\<rparr>, \<lparr>of_fid = NOFID, of_ref = 0\<rparr>,
     \<lparr>of_fid = 8, of_ref = 1\<rparr>]\<rparr>"

definition host_vfs :: "byte list \<Rightarrow> host vfs" where
  "host_vfs f = \<lparr>vf_mt = \<lparr>mt_flags = 0, mt_so = Some 1, mt_msize = 64, mt_nfid = 9, mt_ntag = 9,
       mt_rpcbuf = replicate MAXMSG 0, mt_world = ([], f, []), mt_live = 0\<rparr>,
     vf_nodelen = 1, vf_hash = (\<lambda>_. [])(0 := [10], 1 := [11]), vf_nodelck = False,
     vf_node = [10 \<mapsto> ex_node 1 3 4, 11 \<mapsto> host_node], vf_next = 12,
     vf_fsnode = [1 \<mapsto> 10, 2 \<mapsto> 11], vf_nextvp = 3, vf_uid = 0, vf_gid = 0\<rparr>"

lemma host_vfs_inv: "vfs_inv unlocked (host_vfs f)"
  by (auto simp: vfs_inv_def host_vfs_def mount_ok_def host_node_def ex_node_def new_node_def node_ok_def lock_is_def ISSET_def
      split: if_splits)

lemma host_ready: "ready (Some 1) fst (vf_mt (host_vfs f))"
  by (simp add: ready_def host_vfs_def mount_ok_def ISSET_def)

lemma host_direct: "i < 3 \<Longrightarrow> direct host_kpi 2 i 8 0 host_node (host_vfs f)"
  by (auto simp: direct_def host_kpi_def host_vfs_def host_node_def rw_fid_def io_size_def ex_node_def new_node_def
      less_Suc_eq numeral_3_eq_3)

lemma wire_host_reply: "ty \<in> {Rread, Rwrite} \<Longrightarrow> wire dotu (host_reply ty d) = wire False (host_reply ty d)"
  by (auto simp: wire_def wire_size_def wire_payload_def host_reply_def)

lemma host_serve_request:
  assumes "printable tx" "fc_type tx \<in> {Tread, Twrite}"
  defines "d \<equiv> take (unat (fc_count tx)) (fc_data tx)"
  shows "host_serve (wire dotu tx) f = (if fc_type tx = Twrite
      then (host_reply Rwrite d, put_at f (unat (fc_offset tx)) d)
      else (host_reply Rread (get_at f (unat (fc_offset tx)) (unat (fc_count tx))), f))"
proof -
  let ?x = "if fc_type tx = Twrite then d else []"
  have w: "wire dotu tx = PBIT32 (of_nat (wire_size dotu tx)) @ [fc_type tx] @ PBIT16 (fc_tag tx) @ PBIT32 (fc_fid tx)
      @ PBIT64 (fc_offset tx) @ PBIT32 (fc_count tx) @ ?x"
    using assms(2) by (auto simp: wire_def wire_payload_def PBIT8_def d_def)
  have "length d = unat (fc_count tx)" if "fc_type tx = Twrite" using assms(1) that by (simp add: printable_def d_def)
  then show ?thesis by (auto simp: host_serve_def w GBIT64_PBIT64 GBIT32_PBIT32 Let_def GBIT32_PBIT32 [of _ "[]", simplified])
qed

lemma host_send_whole:
  assumes "take n buf = d" "length d = n" "0 < n" "ev_send host_env so w d = (0, n, w1)"
  shows "send_loop host_env so w buf n 0 = Some (0, w1)"
proof -
  have "rdn buf 0 n = Some d" using assms(1,2) by (auto simp: rdn_def)
  then show ?thesis using assms(2-4) by (simp add: send_loop.simps [of host_env so w buf n 0] send_loop.simps [of host_env so w1 buf n n])
qed

lemma host_replies:
  assumes "printable tx" "fc_type tx \<in> {Tread, Twrite}" "take (wire_size dotu tx) buf = wire dotu tx" "fst w = []"
    and "send_loop host_env so w buf (wire_size dotu tx) 0 = Some (0, w')"
  shows "\<exists>r. file_reply tx (fst (snd w)) (fst (snd w')) r \<and> fst w' = wire dotu r"
proof -
  obtain f l where w: "w = ([], f, l)" using assms(4) by (metis prod.collapse)
  obtain r f' where r: "host_serve (wire dotu tx) f = (r, f')" by (metis surj_pair)
  have lw: "length (wire dotu tx) = wire_size dotu tx" by (simp add: length_wire)
  have s: "ev_send host_env so w (wire dotu tx) = (0, wire_size dotu tx, (wire False r, f', l @ wire dotu tx))"
    using r lw by (simp add: host_env_def w)
  have "w' = (wire False r, f', l @ wire dotu tx)"
    using host_send_whole [OF assms(3) lw _ s] assms(5) by (simp add: wire_size_def)
  moreover have "file_reply tx f f' r \<and> wire False r = wire dotu r"
  proof (cases "fc_type tx = Twrite")
    case True
    then have "r = host_reply Rwrite (take (unat (fc_count tx)) (fc_data tx))"
      "f' = put_at f (unat (fc_offset tx)) (take (unat (fc_count tx)) (fc_data tx))"
      using r host_serve_request [OF assms(1,2), of dotu f] by simp_all
    moreover have "unat (fc_count tx) \<le> length (fc_data tx)" using True assms(1) by (simp add: printable_def)
    moreover have "wire False r = wire dotu r" unfolding calculation(1) using wire_host_reply [of Rwrite dotu] by simp
    ultimately show ?thesis using True
      by (simp add: file_reply_def host_reply_def printable_def msg_types_def zero_fcall_def)
  next
    case False
    let ?d = "get_at f (unat (fc_offset tx)) (unat (fc_count tx))"
    have f: "fc_type tx = Tread" "r = host_reply Rread ?d" "f' = f"
      using False assms(2) r host_serve_request [OF assms(1,2), of dotu f] by auto
    have "length ?d \<le> unat (fc_count tx)" by (simp add: length_get_at)
    then have "unat (of_nat (length ?d) :: u32) = length ?d"
      using order_le_less_trans [OF _ unat_u32_less [of "fc_count tx"]] by (intro unat_of_nat_small) simp
    moreover have "wire False r = wire dotu r" unfolding f(2) using wire_host_reply [of Rread dotu] by simp
    ultimately show ?thesis using f
      by (simp add: file_reply_def host_reply_def printable_def msg_types_def zero_fcall_def Let_def)
  qed
  ultimately show ?thesis by (auto simp: w)
qed

lemma host_env_ok: "recv_ok host_env" "sink_ok host_env so (\<lambda>w. snd (snd w))" "stream_ok host_env so fst"
proof -
  show "recv_ok host_env" by (auto simp: recv_ok_def host_env_def)
  show "sink_ok host_env so (\<lambda>w. snd (snd w))" unfolding sink_ok_def
  proof (intro allI impI)
    fix w :: host and d :: "byte list" assume "d \<noteq> []"
    then show "\<exists>k w'. 0 < k \<and> k \<le> length d \<and> ev_send host_env so w d = (0, k, w') \<and> snd (snd w') = snd (snd w) @ take k d"
      by (cases w; intro exI [of _ "length d"]) (simp add: host_env_def split: prod.split)
  qed
  show "stream_ok host_env so fst" unfolding stream_ok_def
  proof (intro allI impI)
    fix w :: host and n assume "0 < n" "n \<le> length (fst w)"
    then show "\<exists>k w'. 0 < k \<and> k \<le> n \<and> ev_receive host_env so w n = (0, take k (fst w), w') \<and> fst w' = drop k (fst w)"
      by (cases w; intro exI [of _ n]) (simp add: host_env_def)
  qed
qed

lemma host_serves: "serves host_kpi (Some 1) 8 fst (\<lambda>w. fst (snd w))"
proof -
  have e: "k_env (kp_kern host_kpi) = host_env" by (simp add: host_kpi_def)
  have k: "kern_ok (kp_kern host_kpi)" using host_env_ok(1)
    by (simp add: kern_ok_def host_kpi_def stack_ok_def zero_fcall_def)
  have a: "\<forall>w n. \<exists>w'. ev_malloc host_env w n = (True, w') \<and> apart fst (\<lambda>w. fst (snd w)) w w'"
    "\<forall>w n. \<exists>k w'. kp_uiomove host_kpi w n = (0, k, w') \<and> apart fst (\<lambda>w. fst (snd w)) w w'"
    "\<forall>c w. apart fst (\<lambda>w. fst (snd w)) w (snd (kp_call host_kpi c w))"
    "\<forall>w n e d w'. ev_receive host_env (Some 1) w n = (e, d, w') \<longrightarrow> fst (snd w') = fst (snd w)"
    by (auto simp: host_env_def host_kpi_def apart_def)
  show ?thesis unfolding serves_def Let_def e
    by (intro conjI k a exI [where P = "sink_ok host_env (Some 1)", OF host_env_ok(2)] host_env_ok(3)) (use host_replies in blast)
qed

section \<open>Reads and writes are reads and writes of the file\<close>

text \<open>
  C6. Writing: what the user writes to a vnode, in pieces or as one, appended or at the \<^verbatim>\<open>uio\<close>'s offset, is in
  the server's file at that place, with everything else of the file as it was; the call returns 0, has
  taken all of the user's data, and leaves the client in its invariant with no node locked and no block
  lost.
\<close>

theorem write_reaches_file:
  assumes "serves K so fid pending file" "vfs_inv unlocked s" "ready so pending (vf_mt s)" "direct K vp OWRITE fid ioflag n s"
    and "uio_resid u = int (length (uio_data u))" "uio_data u \<noteq> []" "length (uio_data u) < fuel" "0 \<le> uio_offset u"
    and "0 \<le> write_at n u ioflag" "write_at n u ioflag + uio_resid u < 2 ^ 63"
  shows "\<exists>u' s'. vnop_write_9p fuel K vp u ioflag s = Some (0, u', s')
    \<and> file (vworld s') = put_at (file (vworld s)) (nat (write_at n u ioflag)) (uio_data u)
    \<and> uio_resid u' = 0 \<and> uio_offset u' = write_at n u ioflag + uio_resid u
    \<and> vfs_inv unlocked s' \<and> mt_live (vf_mt s') = mt_live (vf_mt s) \<and> ready so pending (vf_mt s')"
proof -
  let ?u = "u\<lparr>uio_offset := write_at n u ioflag\<rparr>"
  obtain np n1 s1 where 1: "vf_fsnode s vp = Some np" "vf_node s np = Some n"
    "nlock_9p np NODE_LCK_EXCLUSIVE s = Some s1" "vf_node s1 np = Some n1"
    "goes (only np NODE_LCK_EXCLUSIVE) 0 s s1" "vf_mt s1 = vf_mt s"
    and k: "\<And>c1 c2. moved (only np NODE_LCK_EXCLUSIVE) so pending s1 (kdo K c2 (kdo K c1 s1))
       \<and> file (vworld (kdo K c2 (kdo K c1 s1))) = file (vworld s)
       \<and> vf_node (kdo K c2 (kdo K c1 s1)) np = Some n1 \<and> rw_fid n1 OWRITE = fid
       \<and> 0 < unat (io_size (kdo K c2 (kdo K c1 s1)) n1)
       \<and> 24 + unat (io_size (kdo K c2 (kdo K c1 s1)) n1) \<le> unat (mt_msize (vf_mt (kdo K c2 (kdo K c1 s1))))"
    by (rule locked_direct [OF assms(1-4), of NODE_LCK_EXCLUSIVE]) (simp, blast)
  define s3 where "s3 = kdo K (UbcMsync vp (uio_offset ?u) (uio_offset ?u + uio_resid ?u) False)
    (kdo K (UbcMsync vp (uio_offset ?u) (uio_offset ?u + uio_resid ?u) True) s1)"
  note k3 = k [of "UbcMsync vp (uio_offset ?u) (uio_offset ?u + uio_resid ?u) False"
      "UbcMsync vp (uio_offset ?u) (uio_offset ?u + uio_resid ?u) True", folded s3_def]
  have fid: "fid \<noteq> NOFID" using assms(4) by (simp add: direct_def)
  obtain u' s4 where w: "nwrite_9p fuel K np ?u s3 = Some (0, u', s4)" "moved (only np NODE_LCK_EXCLUSIVE) so pending s3 s4"
    "uio_resid u' = 0" "uio_offset u' = write_at n u ioflag + uio_resid u"
    "file (vworld s4) = put_at (file (vworld s3)) (nat (write_at n u ioflag)) (uio_data u)"
    using nwrite_served [OF assms(1), of "only np NODE_LCK_EXCLUSIVE" s3 np n1 ?u fuel] k3 fid assms(5,7,9,10)
      moved_state [of "only np NODE_LCK_EXCLUSIVE" so pending s1 s3] by auto
  have g4: "goes (only np NODE_LCK_EXCLUSIVE) 0 s1 s4" "vf_node s4 np = Some n1" "ready so pending (vf_mt s4)"
      "mt_msize (vf_mt s4) = mt_msize (vf_mt s)"
    using moved_trans [OF conjunct1 [OF k3] w(2)] 1(4,6) by (simp_all add: moved_def)
  obtain s5 where s5: "nunlock_9p np s4 = Some s5" "goes unlocked 0 s s5" "vf_mt s5 = vf_mt s4"
    by (rule unlock_vnode [OF goes_trans0 [OF 1(5) g4(1)]]) (use g4(2) in auto)
  have "uio_resid u \<noteq> 0" using assms(5,6) by simp
  then have "vnop_write_9p fuel K vp u ioflag s = Some (0, u', s5)"
    using assms(4,8) 1(1-3,6) w(1) s5(1)
    by (simp add: vnop_write_9p_def direct_def Let_def s3_def write_at_def cong: if_cong)
  then show ?thesis using s5(2,3) g4(3) w(3-5) k3 by (simp add: goes_def)
qed

theorem write_reaches_file_witness:
  "\<exists>u' s'. vnop_write_9p 51 host_kpi 2 \<lparr>uio_resid = 50, uio_offset = 4, uio_data = replicate 50 7\<rparr> 0 (host_vfs [1, 2]) = Some (0, u', s')
    \<and> fst (snd (vworld s')) = [1, 2, 0, 0] @ replicate 50 7"
proof -
  have w: "vworld (host_vfs f) = ([], f, [])" for f by (simp add: host_vfs_def)
  have "put_at [1, 2] 4 (replicate 50 7) = [1, 2, 0, 0] @ replicate 50 7" by (simp add: put_at_def numeral_2_eq_2)
  then show ?thesis
    using write_reaches_file [OF host_serves host_vfs_inv [of "[1, 2]"] host_ready host_direct,
        where u = "\<lparr>uio_resid = 50, uio_offset = 4, uio_data = replicate 50 7\<rparr>" and fuel = 51]
    by (auto simp: w write_at_def ISSET_def)
qed

text \<open>
  C7. Reading: the user gets exactly what the server's file has from the \<^verbatim>\<open>uio\<close>'s offset on, as much of it as was
  asked for, however many messages that takes; the file is unchanged.
\<close>

theorem read_returns_file:
  assumes "serves K so fid pending file" "vfs_inv unlocked s" "ready so pending (vf_mt s)" "direct K vp OREAD fid ioflag n s"
    and "0 < uio_resid u" "0 \<le> uio_offset u" "uio_offset u + uio_resid u < 2 ^ 63"
  shows "\<exists>u' s'. vnop_read_9p K vp u ioflag s = Some (0, u', s')
    \<and> uio_data u' = uio_data u @ get_at (file (vworld s)) (nat (uio_offset u)) (nat (uio_resid u))
    \<and> file (vworld s') = file (vworld s)
    \<and> vfs_inv unlocked s' \<and> mt_live (vf_mt s') = mt_live (vf_mt s) \<and> ready so pending (vf_mt s')"
proof -
  let ?L = "\<lambda>np. only np NODE_LCK_SHARED"
  obtain np n1 s1 where 1: "vf_fsnode s vp = Some np" "vf_node s np = Some n"
    "nlock_9p np NODE_LCK_SHARED s = Some s1" "vf_node s1 np = Some n1"
    "goes (?L np) 0 s s1" "vf_mt s1 = vf_mt s"
    and k: "\<And>c1 c2. moved (?L np) so pending s1 (kdo K c2 (kdo K c1 s1))
       \<and> file (vworld (kdo K c2 (kdo K c1 s1))) = file (vworld s)
       \<and> vf_node (kdo K c2 (kdo K c1 s1)) np = Some n1 \<and> rw_fid n1 OREAD = fid
       \<and> 0 < unat (io_size (kdo K c2 (kdo K c1 s1)) n1)
       \<and> 24 + unat (io_size (kdo K c2 (kdo K c1 s1)) n1) \<le> unat (mt_msize (vf_mt (kdo K c2 (kdo K c1 s1))))"
    by (rule locked_direct [OF assms(1-4), of NODE_LCK_SHARED]) (simp, blast)
  define s3 where "s3 = kdo K (UbcMsync vp (uio_offset u) (uio_offset u + uio_resid u) False)
    (if ISSET (np_flags n1) NODE_MMAPPED then kdo K (UbcMsync vp 0 (kp_ubcsize K vp (vworld s1)) True) s1
     else kdo K (ClusterPush vp) s1)"
  have k3: "moved (?L np) so pending s1 s3 \<and> file (vworld s3) = file (vworld s) \<and> vf_node s3 np = Some n1
      \<and> rw_fid n1 OREAD = fid \<and> 0 < unat (io_size s3 n1) \<and> 24 + unat (io_size s3 n1) \<le> unat (mt_msize (vf_mt s3))"
    unfolding s3_def using k by (cases "ISSET (np_flags n1) NODE_MMAPPED") simp_all
  have fid: "fid \<noteq> NOFID" using assms(4) by (simp add: direct_def)
  obtain u' s4 where r: "nread_9p K np u s3 = Some (0, u', s4)" "moved (?L np) so pending s3 s4"
    "file (vworld s4) = file (vworld s3)"
    "uio_data u' = uio_data u @ get_at (file (vworld s3)) (nat (uio_offset u)) (nat (uio_resid u))"
    using nread_served [OF assms(1), of "?L np" s3 np n1 u] k3 fid assms(5-7) moved_state [of "?L np" so pending s1 s3] by auto
  have g4: "goes (?L np) 0 s1 s4" "vf_node s4 np = Some n1" "ready so pending (vf_mt s4)"
    using moved_trans [OF conjunct1 [OF k3] r(2)] 1(4) by (simp_all add: moved_def)
  obtain s5 where s5: "nunlock_9p np s4 = Some s5" "goes unlocked 0 s s5" "vf_mt s5 = vf_mt s4"
    by (rule unlock_vnode [OF goes_trans0 [OF 1(5) g4(1)]]) (use g4(2) in auto)
  have "vnop_read_9p K vp u ioflag s = Some (0, u', s5)"
    using assms(4-6) 1(1,3,4,6) r(1) s5(1) by (simp add: vnop_read_9p_def direct_def Let_def s3_def cong: if_cong)
  then show ?thesis using s5(2,3) g4(3) r(3,4) k3 by (simp add: goes_def)
qed

theorem read_returns_file_witness:
  "\<exists>u' s'. vnop_read_9p host_kpi 2 \<lparr>uio_resid = 90, uio_offset = 1, uio_data = []\<rparr> 0 (host_vfs (3 # replicate 70 7)) = Some (0, u', s')
    \<and> uio_data u' = replicate 70 7"
proof -
  have w: "vworld (host_vfs f) = ([], f, [])" for f by (simp add: host_vfs_def)
  show ?thesis
    using read_returns_file [OF host_serves host_vfs_inv [of "3 # replicate 70 7"] host_ready host_direct,
        where u = "\<lparr>uio_resid = 90, uio_offset = 1, uio_data = []\<rparr>"]
    by (auto simp: w get_at_def)
qed

end
