(* ===== verification/MountHelper.thy ===== *)
theory MountHelper
  imports VfsOps Crypt
begin

text \<open>
  \<^verbatim>\<open>mount/mount.c\<close>, the program behind \<^verbatim>\<open>mount -t 9p\<close>, up to its call of \<^verbatim>\<open>mount(2)\<close>, and
  \<^verbatim>\<open>load/load.c\<close>. The C library (\<^verbatim>\<open>getopt\<close>, \<^verbatim>\<open>getmntopts\<close>, name resolution, the files, the
  processes) is an argument. C strings are without their NUL.
\<close>

section \<open>How a program ends\<close>

text \<open>\<^verbatim>\<open>err\<close> and \<^verbatim>\<open>exit\<close> end it with a code; reading through a null pointer is a crash.\<close>

datatype ending = Exit int | Crash

abbreviation EX_USAGE :: int where "EX_USAGE \<equiv> 64"
abbreviation EX_UNAVAILABLE :: int where "EX_UNAVAILABLE \<equiv> 69"

definition cmd_bind :: "ending + 'a \<Rightarrow> ('a \<Rightarrow> ending + 'b) \<Rightarrow> ending + 'b" where
  "cmd_bind r f = (case r of Inl e \<Rightarrow> Inl e | Inr x \<Rightarrow> f x)"

text \<open>What becomes of a child process; \<open>ch_status\<close> is its exit status.\<close>

record child =
  ch_forked :: bool
  ch_waited :: bool
  ch_exited :: bool
  ch_status :: nat

section \<open>Options\<close>

abbreviation ALTF_UNAME :: u32 where "ALTF_UNAME \<equiv> 0x1"
abbreviation ALTF_ANAME :: u32 where "ALTF_ANAME \<equiv> 0x2"
abbreviation ALTF_VOLUME :: u32 where "ALTF_VOLUME \<equiv> 0x4"
abbreviation ALTF_PASS :: u32 where "ALTF_PASS \<equiv> 0x8"
abbreviation ALTF_PORT :: u32 where "ALTF_PORT \<equiv> 0x10"
abbreviation ALTF_ASRV :: u32 where "ALTF_ASRV \<equiv> 0x20"
abbreviation ALTF_APORT :: u32 where "ALTF_APORT \<equiv> 0x40"
abbreviation ALTF_CHATTY9P :: u32 where "ALTF_CHATTY9P \<equiv> 0x80"
abbreviation ALTF_DSSTORE :: u32 where "ALTF_DSSTORE \<equiv> 0x100"
abbreviation ALTF_NOAUTH :: u32 where "ALTF_NOAUTH \<equiv> 0x200"
abbreviation ALTF_DOTU :: u32 where "ALTF_DOTU \<equiv> 0x400"

abbreviation FLAG_CHATTY9P :: u32 where "FLAG_CHATTY9P \<equiv> 0x1"

record mntopt =
  mo_option :: string
  mo_inverse :: bool
  mo_flag :: u32
  mo_altloc :: bool

text \<open>\<^verbatim>\<open>MOPT_STDOPTS\<close>, with the flags of \<^verbatim>\<open>sys/mount.h\<close>.\<close>

definition mopt_std :: "mntopt list" where
  "mopt_std = map (\<lambda>(n, i, f). \<lparr>mo_option = n, mo_inverse = i, mo_flag = f, mo_altloc = False\<rparr>)
     [(''userquota'', False, 0), (''groupquota'', False, 0),
      (''ro'', False, 0x1), (''rw'', True, 0x1), (''auto'', False, 0),
      (''dev'', True, 0x10), (''exec'', True, 0x4), (''suid'', True, 0x8), (''rdonly'', False, 0x1),
      (''union'', False, 0x20), (''browse'', True, 0x100000), (''automounted'', False, 0x400000),
      (''defwrite'', False, 0x2000000), (''atime'', True, 0x10000000), (''perm'', True, 0x200000),
      (''owners'', True, 0x200000), (''quarantine'', False, 0x400), (''protect'', False, 0x80)]"

definition mopts :: "mntopt list" where
  "mopts = mopt_std @ map (\<lambda>(n, i, f). \<lparr>mo_option = n, mo_inverse = i, mo_flag = f, mo_altloc = True\<rparr>)
     [(''uname'', False, ALTF_UNAME), (''aname'', False, ALTF_ANAME), (''volume'', False, ALTF_VOLUME),
      (''pass'', False, ALTF_PASS), (''port'', False, ALTF_PORT), (''asrv'', False, ALTF_ASRV),
      (''aport'', False, ALTF_APORT), (''chatty9p'', False, ALTF_CHATTY9P), (''dotu'', False, ALTF_DOTU),
      (''dsstore'', True, ALTF_DSSTORE), (''auth'', True, ALTF_NOAUTH)]"

text \<open>
  The library. \<open>lib_getmntopts\<close> gives the two flag words and the values of the options, or
  \<^term>\<open>None\<close>; \<open>lib_stat\<close> says whether a path is a directory, if it exists; \<open>lib_stack\<close> is an uninitialised
  buffer.
\<close>

record lib =
  lib_getmntopts :: "byte list \<Rightarrow> mntopt list \<Rightarrow> u32 \<Rightarrow> u32 \<Rightarrow> (u32 \<times> u32 \<times> (string \<Rightarrow> byte list option)) option"
  lib_malloc :: "nat \<Rightarrow> bool"
  lib_realpath :: "byte list \<Rightarrow> byte list option"
  lib_stat :: "byte list \<Rightarrow> bool option"
  lib_getaddrinfo :: "byte list \<Rightarrow> byte list option \<Rightarrow> memory option"
  lib_readpassphrase :: "byte list option"
  lib_getenv :: "string \<Rightarrow> byte list option"
  lib_getvfsbyname :: "bool \<Rightarrow> bool"
  lib_child :: child
  lib_stack :: "byte list"

record args_9p =
  ag_spec :: "byte list"
  ag_addr :: memory
  ag_addrlen :: nat
  ag_authaddr :: "memory option"
  ag_authaddrlen :: nat
  ag_volume :: "byte list option"
  ag_uname :: "byte list"
  ag_aname :: "byte list option"
  ag_authkey :: "byte list option"
  ag_flags :: u32

text \<open>The locals of \<^verbatim>\<open>main\<close> that the options set.\<close>

record helper =
  hp_uname :: "byte list option"
  hp_aname :: "byte list option"
  hp_volume :: "byte list option"
  hp_flags :: u32
  hp_pass :: "byte list"
  hp_port :: "byte list option"
  hp_asrv :: "byte list option"
  hp_aport :: "byte list option"
  hp_noauth :: bool
  hp_mntflags :: u32

definition helper_start :: helper where
  "helper_start = \<lparr>hp_uname = None, hp_aname = Some [], hp_volume = Some (bytes_of ''9P''), hp_flags = FLAG_DSSTORE,
     hp_pass = [], hp_port = Some (bytes_of ''564''), hp_asrv = None, hp_aport = Some (bytes_of ''567''),
     hp_noauth = False, hp_mntflags = 0\<rparr>"

definition egetmntoptstr :: "lib \<Rightarrow> (string \<Rightarrow> byte list option) \<Rightarrow> string \<Rightarrow> ending + byte list option" where
  "egetmntoptstr E mp k = (case mp k of
       None \<Rightarrow> Inr None
     | Some v \<Rightarrow> if lib_malloc E (length v + 1) then Inr (Some v) else Inl (Exit 1))"

text \<open>\<^verbatim>\<open>if (altflags & bit) x = egetmntoptstr(mp, k);\<close>\<close>

definition opt_str :: "lib \<Rightarrow> u32 \<Rightarrow> (string \<Rightarrow> byte list option) \<Rightarrow> u32 \<Rightarrow> string \<Rightarrow> byte list option
    \<Rightarrow> ending + byte list option" where
  "opt_str E alt mp f k old = (if ISSET alt f then egetmntoptstr E mp k else Inr old)"

definition opt_pass :: "lib \<Rightarrow> u32 \<Rightarrow> (string \<Rightarrow> byte list option) \<Rightarrow> byte list \<Rightarrow> ending + byte list" where
  "opt_pass E alt mp old =
     (if ISSET alt ALTF_PASS
      then cmd_bind (egetmntoptstr E mp ''pass'') (\<lambda>p.
        case p of None \<Rightarrow> Inl Crash | Some p \<Rightarrow> Inr (take (NAMELEN - 1) p))
      else Inr old)"

definition opt_flags :: "u32 \<Rightarrow> u32 \<Rightarrow> u32" where
  "opt_flags alt f =
     (let f = (if ISSET alt ALTF_CHATTY9P then f OR FLAG_CHATTY9P else f);
          f = (if ISSET alt ALTF_DSSTORE then f AND NOT FLAG_DSSTORE else f) in
      if ISSET alt ALTF_DOTU then f OR FLAG_DOTU else f)"

text \<open>One \<^verbatim>\<open>-o\<close>.\<close>

definition main_option :: "lib \<Rightarrow> byte list \<Rightarrow> helper \<Rightarrow> ending + helper" where
  "main_option E optarg h =
     (case lib_getmntopts E optarg mopts (hp_mntflags h) 0 of
        None \<Rightarrow> Inl (Exit EX_USAGE)
      | Some (mntflags, alt, mp) \<Rightarrow>
          cmd_bind (opt_str E alt mp ALTF_UNAME ''uname'' (hp_uname h)) (\<lambda>uname.
          cmd_bind (opt_str E alt mp ALTF_ANAME ''aname'' (hp_aname h)) (\<lambda>aname.
          cmd_bind (opt_str E alt mp ALTF_VOLUME ''volume'' (hp_volume h)) (\<lambda>volume.
          cmd_bind (opt_pass E alt mp (hp_pass h)) (\<lambda>pass.
          cmd_bind (opt_str E alt mp ALTF_PORT ''port'' (hp_port h)) (\<lambda>port.
          cmd_bind (opt_str E alt mp ALTF_ASRV ''asrv'' (hp_asrv h)) (\<lambda>asrv.
          cmd_bind (opt_str E alt mp ALTF_APORT ''aport'' (hp_aport h)) (\<lambda>aport.
          Inr \<lparr>hp_uname = uname, hp_aname = aname, hp_volume = volume, hp_flags = opt_flags alt (hp_flags h),
            hp_pass = pass, hp_port = port, hp_asrv = asrv, hp_aport = aport,
            hp_noauth = (hp_noauth h \<or> ISSET alt ALTF_NOAUTH), hp_mntflags = mntflags\<rparr>))))))))"

text \<open>What \<^verbatim>\<open>getopt\<close> returns, until its -1: \<^verbatim>\<open>-o\<close> with its argument, or anything else.\<close>

datatype getopt = OptO "byte list" | OptOther

fun main_options :: "lib \<Rightarrow> getopt list \<Rightarrow> helper \<Rightarrow> ending + helper" where
  "main_options E [] h = Inr h"
| "main_options E (OptO optarg # os) h = cmd_bind (main_option E optarg h) (main_options E os)"
| "main_options E (OptOther # os) h = Inl (Exit EX_USAGE)"

section \<open>Addresses\<close>

abbreviation AF_UNIX :: byte where "AF_UNIX \<equiv> 1"

text \<open>
  An address is its bytes and the length in \<^verbatim>\<open>*len\<close>. A \<^verbatim>\<open>struct sockaddr_un\<close> has \<^verbatim>\<open>sun_len\<close> bytes; the path
  is cut at 103.
\<close>

definition unixaddr :: "lib \<Rightarrow> byte list \<Rightarrow> ending + memory \<times> nat" where
  "unixaddr E name =
     (case lib_realpath E name of
        None \<Rightarrow> Inl (Exit EX_USAGE)
      | Some path \<Rightarrow>
          let path = take 103 path; len = 2 + length path + 1 in
          if lib_malloc E len then Inr ([of_nat len, AF_UNIX] @ path @ [0], len) else Inl Crash)"

definition inetaddr :: "lib \<Rightarrow> byte list \<Rightarrow> byte list option \<Rightarrow> ending + memory \<times> nat" where
  "inetaddr E name port =
     (case lib_getaddrinfo E name port of
        None \<Rightarrow> Inl (Exit 1)
      | Some sa \<Rightarrow> if lib_malloc E (length sa) then Inr (sa, length sa) else Inl Crash)"

definition slash :: "byte list \<Rightarrow> bool" where
  "slash name \<longleftrightarrow> take 1 name = bytes_of ''/''"

definition getaddr :: "lib \<Rightarrow> byte list \<Rightarrow> byte list option \<Rightarrow> ending + memory \<times> nat" where
  "getaddr E name port = (if slash name then unixaddr E name else inetaddr E name port)"

section \<open>The main program\<close>

definition load9p :: "child \<Rightarrow> int" where
  "load9p c = (if \<not> ch_forked c \<or> \<not> ch_waited c \<or> \<not> ch_exited c \<or> ch_status c \<noteq> 0 then -1 else 0)"

text \<open>The authentication server's address and the key, unless there is no authentication.\<close>

definition main_auth :: "lib \<Rightarrow> byte list \<Rightarrow> helper \<Rightarrow> ending + (memory option \<times> nat \<times> byte list option)" where
  "main_auth E srv h =
     (if hp_noauth h \<or> slash srv then Inr (None, 0, None)
      else let asrv = (case hp_asrv h of None \<Rightarrow> srv | Some a \<Rightarrow> a) in
        cmd_bind (getaddr E asrv (hp_aport h)) (\<lambda>(authaddr, authaddrlen).
        cmd_bind (if hp_pass h = [] then (case lib_readpassphrase E of
              None \<Rightarrow> Inl (Exit 1) | Some p \<Rightarrow> Inr (take (NAMELEN - 1) p)) else Inr (hp_pass h)) (\<lambda>pass.
        case passtokey_9p (lib_stack E) pass of None \<Rightarrow> Inl Crash | Some key \<Rightarrow> Inr (Some authaddr, authaddrlen, Some key))))"

text \<open>Everything before \<^verbatim>\<open>mount(2)\<close>: the path, the flags and the arguments it is called with.\<close>

definition main_prepare :: "lib \<Rightarrow> getopt list \<Rightarrow> byte list list \<Rightarrow> ending + (byte list \<times> u32 \<times> args_9p)" where
  "main_prepare E os argv =
     cmd_bind (main_options E os helper_start) (\<lambda>h.
     case argv of
       [srv, name] \<Rightarrow>
         (case lib_realpath E name of
            None \<Rightarrow> Inl (Exit EX_USAGE)
          | Some mntpath \<Rightarrow>
              if lib_stat E mntpath \<noteq> Some True then Inl (Exit EX_USAGE)
              else cmd_bind (getaddr E srv (hp_port h)) (\<lambda>(addr, addrlen).
                cmd_bind (main_auth E srv h) (\<lambda>(authaddr, authaddrlen, authkey).
                let uname = (case hp_uname h of Some u \<Rightarrow> Some u | None \<Rightarrow> lib_getenv E ''USER'');
                    uname = (case uname of Some u \<Rightarrow> u | None \<Rightarrow> bytes_of ''none'') in
                if \<not> lib_getvfsbyname E False \<and> load9p (lib_child E) < 0 then Inl (Exit 1)
                else if \<not> lib_getvfsbyname E False \<and> \<not> lib_getvfsbyname E True then Inl (Exit EX_UNAVAILABLE)
                else Inr (mntpath, hp_mntflags h,
                  \<lparr>ag_spec = srv, ag_addr = addr, ag_addrlen = addrlen, ag_authaddr = authaddr,
                   ag_authaddrlen = authaddrlen, ag_volume = hp_volume h, ag_uname = uname,
                   ag_aname = hp_aname h, ag_authkey = authkey, ag_flags = hp_flags h\<rparr>))))
     | _ \<Rightarrow> Inl (Exit EX_USAGE))"

definition mount_main :: "lib \<Rightarrow> (byte list \<times> u32 \<times> args_9p \<Rightarrow> int) \<Rightarrow> getopt list \<Rightarrow> byte list list \<Rightarrow> ending" where
  "mount_main E mount os argv =
     (case main_prepare E os argv of Inl e \<Rightarrow> e | Inr call \<Rightarrow> Exit (if mount call < 0 then 1 else 0))"

section \<open>Loading the kernel extension\<close>

definition load_main :: "bool \<Rightarrow> child \<Rightarrow> ending" where
  "load_main present c =
     (if present then Exit 0
      else if \<not> ch_forked c then Exit 1
      else if \<not> ch_waited c then Exit 1
      else if \<not> ch_exited c then Exit 1
      else if ch_status c \<noteq> 0 then Exit 1
      else Exit 0)"

end
