(* ===== verification/HelperProps.thy ===== *)
theory HelperProps
  imports MountHelper MountProps
begin

text \<open>
  From the command line to the mounted client: what the mount helper passes to \<^verbatim>\<open>mount(2)\<close> is what
  \<open>vfs_mount_9p\<close> needs.
\<close>

section \<open>What the helper passes\<close>

text \<open>The options of the helper set none of the kernel's state flags.\<close>

definition plain_flags :: "u32 \<Rightarrow> bool" where
  "plain_flags f \<longleftrightarrow> f AND NOT 7 = 0"

lemma plain_flags_opt: "plain_flags f \<Longrightarrow> plain_flags (opt_flags alt f)"
proof -
  have a: "(f AND NOT FLAG_DSSTORE) AND NOT 7 = 0" if "f AND NOT 7 = 0" for f :: u32
    by (metis and.assoc and.commute and_zero_eq that)
  have o: "(f OR k) AND NOT 7 = 0" if "f AND NOT 7 = 0" "k AND NOT 7 = 0" for f k :: u32
    using that by (simp add: bit.conj_disj_distrib2)
  have c: "FLAG_CHATTY9P AND NOT 7 = 0" "FLAG_DOTU AND NOT 7 = 0" by simp_all
  assume "plain_flags f"
  then have f: "f AND NOT 7 = 0" by (simp add: plain_flags_def)
  have d: "(if b then x else y) AND NOT 7 = 0" if "x AND NOT 7 = 0" "y AND NOT 7 = 0" for x y :: u32 and b
    using that by simp
  show ?thesis unfolding plain_flags_def opt_flags_def Let_def by (intro d a o c f)
qed

lemma plain_flags_state: "plain_flags f \<Longrightarrow> \<not> ISSET f F_SENDLOCK \<and> \<not> ISSET f F_DOTU"
proof -
  assume f: "plain_flags f"
  have "f AND k = 0" if "k AND NOT 7 = k" for k
  proof -
    have "f AND k = (f AND NOT 7) AND k" using that by (metis and.assoc and.commute)
    then show ?thesis using f by (simp add: plain_flags_def)
  qed
  then show ?thesis by (simp add: ISSET_def)
qed

lemma cmd_bind_Inr: "cmd_bind r f = Inr y \<longleftrightarrow> (\<exists>x. r = Inr x \<and> f x = Inr y)"
  by (cases r) (simp_all add: cmd_bind_def)

lemma main_options_flags: "main_options E os h = Inr h' \<Longrightarrow> plain_flags (hp_flags h) \<Longrightarrow> plain_flags (hp_flags h')"
proof (induction E os h rule: main_options.induct)
  case (2 E optarg os h)
  then obtain h1 where h1: "main_option E optarg h = Inr h1" "main_options E os h1 = Inr h'"
    by (auto simp: cmd_bind_Inr)
  then have "plain_flags (hp_flags h1)" using 2(3) plain_flags_opt
    by (auto simp: main_option_def cmd_bind_Inr split: option.splits)
  then show ?case using 2(1) h1 by blast
qed simp_all

text \<open>A resolver that gives whole addresses.\<close>

lemma getaddr_length:
  assumes "getaddr E name port = Inr (a, len)" "\<And>n p sa. lib_getaddrinfo E n p = Some sa \<Longrightarrow> 2 \<le> length sa"
  shows "len = length a \<and> 2 \<le> len"
  using assms by (auto simp: getaddr_def unixaddr_def inetaddr_def Let_def split: option.splits if_splits)

lemma main_prepare_args:
  assumes "main_prepare E os argv = Inr (path, fl, a)" "\<And>n p sa. lib_getaddrinfo E n p = Some sa \<Longrightarrow> 2 \<le> length sa"
  shows "plain_flags (ag_flags a)" "ag_addrlen a = length (ag_addr a) \<and> 2 \<le> ag_addrlen a" "ag_authaddr a = None \<longleftrightarrow> ag_authkey a = None"
proof -
  obtain h where h: "main_options E os helper_start = Inr h" "(case argv of
       [srv, name] \<Rightarrow>
         (case lib_realpath E name of
            None \<Rightarrow> Inl (Exit EX_USAGE)
          | Some mntpath \<Rightarrow>
              if lib_stat E mntpath \<noteq> Some True then Inl (Exit EX_USAGE)
              else cmd_bind (getaddr E srv (hp_port h)) (\<lambda>(addr, addrlen).
                cmd_bind (main_auth E srv h) (\<lambda>(authaddr, authaddrlen, authkey).
                let uname = (case hp_uname h of Some u \<Rightarrow> Some u | None \<Rightarrow> lib_getenv E ''USER'');
                    uname = (case uname of Some u \<Rightarrow> u | None \<Rightarrow> bytes_of ''none'') in
                if \<not> lib_getvfsbyname E False \<and> load9p (lib_child E) < 0 then Inl (Exit 1)
                else if \<not> lib_getvfsbyname E False \<and> \<not> lib_getvfsbyname E True then Inl (Exit EX_UNAVAILABLE)
                else Inr (mntpath, hp_mntflags h,
                  \<lparr>ag_spec = srv, ag_addr = addr, ag_addrlen = addrlen, ag_authaddr = authaddr,
                   ag_authaddrlen = authaddrlen, ag_volume = hp_volume h, ag_uname = uname,
                   ag_aname = hp_aname h, ag_authkey = authkey, ag_flags = hp_flags h\<rparr>))))
     | _ \<Rightarrow> Inl (Exit EX_USAGE)) = Inr (path, fl, a)"
    using assms(1) unfolding main_prepare_def cmd_bind_Inr by blast
  have "plain_flags (hp_flags helper_start)" by (simp add: plain_flags_def helper_start_def)
  then have f: "plain_flags (hp_flags h)" by (rule main_options_flags [OF h(1)])
  obtain srv where a: "ag_flags a = hp_flags h" "getaddr E srv (hp_port h) = Inr (ag_addr a, ag_addrlen a)"
      "main_auth E srv h = Inr (ag_authaddr a, ag_authaddrlen a, ag_authkey a)"
    using h(2) by (auto simp: cmd_bind_Inr Let_def split: list.splits option.splits if_splits)
  show "plain_flags (ag_flags a)" using f a(1) by simp
  show "ag_addrlen a = length (ag_addr a) \<and> 2 \<le> ag_addrlen a" using getaddr_length [OF a(2)] assms(2) by blast
  show "ag_authaddr a = None \<longleftrightarrow> ag_authkey a = None"
    using a(3) by (auto simp: main_auth_def cmd_bind_Inr Let_def split: if_splits option.splits)
qed

section \<open>What the kernel copies\<close>

text \<open>
  \<^verbatim>\<open>mount(2)\<close> hands the kernel the addresses of the arguments: \<^verbatim>\<open>copyinstr\<close> takes a string with its
  NUL of at most \<^verbatim>\<open>NAME_MAX\<close> bytes, and fails for a null pointer.
\<close>

definition copied_string :: "byte list option \<Rightarrow> ucopy" where
  "copied_string s = (case s of
       None \<Rightarrow> \<lparr>uc_error = 14, uc_bytes = []\<rparr>
     | Some s \<Rightarrow> if length s < 255 then \<lparr>uc_error = 0, uc_bytes = s @ [0]\<rparr> else \<lparr>uc_error = 63, uc_bytes = []\<rparr>)"

definition copied_bytes :: "memory \<Rightarrow> ucopy" where
  "copied_bytes bs = \<lparr>uc_error = 0, uc_bytes = bs\<rparr>"

definition user_args_of :: "args_9p \<Rightarrow> user_args_9p" where
  "user_args_of a = \<lparr>ar_spec = copied_string (Some (ag_spec a)), ar_addr = copied_bytes (ag_addr a),
     ar_addrlen = ag_addrlen a, ar_authaddr = map_option copied_bytes (ag_authaddr a),
     ar_authaddrlen = ag_authaddrlen a, ar_volume = copied_string (ag_volume a),
     ar_uname = copied_string (Some (ag_uname a)), ar_aname = copied_string (ag_aname a),
     ar_authkey = map_option copied_bytes (ag_authkey a), ar_flags = ag_flags a\<rparr>"

abbreviation MNT_UPDATE :: u32 where "MNT_UPDATE \<equiv> 0x10000"

text \<open>\<^verbatim>\<open>mount(2)\<close> over \<open>vfs_mount_9p\<close>: -1 for any error.\<close>

definition mount_call :: "nat \<Rightarrow> 'w kpi \<Rightarrow> netcalls \<Rightarrow> (u32 \<times> u32) option \<Rightarrow> 'w mnt \<Rightarrow> byte list \<times> u32 \<times> args_9p \<Rightarrow> int" where
  "mount_call fuel K net cred m call = (case call of (path, fl, a) \<Rightarrow>
     (case vfs_mount_9p fuel K net cred (ISSET fl MNT_UPDATE) 0 (user_args_of a) m of
        None \<Rightarrow> -1 | Some (e, _) \<Rightarrow> if e = 0 then 0 else -1))"

text \<open>The names that the kernel can copy.\<close>

definition short_names :: "args_9p \<Rightarrow> bool" where
  "short_names a \<longleftrightarrow> (\<exists>v n. ag_volume a = Some v \<and> ag_aname a = Some n \<and> length v < 255 \<and> length n < 255)
     \<and> length (ag_uname a) < 255"

lemma helper_args_ok:
  assumes "plain_flags (ag_flags a)" "2 \<le> ag_addrlen a" "ag_authkey a = None" "short_names a" "\<And>c. nc_call net c = 0"
  shows "mount_args_ok net (user_args_of a)"
  using plain_flags_state [OF assms(1)] assms(2-5)
  by (auto simp: mount_args_ok_def user_args_of_def copied_ok_def copied_string_def copied_bytes_def short_names_def)

section \<open>From the command to the mount\<close>

text \<open>
  C17. The command mounts. Take any command line that the helper accepts without authentication,
  with names shorter than 255 bytes, a connection that succeeds and a server that takes what is
  written and answers version, attach and stat in the dialect of the options: then the command
  exits with 0, and \<open>vfs_mount_9p\<close>, given what the helper prepared, has mounted the client and
  consumed the three replies.
\<close>

theorem mount_command_mounts:
  assumes "main_prepare E os argv = Inr (path, fl, a)" "ag_authkey a = None" "short_names a" "\<not> ISSET fl MNT_UPDATE"
    and "\<And>n p sa. lib_getaddrinfo E n p = Some sa \<Longrightarrow> 2 \<le> length sa"
    and "willing K (nc_so net) pending" "\<And>c. nc_call net c = 0" "nc_authcall net SockSocket = 0"
    and "mount_replies_ok (user_args_of a) rv ra d rs"
    and "pending (vworld (mn_vfs m)) = wire False rv @ wire (ISSET (ag_flags a) FLAG_DOTU) ra
       @ wire (ISSET (ag_flags a) FLAG_DOTU) rs @ rest"
  shows "mount_main E (mount_call (Suc fuel) K net cred m) os argv = Exit 0
    \<and> (\<exists>m'. vfs_mount_9p (Suc fuel) K net cred False 0 (user_args_of a) m = Some (0, m')
      \<and> mounted (nc_so net) (mt_live (vf_mt (mn_vfs m))) m' \<and> pending (vworld (mn_vfs m')) = rest)"
proof -
  note p = main_prepare_args [OF assms(1) assms(5)]
  have ok: "mount_args_ok net (user_args_of a)" by (rule helper_args_ok [OF p(1) conjunct2 [OF p(2)] assms(2,3,7)])
  have fk: "ar_flags (user_args_of a) = ag_flags a" "ar_authkey (user_args_of a) = None"
    using assms(2) by (simp_all add: user_args_of_def)
  obtain m' where m': "vfs_mount_9p (Suc fuel) K net cred False 0 (user_args_of a) m = Some (0, m')"
      "mounted (nc_so net) (mt_live (vf_mt (mn_vfs m))) m' \<and> pending (vworld (mn_vfs m')) = rest"
    using mount_runs [OF assms(6) ok assms(9,8), unfolded fk, OF _ assms(10), of fuel cred] by auto
  have "mount_call (Suc fuel) K net cred m (path, fl, a) = 0" using m'(1) assms(4) by (simp add: mount_call_def)
  then show ?thesis using m' assms(1) by (simp add: mount_main_def)
qed

text \<open>\<^verbatim>\<open>mount -t 9p -o noauth h /m\<close>\<close>

definition ex_lib :: lib where
  "ex_lib = \<lparr>lib_getmntopts = (\<lambda>_ _ fl _. Some (fl, ALTF_NOAUTH, \<lambda>_. None)), lib_malloc = (\<lambda>_. True),
     lib_realpath = Some, lib_stat = (\<lambda>_. Some True), lib_getaddrinfo = (\<lambda>_ _. Some [16, 2, 2, 52]),
     lib_readpassphrase = None, lib_getenv = (\<lambda>_. None), lib_getvfsbyname = (\<lambda>_. True),
     lib_child = \<lparr>ch_forked = False, ch_waited = False, ch_exited = False, ch_status = 0\<rparr>, lib_stack = []\<rparr>"

definition ex_call :: args_9p where
  "ex_call = \<lparr>ag_spec = bytes_of ''h'', ag_addr = [16, 2, 2, 52], ag_addrlen = 4, ag_authaddr = None, ag_authaddrlen = 0, ag_volume = Some (bytes_of ''9P''),
     ag_uname = bytes_of ''none'', ag_aname = Some [], ag_authkey = None, ag_flags = 2\<rparr>"

lemma ex_prepare: "main_prepare ex_lib [OptO (bytes_of ''noauth'')] [bytes_of ''h'', bytes_of ''/m''] = Inr (bytes_of ''/m'', 0, ex_call)"
  by (simp add: main_prepare_def main_option_def helper_start_def opt_str_def opt_pass_def opt_flags_def cmd_bind_def
      getaddr_def inetaddr_def slash_def main_auth_def ex_lib_def ex_call_def ISSET_def Let_def bytes_of_def)

theorem mount_command_mounts_witness:
  "mount_main ex_lib (mount_call 1 slow_kpi (ex_net 0) None
      (ex_mnt (wire False ex_rversion @ wire False ex_rattach @ wire False ex_rstat)))
    [OptO (bytes_of ''noauth'')] [bytes_of ''h'', bytes_of ''/m''] = Exit 0"
proof -
  let ?m = "ex_mnt (wire False ex_rversion @ wire False ex_rattach @ wire False ex_rstat)"
  have a: "ag_authkey ex_call = None" "short_names ex_call" "\<not> ISSET 0 MNT_UPDATE" "ISSET (ag_flags ex_call) FLAG_DOTU = False"
    by (simp_all add: ex_call_def short_names_def bytes_of_def ISSET_def)
  have n: "nc_so (ex_net 0) = 7" "nc_authcall (ex_net 0) SockSocket = 0" "\<And>c. nc_call (ex_net 0) c = 0"
    by (simp_all add: ex_net_def)
  have r: "mount_replies_ok (user_args_of ex_call) ex_rversion ex_rattach small_dir ex_rstat"
    using ex_replies_ok by (simp add: mount_replies_ok_def wanted_version_def user_args_of_def ex_call_def ex_args_def)
  have p: "fst (vworld (mn_vfs ?m)) = wire False ex_rversion @ wire (ISSET (ag_flags ex_call) FLAG_DOTU) ex_rattach
      @ wire (ISSET (ag_flags ex_call) FLAG_DOTU) ex_rstat @ []"
    by (simp add: ex_mnt_def new_mnt_def a(4))
  show ?thesis
    using mount_command_mounts [OF ex_prepare a(1,2,3) _ slow_willing n(3,2) r p, of 0 None] by (simp add: ex_lib_def)
qed

end
