(* ===== verification/Plugin.thy ===== *)
theory Plugin
  imports MountHelper
begin

text \<open>
  \<^verbatim>\<open>plugin/plugin.c\<close>, the NetFS plug-in through which the desktop mounts. CoreFoundation and NetFS are
  an argument. The state counts the references and blocks that the plug-in has made and not given
  back. \<^verbatim>\<open>NDEBUG\<close> is not defined by the Makefile, so the arguments of \<^verbatim>\<open>DEBUG\<close> are evaluated and what
  they make is counted; what \<^verbatim>\<open>DEBUG\<close> and \<^verbatim>\<open>TRACE\<close> write is left out.
\<close>

section \<open>CoreFoundation\<close>

type_synonym cfstring = "byte list"

text \<open>A URL is what its accessors return; the port is -1 when there is none.\<close>

record curl =
  url_string :: cfstring
  url_decomposable :: bool
  url_scheme :: "cfstring option"
  url_host :: "cfstring option"
  url_port :: int
  url_user :: "cfstring option"
  url_password :: "cfstring option"
  url_query :: "cfstring option"

datatype nkey = SchemeKey | HostKey | AlternatePortKey | UserNameKey | PasswordKey | ServerDisplayNameKey
  | SupportsChangePasswordKey | SupportsGuestKey | SupportsKerberosKey | GuestOnlyKey | UseGuestKey
  | MountedByGuestKey | MountedByUserKey | MountFlagsKey | MountPathKey | MountedURLKey

datatype cfvalue = CFStr cfstring | CFBool bool | CFNum u32

type_synonym cfdict = "nkey \<Rightarrow> cfvalue option"

text \<open>
  The library: whether an object, a block or a mutex can be made; the C string of a string, which is
  \<^term>\<open>None\<close> for a null pointer; the description of a dictionary; percent escapes, with the characters to leave and those to escape; a URL from its text; \<^verbatim>\<open>errno\<close>; a child
  process, from its command line; \<^verbatim>\<open>f_mntfromname\<close> of a path.
\<close>

record 'w cflib =
  cf_alloc :: "'w \<Rightarrow> bool \<times> 'w"
  cf_mutex :: "'w \<Rightarrow> int \<times> 'w"
  cf_cstring :: "cfstring option \<Rightarrow> 'w \<Rightarrow> byte list option \<times> 'w"
  cf_describe :: "cfdict option \<Rightarrow> 'w \<Rightarrow> cfstring option \<times> 'w"
  cf_escape :: "cfstring \<Rightarrow> cfstring \<Rightarrow> cfstring \<Rightarrow> cfstring option"
  cf_url :: "cfstring \<Rightarrow> curl option"
  cf_errno :: "'w \<Rightarrow> int"
  cf_child :: "byte list list \<Rightarrow> 'w \<Rightarrow> child \<times> 'w"
  cf_statfs :: "byte list \<Rightarrow> 'w \<Rightarrow> byte list option \<times> 'w"

text \<open>
  What the code makes and keeps no pointer to: a C string or a description that only an argument of \<^verbatim>\<open>DEBUG\<close>
  had, the empty query of a URL, and a name of a session that is opened again. \<open>pg_lost\<close> notes each
  where it happens, beside the count \<open>pg_refs\<close> of everything that was made and not given back.
\<close>

datatype loss = DebugString | DebugDescription | EmptyQuery | OldName

record 'w plug =
  pg_refs :: int
  pg_lost :: "loss list"
  pg_world :: 'w

definition own :: "nat \<Rightarrow> 'w plug \<Rightarrow> 'w plug" where
  "own n s = s\<lparr>pg_refs := pg_refs s + int n\<rparr>"

definition release :: "nat \<Rightarrow> 'w plug \<Rightarrow> 'w plug" where
  "release n s = s\<lparr>pg_refs := pg_refs s - int n\<rparr>"

definition lose :: "loss list \<Rightarrow> 'w plug \<Rightarrow> 'w plug" where
  "lose ls s = s\<lparr>pg_lost := pg_lost s @ ls\<rparr>"

text \<open>A call that makes an object or a block.\<close>

definition create :: "'w cflib \<Rightarrow> 'w plug \<Rightarrow> bool \<times> 'w plug" where
  "create K s = (case cf_alloc K (pg_world s) of (ok, w) \<Rightarrow> (ok, own (if ok then 1 else 0) (s\<lparr>pg_world := w\<rparr>)))"

definition cstring :: "'w cflib \<Rightarrow> cfstring \<Rightarrow> 'w plug \<Rightarrow> byte list option \<times> 'w plug" where
  "cstring K x s = (case cf_cstring K (Some x) (pg_world s) of
     (r, w) \<Rightarrow> (r, own (if r = None then 0 else 1) (s\<lparr>pg_world := w\<rparr>)))"

text \<open>\<^verbatim>\<open>DEBUG("%s", NetFSCFStringtoCString(x))\<close>, and with \<^verbatim>\<open>CFCopyDescription(d)\<close> for \<open>x\<close>.\<close>

definition debug_string :: "'w cflib \<Rightarrow> cfstring option \<Rightarrow> 'w plug \<Rightarrow> 'w plug" where
  "debug_string K x s = (case cf_cstring K x (pg_world s) of
     (r, w) \<Rightarrow> let s = s\<lparr>pg_world := w\<rparr> in if r = None then s else lose [DebugString] (own 1 s))"

definition debug_dict :: "'w cflib \<Rightarrow> cfdict option \<Rightarrow> 'w plug \<Rightarrow> 'w plug" where
  "debug_dict K d s = (case cf_describe K d (pg_world s) of
     (x, w) \<Rightarrow> let s = s\<lparr>pg_world := w\<rparr> in
       debug_string K x (if x = None then s else lose [DebugDescription] (own 1 s)))"

text \<open>\<^verbatim>\<open>CFDictionarySetValue\<close> of a string that was copied, and \<^verbatim>\<open>CFRelease\<close> of the copy.\<close>

definition set_copied :: "nkey \<Rightarrow> cfstring \<Rightarrow> cfdict \<times> 'w plug \<Rightarrow> cfdict \<times> 'w plug" where
  "set_copied k str ds = (case ds of (d, s) \<Rightarrow> (d(k \<mapsto> CFStr str), release 1 (own 1 s)))"

definition set_optional :: "nkey \<Rightarrow> cfstring option \<Rightarrow> cfdict \<times> 'w plug \<Rightarrow> cfdict \<times> 'w plug" where
  "set_optional k str ds = (case str of None \<Rightarrow> ds | Some x \<Rightarrow> set_copied k x ds)"

text \<open>\<^verbatim>\<open>CFDictionaryGetValue\<close> of a string; \<^term>\<open>None\<close> when the value has another type.\<close>

definition get_str :: "cfdict \<Rightarrow> nkey \<Rightarrow> cfstring option option" where
  "get_str d k = (case d k of None \<Rightarrow> Some None | Some (CFStr x) \<Rightarrow> Some (Some x) | _ \<Rightarrow> None)"

section \<open>Sessions\<close>

record context9p =
  cx_user :: "cfstring option"
  cx_pass :: "cfstring option"

text \<open>
  A pointer argument is \<^term>\<open>None\<close> when it is null. An out argument is \<^term>\<open>Some\<close> of what it
  points to, which is a null pointer again or an object. A whole call is \<^term>\<open>None\<close> when it reads through a
  null pointer or takes an object for one of another type.
\<close>

definition CreateSessionRef9P :: "'w cflib \<Rightarrow> context9p option option \<Rightarrow> 'w plug \<Rightarrow> int \<times> context9p option option \<times> 'w plug" where
  "CreateSessionRef9P K vp s =
     (if vp = None then (EINVAL, vp, s)
      else case create K s of
          (False, s) \<Rightarrow> (ENOMEM, Some None, s)
        | (True, s) \<Rightarrow> (case cf_mutex K (pg_world s) of
            (e, w) \<Rightarrow> let s = s\<lparr>pg_world := w\<rparr> in
              if e \<noteq> 0 then (e, Some None, release 1 s)
              else (0, Some (Some \<lparr>cx_user = None, cx_pass = None\<rparr>), s)))"

definition GetServerInfo9P :: "'w cflib \<Rightarrow> curl option \<Rightarrow> cfdict option option \<Rightarrow> 'w plug
    \<Rightarrow> int \<times> cfdict option option \<times> 'w plug" where
  "GetServerInfo9P K url params s =
     (case (url, params) of
        (Some u, Some _) \<Rightarrow>
          if \<not> url_decomposable u then (EINVAL, params, s)
          else (case create K s of
              (False, s) \<Rightarrow> (ENOMEM, Some None, s)
            | (True, s) \<Rightarrow> (case set_optional ServerDisplayNameKey (url_host u) (Map.empty, s) of
                (d, s) \<Rightarrow> (0, Some (Some (d(SupportsChangePasswordKey \<mapsto> CFBool False, SupportsGuestKey \<mapsto> CFBool True,
                    SupportsKerberosKey \<mapsto> CFBool False, GuestOnlyKey \<mapsto> CFBool False))), s)))
      | _ \<Rightarrow> (EINVAL, params, s))"

section \<open>URLs\<close>

text \<open>The exit \<^verbatim>\<open>error\<close>: what was made so far is given back, and \<^verbatim>\<open>errno\<close> is the error.\<close>

definition plug_error :: "'w cflib \<Rightarrow> nat \<Rightarrow> 'w plug \<Rightarrow> int \<times> 'a option option \<times> 'w plug" where
  "plug_error K n s = (cf_errno K (pg_world s), Some None, release n s)"

text \<open>\<^verbatim>\<open>CFStringCreateWithFormat("%d")\<close>\<close>

definition port_string :: "int \<Rightarrow> cfstring" where
  "port_string p = dec_int p"

definition ParseURL9P :: "'w cflib \<Rightarrow> curl option \<Rightarrow> cfdict option option \<Rightarrow> 'w plug
    \<Rightarrow> int \<times> cfdict option option \<times> 'w plug" where
  "ParseURL9P K url params s =
     (case (url, params) of
        (Some u, Some _) \<Rightarrow>
          if \<not> url_decomposable u then (EINVAL, params, s)
          else (case create K (debug_string K (Some (url_string u)) s) of
              (False, s) \<Rightarrow> (ENOMEM, Some None, s)
            | (True, s) \<Rightarrow> (case url_scheme u of
                None \<Rightarrow> plug_error K 1 s
              | Some scheme \<Rightarrow> (case set_copied SchemeKey scheme (Map.empty, s) of (d, s) \<Rightarrow>
                  (case url_host u of
                     None \<Rightarrow> plug_error K 1 s
                   | Some host \<Rightarrow> (case set_copied HostKey host (d, s) of (d, s) \<Rightarrow>
                       let (port_ok, d, s) = (if url_port u = -1 then (True, d, s)
                         else case create K s of
                             (False, s) \<Rightarrow> (False, d, s)
                           | (True, s) \<Rightarrow> (True, d(AlternatePortKey \<mapsto> CFStr (port_string (url_port u))), release 1 s)) in
                       if \<not> port_ok then plug_error K 1 s
                       else (case set_optional PasswordKey (url_password u) (set_optional UserNameKey (url_user u) (d, s)) of
                           (d, s) \<Rightarrow> (0, Some (Some d), s)))))))
      | _ \<Rightarrow> (EINVAL, params, s))"

text \<open>An escaped component; appending a null string is a crash. The escaped copy is released.\<close>

definition append_escaped :: "'w cflib \<Rightarrow> cfstring \<Rightarrow> cfstring \<Rightarrow> cfstring \<Rightarrow> cfstring \<Rightarrow> 'w plug \<Rightarrow> (cfstring \<times> 'w plug) option" where
  "append_escaped K leave esc txt str s = do { x \<leftarrow> cf_escape K str leave esc; Some (txt @ x, release 1 (own 1 s)) }"

text \<open>\<^verbatim>\<open>user:password@\<close>\<close>

definition append_user :: "'w cflib \<Rightarrow> cfdict \<Rightarrow> cfstring \<Rightarrow> 'w plug \<Rightarrow> (cfstring \<times> 'w plug) option" where
  "append_user K d txt s = do {
     user \<leftarrow> get_str d UserNameKey;
     case user of
       None \<Rightarrow> Some (txt, s)
     | Some user \<Rightarrow> do {
         (txt, s) \<leftarrow> append_escaped K [] (bytes_of ''@:/?'') txt user s;
         pass \<leftarrow> get_str d PasswordKey;
         (txt, s) \<leftarrow> (case pass of None \<Rightarrow> Some (txt, s)
           | Some pass \<Rightarrow> append_escaped K [] (bytes_of ''@:/?'') (txt @ bytes_of '':'') pass s);
         Some (txt @ bytes_of ''@'', s) } }"

definition CreateURL9P :: "'w cflib \<Rightarrow> cfdict option \<Rightarrow> curl option option \<Rightarrow> 'w plug
    \<Rightarrow> (int \<times> curl option option \<times> 'w plug) option" where
  "CreateURL9P K params url s =
     (case (params, url) of
        (Some d, Some _) \<Rightarrow> (case create K (debug_dict K (Some d) s) of
            (False, s) \<Rightarrow> Some (ENOMEM, url, s)
          | (True, s) \<Rightarrow> do {
              scheme \<leftarrow> get_str d SchemeKey;
              case scheme of
                None \<Rightarrow> Some (plug_error K 1 s)
              | Some scheme \<Rightarrow> do {
                  (txt, s) \<leftarrow> append_user K d (scheme @ bytes_of ''://'') s;
                  host \<leftarrow> get_str d HostKey;
                  case host of
                    None \<Rightarrow> Some (plug_error K 1 s)
                  | Some host \<Rightarrow> do {
                      (txt, s) \<leftarrow> append_escaped K (bytes_of ''[]'') (bytes_of ''/@:,?=;&+$'') txt host s;
                      port \<leftarrow> get_str d AlternatePortKey;
                      (txt, s) \<leftarrow> (case port of None \<Rightarrow> Some (txt, s)
                        | Some port \<Rightarrow> append_escaped K [] [] (txt @ bytes_of '':'') port s);
                      case cf_url K txt of
                        None \<Rightarrow> Some (plug_error K 1 s)
                      | Some u \<Rightarrow> Some (0, Some (Some u), release 1 (debug_string K (Some (url_string u)) (own 1 s))) } } })
      | _ \<Rightarrow> Some (EINVAL, url, s))"

section \<open>Mounting\<close>

text \<open>The references a context holds besides its own block.\<close>

definition ctx_refs :: "context9p \<Rightarrow> nat" where
  "ctx_refs c = (if cx_user c = None then 0 else 1) + (if cx_pass c = None then 0 else 1)"

text \<open>\<^verbatim>\<open>useGuest\<close>; \<^verbatim>\<open>CFBooleanGetValue\<close> of another type is a crash.\<close>

definition use_guest :: "cfdict option \<Rightarrow> bool option" where
  "use_guest opts = (case opts of None \<Rightarrow> Some False
     | Some d \<Rightarrow> (case d UseGuestKey of None \<Rightarrow> Some False | Some (CFBool b) \<Rightarrow> Some b | _ \<Rightarrow> None))"

text \<open>A session that is open already forgets the names it had.\<close>

definition OpenSession9P :: "'w cflib \<Rightarrow> curl option \<Rightarrow> context9p option \<Rightarrow> cfdict option \<Rightarrow> cfdict option option \<Rightarrow> 'w plug
    \<Rightarrow> (int \<times> context9p option \<times> cfdict option option \<times> 'w plug) option" where
  "OpenSession9P K url v opts info s =
     (case (v, url, info) of
        (Some ctx, Some u, Some _) \<Rightarrow>
          if \<not> url_decomposable u then Some (EINVAL, v, info, s)
          else (case create K (debug_dict K opts (debug_string K (Some (url_string u)) s)) of
              (False, s) \<Rightarrow> Some (ENOMEM, v, Some None, s)
            | (True, s) \<Rightarrow> do {
                guest \<leftarrow> use_guest opts;
                if guest then Some (0, v, Some (Some [MountedByGuestKey \<mapsto> CFBool True]), s)
                else do {
                  let s = lose (replicate (ctx_refs ctx) OldName) s;
                  let ctx = \<lparr>cx_user = url_user u, cx_pass = url_password u\<rparr>;
                  let s = own (ctx_refs ctx) s;
                  case (cx_user ctx, cx_pass ctx) of
                    (Some user, Some pass) \<Rightarrow>
                      Some (0, Some ctx, Some (Some [MountedByUserKey \<mapsto> CFStr user]),
                        debug_string K (Some pass) (debug_string K (Some user) s))
                  | _ \<Rightarrow> (case plug_error K 1 (release (ctx_refs ctx) s) of
                      (e, info, s) \<Rightarrow> Some (e, Some \<lparr>cx_user = None, cx_pass = None\<rparr>, info, s)) } })
      | _ \<Rightarrow> Some (EINVAL, v, info, s))"

definition EnumerateShares9P :: int where
  "EnumerateShares9P = ENOTSUP"

abbreviation MNT_RDONLY :: u32 where "MNT_RDONLY \<equiv> 0x1"
abbreviation MNT_DONTBROWSE :: u32 where "MNT_DONTBROWSE \<equiv> 0x100000"
abbreviation MNT_AUTOMOUNTED :: u32 where "MNT_AUTOMOUNTED \<equiv> 0x400000"

text \<open>The command line of the child.\<close>

definition mount_argv :: "byte list \<Rightarrow> byte list \<Rightarrow> byte list \<Rightarrow> u32 \<Rightarrow> byte list list" where
  "mount_argv host path mntopts fl =
     map bytes_of [''/sbin/mount'', ''-t'', ''9p'',
       ''-o'', if ISSET fl MNT_AUTOMOUNTED then ''automounted'' else ''noautomounted'',
       ''-o'', if ISSET fl MNT_DONTBROWSE then ''nobrowse'' else ''browse'',
       ''-o'', if ISSET fl MNT_RDONLY then ''rdonly'' else ''nordonly'']
     @ [mntopts, host, path]"

definition DoMount9P :: "'w cflib \<Rightarrow> byte list \<Rightarrow> byte list \<Rightarrow> byte list \<Rightarrow> u32 \<Rightarrow> 'w plug \<Rightarrow> int \<times> 'w plug" where
  "DoMount9P K host path mntopts fl s = (case cf_child K (mount_argv host path mntopts fl) (pg_world s) of
     (c, w) \<Rightarrow> (if \<not> ch_forked c \<or> \<not> ch_waited c \<or> \<not> ch_exited c \<or> ch_status c \<noteq> 0 then -1 else 0, s\<lparr>pg_world := w\<rparr>))"

text \<open>The flags; \<^verbatim>\<open>CFNumberGetValue\<close> of a null pointer, or of another type, is a crash.\<close>

definition mount_flags :: "cfdict option \<Rightarrow> u32 option" where
  "mount_flags opts = (case opts of None \<Rightarrow> Some 0 | Some d \<Rightarrow> (case d MountFlagsKey of Some (CFNum n) \<Rightarrow> Some n | _ \<Rightarrow> None))"

text \<open>The option string. An empty query is copied but not released.\<close>

definition mount_options :: "context9p \<Rightarrow> cfstring option \<Rightarrow> cfstring" where
  "mount_options ctx query = bytes_of ''-o''
     @ (case (cx_user ctx, cx_pass ctx) of
          (Some user, Some pass) \<Rightarrow> bytes_of ''uname='' @ user @ bytes_of '',pass='' @ pass
        | _ \<Rightarrow> bytes_of ''noauth'')
     @ (case query of None \<Rightarrow> [] | Some q \<Rightarrow> if q = [] then [] else bytes_of '','' @ q)"

definition query_refs :: "cfstring option \<Rightarrow> nat" where
  "query_refs query = (if query = Some [] then 1 else 0)"

definition copy_query :: "cfstring option \<Rightarrow> 'w plug \<Rightarrow> 'w plug" where
  "copy_query query s = lose (replicate (query_refs query) EmptyQuery) (own (query_refs query) s)"

text \<open>From the host name to the option string: the C strings, with the number of things to give back.\<close>

definition mount_strings :: "'w cflib \<Rightarrow> context9p \<Rightarrow> curl \<Rightarrow> cfstring \<Rightarrow> cfdict option \<Rightarrow> 'w plug
    \<Rightarrow> ((byte list \<times> byte list \<times> byte list \<times> u32) option \<times> nat \<times> 'w plug) option" where
  "mount_strings K ctx u pt opts s =
     (case url_host u of
        None \<Rightarrow> Some (None, 0, s)
      | Some h \<Rightarrow> (case cstring K h (own 1 s) of (host, s) \<Rightarrow> let s = release 1 s in
          (case host of
            None \<Rightarrow> Some (None, 0, s)
          | Some host \<Rightarrow> (case cstring K pt s of
              (None, s) \<Rightarrow> Some (None, 1, s)
            | (Some mntpoint, s) \<Rightarrow> do {
                fl \<leftarrow> mount_flags opts;
                case create K s of
                  (False, s) \<Rightarrow> Some (None, 2, s)
                | (True, s) \<Rightarrow> (case cstring K (mount_options ctx (url_query u)) (copy_query (url_query u) s) of
                    (None, s) \<Rightarrow> Some (None, 3, s)
                  | (Some mntopts, s) \<Rightarrow> Some (Some (host, mntpoint, mntopts, fl), 4, s)) }))))"

definition Mount9P :: "'w cflib \<Rightarrow> context9p option \<Rightarrow> curl option \<Rightarrow> cfstring option \<Rightarrow> cfdict option \<Rightarrow> cfdict option option
    \<Rightarrow> 'w plug \<Rightarrow> (int \<times> cfdict option option \<times> 'w plug) option" where
  "Mount9P K v url mntpointstr opts info s =
     (case (v, url, mntpointstr, info) of
        (Some ctx, Some u, Some pt, Some _) \<Rightarrow>
          if \<not> url_decomposable u then Some (EINVAL, info, s)
          else (case create K (debug_dict K opts (debug_string K (Some (url_string u)) s)) of
              (False, s) \<Rightarrow> Some (ENOMEM, Some None, s)
            | (True, s) \<Rightarrow> do {
                (strs, n, s) \<leftarrow> mount_strings K ctx u pt opts s;
                case strs of
                  None \<Rightarrow> Some (plug_error K (n + 1) s)
                | Some (host, mntpoint, mntopts, fl) \<Rightarrow> (case DoMount9P K host mntpoint mntopts fl s of (r, s) \<Rightarrow>
                    if r < 0 then Some (plug_error K (n + 1) s)
                    else let by = (case cx_user ctx of Some user \<Rightarrow> [MountedByUserKey \<mapsto> CFStr user]
                           | None \<Rightarrow> [MountedByGuestKey \<mapsto> CFBool True]) in
                      Some (0, Some (Some (by(MountPathKey \<mapsto> CFStr pt))), release n s)) })
      | _ \<Rightarrow> Some (EINVAL, info, s))"

section \<open>The end\<close>

definition Cancel9P :: int where
  "Cancel9P = 0"

definition CloseSession9P :: "context9p option \<Rightarrow> 'w plug \<Rightarrow> int \<times> 'w plug" where
  "CloseSession9P v s = (case v of None \<Rightarrow> (EINVAL, s) | Some ctx \<Rightarrow> (0, release (1 + ctx_refs ctx) s))"

text \<open>The exit \<^verbatim>\<open>error\<close> releases the dictionary even when there is none: a crash.\<close>

definition GetMountInfo9P :: "'w cflib \<Rightarrow> cfstring option \<Rightarrow> cfdict option option \<Rightarrow> 'w plug
    \<Rightarrow> (int \<times> cfdict option option \<times> 'w plug) option" where
  "GetMountInfo9P K pt info s =
     (case (pt, info) of
        (Some pt, Some _) \<Rightarrow> (case create K s of
            (False, s) \<Rightarrow> None
          | (True, s) \<Rightarrow> (case cstring K pt s of
              (None, s) \<Rightarrow> Some (plug_error K 1 s)
            | (Some path, s) \<Rightarrow> (case cf_statfs K path (pg_world s) of (from, w) \<Rightarrow> let s = s\<lparr>pg_world := w\<rparr> in
                (case from of
                  None \<Rightarrow> Some (plug_error K 2 s)
                | Some from \<Rightarrow> (case create K s of
                    (False, s) \<Rightarrow> Some (plug_error K 2 s)
                  | (True, s) \<Rightarrow> Some (0, Some (Some [MountedURLKey \<mapsto> CFStr (bytes_of ''9p://'' @ from)]),
                      release 1 (release 1 s)))))))
      | _ \<Rightarrow> Some (EINVAL, info, s))"

end
