(* ===== verification/PluginProps.thy ===== *)
theory PluginProps
  imports Plugin VnopsProps
begin

text \<open>
  The properties of \<^verbatim>\<open>plugin/plugin.c\<close>: what a session gives back of the references it makes, and what it
  loses; and what a mount through the plug-in runs and reports.
\<close>

section \<open>Counting references\<close>

text \<open>What the caller gets through an out argument, which points to a null pointer before the call.\<close>

definition out_arg :: "bool \<Rightarrow> 'a option option" where
  "out_arg given = (if given then Some None else None)"

definition handed :: "'a option option \<Rightarrow> nat" where
  "handed out = (case out of Some (Some _) \<Rightarrow> 1 | _ \<Rightarrow> 0)"

lemma handed_simps [simp]: "handed None = 0" "handed (Some None) = 0" "handed (Some (Some x)) = 1" "handed (out_arg b) = 0"
  by (simp_all add: handed_def out_arg_def)

text \<open>
  What the plug-in can still give back: everything it made but what it lost. And what it lost, besides
  the arguments of \<^verbatim>\<open>DEBUG\<close>.
\<close>

definition kept :: "'w plug \<Rightarrow> int" where
  "kept s = pg_refs s - int (length (pg_lost s))"

definition slips :: "'w plug \<Rightarrow> loss list" where
  "slips s = filter (\<lambda>l. l \<in> {EmptyQuery, OldName}) (pg_lost s)"

lemma kept_simps [simp]: "kept (own n s) = kept s + int n" "kept (release n s) = kept s - int n"
  "kept (lose ls s) = kept s - int (length ls)" "kept (s\<lparr>pg_world := w\<rparr>) = kept s"
  by (simp_all add: kept_def own_def release_def lose_def)

lemma slips_simps [simp]: "slips (own n s) = slips s" "slips (release n s) = slips s" "slips (s\<lparr>pg_world := w\<rparr>) = slips s"
  "slips (lose (replicate n OldName) s) = slips s @ replicate n OldName"
  "slips (lose (replicate n EmptyQuery) s) = slips s @ replicate n EmptyQuery"
  by (simp_all add: slips_def own_def release_def lose_def)

lemma slips_debug [simp]: "slips (lose [DebugString] s) = slips s" "slips (lose [DebugDescription] s) = slips s"
  by (simp_all add: slips_def lose_def)

lemma debug_simps [simp]: "kept (debug_string K x s) = kept s" "slips (debug_string K x s) = slips s"
  "kept (debug_dict K d s) = kept s" "slips (debug_dict K d s) = slips s"
proof -
  show k: "kept (debug_string K x s) = kept s" "slips (debug_string K x s) = slips s" for x s
    by (simp_all add: debug_string_def Let_def split: prod.split)
  show "kept (debug_dict K d s) = kept s" "slips (debug_dict K d s) = slips s"
    by (simp_all add: debug_dict_def Let_def k split: prod.split)
qed

lemma copy_query_simps [simp]: "kept (copy_query q s) = kept s"
  "slips (copy_query q s) = slips s @ replicate (query_refs q) EmptyQuery"
  by (simp_all add: copy_query_def)

lemma create_kept: "create K s = (ok, s') \<Longrightarrow> kept s' = kept s + (if ok then 1 else 0) \<and> slips s' = slips s"
  by (auto simp: create_def split: prod.splits)

lemma cstring_kept: "cstring K x s = (r, s') \<Longrightarrow> kept s' = kept s + (if r = None then 0 else 1) \<and> slips s' = slips s"
  by (auto simp: cstring_def split: prod.splits)

lemma set_kept: "set_copied k x (d, s) = (d', s') \<Longrightarrow> kept s' = kept s \<and> slips s' = slips s"
  "set_optional k y ds = (d', s') \<Longrightarrow> kept s' = kept (snd ds) \<and> slips s' = slips (snd ds)"
  by (auto simp: set_copied_def set_optional_def split: option.splits prod.splits)

lemma set_optional_kept [simp]: "kept (snd (set_optional k y ds)) = kept (snd ds)" "slips (snd (set_optional k y ds)) = slips (snd ds)"
  using set_kept(2) by (metis prod.collapse)+

lemma plug_error_kept: "plug_error K n s = (e, out, s') \<Longrightarrow> kept s' = kept s - int n \<and> slips s' = slips s \<and> out = Some None"
  by (auto simp: plug_error_def)

text \<open>
  One operation keeps the balance: the objects it makes are those it hands to the caller or notes as
  lost; and it loses what \<open>ls\<close> says.
\<close>

definition balanced :: "'w plug \<Rightarrow> 'a option option \<Rightarrow> loss list \<Rightarrow> 'w plug \<Rightarrow> bool" where
  "balanced s out ls s' \<longleftrightarrow> kept s' = kept s + int (handed out) \<and> slips s' = slips s @ ls"

lemma info_balanced: "GetServerInfo9P K url (out_arg b) s = (e, out, s') \<Longrightarrow> balanced s out [] s'"
  by (auto simp: GetServerInfo9P_def balanced_def dest!: create_kept set_kept split: option.splits prod.splits if_splits bool.splits)

lemma parse_balanced: "ParseURL9P K url (out_arg b) s = (e, out, s') \<Longrightarrow> balanced s out [] s'"
  by (auto simp: ParseURL9P_def balanced_def Let_def dest!: create_kept set_kept plug_error_kept
      split: option.splits prod.splits if_splits bool.splits)

lemma append_escaped_kept: "append_escaped K l e txt str s = Some (txt', s') \<Longrightarrow> kept s' = kept s \<and> slips s' = slips s"
  by (auto simp: append_escaped_def split: bind_splits)

lemma append_user_kept: "append_user K d txt s = Some (txt', s') \<Longrightarrow> kept s' = kept s \<and> slips s' = slips s"
  by (auto simp: append_user_def dest!: append_escaped_kept split: bind_splits option.splits)

lemma url_balanced: "CreateURL9P K params (out_arg b) s = Some (e, out, s') \<Longrightarrow> balanced s out [] s'"
  by (auto simp: CreateURL9P_def balanced_def dest!: create_kept plug_error_kept append_user_kept append_escaped_kept
      split: bind_splits option.splits prod.splits bool.splits)

text \<open>Opening a session loses the names the context had.\<close>

lemma open_balanced:
  assumes "OpenSession9P K url (Some c) opts (out_arg b) s = Some (e, v, out, s')"
  shows "\<exists>ctx n. v = Some ctx \<and> n \<le> ctx_refs c \<and> slips s' = slips s @ replicate n OldName
    \<and> kept s' - int (ctx_refs ctx) = kept s - int (ctx_refs c) + int (handed out)"
proof -
  have n: "\<exists>n \<le> ctx_refs c. replicate (ctx_refs c) OldName = replicate n OldName" "\<exists>n \<le> ctx_refs c. [] = replicate n OldName"
    by (blast, intro exI [of _ 0]) simp
  show ?thesis using assms n
    by (auto simp: OpenSession9P_def Let_def dest!: create_kept plug_error_kept
        split: bind_splits option.splits prod.splits bool.splits if_splits) (auto simp: ctx_refs_def)
qed

lemma strings_kept:
  "mount_strings K ctx u pt opts s = Some (strs, n, s')
    \<Longrightarrow> kept s' = kept s + int n \<and> (\<exists>k \<le> query_refs (url_query u). slips s' = slips s @ replicate k EmptyQuery)"
  by (auto simp: mount_strings_def Let_def dest!: create_kept cstring_kept
      split: bind_splits option.splits prod.splits bool.splits if_splits)

lemma do_mount_kept: "DoMount9P K h p m fl s = (r, s') \<Longrightarrow> kept s' = kept s \<and> slips s' = slips s"
  by (auto simp: DoMount9P_def split: prod.splits)

lemma mount_balanced:
  assumes "Mount9P K v (Some u) pt opts (out_arg b) s = Some (e, out, s')"
  shows "\<exists>k \<le> query_refs (url_query u). balanced s out (replicate k EmptyQuery) s'"
proof -
  have z: "\<exists>k \<le> query_refs (url_query u). [] = replicate k EmptyQuery" by (intro exI [of _ 0]) simp
  show ?thesis using assms z
    by (auto simp: Mount9P_def balanced_def Let_def dest!: create_kept plug_error_kept strings_kept do_mount_kept
        split: bind_splits option.splits prod.splits bool.splits if_splits)
qed

lemma mount_info_balanced: "GetMountInfo9P K pt (out_arg b) s = Some (e, out, s') \<Longrightarrow> balanced s out [] s'"
  by (auto simp: GetMountInfo9P_def balanced_def Let_def dest!: create_kept plug_error_kept cstring_kept
      split: option.splits prod.splits bool.splits)

section \<open>A session\<close>

datatype plug_op = ServerInfo "curl option" bool | ParseURL "curl option" bool | CreateURL "cfdict option" bool
  | Open "curl option" "cfdict option" bool | Enumerate | Mount "curl option" "cfstring option" "cfdict option" bool
  | Cancel | MountInfo "cfstring option" bool

text \<open>A session between its making and its closing; \<open>ss_given\<close> counts the objects its callers got.\<close>

record 'w session =
  ss_ctx :: context9p
  ss_given :: nat
  ss_plug :: "'w plug"

definition answer :: "int \<times> 'a option option \<times> 'w plug \<Rightarrow> 'w session \<Rightarrow> int \<times> 'w session" where
  "answer r S = (case r of (e, out, s) \<Rightarrow> (e, S\<lparr>ss_given := ss_given S + handed out, ss_plug := s\<rparr>))"

fun plug_call :: "'w cflib \<Rightarrow> plug_op \<Rightarrow> 'w session \<Rightarrow> (int \<times> 'w session) option" where
  "plug_call K (ServerInfo url b) S = Some (answer (GetServerInfo9P K url (out_arg b) (ss_plug S)) S)"
| "plug_call K (ParseURL url b) S = Some (answer (ParseURL9P K url (out_arg b) (ss_plug S)) S)"
| "plug_call K (CreateURL params b) S =
     map_option (\<lambda>r. answer r S) (CreateURL9P K params (out_arg b) (ss_plug S))"
| "plug_call K (Open url opts b) S = do {
     (e, v, out, s) \<leftarrow> OpenSession9P K url (Some (ss_ctx S)) opts (out_arg b) (ss_plug S);
     ctx \<leftarrow> v;
     Some (answer (e, out, s) (S\<lparr>ss_ctx := ctx\<rparr>)) }"
| "plug_call K Enumerate S = Some (EnumerateShares9P, S)"
| "plug_call K (Mount url pt opts b) S =
     map_option (\<lambda>r. answer r S) (Mount9P K (Some (ss_ctx S)) url pt opts (out_arg b) (ss_plug S))"
| "plug_call K Cancel S = Some (Cancel9P, S)"
| "plug_call K (MountInfo pt b) S =
     map_option (\<lambda>r. answer r S) (GetMountInfo9P K pt (out_arg b) (ss_plug S))"

text \<open>The calls that may lose something besides what \<^verbatim>\<open>DEBUG\<close> makes.\<close>

fun empty_query :: "plug_op \<Rightarrow> bool" where
  "empty_query (Mount (Some u) pt opts b) \<longleftrightarrow> url_query u = Some []"
| "empty_query _ \<longleftrightarrow> False"

fun opens :: "plug_op \<Rightarrow> bool" where
  "opens (Open url opts b) \<longleftrightarrow> True"
| "opens _ \<longleftrightarrow> False"

definition session_rel :: "'w session \<Rightarrow> 'w session \<Rightarrow> bool" where
  "session_rel S S' \<longleftrightarrow> kept (ss_plug S') - int (ctx_refs (ss_ctx S')) - int (ss_given S')
     = kept (ss_plug S) - int (ctx_refs (ss_ctx S)) - int (ss_given S)"

text \<open>What one call loses: an empty query, or the names of a session that was open.\<close>

definition slipped :: "plug_op \<Rightarrow> 'w session \<Rightarrow> 'w session \<Rightarrow> bool" where
  "slipped c S S' \<longleftrightarrow> (\<not> opens c \<longrightarrow> ss_ctx S' = ss_ctx S)
     \<and> (\<exists>ls. slips (ss_plug S') = slips (ss_plug S) @ ls
       \<and> (EmptyQuery \<in> set ls \<longrightarrow> empty_query c) \<and> (OldName \<in> set ls \<longrightarrow> opens c \<and> ctx_refs (ss_ctx S) \<noteq> 0))"

lemma answer_rel:
  assumes "answer (e, out, s') S = (e', S')" "balanced (ss_plug S) out ls s'"
    "EmptyQuery \<in> set ls \<Longrightarrow> empty_query c" "OldName \<notin> set ls"
  shows "session_rel S S' \<and> slipped c S S'"
  using assms by (auto simp: answer_def session_rel_def slipped_def balanced_def)

lemma plug_call_rel:
  assumes "plug_call K c S = Some (e, S')"
  shows "session_rel S S' \<and> slipped c S S'"
proof (cases c)
  case (ServerInfo url b)
  obtain e1 out s1 where "GetServerInfo9P K url (out_arg b) (ss_plug S) = (e1, out, s1)" by (rule prod_cases3)
  note r = this
  show ?thesis by (rule answer_rel [OF _ info_balanced [OF r]]) (use ServerInfo assms r in simp_all)
next
  case (ParseURL url b)
  obtain e1 out s1 where "ParseURL9P K url (out_arg b) (ss_plug S) = (e1, out, s1)" by (rule prod_cases3)
  note r = this
  show ?thesis by (rule answer_rel [OF _ parse_balanced [OF r]]) (use ParseURL assms r in simp_all)
next
  case (CreateURL params b)
  then obtain e1 out s1 where "CreateURL9P K params (out_arg b) (ss_plug S) = Some (e1, out, s1)"
    "answer (e1, out, s1) S = (e, S')" using assms by auto
  note r = this
  show ?thesis by (rule answer_rel [OF r(2) url_balanced [OF r(1)]]) simp_all
next
  case (Open url opts b)
  then obtain e1 v ctx out s1 where o: "OpenSession9P K url (Some (ss_ctx S)) opts (out_arg b) (ss_plug S) = Some (e1, v, out, s1)"
    "v = Some ctx" "answer (e1, out, s1) (S\<lparr>ss_ctx := ctx\<rparr>) = (e, S')" using assms by (auto split: bind_splits)
  from open_balanced [OF o(1)] o(2,3) Open show ?thesis
    by (auto simp: answer_def session_rel_def slipped_def)
next
  case (Mount url pt opts b)
  then obtain e1 out s1 where m: "Mount9P K (Some (ss_ctx S)) url pt opts (out_arg b) (ss_plug S) = Some (e1, out, s1)"
    "answer (e1, out, s1) S = (e, S')" using assms by auto
  show ?thesis
  proof (cases url)
    case None
    then have "balanced (ss_plug S) out [] s1" using m(1) by (auto simp: Mount9P_def balanced_def)
    then show ?thesis by (rule answer_rel [OF m(2)]) simp_all
  next
    case (Some u)
    obtain k where k: "k \<le> query_refs (url_query u)" "balanced (ss_plug S) out (replicate k EmptyQuery) s1"
      using mount_balanced [OF m(1) [unfolded Some]] by blast
    show ?thesis by (rule answer_rel [OF m(2) k(2)]) (use k(1) Mount Some in \<open>auto simp: query_refs_def split: if_splits\<close>)
  qed
next
  case (MountInfo pt b)
  then obtain e1 out s1 where "GetMountInfo9P K pt (out_arg b) (ss_plug S) = Some (e1, out, s1)"
    "answer (e1, out, s1) S = (e, S')" using assms by auto
  note r = this
  show ?thesis by (rule answer_rel [OF r(2) mount_info_balanced [OF r(1)]]) simp_all
qed (use assms in \<open>auto simp: session_rel_def slipped_def\<close>)

lemma run_slips:
  "run_calls (plug_call K) cs S = Some (es, S') \<Longrightarrow> session_rel S S'
    \<and> (\<exists>ls. slips (ss_plug S') = slips (ss_plug S) @ ls \<and> (EmptyQuery \<in> set ls \<longrightarrow> (\<exists>c \<in> set cs. empty_query c))
      \<and> (OldName \<in> set ls \<longrightarrow> (if ctx_refs (ss_ctx S) = 0 then 2 else 1) \<le> length (filter opens cs)))"
proof (induction cs arbitrary: S es)
  case Nil
  then show ?case by (simp add: session_rel_def)
next
  case (Cons c cs)
  obtain e S1 es1 where c: "plug_call K c S = Some (e, S1)" "run_calls (plug_call K) cs S1 = Some (es1, S')"
    using Cons.prems by (auto split: bind_splits)
  obtain l1 where 1: "slips (ss_plug S1) = slips (ss_plug S) @ l1" "EmptyQuery \<in> set l1 \<longrightarrow> empty_query c"
      "OldName \<in> set l1 \<longrightarrow> opens c \<and> ctx_refs (ss_ctx S) \<noteq> 0" "\<not> opens c \<longrightarrow> ss_ctx S1 = ss_ctx S"
    using plug_call_rel [OF c(1)] unfolding slipped_def by blast
  obtain l2 where 2: "slips (ss_plug S') = slips (ss_plug S1) @ l2" "EmptyQuery \<in> set l2 \<longrightarrow> (\<exists>c \<in> set cs. empty_query c)"
      "OldName \<in> set l2 \<longrightarrow> (if ctx_refs (ss_ctx S1) = 0 then 2 else 1) \<le> length (filter opens cs)"
    using Cons.IH [OF c(2)] by blast
  have "session_rel S S'" using plug_call_rel [OF c(1)] Cons.IH [OF c(2)] by (simp add: session_rel_def)
  moreover have "OldName \<in> set (l1 @ l2) \<longrightarrow> (if ctx_refs (ss_ctx S) = 0 then 2 else 1) \<le> length (filter opens (c # cs))"
    using 1(3,4) 2(3) by (cases "opens c") (auto split: if_splits)
  ultimately show ?case using 1(1,2) 2(1,2) by (intro conjI exI [of _ "l1 @ l2"]) auto
qed

section \<open>Calls that do not crash\<close>

text \<open>
  What the plug-in takes for granted: dictionaries with the types that NetFS documents, the flags of a
  mount, and, for \<open>GetMountInfo9P\<close>, that its dictionary can be made.
\<close>

definition string_dict :: "cfdict \<Rightarrow> bool" where
  "string_dict d \<longleftrightarrow> (\<forall>k \<in> {SchemeKey, UserNameKey, PasswordKey, HostKey, AlternatePortKey}. get_str d k \<noteq> None)"

fun plug_ok :: "'w cflib \<Rightarrow> plug_op \<Rightarrow> bool" where
  "plug_ok K (CreateURL params b) \<longleftrightarrow> (case params of None \<Rightarrow> True | Some d \<Rightarrow> string_dict d)"
| "plug_ok K (Open url opts b) \<longleftrightarrow> use_guest opts \<noteq> None"
| "plug_ok K (Mount url pt opts b) \<longleftrightarrow> mount_flags opts \<noteq> None"
| "plug_ok K (MountInfo pt b) \<longleftrightarrow> (\<forall>w. fst (cf_alloc K w))"
| "plug_ok K c \<longleftrightarrow> True"

definition escapes :: "'w cflib \<Rightarrow> bool" where
  "escapes K \<longleftrightarrow> (\<forall>x l e. cf_escape K x l e \<noteq> None)"

lemma release_own [simp]: "release n (own n s) = s"
  by (simp add: release_def own_def)

lemma append_escaped_total:
  assumes "escapes K"
  obtains t where "append_escaped K l e txt str s = Some (t, s)"
proof -
  obtain x where "cf_escape K str l e = Some x" using assms unfolding escapes_def by blast
  then show ?thesis using that by (simp add: append_escaped_def)
qed

lemma append_user_total:
  assumes "escapes K" "string_dict d"
  obtains t where "append_user K d txt s = Some (t, s)"
proof -
  let ?e = "append_escaped K [] (bytes_of ''@:/?'')"
  obtain u p where u: "get_str d UserNameKey = Some u" "get_str d PasswordKey = Some p"
    using assms(2) by (auto simp: string_dict_def)
  show ?thesis
  proof (cases u)
    case (Some user)
    obtain t1 where 1: "?e txt user s = Some (t1, s)" by (rule append_escaped_total [OF assms(1)])
    show ?thesis
    proof (cases p)
      case (Some pass)
      obtain t2 where "?e (t1 @ bytes_of '':'') pass s = Some (t2, s)" by (rule append_escaped_total [OF assms(1)])
      then show ?thesis using that u 1 Some \<open>u = Some user\<close> by (simp add: append_user_def)
    qed (use that u 1 \<open>u = Some user\<close> in \<open>simp add: append_user_def\<close>)
  qed (use that u in \<open>simp add: append_user_def\<close>)
qed

lemma create_url_total:
  assumes "escapes K" "\<And>d. params = Some d \<Longrightarrow> string_dict d"
  shows "CreateURL9P K params url s \<noteq> None"
proof (cases params)
  case (Some d)
  then have d: "string_dict d" using assms(2) by simp
  then obtain sc h p where g: "get_str d SchemeKey = Some sc" "get_str d HostKey = Some h" "get_str d AlternatePortKey = Some p"
    by (auto simp: string_dict_def)
  show ?thesis
  proof (cases "url = None \<or> \<not> fst (create K (debug_dict K (Some d) s)) \<or> sc = None")
    case True
    then show ?thesis using Some g
      by (auto simp: CreateURL9P_def plug_error_def split: option.splits prod.splits bool.splits)
  next
    case False
    then obtain scheme s1 o1 where 1: "sc = Some scheme" "create K (debug_dict K (Some d) s) = (True, s1)" "url = Some o1"
      by (cases "create K (debug_dict K (Some d) s)") auto
    obtain t1 where t1: "append_user K d (scheme @ bytes_of ''://'') s1 = Some (t1, s1)"
      by (rule append_user_total [OF assms(1) d])
    show ?thesis
    proof (cases h)
      case (Some host)
      obtain t2 where t2: "append_escaped K (bytes_of ''[]'') (bytes_of ''/@:,?=;&+$'') t1 host s1 = Some (t2, s1)"
        by (rule append_escaped_total [OF assms(1)])
      show ?thesis
      proof (cases p)
        case None
        then show ?thesis using g 1 t1 t2 Some \<open>params = Some d\<close> by (simp add: CreateURL9P_def plug_error_def split: option.split)
      next
        fix port assume p: "p = Some port"
        obtain t3 where "append_escaped K [] [] (t2 @ bytes_of '':'') port s1 = Some (t3, s1)"
          by (rule append_escaped_total [OF assms(1)])
        then show ?thesis using g 1 t1 t2 Some p \<open>params = Some d\<close> by (simp add: CreateURL9P_def plug_error_def split: option.split)
      qed
    qed (use g 1 t1 \<open>params = Some d\<close> in \<open>simp add: CreateURL9P_def plug_error_def\<close>)
  qed
qed (simp add: CreateURL9P_def)

lemma mount_total:
  assumes "mount_flags opts \<noteq> None"
  shows "Mount9P K v url pt opts info s \<noteq> None"
proof -
  have *: "mount_strings K ctx u p opts s' \<noteq> None" for ctx u p s'
    using assms by (auto simp: mount_strings_def Let_def split: option.splits prod.splits bool.splits)
  show ?thesis
  proof
    assume "Mount9P K v url pt opts info s = None"
    then show False using *
      by (auto simp: Mount9P_def Let_def bind_eq_None_conv simp del: not_None_eq split: option.splits prod.splits bool.splits if_splits)
  qed
qed

lemma open_session_total:
  assumes "use_guest opts \<noteq> None"
  obtains e ctx out s' where "OpenSession9P K url (Some c) opts info s = Some (e, Some ctx, out, s')"
proof -
  have "\<exists>e ctx out s'. OpenSession9P K url (Some c) opts info s = Some (e, Some ctx, out, s')"
    using assms by (auto simp: OpenSession9P_def plug_error_def Let_def split: option.splits prod.splits bool.splits)
  then show ?thesis using that by blast
qed

lemma mount_info_total:
  assumes "\<And>w. fst (cf_alloc K w)"
  shows "GetMountInfo9P K pt info s \<noteq> None"
proof -
  have "create K s' \<noteq> (False, s'')" for s' s''
    using assms [of "pg_world s'"] by (cases "cf_alloc K (pg_world s')") (simp add: create_def)
  then show ?thesis
    by (simp add: GetMountInfo9P_def plug_error_def Let_def split: option.splits prod.splits bool.splits)
qed

lemma plug_call_total:
  assumes "escapes K" "plug_ok K c"
  shows "plug_call K c S \<noteq> None"
proof (cases c)
  case (CreateURL params b)
  have "CreateURL9P K params (out_arg b) (ss_plug S) \<noteq> None"
    by (rule create_url_total [OF assms(1)]) (use assms(2) CreateURL in simp)
  then show ?thesis using CreateURL by simp
next
  case (Open url opts b)
  then have "use_guest opts \<noteq> None" using assms(2) by simp
  then obtain e ctx out s' where "OpenSession9P K url (Some (ss_ctx S)) opts (out_arg b) (ss_plug S) = Some (e, Some ctx, out, s')"
    by (rule open_session_total)
  then show ?thesis using Open by simp
next
  case (Mount url pt opts b)
  then show ?thesis using mount_total [of opts] assms(2) by simp
next
  case (MountInfo pt b)
  then show ?thesis using mount_info_total [of K] assms(2) by simp
qed simp_all

interpretation plugin: calls "plug_call K" "\<lambda>S. escapes K" "\<lambda>S. plug_ok K" session_rel
  for K :: "'w cflib"
proof
  fix S :: "'w session" and c assume "escapes K" "plug_ok K c"
  then obtain e S' where "plug_call K c S = Some (e, S')" using plug_call_total by (metis option.exhaust surj_pair)
  then show "\<exists>e S'. plug_call K c S = Some (e, S') \<and> escapes K \<and> session_rel S S'"
    using plug_call_rel \<open>escapes K\<close> by blast
qed (simp_all add: session_rel_def)

text \<open>
  C28. A session of the plug-in, from the making of its context to its closing, with any calls in any
  order in between: opening it, once or again, mounting, parsing and making URLs, and asking for
  information. Every call returns, whatever the library answers, unless its arguments make it crash:
  a value of another type in a dictionary, or a mount whose options have no flags
  (\<open>GetMountInfo9P\<close> crashes when it cannot make its dictionary, too). Whether or not some of the calls
  are of that kind, when all return the plug-in has in the end given back every reference and every
  block it made, but for the objects that its callers got and those it has lost: what the arguments
  of \<^verbatim>\<open>DEBUG\<close> made, the empty query of a URL that was mounted, and names of a session that was opened
  again. Without such a query, or a second opening, the last two do not occur.
\<close>

theorem plugin_session_balanced:
  assumes "CreateSessionRef9P K (Some None) s = (0, Some (Some ctx), s0)" "pg_lost s = []"
  shows "(escapes K \<longrightarrow> list_all (plug_ok K) cs
      \<longrightarrow> run_calls (plug_call K) cs \<lparr>ss_ctx = ctx, ss_given = 0, ss_plug = s0\<rparr> \<noteq> None)
    \<and> (\<forall>es S s2. run_calls (plug_call K) cs \<lparr>ss_ctx = ctx, ss_given = 0, ss_plug = s0\<rparr> = Some (es, S)
      \<longrightarrow> CloseSession9P (Some (ss_ctx S)) (ss_plug S) = (0, s2)
      \<longrightarrow> pg_refs s2 = pg_refs s + int (ss_given S) + int (length (pg_lost s2))
        \<and> (EmptyQuery \<in> set (pg_lost s2) \<longrightarrow> (\<exists>c \<in> set cs. empty_query c))
        \<and> (OldName \<in> set (pg_lost s2) \<longrightarrow> 2 \<le> length (filter opens cs)))"
proof -
  let ?S = "\<lparr>ss_ctx = ctx, ss_given = 0, ss_plug = s0\<rparr>"
  have c: "ctx = \<lparr>cx_user = None, cx_pass = None\<rparr>" "kept s0 = kept s + 1" "slips s0 = slips s"
    using assms(1) by (auto simp: CreateSessionRef9P_def Let_def dest!: create_kept split: prod.splits bool.splits if_splits)
  have z: "ctx_refs ctx = 0" "slips s = []" "kept s = pg_refs s" using c(1) assms(2) by (simp_all add: ctx_refs_def slips_def kept_def)
  have "pg_refs s2 = pg_refs s + int (ss_given S) + int (length (pg_lost s2))
      \<and> (EmptyQuery \<in> set (pg_lost s2) \<longrightarrow> (\<exists>c \<in> set cs. empty_query c))
      \<and> (OldName \<in> set (pg_lost s2) \<longrightarrow> 2 \<le> length (filter opens cs))"
    if r: "run_calls (plug_call K) cs ?S = Some (es, S)" and e: "CloseSession9P (Some (ss_ctx S)) (ss_plug S) = (0, s2)" for es S s2
  proof -
    have s2: "s2 = release (1 + ctx_refs (ss_ctx S)) (ss_plug S)" using e by (simp add: CloseSession9P_def)
    obtain ls where ls: "slips s2 = ls" "EmptyQuery \<in> set ls \<longrightarrow> (\<exists>c \<in> set cs. empty_query c)"
        "OldName \<in> set ls \<longrightarrow> 2 \<le> length (filter opens cs)" "session_rel ?S S"
      using run_slips [OF r] c(3) z(1,2) s2 by auto
    have "kept s2 = kept s + int (ss_given S)" using ls(4) s2 c(2) z(1) by (simp add: session_rel_def)
    moreover have "x \<in> set (pg_lost s2) \<Longrightarrow> x \<in> {EmptyQuery, OldName} \<Longrightarrow> x \<in> set ls" for x
      using ls(1) by (auto simp: slips_def)
    ultimately show ?thesis using ls(2,3) z(3) by (simp add: kept_def)
  qed
  moreover have "escapes K \<longrightarrow> list_all (plug_ok K) cs \<longrightarrow> run_calls (plug_call K) cs ?S \<noteq> None"
    using plugin.run_total [of K cs ?S] by auto
  ultimately show ?thesis by blast
qed

text \<open>The library of the example: every call works, and a child exits with \<open>status\<close>.\<close>

definition ex_cf :: "nat \<Rightarrow> unit cflib" where
  "ex_cf status = \<lparr>cf_alloc = (\<lambda>w. (True, w)), cf_mutex = (\<lambda>w. (0, w)), cf_cstring = (\<lambda>x w. (x, w)),
     cf_describe = (\<lambda>d w. (map_option (\<lambda>_. []) d, w)),
     cf_escape = (\<lambda>x _ _. Some x), cf_url = (\<lambda>_. None), cf_errno = (\<lambda>_. 0),
     cf_child = (\<lambda>_ w. (\<lparr>ch_forked = True, ch_waited = True, ch_exited = True, ch_status = status\<rparr>, w)),
     cf_statfs = (\<lambda>_ w. (None, w))\<rparr>"

definition ex_url :: curl where
  "ex_url = \<lparr>url_string = bytes_of ''9p://u:p@h'', url_decomposable = True, url_scheme = Some (bytes_of ''9p''),
     url_host = Some (bytes_of ''h''), url_port = -1, url_user = Some (bytes_of ''u''), url_password = Some (bytes_of ''p''),
     url_query = None\<rparr>"

definition ex_plug :: "unit plug" where
  "ex_plug = \<lparr>pg_refs = 0, pg_lost = [], pg_world = ()\<rparr>"

abbreviation ex_ctx :: context9p where
  "ex_ctx \<equiv> \<lparr>cx_user = Some (bytes_of ''u''), cx_pass = Some (bytes_of ''p'')\<rparr>"

text \<open>
  The session is opened, the volume is mounted by a URL with an empty query, a URL that cannot be made is asked for,
  and the session is opened again.
\<close>

definition ex_calls :: "plug_op list" where
  "ex_calls = [Open (Some ex_url) None True, Mount (Some (ex_url\<lparr>url_query := Some []\<rparr>)) (Some (bytes_of ''/m'')) None True,
     CreateURL (Some Map.empty) True, Open (Some ex_url) None True]"

definition ex_session :: "unit session" where
  "ex_session = \<lparr>ss_ctx = \<lparr>cx_user = None, cx_pass = None\<rparr>, ss_given = 0, ss_plug = ex_plug\<lparr>pg_refs := 1\<rparr>\<rparr>"

abbreviation ex_lost :: "loss list" where
  "ex_lost \<equiv> [DebugString, DebugString, DebugString, DebugString, EmptyQuery, DebugDescription, DebugString, DebugString,
     OldName, OldName, DebugString, DebugString]"

lemma ex_losses:
  "\<exists>es S. run_calls (plug_call (ex_cf 0)) ex_calls ex_session = Some (es, S) \<and> ss_given S = 3 \<and> pg_lost (ss_plug S) = ex_lost"
  by (simp add: ex_calls_def ex_session_def answer_def OpenSession9P_def Mount9P_def mount_strings_def DoMount9P_def CreateURL9P_def
    create_def own_def release_def lose_def debug_string_def debug_dict_def cstring_def copy_query_def query_refs_def
    use_guest_def ctx_refs_def mount_flags_def plug_error_def get_str_def out_arg_def ex_cf_def ex_plug_def ex_url_def Let_def)

theorem plugin_session_balanced_witness:
  "\<exists>es S s2. run_calls (plug_call (ex_cf 0)) ex_calls ex_session = Some (es, S)
    \<and> CloseSession9P (Some (ss_ctx S)) (ss_plug S) = (0, s2) \<and> pg_refs s2 = 3 + 12 \<and> pg_lost s2 = ex_lost"
proof -
  have c: "CreateSessionRef9P (ex_cf 0) (Some None) ex_plug
      = (0, Some (Some \<lparr>cx_user = None, cx_pass = None\<rparr>), ex_plug\<lparr>pg_refs := 1\<rparr>)" "pg_lost ex_plug = []" "pg_refs ex_plug = 0"
    by (simp_all add: CreateSessionRef9P_def create_def own_def ex_cf_def ex_plug_def)
  obtain es S where r: "run_calls (plug_call (ex_cf 0)) ex_calls ex_session = Some (es, S)" "ss_given S = 3"
      "pg_lost (ss_plug S) = ex_lost" using ex_losses by blast
  obtain s2 where s2: "CloseSession9P (Some (ss_ctx S)) (ss_plug S) = (0, s2)" "pg_lost s2 = ex_lost"
    using r(3) by (simp add: CloseSession9P_def release_def)
  have "pg_refs s2 = pg_refs ex_plug + int (ss_given S) + int (length (pg_lost s2))"
    using plugin_session_balanced [OF c(1,2), of ex_calls] r(1) s2(1) unfolding ex_session_def by blast
  then show ?thesis using r s2 c(3) by auto
qed

section \<open>What a mount runs\<close>

text \<open>\<^verbatim>\<open>getmntopts\<close> takes the option string apart at its commas.\<close>

fun fields :: "'a \<Rightarrow> 'a list \<Rightarrow> 'a list list" where
  "fields c [] = [[]]"
| "fields c (x # xs) = (if x = c then [] # fields c xs else (x # hd (fields c xs)) # tl (fields c xs))"

lemma fields_not_Nil [simp]: "fields c xs \<noteq> []"
  by (cases xs) simp_all

lemma fields_append: "fields c (xs @ c # ys) = fields c xs @ fields c ys"
  by (induction xs) (simp_all add: hd_append)

lemma fields_one: "fields c xs = [xs] \<longleftrightarrow> c \<notin> set xs"
proof (induction xs)
  case (Cons x xs)
  then show ?case by (cases "fields c xs") auto
qed simp

lemma fields_two: "fields c xs @ fields c ys = [xs, ys] \<longleftrightarrow> c \<notin> set xs \<and> c \<notin> set ys"
proof
  assume f: "fields c xs @ fields c ys = [xs, ys]"
  obtain a as b bs where "fields c xs = a # as" "fields c ys = b # bs" using fields_not_Nil by (metis list.exhaust)
  with f have "fields c xs = [xs]" "fields c ys = [ys]" by (auto simp: append_eq_Cons_conv)
  then show "c \<notin> set xs \<and> c \<notin> set ys" by (simp add: fields_one)
qed (simp add: fields_one [THEN iffD2])

definition query_fields :: "cfstring option \<Rightarrow> byte list list" where
  "query_fields q = (case q of None \<Rightarrow> [] | Some q \<Rightarrow> if q = [] then [] else fields 44 q)"

text \<open>The options that are meant: who mounts, and the options of the query.\<close>

definition meant_options :: "context9p \<Rightarrow> cfstring option \<Rightarrow> byte list list" where
  "meant_options ctx q = (case (cx_user ctx, cx_pass ctx) of
       (Some user, Some pass) \<Rightarrow> [bytes_of ''uname='' @ user, bytes_of ''pass='' @ pass]
     | _ \<Rightarrow> [bytes_of ''noauth'']) @ query_fields q"

definition plain_names :: "context9p \<Rightarrow> bool" where
  "plain_names ctx \<longleftrightarrow> (case (cx_user ctx, cx_pass ctx) of
       (Some user, Some pass) \<Rightarrow> 44 \<notin> set user \<and> 44 \<notin> set pass | _ \<Rightarrow> True)"

lemma mount_options_named:
  assumes "cx_user ctx = Some user" "cx_pass ctx = Some pass"
  shows "fields 44 (drop 2 (mount_options ctx q)) = [bytes_of ''uname='' @ user, bytes_of ''pass='' @ pass] @ query_fields q
    \<longleftrightarrow> 44 \<notin> set user \<and> 44 \<notin> set pass"
proof -
  let ?a = "bytes_of ''uname='' @ user" and ?b = "bytes_of ''pass='' @ pass"
  have m: "drop 2 (mount_options ctx q) = ?a @ 44 # ?b @ (case q of None \<Rightarrow> [] | Some q \<Rightarrow> if q = [] then [] else 44 # q)"
    using assms by (simp add: mount_options_def bytes_of_def split: option.split)
  have "fields 44 (drop 2 (mount_options ctx q)) = (fields 44 ?a @ fields 44 ?b) @ query_fields q"
    unfolding m fields_append by (auto simp: query_fields_def fields_append [of 44 ?b, unfolded append_assoc] fields_append split: option.split)
  then show ?thesis by (simp only: append_same_eq fields_two) (simp add: bytes_of_def)
qed

lemma mount_options_guest:
  assumes "cx_user ctx = None \<or> cx_pass ctx = None"
  shows "fields 44 (drop 2 (mount_options ctx q)) = [bytes_of ''noauth''] @ query_fields q"
proof -
  let ?n = "bytes_of ''noauth''"
  have m: "drop 2 (mount_options ctx q) = ?n @ (case q of None \<Rightarrow> [] | Some q \<Rightarrow> if q = [] then [] else 44 # q)"
    using assms by (auto simp: mount_options_def bytes_of_def split: option.split)
  have n: "fields 44 ?n = [?n]" unfolding fields_one by (simp add: bytes_of_def)
  show ?thesis unfolding m using n by (auto simp: query_fields_def fields_append split: option.split)
qed

lemma mount_options_fields: "fields 44 (drop 2 (mount_options ctx q)) = meant_options ctx q \<longleftrightarrow> plain_names ctx"
proof (cases "cx_user ctx = None \<or> cx_pass ctx = None")
  case True
  then show ?thesis using mount_options_guest [OF True]
    by (auto simp: meant_options_def plain_names_def split: option.split)
next
  case False
  then obtain user pass where "cx_user ctx = Some user" "cx_pass ctx = Some pass" by auto
  then show ?thesis using mount_options_named [of ctx user pass q] by (simp add: meant_options_def plain_names_def)
qed

text \<open>C strings say what the strings say.\<close>

definition true_cstrings :: "'w cflib \<Rightarrow> bool" where
  "true_cstrings K \<longleftrightarrow> (\<forall>x w r w'. cf_cstring K (Some x) w = (Some r, w') \<longrightarrow> r = x)"

lemma cstring_true: "cstring K x s = (Some r, s') \<Longrightarrow> true_cstrings K \<Longrightarrow> r = x"
  by (auto simp: cstring_def true_cstrings_def split: prod.splits)

lemma mount_strings_true:
  assumes "mount_strings K ctx u pt opts s = Some (Some (host, path, o', fl), n, s')" "true_cstrings K"
  shows "url_host u = Some host" "path = pt" "o' = mount_options ctx (url_query u)" "mount_flags opts = Some fl"
  using assms by (auto simp: mount_strings_def Let_def dest: cstring_true
      split: bind_splits option.splits prod.splits bool.splits if_splits)

definition succeeded :: "child \<Rightarrow> bool" where
  "succeeded c \<longleftrightarrow> ch_forked c \<and> ch_waited c \<and> ch_exited c \<and> ch_status c = 0"

lemma DoMount_ok: "DoMount9P K host path o' fl s = (r, s') \<Longrightarrow> \<not> r < 0 \<Longrightarrow>
    \<exists>w c. cf_child K (mount_argv host path o' fl) w = (c, pg_world s') \<and> succeeded c"
  by (cases "cf_child K (mount_argv host path o' fl) (pg_world s)") (auto simp: DoMount9P_def succeeded_def intro!: exI split: if_splits)

lemma plug_error_errno: "plug_error K n s = (e, out, s') \<Longrightarrow> e = cf_errno K (pg_world s') \<and> out = Some None"
  by (auto simp: plug_error_def release_def)

text \<open>A mount whose strings could be made: what the command's result decides.\<close>

lemma Mount_cases:
  assumes "Mount9P K (Some ctx) (Some u) (Some pt) opts (Some None) s = Some (e, out, s')"
  obtains "\<not> url_decomposable u" "e = EINVAL" "out = Some None"
    | "e = ENOMEM" "out = Some None"
    | "e = cf_errno K (pg_world s')" "out = Some None"
    | host path o' fl n s0 s1 r s2 where "mount_strings K ctx u pt opts s0 = Some (Some (host, path, o', fl), n, s1)"
      "DoMount9P K host path o' fl s1 = (r, s2)" "\<not> r < 0" "e = 0" "s' = release n s2"
      "out = Some (Some ((case cx_user ctx of Some user \<Rightarrow> [MountedByUserKey \<mapsto> CFStr user]
          | None \<Rightarrow> [MountedByGuestKey \<mapsto> CFBool True])(MountPathKey \<mapsto> CFStr pt)))"
proof (cases "url_decomposable u")
  case False
  then show ?thesis using assms that(1) by (simp add: Mount9P_def)
next
  case True
  obtain ok s0 where c: "create K (debug_dict K opts (debug_string K (Some (url_string u)) s)) = (ok, s0)" by (rule prod.exhaust)
  show ?thesis
  proof (cases ok)
    case False
    then show ?thesis using assms that(2) True c by (simp add: Mount9P_def)
  next
    case ok: True
    obtain strs n s1 where m: "mount_strings K ctx u pt opts s0 = Some (strs, n, s1)"
      using assms True c ok by (auto simp: Mount9P_def split: bind_splits)
    show ?thesis
    proof (cases strs)
      case None
      then have "plug_error K (n + 1) s1 = (e, out, s')" using assms True c ok m by (simp add: Mount9P_def)
      from plug_error_errno [OF this] show ?thesis by (intro that(3)) simp_all
    next
      case (Some q)
      obtain host path o' fl where q: "q = (host, path, o', fl)" by (cases q)
      obtain r s2 where d: "DoMount9P K host path o' fl s1 = (r, s2)" by (rule prod.exhaust)
      show ?thesis
      proof (cases "r < 0")
        case True
        then have "plug_error K (n + 1) s2 = (e, out, s')"
          using assms \<open>url_decomposable u\<close> c ok m Some q d by (simp add: Mount9P_def)
        from plug_error_errno [OF this] show ?thesis by (intro that(3)) simp_all
      next
        case False
        then show ?thesis using assms True c ok m Some q d
          by (intro that(4) [of s0 host path o' fl n s1 r s2]) (simp_all add: Mount9P_def Let_def)
      qed
    qed
  qed
qed

text \<open>
  C29. A mount through the plug-in that gives its caller a description has run \<^verbatim>\<open>/sbin/mount\<close> on the URL's
  host and the mount point with the flags asked for, the command succeeded, and the description
  says who mounted what, in a session with names and in a guest's alike. Without a description
  (the arguments wrong, memory short, or no command that succeeded) the error is \<^verbatim>\<open>EINVAL\<close>, \<^verbatim>\<open>ENOMEM\<close> or whatever \<^verbatim>\<open>errno\<close> is, which may be 0. The options of the command are the
  names or \<^verbatim>\<open>noauth\<close>, and those of the URL's query, exactly when neither name has a comma in it.
\<close>

theorem plugin_mount_runs_mount:
  assumes "Mount9P K (Some ctx) (Some u) (Some pt) opts (Some None) s = Some (e, out, s')" "true_cstrings K"
  shows "(case out of
      Some (Some info) \<Rightarrow> e = 0 \<and> info MountPathKey = Some (CFStr pt)
        \<and> info MountedByUserKey = map_option CFStr (cx_user ctx)
        \<and> info MountedByGuestKey = (if cx_user ctx = None then Some (CFBool True) else None)
        \<and> (\<exists>host fl w c. url_host u = Some host \<and> mount_flags opts = Some fl
          \<and> cf_child K (mount_argv host pt (mount_options ctx (url_query u)) fl) w = (c, pg_world s') \<and> succeeded c)
    | _ \<Rightarrow> e \<in> {EINVAL, ENOMEM, cf_errno K (pg_world s')})
    \<and> (fields 44 (drop 2 (mount_options ctx (url_query u))) = meant_options ctx (url_query u) \<longleftrightarrow> plain_names ctx)"
  using assms(1)
proof (cases rule: Mount_cases)
  case (4 host path o' fl n s0 s1 r s2)
  have "url_host u = Some host" "path = pt" "o' = mount_options ctx (url_query u)" "mount_flags opts = Some fl"
    using mount_strings_true [OF 4(1) assms(2)] by simp_all
  moreover have "\<exists>w c. cf_child K (mount_argv host path o' fl) w = (c, pg_world s2) \<and> succeeded c"
    by (rule DoMount_ok [OF 4(2,3)])
  moreover have "pg_world s' = pg_world s2" using 4(5) by (simp add: release_def)
  ultimately show ?thesis using 4(4,6) by (simp add: mount_options_fields split: option.split)
qed (simp_all add: mount_options_fields)

text \<open>In the example a password \<^verbatim>\<open>p,port=1\<close> adds an option.\<close>

lemma ex_mount:
  "\<exists>info s'. Mount9P (ex_cf 0) (Some (ex_ctx\<lparr>cx_pass := Some (bytes_of ''p,port=1'')\<rparr>)) (Some ex_url) (Some (bytes_of ''/m''))
    None (Some None) ex_plug = Some (0, Some (Some info), s')"
  by (simp add: Mount9P_def mount_strings_def DoMount9P_def create_def debug_string_def debug_dict_def lose_def own_def release_def
    cstring_def copy_query_def mount_flags_def ex_cf_def ex_url_def ex_plug_def Let_def)

theorem plugin_mount_runs_mount_witness:
  "\<exists>info s'. Mount9P (ex_cf 0) (Some (ex_ctx\<lparr>cx_pass := Some (bytes_of ''p,port=1'')\<rparr>)) (Some ex_url) (Some (bytes_of ''/m''))
      None (Some None) ex_plug = Some (0, Some (Some info), s') \<and> info MountPathKey = Some (CFStr (bytes_of ''/m''))
    \<and> fields 44 (drop 2 (mount_options (ex_ctx\<lparr>cx_pass := Some (bytes_of ''p,port=1'')\<rparr>) None))
      \<noteq> [bytes_of ''uname=u'', bytes_of ''pass=p,port=1'']"
proof -
  let ?c = "ex_ctx\<lparr>cx_pass := Some (bytes_of ''p,port=1'')\<rparr>"
  obtain info s' where m: "Mount9P (ex_cf 0) (Some ?c) (Some ex_url) (Some (bytes_of ''/m'')) None (Some None) ex_plug
      = Some (0, Some (Some info), s')" using ex_mount by blast
  have t: "true_cstrings (ex_cf 0)" by (simp add: true_cstrings_def ex_cf_def)
  have q: "\<not> plain_names ?c" "url_query ex_url = None"
      "meant_options ?c None = [bytes_of ''uname=u'', bytes_of ''pass=p,port=1'']"
    by (simp_all add: plain_names_def meant_options_def query_fields_def bytes_of_def ex_url_def)
  show ?thesis using m plugin_mount_runs_mount [OF m t] q by auto
qed

text \<open>
  A mount that fails reports \<^verbatim>\<open>errno\<close>, which a child that exits with a status leaves as it was: with
  \<^verbatim>\<open>errno\<close> 0 the caller is told that the mount succeeded, and gets no description of it.
\<close>

theorem failed_mount_reports_errno:
  assumes "create K (debug_dict K opts (debug_string K (Some (url_string u)) s)) = (True, s0)" "mount_strings K ctx u pt opts s0 = Some (Some (host, path, o', fl), n, s1)"
    and "cf_child K (mount_argv host path o' fl) (pg_world s1) = (c, w)" "ch_status c \<noteq> 0" "url_decomposable u"
  shows "\<exists>s'. Mount9P K (Some ctx) (Some u) (Some pt) opts (Some None) s = Some (cf_errno K w, Some None, s')"
  using assms by (simp add: Mount9P_def DoMount9P_def plug_error_def)

end
