(* ===== verification/ParsedStrings.thy ===== *)
theory ParsedStrings
  imports WireRead
begin

text \<open>
  The strings of a parsed message: each of them ends with a NUL inside the message, although they are
  made in place, one after the other, in the buffer the message was received into.
\<close>

section \<open>Terminated strings\<close>

definition nul_before :: "memory \<Rightarrow> nat \<Rightarrow> nat \<Rightarrow> bool" where
  "nul_before m p q \<longleftrightarrow> (\<exists>k. q + k < p \<and> m ! (q + k) = 0)"

text \<open>The fields that \<^verbatim>\<open>gstring\<close> sets.\<close>

definition str_fields :: "rx_call \<Rightarrow> ptr set" where
  "str_fields f = {fc_version f, fc_ename f, fc_uname f, fc_aname f, fc_name f, fc_ext f} \<union> set (fc_wname f)"

definition ended :: "m2s \<Rightarrow> bool" where
  "ended s \<longleftrightarrow> (\<forall>q. Some q \<in> str_fields (ms_f s) \<longrightarrow> nul_before (ms_buf s) (ms_p s) q)"

definition keeps_ended :: "m2s_stmt \<Rightarrow> bool" where
  "keeps_ended c \<longleftrightarrow> (\<forall>s s'. c s = Go s' \<longrightarrow> ended s \<longrightarrow> ended s')"

lemma keeps_ended_exec: "\<forall>c \<in> set cs. keeps_ended c \<Longrightarrow> exec cs s = Go s' \<Longrightarrow> ended s \<Longrightarrow> ended s'"
  by (induction cs arbitrary: s) (auto simp: keeps_ended_def split: outcome.splits)

lemma nul_before_mono: "nul_before m p q \<Longrightarrow> p \<le> p' \<Longrightarrow> \<forall>j < p. m' ! j = m ! j \<Longrightarrow> nul_before m' p' q"
  by (auto simp: nul_before_def intro: less_le_trans)

text \<open>\<^verbatim>\<open>gstring\<close> writes from the count on, and ends its string before the new read pointer.\<close>

lemma gstring_ends:
  assumes "gstring m p ep = Some (m', Some (p', q))"
  shows "p \<le> p' \<and> nul_before m' p' q \<and> (\<forall>j < p. m' ! j = m ! j)"
proof -
  have "\<exists>b s m1. wrn m1 (p + 1 + unat (GBIT16 b)) [0] = Some m' \<and> p' = p + 1 + (unat (GBIT16 b) + 1)
      \<and> q = p + 1 \<and> rdn m p 2 = Some b \<and> wrn m (p + 1) s = Some m1"
    using assms unfolding gstring_def Let_def by (simp add: bind_eq_Some_conv split: if_split_asm) blast
  then obtain b s m1 where w: "wrn m1 (p + 1 + unat (GBIT16 b)) [0] = Some m'" "wrn m (p + 1) s = Some m1"
    "p' = p + 1 + (unat (GBIT16 b) + 1)" "q = p + 1" by blast
  have "nul_before m' p' q" unfolding nul_before_def
    using nth_wrn [OF w(1)] w(3,4) by (intro exI [of _ "unat (GBIT16 b)"]) simp
  moreover have "m' ! j = m ! j" if "j < p" for j
    using w(1,2) that by (auto simp: wrn_def nth_append split: if_splits)
  ultimately show ?thesis using w(3) by simp
qed

lemma keeps_ended_gstr:
  assumes "\<And>q f. str_fields (upd q f) \<subseteq> insert q (str_fields f)"
  shows "keeps_ended (gstr ep upd)"
  unfolding keeps_ended_def
proof (intro allI impI)
  fix s s' assume "gstr ep upd s = Go s'" "ended s"
  then obtain m p q where g: "gstring (ms_buf s) (ms_p s) ep = Some (m, Some (p, q))"
      "s' = \<lparr>ms_buf = m, ms_p = p, ms_f = upd (Some q) (ms_f s)\<rparr>"
    by (auto simp: gstr_def split: option.splits)
  note e = gstring_ends [OF g(1)]
  show "ended s'" unfolding ended_def
  proof (intro allI impI)
    fix r assume "Some r \<in> str_fields (ms_f s')"
    then consider "r = q" | "Some r \<in> str_fields (ms_f s)" using g(2) assms [of "Some q" "ms_f s"] by auto
    then show "nul_before (ms_buf s') (ms_p s') r"
      using e g(2) \<open>ended s\<close> nul_before_mono by cases (auto simp: ended_def)
  qed
qed

text \<open>The other statements leave the buffer and these fields alone, and only move on.\<close>

lemma keeps_ended_same:
  assumes "\<And>s s'. c s = Go s' \<Longrightarrow> str_fields (ms_f s') = str_fields (ms_f s) \<and> ms_buf s' = ms_buf s \<and> ms_p s \<le> ms_p s'"
  shows "keeps_ended c"
  using assms nul_before_mono by (fastforce simp: keeps_ended_def ended_def)

lemma keeps_ended_stmts:
  "keeps_ended (need ep n)" "keeps_ended (need_f ep k)" "keeps_ended (quit_if b)"
  "(\<And>v f. str_fields (updv v f) = str_fields f) \<Longrightarrow> keeps_ended (getv w g updv)"
  "(\<And>q f. str_fields (updp q f) = str_fields f) \<Longrightarrow> keeps_ended (point k updp)"
  "(\<And>q f. str_fields (updq q f) = str_fields f) \<Longrightarrow> keeps_ended (gqd ep updq)"
  by (rule keeps_ended_same; auto simp: need_def need_f_def quit_if_def point_def getv_def gqd_def gqid_def mem_simps
      split: option.splits if_splits Option.bind_splits)+

lemma keeps_ended_for: "(\<And>i. keeps_ended (body i)) \<Longrightarrow> keeps_ended (for_n k body)"
  by (auto simp: for_n_def keeps_ended_def dest!: keeps_ended_exec [rotated, unfolded keeps_ended_def])

lemma keeps_ended_wname: "keeps_ended (gstr_wname ep i)"
proof -
  have "str_fields (f\<lparr>fc_wname := (fc_wname f)[i := q]\<rparr>) \<subseteq> insert q (str_fields f)" for q f
    using set_update_subset_insert [of "fc_wname f" i q] by (auto simp: str_fields_def)
  then show ?thesis using keeps_ended_gstr [of "\<lambda>q f. f\<lparr>fc_wname := (fc_wname f)[i := q]\<rparr>" ep]
    by (auto simp: keeps_ended_def gstr_wname_def split: if_splits)
qed

lemma keeps_ended_wqid: "keeps_ended (gqd_wqid ep i)"
  using keeps_ended_stmts(6) [of "\<lambda>q f. f\<lparr>fc_wqid := (fc_wqid f)[i := q]\<rparr>" ep]
  by (auto simp: keeps_ended_def gqd_wqid_def str_fields_def split: if_splits)

lemma keeps_ended_arm: "m2s_arm ep dotu ty = Some cs \<Longrightarrow> c \<in> set cs \<Longrightarrow> keeps_ended c"
  unfolding m2s_arm_def
  by (cases dotu)
    (auto simp: m2s_arm_defs simp del: One_nat_def split: if_splits
      intro!: keeps_ended_stmts keeps_ended_gstr keeps_ended_for keeps_ended_wname keeps_ended_wqid
      simp: str_fields_def)

lemma convM2S_ended:
  assumes "convM2S ap nap (zero_fcall None) dotu = Some (n, ap', f')" "n \<noteq> 0" "Some q \<in> str_fields f'"
  shows "nul_before ap' n q"
proof -
  obtain t u cs where cs: "m2s_arm nap dotu (fc_type f') = Some cs"
    "exec cs \<lparr>ms_buf = ap, ms_p = 7, ms_f = (zero_fcall None)\<lparr>fc_type := t, fc_tag := u\<rparr>\<rparr>
       = Go \<lparr>ms_buf = ap', ms_p = n, ms_f = f'\<rparr>"
    using convM2S_success [OF assms(1,2)] by blast
  have "ended \<lparr>ms_buf = ap, ms_p = 7, ms_f = (zero_fcall None)\<lparr>fc_type := t, fc_tag := u\<rparr>\<rparr>"
    by (simp add: ended_def str_fields_def zero_fcall_def)
  with keeps_ended_exec [OF _ cs(2)] keeps_ended_arm [OF cs(1)]
  have "ended \<lparr>ms_buf = ap', ms_p = n, ms_f = f'\<rparr>" by blast
  then show ?thesis using assms(3) by (simp add: ended_def)
qed

section \<open>Every string of the message is there\<close>

lemma exec_wnames:
  assumes "exec (map (gstr_wname ep) is) s = Go s'"
  shows "(\<forall>i \<in> set is. fc_wname (ms_f s') ! i \<noteq> None)
    \<and> (\<forall>i. fc_wname (ms_f s) ! i \<noteq> None \<longrightarrow> fc_wname (ms_f s') ! i \<noteq> None)
    \<and> length (fc_wname (ms_f s')) = length (fc_wname (ms_f s)) \<and> fc_nwname (ms_f s') = fc_nwname (ms_f s)"
  using assms
proof (induction "is" arbitrary: s)
  case (Cons i "is")
  obtain s1 where s1: "gstr_wname ep i s = Go s1" "exec (map (gstr_wname ep) is) s1 = Go s'"
    using Cons.prems by (auto split: outcome.splits)
  then obtain q where q: "i < length (fc_wname (ms_f s))" "ms_f s1 = (ms_f s)\<lparr>fc_wname := (fc_wname (ms_f s))[i := Some q]\<rparr>"
    by (auto simp: gstr_wname_def gstr_def split: if_splits option.splits)
  then have k: "fc_wname (ms_f s) ! j \<noteq> None \<Longrightarrow> fc_wname (ms_f s1) ! j \<noteq> None" "fc_wname (ms_f s1) ! i \<noteq> None" for j
    by (cases "j = i"; simp)+
  show ?case using Cons.IH [OF s1(2)] k q by auto
qed simp

lemma convM2S_Twalk:
  assumes "convM2S ap nap f dotu = Some (n, ap', f')" "n \<noteq> 0" "fc_type f' = Twalk" "length (fc_wname f) = 16"
  shows "unat (fc_nwname f') \<le> 16 \<and> length (fc_wname f') = 16 \<and> (\<forall>i < unat (fc_nwname f'). fc_wname f' ! i \<noteq> None)"
proof -
  obtain t u cs where cs: "m2s_arm nap dotu Twalk = Some cs"
    "exec cs \<lparr>ms_buf = ap, ms_p = 7, ms_f = f\<lparr>fc_type := t, fc_tag := u\<rparr>\<rparr> = Go \<lparr>ms_buf = ap', ms_p = n, ms_f = f'\<rparr>"
    using convM2S_success [OF assms(1,2)] assms(3) by auto
  then obtain fid newfid nw where s: "\<not> unat nw > MAXWELEM" "exec (map (gstr_wname nap) [0..<unat nw])
      \<lparr>ms_buf = ap, ms_p = 17, ms_f = f\<lparr>fc_type := t, fc_tag := u, fc_fid := fid, fc_newfid := newfid, fc_nwname := nw\<rparr>\<rparr>
      = Go \<lparr>ms_buf = ap', ms_p = n, ms_f = f'\<rparr>"
    by (auto simp: m2s_arm_def m2s_Twalk_def need_def getv_def quit_if_def for_n_def
        split: if_splits option.splits outcome.splits)
  show ?thesis using exec_wnames [OF s(2)] s(1) assms(4) by auto
qed

lemma convM2S_strings_set:
  assumes "convM2S ap nap (zero_fcall None) dotu = Some (n, ap', f')" "n \<noteq> 0" "p \<in> set (wire_strings dotu f')"
  shows "p \<noteq> None"
proof (cases "fc_type f' = Twalk")
  case True
  have "length (fc_wname (zero_fcall None)) = 16" by (simp add: zero_fcall_def)
  from convM2S_Twalk [OF assms(1,2) True this] show ?thesis
    using assms(3) True by (auto simp: wire_strings_def msg_types_def in_set_conv_nth)
next
  case False
  obtain t u cs where cs: "m2s_arm nap dotu (fc_type f') = Some cs"
    "exec cs \<lparr>ms_buf = ap, ms_p = 7, ms_f = (zero_fcall None)\<lparr>fc_type := t, fc_tag := u\<rparr>\<rparr>
       = Go \<lparr>ms_buf = ap', ms_p = n, ms_f = f'\<rparr>"
    using convM2S_success [OF assms(1,2)] by blast
  consider "fc_type f' = Tversion" | "fc_type f' = Rversion" | "fc_type f' = Tauth" | "fc_type f' = Tattach"
    | "fc_type f' = Tcreate" | "fc_type f' = Rerror"
    using assms(3) False by (auto simp: wire_strings_def Let_def split: if_splits)
  then show ?thesis
    using cs assms(3) by cases (cases dotu;
      auto simp: m2s_arm_def m2s_arm_defs need_def getv_def gstr_def wire_strings_def split: if_splits option.splits)+
qed

lemma wire_strings_fields: "Some q \<in> set (wire_strings dotu f) \<Longrightarrow> Some q \<in> str_fields f"
  by (auto simp: wire_strings_def str_fields_def Let_def dest: in_set_takeD split: if_splits)

lemma parsed_string:
  assumes "convM2S ap nap (zero_fcall None) dotu = Some (n, ap', f')" "n \<noteq> 0" "p \<in> set (wire_strings dotu f')"
  obtains q where "p = Some q" "nul_before ap' n q"
proof -
  obtain q where "p = Some q" using convM2S_strings_set [OF assms] by blast
  then show ?thesis using that convM2S_ended [OF assms(1,2)] wire_strings_fields assms(3) by blast
qed

end
