(* ===== verification/PrintFcall.thy ===== *)
theory PrintFcall
  imports VnopsDir ParsedStrings
begin

text \<open>
  \<^verbatim>\<open>printFcall\<close> of \<^verbatim>\<open>kext/fcall.c\<close>, which \<open>rpc_9p\<close> calls on each message and on its reply when the mount is
  chatty, and that it prints every message the parser accepts without reading outside of it.
\<close>

section \<open>\<^verbatim>\<open>printf\<close>\<close>

text \<open>The parts of a line: text, \<^verbatim>\<open>%u\<close>, \<^verbatim>\<open>%d\<close> or \<^verbatim>\<open>%lld\<close>, \<^verbatim>\<open>%o\<close>, and \<^verbatim>\<open>%s\<close> of a pointer.\<close>

datatype 'p piece = T string | U nat | D int | Oct nat | Str 'p

fun oct_nat :: "nat \<Rightarrow> byte list" where
  "oct_nat n = (if n < 8 then [48 + of_nat n] else oct_nat (n div 8) @ [48 + of_nat (n mod 8)])"

declare oct_nat.simps [simp del]

text \<open>\<open>str\<close> gives the text of a pointer; \<^term>\<open>None\<close> when reading it would leave its memory.\<close>

fun piece_text :: "('p \<Rightarrow> byte list option) \<Rightarrow> 'p piece \<Rightarrow> byte list option" where
  "piece_text str (T t) = Some (bytes_of t)"
| "piece_text str (U n) = Some (dec_nat n)"
| "piece_text str (D i) = Some (dec_int i)"
| "piece_text str (Oct n) = Some (oct_nat n)"
| "piece_text str (Str p) = str p"

fun print_text :: "('p \<Rightarrow> byte list option) \<Rightarrow> 'p piece list \<Rightarrow> byte list option" where
  "print_text str [] = Some []"
| "print_text str (x # xs) = do { t \<leftarrow> piece_text str x; ts \<leftarrow> print_text str xs; Some (t @ ts) }"

section \<open>\<^verbatim>\<open>printFcall\<close>\<close>

text \<open>The loop over \<^verbatim>\<open>wname\<close>; \<^term>\<open>None\<close> when it leaves the array.\<close>

definition wname_pieces :: "'p Fcall \<Rightarrow> 'p piece list option" where
  "wname_pieces f = (if unat (fc_nwname f) \<le> length (fc_wname f)
     then Some (concat (map (\<lambda>i. [D (int i), T '':'', Str (fc_wname f ! i), T '' '']) [0..<unat (fc_nwname f)]))
     else None)"

definition fcall_pieces :: "'p Fcall \<Rightarrow> 'p piece list option" where
  "fcall_pieces f =
    (let ty = fc_type f; tag = U (unat (fc_tag f)); fid = D (sint (fc_fid f)); ufid = U (unat (fc_fid f));
         count = U (unat (fc_count f)); offset = D (sint (fc_offset f)); quote = [CHR 0x27] in
     if ty = Tversion then Some [T ''Tversion tag '', tag, T '' msize '', U (unat (fc_msize f)),
         T ('' version '' @ quote), Str (fc_version f), T quote]
     else if ty = Rversion then Some [T ''Rversion tag '', tag, T '' msize '', U (unat (fc_msize f)),
         T ('' version '' @ quote), Str (fc_version f), T quote]
     else if ty = Tauth then Some [T ''Tauth tag '', tag, T '' afid '', D (sint (fc_afid f)),
         T '' uname '', Str (fc_uname f), T '' aname '', Str (fc_aname f)]
     else if ty = Rauth then Some [T ''Rauth tag '', tag, T '' qid '']
     else if ty = Tattach then Some [T ''Tattach tag '', tag, T '' fid '', fid, T '' afid '', D (sint (fc_afid f)),
         T '' uname '', Str (fc_uname f), T '' aname '', Str (fc_aname f)]
     else if ty = Rattach then Some [T ''Rattach tag '', tag, T '' qid '']
     else if ty = Rerror then Some [T ''Rerror tag '', tag, T '' ename '', Str (fc_ename f)]
     else if ty = Tflush then Some [T ''Tflush tag '', tag, T '' oldtag '', U (unat (fc_oldtag f))]
     else if ty = Rflush then Some [T ''Rflush tag '', tag]
     else if ty = Twalk then map_option (\<lambda>ws. [T ''Twalk tag '', tag, T '' fid '', fid, T '' newfid '',
         D (sint (fc_newfid f)), T '' nwname '', D (uint (fc_nwname f)), T '' ''] @ ws) (wname_pieces f)
     else if ty = Rwalk then Some [T ''Rwalk tag '', tag, T '' nwqid '', U (unat (fc_nwqid f)), T '' '']
     else if ty = Topen then Some [T ''Topen tag '', tag, T '' fid '', ufid, T '' mode '', D (uint (fc_mode f))]
     else if ty = Ropen then Some [T ''Ropen tag '', tag, T '' qid  iounit '', U (unat (fc_iounit f)), T '' '']
     else if ty = Tcreate then Some [T ''Tcreate tag '', tag, T '' fid '', ufid, T '' perm '', Oct (unat (fc_perm f)),
         T '' mode '', D (uint (fc_mode f)), T ('' name '' @ quote), Str (fc_name f), T quote]
     else if ty = Rcreate then Some [T ''Rcreate tag '', tag, T '' qid  iounit '', U (unat (fc_iounit f)), T '' '']
     else if ty = Tread then Some [T ''Tread tag '', tag, T '' fid '', fid, T '' offset '', offset, T '' count '', count]
     else if ty = Rread then Some [T ''Rread tag '', tag, T '' count '', count, T '' '']
     else if ty = Twrite then Some [T ''Twrite tag '', tag, T '' fid '', fid, T '' offset '', offset,
         T '' count '', count, T '' '']
     else if ty = Rwrite then Some [T ''Rwrite tag '', tag, T '' count '', count]
     else if ty = Tclunk then Some [T ''Tclunk tag '', tag, T '' fid '', ufid]
     else if ty = Rclunk then Some [T ''Rclunk tag '', tag]
     else if ty = Tremove then Some [T ''Tremove tag '', tag, T '' fid '', ufid]
     else if ty = Rremove then Some [T ''Rremove tag '', tag]
     else if ty = Tstat then Some [T ''Tstat tag '', tag, T '' fid '', ufid]
     else if ty = Rstat then Some [T ''Rstat tag '', tag, T ''  stat('', D (uint (fc_nstat f)), T '' bytes)'']
     else if ty = Twstat then Some [T ''Twstat tag '', tag, T '' fid '', ufid, T '' stat('', D (uint (fc_nstat f)), T '' bytes)'']
     else if ty = Rwstat then Some [T ''Rwstat tag '', tag]
     else Some [T ''unknown type '', D (uint ty)])"

definition printFcall :: "('p \<Rightarrow> byte list option) \<Rightarrow> 'p Fcall \<Rightarrow> byte list option" where
  "printFcall str f = do { ps \<leftarrow> fcall_pieces f; t \<leftarrow> print_text str ps; Some (t @ [10]) }"

section \<open>What is printed can be read\<close>

lemma print_text_total:
  "(\<And>p. Str p \<in> set ps \<Longrightarrow> str p \<noteq> None) \<Longrightarrow> print_text str ps \<noteq> None"
proof (induction ps)
  case (Cons x ps)
  have "piece_text str x \<noteq> None" by (cases x) (use Cons.prems in auto)
  moreover have "print_text str ps \<noteq> None" using Cons.prems by (intro Cons.IH) auto
  ultimately show ?case by auto
qed simp

text \<open>The strings that are printed are strings of the message.\<close>

lemma fcall_pieces_strings:
  assumes "fcall_pieces f = Some ps" "Str p \<in> set ps"
  shows "p \<in> set (wire_strings dotu f)"
proof -
  have n: "ws ! i \<in> set (take n ws)" if "i < n" "n \<le> length ws" for i n and ws :: "'a list"
    using that nth_mem [of i "take n ws"] by simp
  have w: "p \<in> set (take (unat (fc_nwname f)) (fc_wname f))" if "wname_pieces f = Some ws" "Str p \<in> set ws" for ws
    using that n by (auto simp: wname_pieces_def split: if_splits)
  show ?thesis
    using assms unfolding fcall_pieces_def Let_def wire_strings_def by (auto dest: w split: if_splits)
qed

lemma fcall_pieces_total:
  "(fc_type f = Twalk \<Longrightarrow> unat (fc_nwname f) \<le> length (fc_wname f)) \<Longrightarrow> fcall_pieces f \<noteq> None"
  by (simp add: fcall_pieces_def Let_def wname_pieces_def)

lemma printFcall_total:
  assumes "fc_type f = Twalk \<Longrightarrow> unat (fc_nwname f) \<le> length (fc_wname f)"
    and "\<And>p. p \<in> set (wire_strings dotu f) \<Longrightarrow> str p \<noteq> None"
  shows "printFcall str f \<noteq> None"
proof -
  obtain ps where ps: "fcall_pieces f = Some ps" using fcall_pieces_total [OF assms(1)] by blast
  have "print_text str ps \<noteq> None"
    by (rule print_text_total) (use fcall_pieces_strings [OF ps] assms(2) in blast)
  then show ?thesis using ps by (auto simp: printFcall_def)
qed

end
