(* ===== verification/PrintProps.thy ===== *)
theory PrintProps
  imports PrintFcall MessageProps SocketProofs
begin

text \<open>
  The properties of the strings of a parsed message, and of \<^verbatim>\<open>printFcall\<close>.
\<close>

lemma cstr_at_nul:
  assumes "nul_before m n q" "n \<le> length m"
  shows "q + length (cstr_at m q) < n \<and> m ! (q + length (cstr_at m q)) = 0"
proof -
  obtain k where k: "q + k < n" "m ! (q + k) = 0" using assms(1) by (auto simp: nul_before_def)
  let ?t = "takeWhile (\<lambda>b. b \<noteq> 0) (drop q m)"
  have "length ?t \<le> k"
  proof (rule ccontr)
    assume "\<not> length ?t \<le> k"
    then have l: "k < length ?t" by simp
    then have "?t ! k \<in> set ?t" by (rule nth_mem)
    then have "?t ! k \<noteq> 0" by (blast dest: set_takeWhileD)
    moreover have "?t ! k = drop q m ! k" using l by (rule takeWhile_nth)
    ultimately show False using k assms(2) by simp
  qed
  moreover from this have "drop q m ! length ?t = 0"
    using nth_length_takeWhile [of "\<lambda>b. b \<noteq> 0" "drop q m"] k(1) assms(2) by simp
  ultimately show ?thesis using k(1) assms(2) by (simp add: cstr_at_def cstr_def)
qed

text \<open>
  C5. When \<open>convM2S\<close> accepts a message, every string it hands out is a pointer into the message, and
  the string ends with a NUL inside the message: whoever reads it stops before the message does,
  although the parser made the strings in place, over the counts of those that follow.
\<close>

theorem parsed_strings_terminated:
  assumes "convM2S ap nap (zero_fcall None) dotu = Some (n, ap', f')" "n \<noteq> 0" "nap \<le> length ap"
    and "p \<in> set (wire_strings dotu f')"
  shows "\<exists>q. p = Some q \<and> q + length (cstr_at ap' q) < n \<and> ap' ! (q + length (cstr_at ap' q)) = 0"
proof -
  obtain q where q: "p = Some q" "nul_before ap' n q" by (rule parsed_string [OF assms(1,2,4)])
  have "n \<le> length ap'"
    using convM2S_within [OF assms(3), of "zero_fcall None" dotu] assms(1,3) by (auto simp: zero_fcall_def)
  with q cstr_at_nul show ?thesis by blast
qed

text \<open>The message is a \<^verbatim>\<open>Rerror\<close> with the string \<^verbatim>\<open>no\<close>.\<close>

definition ex_rerror :: memory where
  "ex_rerror = [11, 0, 0, 0, 107, 1, 0, 2, 0, 110, 111]"

lemma ex_rerror_parsed:
  "convM2S ex_rerror 11 (zero_fcall None) False = Some (11, [11, 0, 0, 0, 107, 1, 0, 2, 110, 111, 0],
     (zero_fcall None)\<lparr>fc_type := Rerror, fc_tag := 1, fc_ename := Some 8\<rparr>)"
  by (simp add: ex_rerror_def convM2S_def rdn_def wrn_def GBIT32_def GBIT16_def GBIT8_def getv_def m2s_switch_def
      m2s_arm_def m2s_Rerror_def gstr_def gstring_def zero_fcall_def)

theorem parsed_strings_terminated_witness:
  "\<exists>q. Some 8 = Some q \<and> q + length (cstr_at [11, 0, 0, 0, 107, 1, 0, 2, 110, 111, 0] q) < 11"
  using parsed_strings_terminated [OF ex_rerror_parsed, of "Some 8"] by (auto simp: wire_strings_def ex_rerror_def)

text \<open>What \<^verbatim>\<open>%s\<close> prints of a pointer into a buffer; \<^term>\<open>None\<close> for a null pointer, or when no NUL comes.\<close>

definition string_in :: "memory \<Rightarrow> ptr \<Rightarrow> byte list option" where
  "string_in m p = (case p of None \<Rightarrow> None
     | Some q \<Rightarrow> if q + length (cstr_at m q) < length m then Some (cstr_at m q) else None)"

text \<open>
  C36. Both calls of \<open>printFcall\<close> in a chatty \<open>rpc_9p\<close> are safe: the request that the client prints has its
  names inside the array, and the reply, whatever the server sent and the parser accepted, is printed
  without reading a null pointer or a byte after the message.
\<close>

theorem printFcall_safe:
  assumes "printable tx" "convM2S ap nap (zero_fcall None) dotu = Some (n, ap', rx)" "n \<noteq> 0" "nap \<le> length ap"
  shows "(\<exists>line. printFcall Some tx = Some line) \<and> (\<exists>line. printFcall (string_in (take n ap')) rx = Some line)"
proof
  have "printFcall Some tx \<noteq> None"
    by (rule printFcall_total) (use assms(1) in \<open>auto simp: printable_def\<close>)
  then show "\<exists>line. printFcall Some tx = Some line" by blast
  have l: "n \<le> length ap'" "length (fc_wname rx) = 16"
    using convM2S_within [OF assms(4), of "zero_fcall None" dotu] assms(2,4) by (auto simp: zero_fcall_def)
  have "printFcall (string_in (take n ap')) rx \<noteq> None"
  proof (rule printFcall_total)
    assume "fc_type rx = Twalk"
    from convM2S_Twalk [OF assms(2,3) this] show "unat (fc_nwname rx) \<le> length (fc_wname rx)" by (simp add: zero_fcall_def)
  next
    fix p assume "p \<in> set (wire_strings dotu rx)"
    then obtain q where q: "p = Some q" "nul_before ap' n q" by (rule parsed_string [OF assms(2,3)])
    then have "nul_before (take n ap') n q" by (auto simp: nul_before_def)
    with q(1) l(1) show "string_in (take n ap') p \<noteq> None" using cstr_at_nul [of "take n ap'" n q] by (simp add: string_in_def)
  qed
  then show "\<exists>line. printFcall (string_in (take n ap')) rx = Some line" by blast
qed

text \<open>The line printed is \<^verbatim>\<open>Rerror tag 1 ename no\<close>.\<close>

theorem printFcall_safe_witness:
  "(\<exists>line. printFcall Some clunk_call = Some line)
    \<and> printFcall (string_in [11, 0, 0, 0, 107, 1, 0, 2, 110, 111, 0])
        ((zero_fcall None)\<lparr>fc_type := Rerror, fc_tag := 1, fc_ename := Some 8\<rparr>)
      = Some (bytes_of ''Rerror tag 1 ename no'' @ [10])"
  using printFcall_safe [OF clunk_call_ok(1) ex_rerror_parsed]
  by (simp add: ex_rerror_def)
    (simp add: printFcall_def fcall_pieces_def string_in_def cstr_at_def cstr_def bytes_of_def dec_nat.simps)

end
