(* ===== verification/Spec2Isabelle.thy ===== *)
theory Spec2Isabelle
  imports MessageProps DirProps CryptProps SocketProps ProtoProps RpcThreads AuthProps VnopsProps
    MountProps TableProps DirOpProps FileProps HelperProps PluginProps PrintProps
begin

text \<open>
  mac9p is a 9P2000 / 9P2000.u file system client for the macOS kernel (\<^verbatim>\<open>src/kext\<close>) with the
  programs that load and mount it. The development models the C code of the repository, shows that the
  pieces fit, and states what each of them promises.

  The parts, from the wire up. The printer and the parser of messages (\<^verbatim>\<open>kext/fcall.c\<close>) work on byte
  buffers. The transport (\<^verbatim>\<open>kext/socket.c\<close>) moves whole messages over a socket, takes the send lock
  around each remote procedure call, and turns an \<^verbatim>\<open>Rerror\<close> into an error number. The 9P operations
  (\<^verbatim>\<open>kext/proto.c\<close>) are one call each. The authentication (\<^verbatim>\<open>kext/auth.c\<close>) reads and writes a fid
  through them, with tickets under the DES of \<^verbatim>\<open>kext/crypt.c\<close>. The vnode operations
  (\<^verbatim>\<open>kext/vnops.c\<close>) keep a hash table of nodes and turn the kernel's requests into 9P operations. The
  file system operations (\<^verbatim>\<open>kext/vfsops.c\<close>) make and end a client: connect, version, authentication,
  attach, root. The mount helper (\<^verbatim>\<open>mount/mount.c\<close>) prepares the arguments of the mount, and the NetFS plug-in
  (\<^verbatim>\<open>plugin/plugin.c\<close>) runs the mount command for a URL.

  \<^bold>\<open>The theories\<close>

  \<^item> \<open>Prelude9p\<close>: bytes, flat memories whose accesses fail outside the buffer, C strings, the
    little-endian macros \<^verbatim>\<open>GBITn\<close> and \<^verbatim>\<open>PBITn\<close> of \<^verbatim>\<open>kext/fcall.h\<close> with the locale \<open>le_codec\<close> of their laws,
    and the statement lists in which the long functions of \<^verbatim>\<open>fcall.c\<close> are written.
  \<^item> \<open>Plan9\<close>: the structs and constants of \<^verbatim>\<open>kext/plan9.h\<close> and \<^verbatim>\<open>kext/fcall.h\<close>. A pointer field is a type
    parameter: the string it points to when a message is printed, an offset into the buffer when one has
    been parsed.
  \<^item> \<open>FcallDecode\<close>, \<open>FcallEncode\<close>, \<open>DirCodec\<close>: \<open>convM2S\<close>; \<open>sizeS2M\<close> and \<open>convS2M\<close>; \<open>sizeD2M\<close>, \<open>convD2M\<close>,
    \<open>statcheck\<close> and \<open>convM2D\<close>. \<open>Wire\<close> has the format as a specification (\<open>wire\<close>, \<open>wire_size\<close>) and shows that
    the printer implements it; \<open>WireRead\<close> has a small program logic (\<open>reads\<close>) and shows that the
    parser reads it back and never leaves its buffer; \<open>DirWire\<close> does both for directory entries.
    The properties are in \<open>MessageProps\<close> and \<open>DirProps\<close>. \<open>PrintFcall\<close> is the debugging printer \<open>printFcall\<close>;
    \<open>ParsedStrings\<close> shows that the strings of an accepted message are terminated, and \<open>PrintProps\<close> that the
    printer is therefore safe.
  \<^item> \<open>CryptTables\<close>, \<open>Crypt\<close>: \<^verbatim>\<open>kext/crypt.c\<close>. \<open>CryptProofs\<close> and \<open>CryptSafe\<close> show that every table index is
    in range and that decryption undoes encryption; \<open>CryptBuffers\<close> lifts this to the overlapping blocks of
    a buffer, with the locale \<open>block_code\<close> for any cipher that is a permutation. Properties:
    \<open>CryptProps\<close>.
  \<^item> \<open>Versneg\<close> is \<^verbatim>\<open>common/versneg.c\<close>, \<open>Errno\<close> the table of error strings of \<^verbatim>\<open>socket.c\<close>, \<open>Socket9p\<close> the rest of
    it; \<open>SocketProofs\<close> follows a call through sending, receiving and the error exits, \<open>SocketProps\<close> has
    the properties. \<open>RpcLock\<close> runs the lock with any number of threads, as a step relation whose
    invariant is shown by rule induction; with it every sleeper has someone who wakes it. \<open>RpcThreads\<close> does the same for whole calls, cut into their phases: every
    interleaving is equal to the calls made one after the other.
  \<^item> \<open>Proto\<close>: \<^verbatim>\<open>kext/proto.c\<close>. \<open>ProtoProofs\<close> and \<open>StatProofs\<close> show what every operation guarantees whatever
    the server does; \<open>ProtoRuns\<close> and \<open>SessionRuns\<close> say what it returns when the server answers. Properties:
    \<open>ProtoProps\<close>.
  \<^item> \<open>Kernel\<close>: the kernel as a parameter, with its laws. \<open>Auth9p\<close>: \<^verbatim>\<open>kext/auth.c\<close>; \<open>AuthProofs\<close>, \<open>AuthProps\<close>.
  \<^item> \<open>Vnode\<close>, \<open>VnopsFile\<close>, \<open>VnopsData\<close>, \<open>VnopsDir\<close>, \<open>Vnops\<close>: \<^verbatim>\<open>kext/vnops.c\<close>, the nodes and their locks, the
    operations on one file, those that move data, those on directories, and the table of operations with its
    dispatcher \<open>vnode_op_9p\<close>. \<open>VfsInv\<close> has the invariant \<open>vfs_inv\<close> of the table of nodes, relative to the locks a
    thread holds; \<open>VnopsProofs\<close>, \<open>NodeProofs\<close>, \<open>TableProofs\<close> and \<open>DirOpProofs\<close> thread it through the operations.
    \<open>VnopsProps\<close> states, with the locale \<open>calls\<close>, what any sequence of operations promises;
    \<open>FileServer\<close> has an abstract file (\<open>put_at\<close>, \<open>get_at\<close>) and a server that keeps one (\<open>serves\<close>), \<open>FileRuns\<close> follows
    the loops of \<open>nread_9p\<close> and \<open>nwrite_9p\<close> against it, and \<open>FileProps\<close> shows that reads and writes of a vnode
    are reads and writes of that file. \<open>LookupRuns\<close>, \<open>TableProps\<close> and \<open>DirOpProps\<close> have the properties of lookup, reclaim, creation and reading of
    directories.
  \<^item> \<open>VfsOps\<close>: \<^verbatim>\<open>kext/vfsops.c\<close>, the mount as the list of its steps. \<open>MountProofs\<close> says what each step leaves,
    \<open>MountRuns\<close> that a server which answers carries the mount through, \<open>MountErrors\<close> that a mount without a
    connection gives everything back. Properties: \<open>MountProps\<close>.
  \<^item> \<open>MountHelper\<close>: \<^verbatim>\<open>mount/mount.c\<close> and \<^verbatim>\<open>load/load.c\<close>; \<open>HelperProps\<close> goes from the command line to the
    mounted client.
  \<^item> \<open>Plugin\<close>: \<^verbatim>\<open>plugin/plugin.c\<close>, with CoreFoundation's objects counted and what is lost of them noted;
    \<open>PluginProps\<close> interprets the locale \<open>calls\<close> for its sessions, says what a session gives back and what it
    loses, and what its mount runs.

  \<^bold>\<open>How the state corresponds\<close>

  \<open>Socket9p.mount\<close> has the fields of \<^verbatim>\<open>mount_9p\<close> that the protocol code uses (socket, flags, message size, next
  fid and tag), with the world and the number of live blocks; \<open>vfs\<close> adds the table of nodes (heap of nodes,
  chains by hash) and its lock; \<open>mnt\<close> the names and the kernel's view of the mount. A handler is a function
  from the state to an error number, its results and the new state, in the option monad: \<^term>\<open>None\<close> means that
  the C code leaves its buffers, reads a null pointer, panics or waits for ever. That a result is
  \<^term>\<open>Some\<close> is therefore part of what is proved. Locks are fields (a thread that would wait gets
  \<^term>\<open>None\<close>); only the send lock and \<open>rpc_9p\<close> are run with several threads.

  \<^bold>\<open>Parameters\<close>

  What is not in the repository is an argument: \<open>env\<close> (sockets, allocator), \<open>kern\<close> (random bytes,
  contents of uninitialised locals), \<open>kpi\<close> (vnodes, name cache, page cache, buffers, the kernel's mount
  calls), \<open>netcalls\<close> (connecting), \<open>lib\<close> (the C library of the
  programs), \<open>cflib\<close> (CoreFoundation and the spawned mount command). Their laws are \<open>recv_ok\<close>, \<open>kern_ok\<close>, \<open>kpi_ok\<close>
  and, for a server that answers, \<open>answered\<close>, \<open>willing\<close> and \<open>serves\<close>. The examples instantiate them with two byte
  streams and a socket that moves one byte at a time (\<open>slow_env\<close>, \<open>slow_kern\<close>, \<open>slow_kpi\<close>), and with a
  server that keeps a file (\<open>host_env\<close>, \<open>host_kpi\<close>).

  \<^bold>\<open>Fuel\<close>

  Three loops run on fuel. \<open>nget_9p\<close> starts again after each sleep on a node that is being made or
  destroyed: the fuel is the number of sleeps, and one unit is enough when nobody else works on the node.
  \<open>readdirs_9p\<close> and \<open>nwrite_9p\<close> go on as long as the server gives data: the fuel is
  the number of requests. A theorem about them either holds for every fuel or says how much is enough.

  \<^bold>\<open>Not modelled\<close>

  The code under \<^verbatim>\<open>USE_UPCALL\<close> and \<^verbatim>\<open>#if 0\<close>, which is not compiled, with it \<open>fdirconv\<close>, \<open>dumpsome\<close> and \<open>qidtype\<close>;
  \<^verbatim>\<open>printDir\<close>, which is only declared; what \<^verbatim>\<open>DEBUG\<close> and \<^verbatim>\<open>TRACE\<close> write (what the arguments of
  \<^verbatim>\<open>DEBUG\<close> make in the plug-in is counted); the field \<^verbatim>\<open>soflags\<close>, which is only written; of the plug-in, its interface table and factory; in the programs, the messages on stderr and
  the working of fork and exec; the tests; the FSKit port, which is written in Swift.
\<close>

end
